(* ===== verification/Prelude.thy ===== *)
theory Prelude
  imports Main "HOL-Library.Word" "HOL-Library.AList" "HOL-Library.Monad_Syntax"
begin

text \<open>
  Shared vocabulary of the development.

  The server stops a process whose internal checks fail: \<open>invariant(...)\<close>,
  \<open>fassert(...)\<close> and an out-of-range \<open>vector::at\<close> never return to the caller.
  An operation that contains such a check is modelled as a partial result: \<open>None\<close> is
  "the server aborts", \<open>Some x\<close> is a normal return with \<open>x\<close>. The checks are
  written with \<open>ensure\<close>, the element accesses with \<open>nth_opt\<close>, and operations are
  sequenced by the option monad.
\<close>

declare Let_def [simp]

named_theorems abort_simps \<open>unfolding rules for operations that may abort\<close>

definition ensure :: "bool \<Rightarrow> unit option" where
  "ensure b = (if b then Some () else None)"

lemma ensure_simps [simp]:
  "ensure True = Some ()" "ensure False = None"
  "(ensure b = Some u) = b" "(ensure b = None) = (\<not> b)"
  by (simp_all add: ensure_def)

lemma ensure_bind [simp]: "ensure b \<bind> f = (if b then f () else None)"
  by (simp add: ensure_def)

definition nth_opt :: "'a list \<Rightarrow> int \<Rightarrow> 'a option" where
  "nth_opt xs i = (if 0 \<le> i \<and> i < int (length xs) then Some (xs ! nat i) else None)"

lemma nth_opt_Some:
  "nth_opt xs i = Some x \<longleftrightarrow> 0 \<le> i \<and> i < int (length xs) \<and> x = xs ! nat i"
  by (auto simp: nth_opt_def)

lemma nth_opt_in_set: "nth_opt xs i = Some x \<Longrightarrow> x \<in> set xs"
  by (auto simp: nth_opt_Some)

lemma nth_opt_defined: "0 \<le> i \<Longrightarrow> i < int (length xs) \<Longrightarrow> \<exists>x. nth_opt xs i = Some x"
  by (simp add: nth_opt_def)

text \<open>
  The total-correctness reading of an aborting operation: it returns, and its result satisfies a
  postcondition. The equations push a postcondition through the structure of a definition.
\<close>

definition returns :: "'a option \<Rightarrow> ('a \<Rightarrow> bool) \<Rightarrow> bool" where
  "returns m Q \<longleftrightarrow> (\<exists>x. m = Some x \<and> Q x)"

lemma returns_simps [simp]:
  "returns (Some x) Q = Q x" "returns None Q = False"
  "returns (ensure b) R = (b \<and> R ())"
  by (auto simp: returns_def ensure_def)

lemma returns_bind [simp]: "returns (m \<bind> f) Q = returns m (\<lambda>x. returns (f x) Q)"
  by (cases m) (auto simp: returns_def)

lemma returns_if [simp]: "returns (if b then m else m') Q = (if b then returns m Q else returns m' Q)"
  by simp

lemma returns_mono: "returns m P \<Longrightarrow> (\<And>x. m = Some x \<Longrightarrow> P x \<Longrightarrow> Q x) \<Longrightarrow> returns m Q"
  by (auto simp: returns_def)

lemma returns_True: "returns m (\<lambda>_. True) \<longleftrightarrow> (\<exists>x. m = Some x)"
  by (simp add: returns_def)

lemma returnsE: "returns m Q \<Longrightarrow> (\<And>x. m = Some x \<Longrightarrow> Q x \<Longrightarrow> R) \<Longrightarrow> R"
  by (auto simp: returns_def)

lemma returns_pair: "returns m (\<lambda>(x, y). Q x y) \<longleftrightarrow> (\<exists>x y. m = Some (x, y) \<and> Q x y)"
  by (auto simp: returns_def)

text \<open>Mapping an aborting function over a vector: the first abort wins.\<close>

fun mapM :: "('a \<Rightarrow> 'b option) \<Rightarrow> 'a list \<Rightarrow> 'b list option" where
  "mapM f [] = Some []"
| "mapM f (x # xs) = do { y \<leftarrow> f x; ys \<leftarrow> mapM f xs; Some (y # ys) }"

text \<open>Counting the elements of a list that satisfy a predicate (\<open>std::count_if\<close>).\<close>

definition count_if :: "('a \<Rightarrow> bool) \<Rightarrow> 'a list \<Rightarrow> nat" where
  "count_if P xs = length (filter P xs)"

lemma count_if_simps [simp]:
  "count_if P [] = 0"
  "count_if P (x # xs) = (if P x then Suc (count_if P xs) else count_if P xs)"
  "count_if P (xs @ ys) = count_if P xs + count_if P ys"
  by (simp_all add: count_if_def)

lemma count_if_remove1:
  assumes "x \<in> set xs"
  shows "count_if P (remove1 x xs) = count_if P xs - (if P x then 1 else 0)"
proof -
  from assms obtain ys zs where "xs = ys @ x # zs" and "x \<notin> set ys"
    by (meson split_list_first)
  then show ?thesis by (simp add: remove1_append)
qed

lemma count_if_pos: "0 < count_if P xs \<longleftrightarrow> (\<exists>x\<in>set xs. P x)"
  by (auto simp: count_if_def filter_empty_conv)

lemma count_if_zero: "count_if P xs = 0 \<longleftrightarrow> (\<forall>x\<in>set xs. \<not> P x)"
  by (auto simp: count_if_def filter_empty_conv)

lemma count_if_cong: "(\<And>x. x \<in> set xs \<Longrightarrow> P x = Q x) \<Longrightarrow> count_if P xs = count_if Q xs"
  unfolding count_if_def by (metis filter_cong)

lemma count_if_le_length: "count_if P xs \<le> length xs"
  by (simp add: count_if_def)

lemma count_if_two:
  assumes "distinct xs" "x \<in> set xs" "y \<in> set xs" "x \<noteq> y" "P x" "P y"
  shows "2 \<le> count_if P xs"
proof -
  have "{x, y} \<subseteq> set (filter P xs)" using assms by auto
  then have "card {x, y} \<le> card (set (filter P xs))"
    by (intro card_mono) auto
  also have "\<dots> \<le> length (filter P xs)" by (rule card_length)
  finally show ?thesis using assms(4) by (simp add: count_if_def)
qed

text \<open>
  If exactly one element of a distinct list changes the value of a predicate, the count
  changes by one.
\<close>

lemma count_if_map: "count_if P (map f xs) = count_if (\<lambda>x. P (f x)) xs"
  by (induction xs) auto

lemma count_if_update:
  assumes "distinct xs" "x \<in> set xs" "\<And>y. y \<in> set xs \<Longrightarrow> y \<noteq> x \<Longrightarrow> P y = Q y"
  shows "count_if P xs + (if Q x then 1 else 0) = count_if Q xs + (if P x then 1 else 0)"
proof -
  from assms(2) obtain ys zs where xs: "xs = ys @ x # zs" by (meson split_list)
  with assms have "count_if P ys = count_if Q ys" "count_if P zs = count_if Q zs"
    by (auto intro!: count_if_cong)
  then show ?thesis by (simp add: xs)
qed

subsection \<open>State machines\<close>

text \<open>
  The interface of every state machine of the development: initial states, a step relation and
  an invariant. The lock manager, the replica set member and the cluster interpret it.
\<close>

locale step_invariant =
  fixes start :: "'s \<Rightarrow> bool"
    and step :: "'s \<Rightarrow> 's \<Rightarrow> bool"
    and inv :: "'s \<Rightarrow> bool"
  assumes start_inv: "start s \<Longrightarrow> inv s"
    and step_inv: "inv s \<Longrightarrow> step s s' \<Longrightarrow> inv s'"
begin

lemma steps_inv: "step\<^sup>*\<^sup>* s s' \<Longrightarrow> inv s \<Longrightarrow> inv s'"
  by (induction rule: rtranclp_induct) (auto intro: step_inv)

lemma reachable_inv: "start s \<Longrightarrow> step\<^sup>*\<^sup>* s s' \<Longrightarrow> inv s'"
  by (blast intro: start_inv steps_inv)

end

end
