(* ===== verification/LockDefs.thy ===== *)
theory LockDefs
  imports Prelude
begin

unbundle bit_operations_syntax

text \<open>
  Lock modes, resources and lock requests of the lock manager
  (\<open>src/mongo/db/concurrency/lock_manager_defs.h\<close> and the tables and helpers at the top
  and the end of \<open>lock_manager.cpp\<close>). Mode masks are 32-bit words as in the source.
\<close>

datatype LockMode = MODE_NONE | MODE_IS | MODE_IX | MODE_S | MODE_X

datatype LockResult = LOCK_OK | LOCK_WAITING | LOCK_TIMEOUT | LOCK_DEADLOCK | LOCK_INVALID

datatype ResourceType =
    RESOURCE_INVALID | RESOURCE_GLOBAL | RESOURCE_MMAPV1_FLUSH | RESOURCE_DATABASE
  | RESOURCE_COLLECTION | RESOURCE_METADATA | RESOURCE_MUTEX

datatype LockRequestStatus = STATUS_NEW | STATUS_GRANTED | STATUS_WAITING | STATUS_CONVERTING

type_synonym ResourceId = "64 word"
type_synonym LockerId = "64 word"

text \<open>The numeric value of the enumerators.\<close>

fun mode_num :: "LockMode \<Rightarrow> nat" where
  "mode_num MODE_NONE = 0"
| "mode_num MODE_IS = 1"
| "mode_num MODE_IX = 2"
| "mode_num MODE_S = 3"
| "mode_num MODE_X = 4"

fun resource_type_num :: "ResourceType \<Rightarrow> nat" where
  "resource_type_num RESOURCE_INVALID = 0"
| "resource_type_num RESOURCE_GLOBAL = 1"
| "resource_type_num RESOURCE_MMAPV1_FLUSH = 2"
| "resource_type_num RESOURCE_DATABASE = 3"
| "resource_type_num RESOURCE_COLLECTION = 4"
| "resource_type_num RESOURCE_METADATA = 5"
| "resource_type_num RESOURCE_MUTEX = 6"

definition modeMask :: "LockMode \<Rightarrow> 32 word" where
  "modeMask m = push_bit (mode_num m) 1"

fun LockConflictsTable :: "LockMode \<Rightarrow> 32 word" where
  "LockConflictsTable MODE_NONE = 0"
| "LockConflictsTable MODE_IS = modeMask MODE_X"
| "LockConflictsTable MODE_IX = modeMask MODE_S OR modeMask MODE_X"
| "LockConflictsTable MODE_S = modeMask MODE_IX OR modeMask MODE_X"
| "LockConflictsTable MODE_X =
     modeMask MODE_S OR modeMask MODE_X OR modeMask MODE_IS OR modeMask MODE_IX"

definition intentModes :: "32 word" where
  "intentModes = modeMask MODE_IS OR modeMask MODE_IX"

definition conflicts :: "LockMode \<Rightarrow> 32 word \<Rightarrow> bool" where
  "conflicts newMode existingModesMask \<longleftrightarrow> LockConflictsTable newMode AND existingModesMask \<noteq> 0"

definition isModeCovered :: "LockMode \<Rightarrow> LockMode \<Rightarrow> bool" where
  "isModeCovered mode coveringMode \<longleftrightarrow>
     (LockConflictsTable coveringMode OR LockConflictsTable mode) = LockConflictsTable coveringMode"

definition isSharedLockMode :: "LockMode \<Rightarrow> bool" where
  "isSharedLockMode mode \<longleftrightarrow> mode = MODE_IS \<or> mode = MODE_S"

fun modeName :: "LockMode \<Rightarrow> string" where
  "modeName MODE_NONE = ''NONE''"
| "modeName MODE_IS = ''IS''"
| "modeName MODE_IX = ''IX''"
| "modeName MODE_S = ''S''"
| "modeName MODE_X = ''X''"

fun legacyModeName :: "LockMode \<Rightarrow> string" where
  "legacyModeName MODE_NONE = ''''"
| "legacyModeName MODE_IS = ''r''"
| "legacyModeName MODE_IX = ''w''"
| "legacyModeName MODE_S = ''R''"
| "legacyModeName MODE_X = ''W''"

fun resourceTypeName :: "ResourceType \<Rightarrow> string" where
  "resourceTypeName RESOURCE_INVALID = ''Invalid''"
| "resourceTypeName RESOURCE_GLOBAL = ''Global''"
| "resourceTypeName RESOURCE_MMAPV1_FLUSH = ''MMAPV1Journal''"
| "resourceTypeName RESOURCE_DATABASE = ''Database''"
| "resourceTypeName RESOURCE_COLLECTION = ''Collection''"
| "resourceTypeName RESOURCE_METADATA = ''Metadata''"
| "resourceTypeName RESOURCE_MUTEX = ''Mutex''"

fun lockRequestStatusName :: "LockRequestStatus \<Rightarrow> string" where
  "lockRequestStatusName STATUS_NEW = ''new''"
| "lockRequestStatusName STATUS_GRANTED = ''granted''"
| "lockRequestStatusName STATUS_WAITING = ''waiting''"
| "lockRequestStatusName STATUS_CONVERTING = ''converting''"

subsection \<open>Resource identifiers\<close>

definition resourceTypeBits :: nat where
  "resourceTypeBits = 3"

definition fullHash :: "ResourceType \<Rightarrow> 64 word \<Rightarrow> ResourceId" where
  "fullHash type hashId =
     push_bit (64 - resourceTypeBits) (of_nat (resource_type_num type))
       + (hashId AND drop_bit resourceTypeBits (- 1))"

definition getTypeNum :: "ResourceId \<Rightarrow> nat" where
  "getTypeNum r = unat (drop_bit (64 - resourceTypeBits) r)"

definition getHashId :: "ResourceId \<Rightarrow> 64 word" where
  "getHashId r = r AND drop_bit resourceTypeBits (- 1)"

definition isValidResource :: "ResourceId \<Rightarrow> bool" where
  "isValidResource r \<longleftrightarrow> getTypeNum r \<noteq> resource_type_num RESOURCE_INVALID"

subsection \<open>Lock requests\<close>

text \<open>
  Requests live in a store indexed by \<open>ReqId\<close> (the \<open>LockRequest*\<close>). The pointers
  to the lock head and to the partitioned lock head are the keys those objects have in the
  manager's tables. The intrusive \<open>prev\<close>/\<open>next\<close> links are the position of the
  request in the list of its lock head.
\<close>

type_synonym ReqId = nat

record LockRequest =
  locker :: LockerId
  enqueueAtFront :: bool
  compatibleFirst :: bool
  partitioned :: bool
  recursiveCount :: nat
  lock :: "ResourceId option"
  partitionedLock :: "(nat \<times> ResourceId) option"
  status :: LockRequestStatus
  mode :: LockMode
  convertMode :: LockMode

definition LockRequest_initNew :: "LockerId \<Rightarrow> LockRequest" where
  "LockRequest_initNew l =
     \<lparr>locker = l, enqueueAtFront = False, compatibleFirst = False, partitioned = False,
      recursiveCount = 1, lock = None, partitionedLock = None, status = STATUS_NEW,
      mode = MODE_NONE, convertMode = MODE_NONE\<rparr>"

subsection \<open>The conflict relation\<close>

text \<open>The compatibility matrix as a relation between two modes.\<close>

definition conflicting :: "LockMode \<Rightarrow> LockMode \<Rightarrow> bool" where
  "conflicting m m' \<longleftrightarrow> conflicts m (modeMask m')"

lemma ex_LockMode:
  "(\<exists>m. P m) \<longleftrightarrow> P MODE_NONE \<or> P MODE_IS \<or> P MODE_IX \<or> P MODE_S \<or> P MODE_X"
  by (metis LockMode.exhaust)

lemma all_LockMode:
  "(\<forall>m. P m) \<longleftrightarrow> P MODE_NONE \<and> P MODE_IS \<and> P MODE_IX \<and> P MODE_S \<and> P MODE_X"
  by (metis LockMode.exhaust)

lemma mode_num_less: "mode_num m < 5"
  by (cases m) auto

lemma bit_modeMask [simp]: "bit (modeMask m) n \<longleftrightarrow> n = mode_num m"
  unfolding modeMask_def bit_push_bit_iff bit_1_iff
  using mode_num_less [of m] by auto

lemma and_nonzero_bits: "(w AND v :: 32 word) \<noteq> 0 \<longleftrightarrow> (\<exists>n. bit w n \<and> bit v n)"
proof
  assume nz: "w AND v \<noteq> 0"
  show "\<exists>n. bit w n \<and> bit v n"
  proof (rule ccontr)
    assume no: "\<nexists>n. bit w n \<and> bit v n"
    have "w AND v = 0" by (rule bit_word_eqI) (use no in \<open>auto simp: bit_and_iff\<close>)
    with nz show False ..
  qed
next
  assume "\<exists>n. bit w n \<and> bit v n"
  then obtain n where "bit (w AND v) n" by (auto simp: bit_and_iff)
  then show "w AND v \<noteq> 0" by auto
qed

lemma conflicts_bits:
  "conflicts m msk \<longleftrightarrow> (\<exists>m'. conflicting m m' \<and> bit msk (mode_num m'))"
  unfolding conflicting_def conflicts_def and_nonzero_bits ex_LockMode
  by (cases m) (auto simp: bit_or_iff)

lemma conflicting_table:
  "conflicting m m' \<longleftrightarrow>
     (m, m') \<in> {(MODE_IS, MODE_X), (MODE_IX, MODE_S), (MODE_IX, MODE_X),
               (MODE_S, MODE_IX), (MODE_S, MODE_X), (MODE_X, MODE_IS), (MODE_X, MODE_IX),
               (MODE_X, MODE_S), (MODE_X, MODE_X)}"
  unfolding conflicting_def conflicts_def and_nonzero_bits
  by (cases m; cases m') (simp_all add: bit_or_iff)

lemma conflicting_sym: "conflicting m m' = conflicting m' m"
  by (cases m; cases m') (simp_all add: conflicting_table)

lemma conflicting_none [simp]: "\<not> conflicting MODE_NONE m" "\<not> conflicting m MODE_NONE"
  by (simp_all add: conflicting_table)

lemma mode_num_inj [simp]: "mode_num m = mode_num m' \<longleftrightarrow> m = m'"
  by (cases m; cases m') auto

lemma isModeCovered_iff:
  "isModeCovered m c \<longleftrightarrow> (\<forall>m'. conflicting m m' \<longrightarrow> conflicting c m')"
proof -
  have sub: "(a OR b = a) \<longleftrightarrow> (\<forall>n. bit b n \<longrightarrow> bit a n)" for a b :: "32 word"
    by (metis bit_or_iff bit_word_eqI)
  have *: "bit (LockConflictsTable x) n \<longleftrightarrow> (\<exists>m'. conflicting x m' \<and> n = mode_num m')" for x n
    by (cases x) (auto simp: bit_or_iff conflicting_table ex_LockMode)
  show ?thesis unfolding isModeCovered_def sub * by auto
qed

end
