(* ===== verification/LockHead.thy ===== *)
theory LockHead
  imports LockDefs
begin

unbundle bit_operations_syntax

text \<open>
  One lock head of the lock manager (\<open>struct LockHead\<close> of \<open>lock_manager.cpp\<close>): the
  granted queue, the conflict queue, the per-mode counters with their bit masks, and the two
  scans of \<open>LockManager::_onLockModeChanged\<close>. Operations work on the request store, the
  head and the log of \<open>LockGrantNotification::notify\<close> calls.
\<close>

record LockHead =
  resourceId :: ResourceId
  grantedList :: "ReqId list"
  grantedCounts :: "LockMode \<Rightarrow> nat"
  grantedModes :: "32 word"
  conflictList :: "ReqId list"
  conflictCounts :: "LockMode \<Rightarrow> nat"
  conflictModes :: "32 word"
  partitions :: "nat list"
  conversionsCount :: nat
  compatibleFirstCount :: nat

definition LockHead_initNew :: "ResourceId \<Rightarrow> LockHead" where
  "LockHead_initNew r =
     \<lparr>resourceId = r, grantedList = [], grantedCounts = (\<lambda>_. 0), grantedModes = 0,
      conflictList = [], conflictCounts = (\<lambda>_. 0), conflictModes = 0, partitions = [],
      conversionsCount = 0, compatibleFirstCount = 0\<rparr>"

text \<open>The four counter updates share their shape: a counter array and its mask.\<close>

definition incModeCount ::
  "LockMode \<Rightarrow> (LockMode \<Rightarrow> nat) \<Rightarrow> 32 word \<Rightarrow> ((LockMode \<Rightarrow> nat) \<times> 32 word) option" where
  "incModeCount m counts msk =
     (let counts' = counts(m := Suc (counts m)) in
      if counts' m = 1
      then do { ensure (msk AND modeMask m = 0); Some (counts', msk OR modeMask m) }
      else Some (counts', msk))"

definition decModeCount ::
  "LockMode \<Rightarrow> (LockMode \<Rightarrow> nat) \<Rightarrow> 32 word \<Rightarrow> ((LockMode \<Rightarrow> nat) \<times> 32 word) option" where
  "decModeCount m counts msk =
     do { ensure (counts m \<ge> 1);
          let counts' = counts(m := counts m - 1) in
          if counts' m = 0
          then do { ensure (msk AND modeMask m = modeMask m); Some (counts', msk AND NOT (modeMask m)) }
          else Some (counts', msk) }"

definition incGrantedModeCount :: "LockMode \<Rightarrow> LockHead \<Rightarrow> LockHead option" where
  "incGrantedModeCount m h =
     do { (c, k) \<leftarrow> incModeCount m (grantedCounts h) (grantedModes h);
          Some (h\<lparr>grantedCounts := c, grantedModes := k\<rparr>) }"

definition decGrantedModeCount :: "LockMode \<Rightarrow> LockHead \<Rightarrow> LockHead option" where
  "decGrantedModeCount m h =
     do { (c, k) \<leftarrow> decModeCount m (grantedCounts h) (grantedModes h);
          Some (h\<lparr>grantedCounts := c, grantedModes := k\<rparr>) }"

definition incConflictModeCount :: "LockMode \<Rightarrow> LockHead \<Rightarrow> LockHead option" where
  "incConflictModeCount m h =
     do { (c, k) \<leftarrow> incModeCount m (conflictCounts h) (conflictModes h);
          Some (h\<lparr>conflictCounts := c, conflictModes := k\<rparr>) }"

definition decConflictModeCount :: "LockMode \<Rightarrow> LockHead \<Rightarrow> LockHead option" where
  "decConflictModeCount m h =
     do { (c, k) \<leftarrow> decModeCount m (conflictCounts h) (conflictModes h);
          Some (h\<lparr>conflictCounts := c, conflictModes := k\<rparr>) }"

definition findRequest :: "(ReqId \<Rightarrow> LockRequest) \<Rightarrow> LockHead \<Rightarrow> LockerId \<Rightarrow> ReqId option" where
  "findRequest rq h lockerId =
     (case List.find (\<lambda>i. locker (rq i) = lockerId) (grantedList h) of
        Some i \<Rightarrow> Some i
      | None \<Rightarrow> List.find (\<lambda>i. locker (rq i) = lockerId) (conflictList h))"

definition newRequest ::
  "ReqId \<Rightarrow> LockRequest \<Rightarrow> LockHead \<Rightarrow> (LockResult \<times> LockRequest \<times> LockHead) option" where
  "newRequest i q0 h =
     do { ensure (partitionedLock q0 = None);
          let q = q0\<lparr>lock := Some (resourceId h)\<rparr> in
          if conflicts (mode q) (grantedModes h) \<or>
             (compatibleFirstCount h = 0 \<and> conflicts (mode q) (conflictModes h))
          then do {
            h1 \<leftarrow> incConflictModeCount (mode q)
                   (h\<lparr>conflictList := (if enqueueAtFront q then i # conflictList h
                                       else conflictList h @ [i])\<rparr>);
            Some (LOCK_WAITING, q\<lparr>status := STATUS_WAITING\<rparr>, h1) }
          else do {
            h1 \<leftarrow> incGrantedModeCount (mode q) (h\<lparr>grantedList := grantedList h @ [i]\<rparr>);
            Some (LOCK_OK, q\<lparr>status := STATUS_GRANTED\<rparr>,
                  if compatibleFirst q
                  then h1\<lparr>compatibleFirstCount := Suc (compatibleFirstCount h1)\<rparr> else h1) } }"

text \<open>
  The loop that rebuilds the mask of granted modes without the current request's own
  contribution (\<open>own\<close>); it starts at 1, so \<open>MODE_NONE\<close> is never included.
\<close>

definition grantedModesWithout :: "(LockMode \<Rightarrow> nat) \<Rightarrow> (LockMode \<Rightarrow> nat) \<Rightarrow> 32 word" where
  "grantedModesWithout counts own =
     foldl (\<lambda>msk m. if counts m > own m then msk OR modeMask m else msk) 0
       [MODE_IS, MODE_IX, MODE_S, MODE_X]"

type_synonym Notification = "ReqId \<times> ResourceId \<times> LockResult"
type_synonym LockCtx = "(ReqId \<Rightarrow> LockRequest) \<times> LockHead \<times> Notification list"

text \<open>First scan of \<open>_onLockModeChanged\<close>: blocked conversions on the granted queue.\<close>

fun unblockConversions :: "ReqId list \<Rightarrow> LockCtx \<Rightarrow> LockCtx option" where
  "unblockConversions [] ctx = Some ctx"
| "unblockConversions (i # is) (rq, h, nt) =
     (if conversionsCount h = 0 then Some (rq, h, nt)
      else if status (rq i) = STATUS_CONVERTING then
        do { ensure (convertMode (rq i) \<noteq> MODE_NONE);
             let own = (\<lambda>m. (if mode (rq i) = m then 1 else 0) + (if convertMode (rq i) = m then 1 else 0));
             ensure (list_all (\<lambda>m. own m \<le> (1::nat)) [MODE_IS, MODE_IX, MODE_S, MODE_X]);
             if \<not> conflicts (convertMode (rq i)) (grantedModesWithout (grantedCounts h) own)
             then do {
               h1 \<leftarrow> decGrantedModeCount (mode (rq i)) (h\<lparr>conversionsCount := conversionsCount h - 1\<rparr>);
               unblockConversions is
                 (rq(i := (rq i)\<lparr>status := STATUS_GRANTED, mode := convertMode (rq i),
                                 convertMode := MODE_NONE\<rparr>),
                  h1, nt @ [(i, resourceId h, LOCK_OK)]) }
             else unblockConversions is (rq, h, nt) }
      else unblockConversions is (rq, h, nt))"

text \<open>
  Second scan: the conflict queue. The argument list is the queue as it was when the scan
  began (\<open>iterNext\<close>); \<open>iter->prev == nullptr\<close> says that the request is at the front
  of the queue as it is now.
\<close>

fun grantConflicts :: "ReqId list \<Rightarrow> bool \<Rightarrow> LockCtx \<Rightarrow> LockCtx option" where
  "grantConflicts [] newlyCompatibleFirst ctx = Some ctx"
| "grantConflicts (i # is) newlyCompatibleFirst (rq, h, nt) =
     do { ensure (status (rq i) = STATUS_WAITING);
          if conflicts (mode (rq i)) (grantedModes h)
          then (if take 1 (conflictList h) = [i] \<and> \<not> newlyCompatibleFirst then Some (rq, h, nt)
                else grantConflicts is newlyCompatibleFirst (rq, h, nt))
          else do {
            h1 \<leftarrow> decConflictModeCount (mode (rq i)) (h\<lparr>conflictList := remove1 i (conflictList h)\<rparr>);
            h2 \<leftarrow> incGrantedModeCount (mode (rq i)) (h1\<lparr>grantedList := grantedList h1 @ [i]\<rparr>);
            let ncf = (newlyCompatibleFirst \<or>
                        (compatibleFirst (rq i) \<and> compatibleFirstCount h2 = 0));
                h3 = (if compatibleFirst (rq i)
                      then h2\<lparr>compatibleFirstCount := Suc (compatibleFirstCount h2)\<rparr> else h2);
                ctx = (rq(i := (rq i)\<lparr>status := STATUS_GRANTED\<rparr>), h3,
                       nt @ [(i, resourceId h, LOCK_OK)])
            in if mode (rq i) = MODE_X then Some ctx else grantConflicts is ncf ctx } }"

definition onLockModeChanged :: "bool \<Rightarrow> LockCtx \<Rightarrow> LockCtx option" where
  "onLockModeChanged checkConflictQueue ctx =
     do { (rq1, h1, nt1) \<leftarrow> unblockConversions (grantedList (fst (snd ctx))) ctx;
          (rq2, h2, nt2) \<leftarrow> (if checkConflictQueue
                             then grantConflicts (conflictList h1) False (rq1, h1, nt1)
                             else Some (rq1, h1, nt1));
          ensure ((grantedModes h2 = 0) \<noteq> (grantedList h2 \<noteq> []));
          ensure ((conflictModes h2 = 0) \<noteq> (conflictList h2 \<noteq> []));
          Some (rq2, h2, nt2) }"

end
