(* ===== verification/LockHeadInv.thy ===== *)
theory LockHeadInv
  imports LockHead
begin

unbundle bit_operations_syntax

text \<open>
  The invariant of a lock head and its preservation: the counters and masks agree with the two
  queues, requests on the granted queue hold pairwise compatible modes, requests are on at
  most one queue. Each fragment of the lock manager's operations that changes a head has a
  lemma here; \<open>onLockModeChanged_ok\<close> covers the two scans, including the progress fact
  that the front of the conflict queue is never left grantable.
\<close>

subsection \<open>Counters and masks\<close>

definition mask_of :: "(LockMode \<Rightarrow> nat) \<Rightarrow> 32 word" where
  "mask_of counts =
     foldl (\<lambda>msk m. if 0 < counts m then msk OR modeMask m else msk) 0
       [MODE_NONE, MODE_IS, MODE_IX, MODE_S, MODE_X]"

lemma bit_mask_of: "bit (mask_of c) n \<longleftrightarrow> (\<exists>m. n = mode_num m \<and> 0 < c m)"
  by (auto simp: mask_of_def bit_or_iff ex_LockMode)

lemma bit_mask_of_mode [simp]: "bit (mask_of c) (mode_num m) \<longleftrightarrow> 0 < c m"
  by (auto simp: bit_mask_of)

lemma mask_of_eqI: "(\<And>n. bit k n \<longleftrightarrow> (\<exists>m. n = mode_num m \<and> 0 < c m)) \<Longrightarrow> k = mask_of c"
  by (rule bit_word_eqI) (simp add: bit_mask_of)

lemma mask_of_zero: "mask_of c = 0 \<longleftrightarrow> (\<forall>m. c m = 0)"
proof
  assume "mask_of c = 0"
  then have "\<not> bit (mask_of c) (mode_num m)" for m by (metis bit_0_eq bot_apply bot_bool_def)
  then show "\<forall>m. c m = 0" by simp
next
  assume "\<forall>m. c m = 0"
  then show "mask_of c = 0" by (simp add: mask_of_def)
qed

lemma conflicts_mask_of: "conflicts m (mask_of c) \<longleftrightarrow> (\<exists>m'. conflicting m m' \<and> 0 < c m')"
  by (simp add: conflicts_bits)

lemma conflicts_without:
  "conflicts m (grantedModesWithout c own) \<longleftrightarrow> (\<exists>m'. conflicting m m' \<and> own m' < c m')"
proof -
  have "bit (grantedModesWithout c own) (mode_num m') \<longleftrightarrow> m' \<noteq> MODE_NONE \<and> own m' < c m'" for m'
    by (cases m') (simp_all add: grantedModesWithout_def bit_or_iff)
  then show ?thesis unfolding conflicts_bits by (metis conflicting_none(2))
qed

lemma incModeCount_mask_of:
  "incModeCount m c (mask_of c) = Some (c(m := Suc (c m)), mask_of (c(m := Suc (c m))))"
proof -
  have or: "mask_of c OR modeMask m = mask_of (c(m := Suc (c m)))"
    by (rule mask_of_eqI) (auto simp: bit_or_iff bit_mask_of)
  show ?thesis
  proof (cases "c m = 0")
    case True
    then have "mask_of c AND modeMask m = 0"
      using and_nonzero_bits [of "mask_of c" "modeMask m"] by auto
    with True or show ?thesis by (simp add: incModeCount_def Let_def)
  next
    case False
    then have "mask_of c = mask_of (c(m := Suc (c m)))"
      by (intro mask_of_eqI) (auto simp: bit_mask_of)
    with False show ?thesis by (simp add: incModeCount_def Let_def)
  qed
qed

lemma decModeCount_mask_of:
  assumes "0 < c m"
  shows "decModeCount m c (mask_of c) = Some (c(m := c m - 1), mask_of (c(m := c m - 1)))"
proof -
  have hit: "mask_of c AND modeMask m = modeMask m"
    using assms by (intro bit_word_eqI) (auto simp: bit_and_iff)
  show ?thesis
  proof (cases "c m = 1")
    case True
    have "mask_of c AND NOT (modeMask m) = mask_of (c(m := c m - 1))"
    proof (rule bit_word_eqI)
      fix n :: nat assume "n < LENGTH(32)"
      with True show "bit (mask_of c AND NOT (modeMask m)) n = bit (mask_of (c(m := c m - 1))) n"
        by (auto simp: bit_and_iff bit_not_iff bit_mask_of)
    qed
    with True hit show ?thesis by (simp add: decModeCount_def Let_def)
  next
    case False
    with assms have "mask_of c = mask_of (c(m := c m - 1))"
      by (intro mask_of_eqI) (auto simp: bit_mask_of)
    with False assms show ?thesis by (simp add: decModeCount_def Let_def)
  qed
qed

subsection \<open>The invariant of a lock head\<close>

definition converting :: "LockRequest \<Rightarrow> bool" where
  "converting q \<longleftrightarrow> status q = STATUS_CONVERTING"

definition gcount :: "(ReqId \<Rightarrow> LockRequest) \<Rightarrow> ReqId list \<Rightarrow> LockMode \<Rightarrow> nat" where
  "gcount rq is m = count_if (\<lambda>i. mode (rq i) = m) is
                  + count_if (\<lambda>i. converting (rq i) \<and> convertMode (rq i) = m) is"

definition ccount :: "(ReqId \<Rightarrow> LockRequest) \<Rightarrow> ReqId list \<Rightarrow> LockMode \<Rightarrow> nat" where
  "ccount rq is m = count_if (\<lambda>i. mode (rq i) = m) is"

definition rcount :: "(LockRequest \<Rightarrow> bool) \<Rightarrow> (ReqId \<Rightarrow> LockRequest) \<Rightarrow> ReqId list \<Rightarrow> nat" where
  "rcount P rq is = count_if (\<lambda>i. P (rq i)) is"

definition granted_req_ok :: "LockRequest \<Rightarrow> bool" where
  "granted_req_ok q \<longleftrightarrow>
     (status q = STATUS_GRANTED \<and> convertMode q = MODE_NONE \<and> 1 \<le> recursiveCount q) \<or>
     (status q = STATUS_CONVERTING \<and> isModeCovered (mode q) (convertMode q)
        \<and> \<not> isModeCovered (convertMode q) (mode q) \<and> 2 \<le> recursiveCount q)"

definition waiting_req_ok :: "LockRequest \<Rightarrow> bool" where
  "waiting_req_ok q \<longleftrightarrow>
     status q = STATUS_WAITING \<and> convertMode q = MODE_NONE \<and> recursiveCount q = 1 \<and> \<not> partitioned q
       \<and> mode q \<noteq> MODE_NONE"

definition compatible :: "(ReqId \<Rightarrow> LockRequest) \<Rightarrow> ReqId set \<Rightarrow> bool" where
  "compatible rq S \<longleftrightarrow> (\<forall>i\<in>S. \<forall>j\<in>S. i \<noteq> j \<longrightarrow> \<not> conflicting (mode (rq i)) (mode (rq j)))"

definition on_head :: "ResourceId \<Rightarrow> LockRequest \<Rightarrow> bool" where
  "on_head r q \<longleftrightarrow> lock q = Some r \<and> partitionedLock q = None"

definition counters_ok :: "(ReqId \<Rightarrow> LockRequest) \<Rightarrow> LockHead \<Rightarrow> bool" where
  "counters_ok rq h \<longleftrightarrow>
     grantedCounts h = gcount rq (grantedList h) \<and> grantedModes h = mask_of (grantedCounts h) \<and>
     conflictCounts h = ccount rq (conflictList h) \<and> conflictModes h = mask_of (conflictCounts h) \<and>
     conversionsCount h = rcount converting rq (grantedList h) \<and>
     compatibleFirstCount h = rcount compatibleFirst rq (grantedList h)"

definition head_ok :: "(ReqId \<Rightarrow> LockRequest) \<Rightarrow> LockHead \<Rightarrow> bool" where
  "head_ok rq h \<longleftrightarrow>
     distinct (grantedList h @ conflictList h) \<and>
     (\<forall>i\<in>set (grantedList h). granted_req_ok (rq i) \<and> on_head (resourceId h) (rq i)) \<and>
     (\<forall>i\<in>set (conflictList h). waiting_req_ok (rq i) \<and> on_head (resourceId h) (rq i)) \<and>
     compatible rq (set (grantedList h)) \<and> counters_ok rq h"

lemma isModeCovered_refl [simp]: "isModeCovered m m"
  by (simp add: isModeCovered_iff)

lemma isModeCovered_none [simp]: "isModeCovered MODE_NONE m"
  by (simp add: isModeCovered_iff)

lemma covered_conflicting:
  "isModeCovered m c \<Longrightarrow> conflicting m m' \<Longrightarrow> conflicting c m'"
  by (simp add: isModeCovered_iff)

lemma gcount_simps [simp]:
  "gcount rq [] = (\<lambda>_. 0)"
  "gcount rq (xs @ ys) = (\<lambda>m. gcount rq xs m + gcount rq ys m)"
  by (auto simp: gcount_def)

lemma gcount_single:
  "gcount rq [i] m = (if mode (rq i) = m then 1 else 0)
     + (if converting (rq i) \<and> convertMode (rq i) = m then 1 else 0)"
  by (simp add: gcount_def)

lemma ccount_simps [simp]:
  "ccount rq [] = (\<lambda>_. 0)"
  "ccount rq (i # is) = (\<lambda>m. ccount rq is m + (if mode (rq i) = m then 1 else 0))"
  "ccount rq (xs @ ys) = (\<lambda>m. ccount rq xs m + ccount rq ys m)"
  by (auto simp: ccount_def)

lemma rcount_simps [simp]:
  "rcount P rq [] = 0"
  "rcount P rq (i # is) = rcount P rq is + (if P (rq i) then 1 else 0)"
  "rcount P rq (xs @ ys) = rcount P rq xs + rcount P rq ys"
  by (simp_all add: rcount_def)

lemma rcount_remove1:
  "i \<in> set is \<Longrightarrow> rcount P rq (remove1 i is) = rcount P rq is - (if P (rq i) then 1 else 0)"
  by (simp add: rcount_def count_if_remove1)

lemma rcount_pos: "0 < rcount P rq is \<longleftrightarrow> (\<exists>i\<in>set is. P (rq i))"
  by (simp add: rcount_def count_if_pos)

lemma rcount_update:
  assumes "distinct is" "i \<in> set is"
  shows "rcount P (rq(i := q)) is + (if P (rq i) then 1 else 0) = rcount P rq is + (if P q then 1 else 0)"
  using count_if_update [OF assms, of "\<lambda>j. P ((rq(i := q)) j)" "\<lambda>j. P (rq j)"]
  by (simp add: rcount_def)

lemma counts_frame [simp]:
  "i \<notin> set is \<Longrightarrow> gcount (rq(i := q)) is = gcount rq is"
  "i \<notin> set is \<Longrightarrow> ccount (rq(i := q)) is = ccount rq is"
  "i \<notin> set is \<Longrightarrow> rcount P (rq(i := q)) is = rcount P rq is"
  unfolding gcount_def ccount_def rcount_def by (auto intro!: ext count_if_cong arg_cong2 [where f = "(+)"])

lemma gcount_pos:
  "0 < gcount rq is m \<longleftrightarrow>
     (\<exists>i\<in>set is. mode (rq i) = m \<or> (converting (rq i) \<and> convertMode (rq i) = m))"
  by (auto simp: gcount_def count_if_pos)

lemma gcount_remove1:
  assumes "i \<in> set is"
  shows "gcount rq (remove1 i is) m + gcount rq [i] m = gcount rq is m"
proof -
  from assms obtain ys zs where "is = ys @ i # zs" and "i \<notin> set ys" by (meson split_list_first)
  then show ?thesis by (simp add: remove1_append gcount_def)
qed

lemma ccount_remove1:
  assumes "i \<in> set is"
  shows "ccount rq (remove1 i is) = (ccount rq is)(mode (rq i) := ccount rq is (mode (rq i)) - 1)"
proof -
  from assms obtain ys zs where "is = ys @ i # zs" and "i \<notin> set ys" by (meson split_list_first)
  then show ?thesis by (auto simp: remove1_append)
qed

lemma head_okD:
  assumes "head_ok rq h"
  shows "distinct (grantedList h)" "distinct (conflictList h)"
    "set (grantedList h) \<inter> set (conflictList h) = {}"
    "compatible rq (set (grantedList h))" "counters_ok rq h"
  using assms by (auto simp: head_ok_def)

lemma head_ok_grantedD:
  assumes "head_ok rq h" "i \<in> set (grantedList h)"
  shows "granted_req_ok (rq i)" "lock (rq i) = Some (resourceId h)" "partitionedLock (rq i) = None"
  using assms by (auto simp: head_ok_def on_head_def)

lemma head_ok_waitingD:
  assumes "head_ok rq h" "i \<in> set (conflictList h)"
  shows "waiting_req_ok (rq i)" "lock (rq i) = Some (resourceId h)" "partitionedLock (rq i) = None"
  using assms by (auto simp: head_ok_def on_head_def)

lemma compatible_insert:
  assumes "compatible rq S" "i \<notin> S" "\<And>j. j \<in> S \<Longrightarrow> \<not> conflicting (mode q) (mode (rq j))"
  shows "compatible (rq(i := q)) (insert i S)"
  using assms conflicting_sym by (auto simp: compatible_def)

lemma mode_granted_counted:
  assumes "counters_ok rq h" "i \<in> set (grantedList h)"
  shows "0 < grantedCounts h (mode (rq i))"
  using assms by (auto simp: counters_ok_def gcount_pos)

text \<open>A new request that meets no conflict joins the granted queue.\<close>

lemma incGranted_ok:
  assumes "counters_ok rq h"
  shows "incGrantedModeCount m (h\<lparr>grantedList := gl\<rparr>) =
    Some (h\<lparr>grantedList := gl, grantedCounts := (grantedCounts h)(m := Suc (grantedCounts h m)),
            grantedModes := mask_of ((grantedCounts h)(m := Suc (grantedCounts h m)))\<rparr>)"
  using assms incModeCount_mask_of [of m "grantedCounts h"]
  by (simp add: incGrantedModeCount_def counters_ok_def)

lemma head_ok_grant:
  assumes ok: "head_ok rq h" and new: "i \<notin> set (grantedList h @ conflictList h)"
    and q: "granted_req_ok q" "status q = STATUS_GRANTED" "on_head (resourceId h) q"
    and free: "\<not> conflicts (mode q) (grantedModes h)"
  defines "c \<equiv> (grantedCounts h)(mode q := Suc (grantedCounts h (mode q)))"
  shows "head_ok (rq(i := q))
     (h\<lparr>grantedList := grantedList h @ [i], grantedCounts := c, grantedModes := mask_of c,
        compatibleFirstCount := (if compatibleFirst q then Suc (compatibleFirstCount h)
                                 else compatibleFirstCount h)\<rparr>)"
proof -
  have cnt: "counters_ok rq h" and comp: "compatible rq (set (grantedList h))"
    using ok by (simp_all add: head_ok_def)
  have nc: "\<not> conflicting (mode q) (mode (rq j))" if "j \<in> set (grantedList h)" for j
    using free mode_granted_counted [OF cnt that] cnt
    by (auto simp: counters_ok_def conflicts_mask_of)
  have conv: "\<not> converting q" using q by (simp add: converting_def)
  have "counters_ok (rq(i := q))
     (h\<lparr>grantedList := grantedList h @ [i], grantedCounts := c, grantedModes := mask_of c,
        compatibleFirstCount := (if compatibleFirst q then Suc (compatibleFirstCount h)
                                 else compatibleFirstCount h)\<rparr>)"
    using cnt new conv by (auto simp: counters_ok_def c_def gcount_single)
  moreover have "compatible (rq(i := q)) (insert i (set (grantedList h)))"
    using comp new nc by (intro compatible_insert) auto
  ultimately show ?thesis
    using ok new q by (auto simp: head_ok_def)
qed

definition contrib :: "LockRequest \<Rightarrow> LockMode \<Rightarrow> nat" where
  "contrib q m = (if mode q = m then 1 else 0) + (if converting q \<and> convertMode q = m then 1 else 0)"

lemma gcount_single_contrib: "gcount rq [i] = contrib (rq i)"
  by (auto simp: gcount_single contrib_def)

lemma gcount_update:
  assumes "distinct is" "i \<in> set is"
  shows "gcount (rq(i := q)) is m + contrib (rq i) m = gcount rq is m + contrib q m"
proof -
  have "gcount rq' is m = rcount (\<lambda>q. mode q = m) rq' is
          + rcount (\<lambda>q. converting q \<and> convertMode q = m) rq' is" for rq'
    by (simp add: gcount_def rcount_def)
  then show ?thesis
    using rcount_update [OF assms, of "\<lambda>q. mode q = m" rq q]
      rcount_update [OF assms, of "\<lambda>q. converting q \<and> convertMode q = m" rq q]
    by (simp add: contrib_def)
qed

lemma compatible_update:
  assumes "compatible rq S" "\<And>j. j \<in> S \<Longrightarrow> j \<noteq> i \<Longrightarrow> \<not> conflicting (mode q) (mode (rq j))"
  shows "compatible (rq(i := q)) S"
  using assms conflicting_sym by (auto simp: compatible_def)

text \<open>Rewriting one request of the granted queue in place.\<close>

lemma head_ok_update:
  assumes ok: "head_ok rq h" and i: "i \<in> set (grantedList h)"
    and q: "granted_req_ok q" "on_head (resourceId h) q" "compatibleFirst q = compatibleFirst (rq i)"
    and comp: "\<And>j. j \<in> set (grantedList h) \<Longrightarrow> j \<noteq> i \<Longrightarrow> \<not> conflicting (mode q) (mode (rq j))"
    and c: "\<And>m. c m + contrib (rq i) m = grantedCounts h m + contrib q m"
    and n: "n + (if converting (rq i) then 1 else 0) = conversionsCount h + (if converting q then 1 else 0)"
  shows "head_ok (rq(i := q)) (h\<lparr>grantedCounts := c, grantedModes := mask_of c, conversionsCount := n\<rparr>)"
proof -
  have dist: "distinct (grantedList h)" and cnt: "counters_ok rq h"
    and i': "i \<notin> set (conflictList h)"
    using ok i by (auto simp: head_ok_def)
  have "c = gcount (rq(i := q)) (grantedList h)"
  proof
    fix m
    from c [of m] gcount_update [OF dist i, of rq q m] cnt
    show "c m = gcount (rq(i := q)) (grantedList h) m"
      by (auto simp: counters_ok_def)
  qed
  moreover have "n = rcount converting (rq(i := q)) (grantedList h)"
    using n rcount_update [OF dist i, of converting rq q] cnt by (auto simp: counters_ok_def)
  moreover have "compatibleFirstCount h = rcount compatibleFirst (rq(i := q)) (grantedList h)"
    using rcount_update [OF dist i, of compatibleFirst rq q] cnt q(3) by (auto simp: counters_ok_def split: if_splits)
  ultimately have "counters_ok (rq(i := q))
      (h\<lparr>grantedCounts := c, grantedModes := mask_of c, conversionsCount := n\<rparr>)"
    using cnt i' by (simp add: counters_ok_def)
  moreover have "compatible (rq(i := q)) (set (grantedList h))"
    using ok comp by (intro compatible_update) (auto simp: head_ok_def)
  ultimately show ?thesis
    using ok i' q by (auto simp: head_ok_def)
qed

text \<open>A new request that meets a conflict joins the conflict queue.\<close>

lemma head_ok_wait:
  assumes ok: "head_ok rq h" and new: "i \<notin> set (grantedList h @ conflictList h)"
    and q: "waiting_req_ok q" "on_head (resourceId h) q"
  defines "c \<equiv> (conflictCounts h)(mode q := Suc (conflictCounts h (mode q)))"
  shows "head_ok (rq(i := q))
     (h\<lparr>conflictList := (if b then i # conflictList h else conflictList h @ [i]),
        conflictCounts := c, conflictModes := mask_of c\<rparr>)"
proof -
  have "compatible (rq(i := q)) (set (grantedList h))"
    using ok new by (auto simp: head_ok_def compatible_def)
  then show ?thesis
    using ok new q by (auto simp: head_ok_def counters_ok_def c_def)
qed

text \<open>Taking a request off the granted queue, or off the conflict queue.\<close>

lemma head_ok_release:
  assumes ok: "head_ok rq h" and i: "i \<in> set (grantedList h)" and g: "status (rq i) = STATUS_GRANTED"
  defines "c \<equiv> (grantedCounts h)(mode (rq i) := grantedCounts h (mode (rq i)) - 1)"
  shows "head_ok (rq(i := q))
     (h\<lparr>grantedList := remove1 i (grantedList h), grantedCounts := c, grantedModes := mask_of c,
        compatibleFirstCount := compatibleFirstCount h - (if compatibleFirst (rq i) then 1 else 0)\<rparr>)"
proof -
  have dist: "distinct (grantedList h)" and cnt: "counters_ok rq h" using ok by (auto simp: head_ok_def)
  then have notin: "i \<notin> set (remove1 i (grantedList h))" by simp
  have i': "i \<notin> set (conflictList h)" using ok i by (auto simp: head_ok_def)
  have ng: "\<not> converting (rq i)" using g by (simp add: converting_def)
  have "c = gcount rq (remove1 i (grantedList h))"
  proof
    fix m
    from gcount_remove1 [OF i, of rq m] cnt ng
    show "c m = gcount rq (remove1 i (grantedList h)) m"
      by (auto simp: c_def counters_ok_def gcount_single_contrib contrib_def)
  qed
  then have "counters_ok (rq(i := q))
     (h\<lparr>grantedList := remove1 i (grantedList h), grantedCounts := c, grantedModes := mask_of c,
        compatibleFirstCount := compatibleFirstCount h - (if compatibleFirst (rq i) then 1 else 0)\<rparr>)"
    using cnt notin i' ng rcount_remove1 [OF i, of converting rq] rcount_remove1 [OF i, of compatibleFirst rq]
    by (simp add: counters_ok_def)
  moreover have "compatible (rq(i := q)) (set (remove1 i (grantedList h)))"
    using ok dist by (auto simp: head_ok_def compatible_def)
  ultimately show ?thesis
    using ok dist i' by (auto simp: head_ok_def distinct_remove1 dest: notin_set_remove1)
qed

lemma head_ok_cancel:
  assumes ok: "head_ok rq h" and i: "i \<in> set (conflictList h)"
  defines "c \<equiv> (conflictCounts h)(mode (rq i) := conflictCounts h (mode (rq i)) - 1)"
  shows "head_ok (rq(i := q))
     (h\<lparr>conflictList := remove1 i (conflictList h), conflictCounts := c, conflictModes := mask_of c\<rparr>)"
proof -
  have dist: "distinct (conflictList h)" and cnt: "counters_ok rq h" using ok by (auto simp: head_ok_def)
  have i': "i \<notin> set (grantedList h)" using ok i by (auto simp: head_ok_def)
  have "compatible (rq(i := q)) (set (grantedList h))"
    using ok i' by (auto simp: head_ok_def compatible_def)
  moreover have "counters_ok (rq(i := q))
     (h\<lparr>conflictList := remove1 i (conflictList h), conflictCounts := c, conflictModes := mask_of c\<rparr>)"
    using cnt i' dist ccount_remove1 [OF i, of rq] by (simp add: counters_ok_def c_def)
  ultimately show ?thesis
    using ok dist i' by (auto simp: head_ok_def distinct_remove1 dest: notin_set_remove1)
qed

subsection \<open>The operations keep the invariant and never abort\<close>

lemma inc_dec_granted:
  assumes "grantedModes h = mask_of (grantedCounts h)"
  shows "incGrantedModeCount m h =
      Some (h\<lparr>grantedCounts := (grantedCounts h)(m := Suc (grantedCounts h m)),
              grantedModes := mask_of ((grantedCounts h)(m := Suc (grantedCounts h m)))\<rparr>)"
    and "0 < grantedCounts h m \<Longrightarrow> decGrantedModeCount m h =
      Some (h\<lparr>grantedCounts := (grantedCounts h)(m := grantedCounts h m - 1),
              grantedModes := mask_of ((grantedCounts h)(m := grantedCounts h m - 1))\<rparr>)"
  using assms by (simp_all add: incGrantedModeCount_def decGrantedModeCount_def
      incModeCount_mask_of decModeCount_mask_of)

lemma inc_dec_conflict:
  assumes "conflictModes h = mask_of (conflictCounts h)"
  shows "incConflictModeCount m h =
      Some (h\<lparr>conflictCounts := (conflictCounts h)(m := Suc (conflictCounts h m)),
              conflictModes := mask_of ((conflictCounts h)(m := Suc (conflictCounts h m)))\<rparr>)"
    and "0 < conflictCounts h m \<Longrightarrow> decConflictModeCount m h =
      Some (h\<lparr>conflictCounts := (conflictCounts h)(m := conflictCounts h m - 1),
              conflictModes := mask_of ((conflictCounts h)(m := conflictCounts h m - 1))\<rparr>)"
  using assms by (simp_all add: incConflictModeCount_def decConflictModeCount_def
      incModeCount_mask_of decModeCount_mask_of)

lemma masks_ok:
  assumes "head_ok rq h"
  shows "grantedModes h = mask_of (grantedCounts h)" "conflictModes h = mask_of (conflictCounts h)"
  using assms by (auto simp: head_ok_def counters_ok_def)

definition blocked :: "LockMode \<Rightarrow> LockHead \<Rightarrow> bool" where
  "blocked m h \<longleftrightarrow> conflicts m (grantedModes h) \<or>
     (compatibleFirstCount h = 0 \<and> conflicts m (conflictModes h))"

lemma blocked_mode: "blocked m h \<Longrightarrow> m \<noteq> MODE_NONE"
  by (auto simp: blocked_def conflicts_bits)

text \<open>What every operation on a head leaves unchanged.\<close>

definition same_identity :: "LockRequest \<Rightarrow> LockRequest \<Rightarrow> bool" where
  "same_identity q q' \<longleftrightarrow>
     q' = q\<lparr>status := status q', mode := mode q', convertMode := convertMode q'\<rparr>"

lemma same_identity_refl [simp]: "same_identity q q"
  by (simp add: same_identity_def)

lemma same_identity_trans: "same_identity a b \<Longrightarrow> same_identity b c \<Longrightarrow> same_identity a c"
  by (cases a; cases b; cases c) (auto simp: same_identity_def)

lemma same_identity_fields:
  assumes "same_identity q q'"
  shows "locker q' = locker q" "enqueueAtFront q' = enqueueAtFront q"
    "compatibleFirst q' = compatibleFirst q" "partitioned q' = partitioned q"
    "recursiveCount q' = recursiveCount q" "lock q' = lock q" "partitionedLock q' = partitionedLock q"
  by (subst assms [unfolded same_identity_def], simp)+

lemma newRequest_granted:
  assumes ok: "head_ok rq h" and new: "i \<notin> set (grantedList h @ conflictList h)"
    and q: "partitionedLock q = None" "convertMode q = MODE_NONE" "1 \<le> recursiveCount q"
    and free: "\<not> blocked (mode q) h"
  shows "\<exists>h'. newRequest i q h =
      Some (LOCK_OK, q\<lparr>lock := Some (resourceId h), status := STATUS_GRANTED\<rparr>, h') \<and>
    head_ok (rq(i := q\<lparr>lock := Some (resourceId h), status := STATUS_GRANTED\<rparr>)) h' \<and>
    grantedList h' = grantedList h @ [i] \<and> conflictList h' = conflictList h \<and>
    resourceId h' = resourceId h \<and> partitions h' = partitions h \<and>
    grantedCounts h' = (grantedCounts h)(mode q := Suc (grantedCounts h (mode q))) \<and>
    conflictCounts h' = conflictCounts h"
proof -
  let ?q = "q\<lparr>lock := Some (resourceId h), status := STATUS_GRANTED\<rparr>"
  have "head_ok (rq(i := ?q))
     (h\<lparr>grantedList := grantedList h @ [i],
        grantedCounts := (grantedCounts h)(mode ?q := Suc (grantedCounts h (mode ?q))),
        grantedModes := mask_of ((grantedCounts h)(mode ?q := Suc (grantedCounts h (mode ?q)))),
        compatibleFirstCount := (if compatibleFirst ?q then Suc (compatibleFirstCount h)
                                 else compatibleFirstCount h)\<rparr>)"
    using free q by (intro head_ok_grant [OF ok new])
      (auto simp: granted_req_ok_def on_head_def blocked_def)
  then show ?thesis
    using free q inc_dec_granted(1) [of "h\<lparr>grantedList := grantedList h @ [i]\<rparr>"] masks_ok(1) [OF ok]
    by (auto simp: newRequest_def blocked_def)
qed

lemma newRequest_waiting:
  assumes ok: "head_ok rq h" and new: "i \<notin> set (grantedList h @ conflictList h)"
    and q: "partitionedLock q = None" "convertMode q = MODE_NONE" "recursiveCount q = 1" "\<not> partitioned q"
    and b: "blocked (mode q) h"
  shows "\<exists>h'. newRequest i q h =
      Some (LOCK_WAITING, q\<lparr>lock := Some (resourceId h), status := STATUS_WAITING\<rparr>, h') \<and>
    head_ok (rq(i := q\<lparr>lock := Some (resourceId h), status := STATUS_WAITING\<rparr>)) h' \<and>
    grantedList h' = grantedList h \<and> grantedModes h' = grantedModes h \<and>
    conflictList h' = (if enqueueAtFront q then i # conflictList h else conflictList h @ [i]) \<and>
    resourceId h' = resourceId h \<and> partitions h' = partitions h"
proof -
  let ?q = "q\<lparr>lock := Some (resourceId h), status := STATUS_WAITING\<rparr>"
  let ?l = "if enqueueAtFront q then i # conflictList h else conflictList h @ [i]"
  have "head_ok (rq(i := ?q))
     (h\<lparr>conflictList := ?l,
        conflictCounts := (conflictCounts h)(mode ?q := Suc (conflictCounts h (mode ?q))),
        conflictModes := mask_of ((conflictCounts h)(mode ?q := Suc (conflictCounts h (mode ?q))))\<rparr>)"
    using q blocked_mode [OF b]
    by (intro head_ok_wait [OF ok new]) (auto simp: waiting_req_ok_def on_head_def)
  then show ?thesis
    using b q inc_dec_conflict(1) [of "h\<lparr>conflictList := ?l\<rparr>"] masks_ok(2) [OF ok]
    by (auto simp: newRequest_def blocked_def)
qed

text \<open>Granting a blocked conversion.\<close>

lemma conversion_free:
  assumes ok: "head_ok rq h" and i: "i \<in> set (grantedList h)" and conv: "converting (rq i)"
    and free: "\<not> conflicts (convertMode (rq i)) (grantedModesWithout (grantedCounts h) (contrib (rq i)))"
    and j: "j \<in> set (grantedList h)" "j \<noteq> i"
  shows "\<not> conflicting (convertMode (rq i)) (mode (rq j))"
proof -
  have dist: "distinct (grantedList h)" and cnt: "grantedCounts h = gcount rq (grantedList h)"
    using ok by (auto simp: head_ok_def counters_ok_def)
  have "0 < gcount rq (remove1 i (grantedList h)) (mode (rq j))"
    using j dist by (auto simp: gcount_pos)
  then have "contrib (rq i) (mode (rq j)) < grantedCounts h (mode (rq j))"
    using gcount_remove1 [OF i, of rq "mode (rq j)"] cnt by (simp add: gcount_single_contrib)
  with free show ?thesis by (auto simp: conflicts_without)
qed

lemma converting_facts:
  assumes "granted_req_ok q" "converting q"
  shows "convertMode q \<noteq> MODE_NONE" "mode q \<noteq> convertMode q" "isModeCovered (mode q) (convertMode q)"
    "2 \<le> recursiveCount q"
  using assms by (auto simp: granted_req_ok_def converting_def)

lemma head_ok_conversion_granted:
  assumes ok: "head_ok rq h" and i: "i \<in> set (grantedList h)" and conv: "converting (rq i)"
    and free: "\<not> conflicts (convertMode (rq i)) (grantedModesWithout (grantedCounts h) (contrib (rq i)))"
  shows "head_ok (rq(i := (rq i)\<lparr>status := STATUS_GRANTED, mode := convertMode (rq i), convertMode := MODE_NONE\<rparr>))
    (h\<lparr>grantedCounts := (grantedCounts h)(mode (rq i) := grantedCounts h (mode (rq i)) - 1),
       grantedModes := mask_of ((grantedCounts h)(mode (rq i) := grantedCounts h (mode (rq i)) - 1)),
       conversionsCount := conversionsCount h - 1\<rparr>)"
proof (rule head_ok_update [OF ok i])
  note q = head_ok_grantedD [OF ok i]
  note f = converting_facts [OF q(1) conv]
  let ?q = "(rq i)\<lparr>status := STATUS_GRANTED, mode := convertMode (rq i), convertMode := MODE_NONE\<rparr>"
  show "granted_req_ok ?q" "on_head (resourceId h) ?q" "compatibleFirst ?q = compatibleFirst (rq i)"
    using q f by (auto simp: granted_req_ok_def on_head_def)
  show "\<not> conflicting (mode ?q) (mode (rq j))" if "j \<in> set (grantedList h)" "j \<noteq> i" for j
    using conversion_free [OF ok i conv free that] by simp
  have cnt: "counters_ok rq h" using ok by (simp add: head_ok_def)
  have "0 < grantedCounts h (mode (rq i))" using mode_granted_counted [OF cnt i] .
  then show "((grantedCounts h)(mode (rq i) := grantedCounts h (mode (rq i)) - 1)) m + contrib (rq i) m
      = grantedCounts h m + contrib ?q m" for m
    using f conv by (auto simp: contrib_def converting_def)
  have "0 < conversionsCount h"
    using cnt i conv by (auto simp: counters_ok_def rcount_pos)
  then show "conversionsCount h - 1 + (if converting (rq i) then 1 else 0)
      = conversionsCount h + (if converting ?q then 1 else 0)"
    using conv by (simp add: converting_def)
qed

definition head_frame :: "LockHead \<Rightarrow> LockHead \<Rightarrow> bool" where
  "head_frame h h' \<longleftrightarrow> resourceId h' = resourceId h \<and> partitions h' = partitions h"

definition more_conflicts :: "LockHead \<Rightarrow> LockHead \<Rightarrow> bool" where
  "more_conflicts h h' \<longleftrightarrow> (\<forall>m. conflicts m (grantedModes h) \<longrightarrow> conflicts m (grantedModes h'))"

lemma conflicts_granted_iff:
  assumes "head_ok rq h"
  shows "conflicts m (grantedModes h) \<longleftrightarrow>
    (\<exists>i\<in>set (grantedList h). conflicting m (mode (rq i)) \<or> (converting (rq i) \<and> conflicting m (convertMode (rq i))))"
  using assms by (auto simp: head_ok_def counters_ok_def conflicts_mask_of gcount_pos)

lemma conversion_granted_more_conflicts:
  assumes ok: "head_ok rq h" and i: "i \<in> set (grantedList h)" and conv: "converting (rq i)"
    and ok': "head_ok (rq(i := (rq i)\<lparr>status := STATUS_GRANTED, mode := convertMode (rq i), convertMode := MODE_NONE\<rparr>)) h'"
    and gl: "grantedList h' = grantedList h"
  shows "more_conflicts h h'"
proof -
  let ?q = "(rq i)\<lparr>status := STATUS_GRANTED, mode := convertMode (rq i), convertMode := MODE_NONE\<rparr>"
  note cov = converting_facts(3) [OF head_ok_grantedD(1) [OF ok i] conv]
  have *: "conflicting m (convertMode (rq i))" if "conflicting m (mode (rq i))" for m
    using that cov covered_conflicting conflicting_sym by blast
  show ?thesis
    unfolding more_conflicts_def conflicts_granted_iff [OF ok] conflicts_granted_iff [OF ok'] gl
  proof (intro allI impI)
    fix m
    assume "\<exists>j\<in>set (grantedList h). conflicting m (mode (rq j)) \<or>
              converting (rq j) \<and> conflicting m (convertMode (rq j))"
    then obtain j where j: "j \<in> set (grantedList h)" "conflicting m (mode (rq j)) \<or>
              converting (rq j) \<and> conflicting m (convertMode (rq j))" by blast
    show "\<exists>j\<in>set (grantedList h). conflicting m (mode ((rq(i := ?q)) j)) \<or>
              converting ((rq(i := ?q)) j) \<and> conflicting m (convertMode ((rq(i := ?q)) j))"
      using j * by (intro bexI [of _ j]) auto
  qed
qed

lemma own_contrib:
  "converting q \<Longrightarrow>
   (\<lambda>m. (if mode q = m then 1 else 0) + (if convertMode q = m then 1 else 0)) = contrib q"
  by (auto simp: contrib_def)

lemma contrib_le_1: "mode q \<noteq> convertMode q \<Longrightarrow> contrib q m \<le> Suc 0"
  by (auto simp: contrib_def)

lemma unblockConversions_ok:
  assumes "head_ok rq h" "set is \<subseteq> set (grantedList h)"
  shows "\<exists>rq' h' nt'. unblockConversions is (rq, h, nt) = Some (rq', h', nt') \<and> head_ok rq' h' \<and>
    head_frame h h' \<and> grantedList h' = grantedList h \<and> conflictList h' = conflictList h \<and>
    more_conflicts h h' \<and> (\<forall>j. same_identity (rq j) (rq' j)) \<and>
    (\<forall>j. j \<notin> set (grantedList h) \<longrightarrow> rq' j = rq j)"
  using assms
proof (induction "is" arbitrary: rq h nt)
  case Nil
  then show ?case by (auto simp: head_frame_def more_conflicts_def)
next
  case (Cons i "is")
  let ?q = "(rq i)\<lparr>status := STATUS_GRANTED, mode := convertMode (rq i), convertMode := MODE_NONE\<rparr>"
  let ?c = "(grantedCounts h)(mode (rq i) := grantedCounts h (mode (rq i)) - 1)"
  let ?h = "h\<lparr>grantedCounts := ?c, grantedModes := mask_of ?c, conversionsCount := conversionsCount h - 1\<rparr>"
  from Cons.prems have i: "i \<in> set (grantedList h)" and sub: "set is \<subseteq> set (grantedList h)" by auto
  note ok = Cons.prems(1) and IH = Cons.IH [OF Cons.prems(1) sub]
  consider (stop) "conversionsCount h = 0" | (skip) "conversionsCount h \<noteq> 0" "\<not> converting (rq i)"
    | (conv) "conversionsCount h \<noteq> 0" "converting (rq i)" by blast
  then show ?case
  proof cases
    case stop
    with ok show ?thesis by (auto simp: head_frame_def more_conflicts_def)
  next
    case skip
    with IH [of nt] show ?thesis by (simp add: converting_def)
  next
    case conv
    note facts = converting_facts [OF head_ok_grantedD(1) [OF ok i] conv(2)]
    have st: "status (rq i) = STATUS_CONVERTING" using conv by (simp add: converting_def)
    show ?thesis
    proof (cases "conflicts (convertMode (rq i)) (grantedModesWithout (grantedCounts h) (contrib (rq i)))")
      case True
      with IH [of nt] st conv facts show ?thesis by (simp add: own_contrib contrib_le_1)
    next
      case False
      have pos: "0 < grantedCounts h (mode (rq i))"
        using mode_granted_counted [OF head_okD(5) [OF ok] i] .
      have ok': "head_ok (rq(i := ?q)) ?h" by (rule head_ok_conversion_granted [OF ok i conv(2) False])
      have mc: "more_conflicts h ?h"
        by (rule conversion_granted_more_conflicts [OF ok i conv(2) ok']) simp
      have dec: "decGrantedModeCount (mode (rq i)) (h\<lparr>conversionsCount := conversionsCount h - 1\<rparr>) = Some ?h"
        using inc_dec_granted(2) [of "h\<lparr>conversionsCount := conversionsCount h - 1\<rparr>" "mode (rq i)"]
          masks_ok(1) [OF ok] pos by simp
      have sub': "set is \<subseteq> set (grantedList ?h)" using sub by simp
      from Cons.IH [OF ok' sub', of "nt @ [(i, resourceId h, LOCK_OK)]"]
      obtain rq' h' nt' where r: "unblockConversions is (rq(i := ?q), ?h, nt @ [(i, resourceId h, LOCK_OK)]) = Some (rq', h', nt')"
        "head_ok rq' h'" "head_frame ?h h'" "grantedList h' = grantedList ?h" "conflictList h' = conflictList ?h"
        "more_conflicts ?h h'" "\<forall>j. same_identity ((rq(i := ?q)) j) (rq' j)"
        "\<forall>j. j \<notin> set (grantedList ?h) \<longrightarrow> rq' j = (rq(i := ?q)) j"
        by blast
      have "same_identity (rq j) (rq' j)" for j
      proof (cases "j = i")
        case True
        have "same_identity (rq i) ?q" by (simp add: same_identity_def)
        with True r(7) show ?thesis by (metis fun_upd_same same_identity_trans)
      next
        case False
        with r(7) show ?thesis by (metis fun_upd_other)
      qed
      moreover have "unblockConversions (i # is) (rq, h, nt) = Some (rq', h', nt')"
        using st conv False facts dec r(1) by (simp add: own_contrib contrib_le_1)
      ultimately show ?thesis
        using r mc i by (auto simp: head_frame_def more_conflicts_def split: if_splits)
    qed
  qed
qed


lemma head_ok_grant_waiting:
  assumes ok: "head_ok rq h" and i: "i \<in> set (conflictList h)"
    and free: "\<not> conflicts (mode (rq i)) (grantedModes h)"
  defines "cc \<equiv> (conflictCounts h)(mode (rq i) := conflictCounts h (mode (rq i)) - 1)"
    and "gc \<equiv> (grantedCounts h)(mode (rq i) := Suc (grantedCounts h (mode (rq i))))"
  shows "head_ok (rq(i := (rq i)\<lparr>status := STATUS_GRANTED\<rparr>))
    (h\<lparr>conflictList := remove1 i (conflictList h), conflictCounts := cc, conflictModes := mask_of cc,
       grantedList := grantedList h @ [i], grantedCounts := gc, grantedModes := mask_of gc,
       compatibleFirstCount := (if compatibleFirst (rq i) then Suc (compatibleFirstCount h)
                                else compatibleFirstCount h)\<rparr>)"
proof -
  let ?h = "h\<lparr>conflictList := remove1 i (conflictList h), conflictCounts := cc, conflictModes := mask_of cc\<rparr>"
  have "head_ok (rq(i := rq i)) ?h" unfolding cc_def by (rule head_ok_cancel [OF ok i])
  then have ok1: "head_ok rq ?h" by simp
  have new: "i \<notin> set (grantedList ?h @ conflictList ?h)"
    using ok i by (auto simp: head_ok_def)
  note w = head_ok_waitingD [OF ok i]
  have "head_ok (rq(i := (rq i)\<lparr>status := STATUS_GRANTED\<rparr>))
     (?h\<lparr>grantedList := grantedList ?h @ [i],
        grantedCounts := (grantedCounts ?h)(mode ((rq i)\<lparr>status := STATUS_GRANTED\<rparr>) := Suc (grantedCounts ?h (mode ((rq i)\<lparr>status := STATUS_GRANTED\<rparr>)))),
        grantedModes := mask_of ((grantedCounts ?h)(mode ((rq i)\<lparr>status := STATUS_GRANTED\<rparr>) := Suc (grantedCounts ?h (mode ((rq i)\<lparr>status := STATUS_GRANTED\<rparr>))))),
        compatibleFirstCount := (if compatibleFirst ((rq i)\<lparr>status := STATUS_GRANTED\<rparr>) then Suc (compatibleFirstCount ?h)
                                 else compatibleFirstCount ?h)\<rparr>)"
    using w free by (intro head_ok_grant [OF ok1 new])
      (auto simp: granted_req_ok_def waiting_req_ok_def on_head_def)
  then show ?thesis by (cases "compatibleFirst (rq i)") (simp_all add: gc_def)
qed

definition front_blocked :: "(ReqId \<Rightarrow> LockRequest) \<Rightarrow> LockHead \<Rightarrow> bool" where
  "front_blocked rq h \<longleftrightarrow>
     (case conflictList h of [] \<Rightarrow> True | i # _ \<Rightarrow> conflicts (mode (rq i)) (grantedModes h))"

text \<open>One iteration of the scan that grants request \<open>i\<close>.\<close>

definition grant_one :: "ReqId \<Rightarrow> (ReqId \<Rightarrow> LockRequest) \<Rightarrow> LockHead \<Rightarrow> LockHead" where
  "grant_one i rq h =
     (let cc = (conflictCounts h)(mode (rq i) := conflictCounts h (mode (rq i)) - 1);
          gc = (grantedCounts h)(mode (rq i) := Suc (grantedCounts h (mode (rq i)))) in
      h\<lparr>conflictList := remove1 i (conflictList h), conflictCounts := cc, conflictModes := mask_of cc,
        grantedList := grantedList h @ [i], grantedCounts := gc, grantedModes := mask_of gc,
        compatibleFirstCount := (if compatibleFirst (rq i) then Suc (compatibleFirstCount h)
                                 else compatibleFirstCount h)\<rparr>)"

lemma grantConflicts_step:
  assumes ok: "head_ok rq h" and i: "i \<in> set (conflictList h)"
  shows "grantConflicts (i # is) ncf (rq, h, nt) =
    (if conflicts (mode (rq i)) (grantedModes h)
     then (if take 1 (conflictList h) = [i] \<and> \<not> ncf then Some (rq, h, nt)
           else grantConflicts is ncf (rq, h, nt))
     else (let ctx = (rq(i := (rq i)\<lparr>status := STATUS_GRANTED\<rparr>), grant_one i rq h,
                      nt @ [(i, resourceId h, LOCK_OK)])
           in if mode (rq i) = MODE_X then Some ctx
              else grantConflicts is (ncf \<or> (compatibleFirst (rq i) \<and> compatibleFirstCount h = 0)) ctx))"
proof -
  have "0 < conflictCounts h (mode (rq i))"
    using ok i by (auto simp: head_ok_def counters_ok_def ccount_def count_if_pos)
  then show ?thesis
    using head_ok_waitingD(1) [OF ok i] masks_ok [OF ok]
    by (simp add: waiting_req_ok_def inc_dec_conflict(2) inc_dec_granted(1) grant_one_def)
qed

lemma grant_one_more_conflicts: "head_ok rq h \<Longrightarrow> more_conflicts h (grant_one i rq h)"
  unfolding more_conflicts_def grant_one_def
  by (simp add: masks_ok conflicts_mask_of) (metis zero_less_Suc)

lemma grant_one_lists:
  "grantedList (grant_one i rq h) = grantedList h @ [i]"
  "conflictList (grant_one i rq h) = remove1 i (conflictList h)"
  "head_frame h (grant_one i rq h)"
  by (simp_all add: grant_one_def head_frame_def)

lemma grant_one_ok:
  assumes "head_ok rq h" "i \<in> set (conflictList h)" "\<not> conflicts (mode (rq i)) (grantedModes h)"
  shows "head_ok (rq(i := (rq i)\<lparr>status := STATUS_GRANTED\<rparr>)) (grant_one i rq h)"
  using head_ok_grant_waiting [OF assms] by (simp add: grant_one_def)

lemma same_identity_granted [simp]: "same_identity q (q\<lparr>status := s\<rparr>)"
  by (simp add: same_identity_def)

text \<open>What the scan of the conflict queue establishes, relating the contexts before and after.\<close>

definition grants :: "LockCtx \<Rightarrow> LockCtx \<Rightarrow> bool" where
  "grants = (\<lambda>(rq, h, nt) (rq', h', nt').
     head_ok rq' h' \<and> head_frame h h' \<and> more_conflicts h h' \<and>
     set (grantedList h) \<subseteq> set (grantedList h') \<and>
     set (grantedList h') \<union> set (conflictList h') = set (grantedList h) \<union> set (conflictList h) \<and>
     (\<forall>j. same_identity (rq j) (rq' j) \<and> mode (rq' j) = mode (rq j)) \<and>
     (\<forall>j. j \<notin> set (conflictList h) \<longrightarrow> rq' j = rq j))"

lemma grants_refl: "head_ok rq h \<Longrightarrow> grants (rq, h, nt) (rq, h, nt')"
  by (simp add: grants_def head_frame_def more_conflicts_def)

lemma grants_one:
  assumes "head_ok rq h" "i \<in> set (conflictList h)" "\<not> conflicts (mode (rq i)) (grantedModes h)"
  shows "grants (rq, h, nt) (rq(i := (rq i)\<lparr>status := STATUS_GRANTED\<rparr>), grant_one i rq h, nt')"
  using assms grant_one_ok [OF assms] grant_one_more_conflicts [OF assms(1)] head_okD(2) [OF assms(1)]
  by (auto simp: grants_def grant_one_lists)

lemma grants_trans:
  assumes "grants (rq, h, nt) (rq1, h1, nt1)" "grants (rq1, h1, nt1) (rq2, h2, nt2)"
  shows "grants (rq, h, nt) (rq2, h2, nt2)"
proof -
  have "head_frame h h2" "more_conflicts h h2"
    using assms by (auto simp: grants_def head_frame_def more_conflicts_def)
  moreover have "same_identity (rq j) (rq2 j)" for j
    using assms same_identity_trans by (fastforce simp: grants_def)
  moreover have "rq2 j = rq j" if "j \<notin> set (conflictList h)" for j
  proof -
    have "j \<in> set (grantedList h1) \<or> j \<notin> set (conflictList h1)"
      using assms(1) that by (auto simp: grants_def)
    then have "j \<notin> set (conflictList h1)"
      using assms(1) by (auto simp: grants_def head_ok_def)
    with assms that show ?thesis by (auto simp: grants_def)
  qed
  ultimately show ?thesis using assms by (auto simp: grants_def)
qed

lemma grantConflicts_ok:
  assumes "head_ok rq h" "distinct is" "set is \<subseteq> set (conflictList h)"
  shows "\<exists>ctx'. grantConflicts is ncf (rq, h, nt) = Some ctx' \<and> grants (rq, h, nt) ctx'"
  using assms
proof (induction "is" arbitrary: ncf rq h nt)
  case Nil
  then show ?case by (simp add: grants_refl)
next
  case (Cons i "is")
  from Cons.prems have i: "i \<in> set (conflictList h)" and sub: "set is \<subseteq> set (conflictList h)"
    and d: "distinct is" "i \<notin> set is" by auto
  note ok = Cons.prems(1)
  show ?case
  proof (cases "conflicts (mode (rq i)) (grantedModes h)")
    case True
    then show ?thesis
      using Cons.IH [OF ok d(1) sub] grants_refl [OF ok]
      by (simp only: grantConflicts_step [OF ok i]) auto
  next
    case False
    let ?rq = "rq(i := (rq i)\<lparr>status := STATUS_GRANTED\<rparr>)"
    let ?h = "grant_one i rq h" and ?nt = "nt @ [(i, resourceId h, LOCK_OK)]"
    have ok': "head_ok ?rq ?h" by (rule grant_one_ok [OF ok i False])
    have g: "grants (rq, h, nt) (?rq, ?h, ?nt)" by (rule grants_one [OF ok i False])
    have sub': "set is \<subseteq> set (conflictList ?h)"
      using sub d head_okD(2) [OF ok] by (auto simp: grant_one_lists)
    have "\<exists>ctx'. grantConflicts is b (?rq, ?h, ?nt) = Some ctx' \<and> grants (rq, h, nt) ctx'" for b
      using Cons.IH [OF ok' d(1) sub', of b ?nt] grants_trans [OF g] by (metis prod_cases3)
    then show ?thesis
      using g False by (simp only: grantConflicts_step [OF ok i]) auto
  qed
qed

declare grantConflicts.simps(2) [simp del] unblockConversions.simps(2) [simp del]

text \<open>After the scan the request at the front of the conflict queue is blocked.\<close>

lemma grantConflicts_front:
  assumes "head_ok rq h" "conflictList h = sk @ is"
    "\<forall>j\<in>set sk. conflicts (mode (rq j)) (grantedModes h)"
    "grantConflicts is ncf (rq, h, nt) = Some (rq', h', nt')"
  shows "front_blocked rq' h'"
  using assms
proof (induction "is" arbitrary: sk ncf rq h nt)
  case Nil
  then show ?case by (cases sk) (auto simp: front_blocked_def)
next
  case (Cons i "is")
  have i: "i \<in> set (conflictList h)" using Cons.prems by simp
  note ok = Cons.prems(1) and step = grantConflicts_step [OF ok i, of "is" ncf nt]
  show ?case
  proof (cases "conflicts (mode (rq i)) (grantedModes h)")
    case True
    show ?thesis
    proof (cases "take 1 (conflictList h) = [i] \<and> \<not> ncf")
      case stop: True
      with True Cons.prems(4) step have eq: "rq' = rq" "h' = h" by auto
      from stop have "take 1 (conflictList h) = [i]" ..
      then have "\<exists>xs. conflictList h = i # xs" by (cases "conflictList h") auto
      with True eq show ?thesis by (auto simp: front_blocked_def)
    next
      case False
      with True Cons.prems(4) step have "grantConflicts is ncf (rq, h, nt) = Some (rq', h', nt')" by (auto split: if_splits)
      then show ?thesis
        using Cons.IH [OF ok, of "sk @ [i]"] Cons.prems(2,3) True by auto
    qed
  next
    case False
    let ?rq = "rq(i := (rq i)\<lparr>status := STATUS_GRANTED\<rparr>)" and ?h = "grant_one i rq h"
    have ok': "head_ok ?rq ?h" by (rule grant_one_ok [OF ok i False])
    have dist: "distinct (sk @ i # is)" using head_okD(2) [OF ok] Cons.prems(2) by simp
    then have cl: "conflictList ?h = sk @ is" using Cons.prems(2) by (simp add: grant_one_lists remove1_append)
    have sk: "\<forall>j\<in>set sk. conflicts (mode (?rq j)) (grantedModes ?h)"
      using Cons.prems(3) grant_one_more_conflicts [OF ok, of i] dist by (auto simp: more_conflicts_def)
    show ?thesis
    proof (cases "mode (rq i) = MODE_X")
      case True
      with False Cons.prems(4) step have eq: "rq' = ?rq" "h' = ?h" by auto
      have "conflicts (mode (?rq j)) (grantedModes ?h)" if j: "j \<in> set (conflictList ?h)" for j
      proof -
        have "mode (?rq j) \<noteq> MODE_NONE" using head_ok_waitingD(1) [OF ok' j] by (simp add: waiting_req_ok_def)
        then have "conflicting (mode (?rq j)) MODE_X" by (cases "mode (?rq j)") (auto simp: conflicting_table)
        then show ?thesis
          using True by (auto simp: conflicts_granted_iff [OF ok'] grant_one_lists)
      qed
      then show ?thesis unfolding eq front_blocked_def by (auto split: list.splits)
    next
      case nx: False
      with False Cons.prems(4) step obtain b nt2 where
        "grantConflicts is b (?rq, ?h, nt2) = Some (rq', h', nt')" by auto
      then show ?thesis by (rule Cons.IH [OF ok' cl sk])
    qed
  qed
qed

lemma queue_mask_in_sync:
  assumes "head_ok rq h"
  shows "(grantedModes h = 0) \<noteq> (grantedList h \<noteq> [])" "(conflictModes h = 0) \<noteq> (conflictList h \<noteq> [])"
proof -
  have g: "grantedModes h = 0 \<longleftrightarrow> (\<forall>m. gcount rq (grantedList h) m = 0)"
    and c: "conflictModes h = 0 \<longleftrightarrow> (\<forall>m. ccount rq (conflictList h) m = 0)"
    using assms by (simp_all add: head_ok_def counters_ok_def mask_of_zero)
  show "(grantedModes h = 0) \<noteq> (grantedList h \<noteq> [])"
  proof (cases "grantedList h")
    case (Cons i xs)
    then have "0 < gcount rq (grantedList h) (mode (rq i))" unfolding gcount_pos by auto
    with Cons g show ?thesis by (metis list.distinct(1) not_gr_zero)
  qed (simp add: g)
  show "(conflictModes h = 0) \<noteq> (conflictList h \<noteq> [])"
  proof (cases "conflictList h")
    case (Cons i xs)
    then have "0 < ccount rq (conflictList h) (mode (rq i))" by (simp add: ccount_def)
    with Cons c show ?thesis by (metis list.distinct(1) not_gr_zero)
  qed (simp add: c)
qed

text \<open>
  \<open>_onLockModeChanged\<close> keeps the invariant, never aborts, and leaves the front of the
  conflict queue blocked: always when it scans the queue, and otherwise if it was blocked before.
\<close>

lemma onLockModeChanged_ok:
  assumes ok: "head_ok rq h"
  shows "\<exists>rq' h' nt'. onLockModeChanged check (rq, h, nt) = Some (rq', h', nt') \<and> head_ok rq' h' \<and>
    head_frame h h' \<and>
    set (grantedList h) \<subseteq> set (grantedList h') \<and>
    set (grantedList h') \<union> set (conflictList h') = set (grantedList h) \<union> set (conflictList h) \<and>
    (\<forall>j. same_identity (rq j) (rq' j)) \<and>
    (\<forall>j. j \<notin> set (grantedList h) \<union> set (conflictList h) \<longrightarrow> rq' j = rq j) \<and>
    (check \<or> front_blocked rq h \<longrightarrow> front_blocked rq' h')"
proof -
  obtain rq1 h1 nt1 where u: "unblockConversions (grantedList h) (rq, h, nt) = Some (rq1, h1, nt1)"
    "head_ok rq1 h1" "head_frame h h1" "grantedList h1 = grantedList h" "conflictList h1 = conflictList h"
    "more_conflicts h h1" "\<forall>j. same_identity (rq j) (rq1 j)"
    "\<forall>j. j \<notin> set (grantedList h) \<longrightarrow> rq1 j = rq j"
    using unblockConversions_ok [OF ok order_refl, of nt] by blast
  note sync = queue_mask_in_sync
  show ?thesis
  proof (cases check)
    case True
    obtain rq2 h2 nt2 where g: "grantConflicts (conflictList h1) False (rq1, h1, nt1) = Some (rq2, h2, nt2)"
      "grants (rq1, h1, nt1) (rq2, h2, nt2)"
      using grantConflicts_ok [OF u(2) head_okD(2) [OF u(2)] order_refl, of False nt1] by (metis prod_cases3)
    have ok2: "head_ok rq2 h2" using g by (simp add: grants_def)
    have "front_blocked rq2 h2"
      using grantConflicts_front [OF u(2) _ _ g(1), of "[]"] by simp
    moreover have "same_identity (rq j) (rq2 j)" for j
      using u(7) g(2) same_identity_trans by (fastforce simp: grants_def)
    moreover have "onLockModeChanged check (rq, h, nt) = Some (rq2, h2, nt2)"
      using True u(1) g(1) sync [OF ok2] by (simp add: onLockModeChanged_def)
    ultimately show ?thesis
      using g(2) u ok2 by (auto simp: grants_def head_frame_def)
  next
    case False
    have "front_blocked rq1 h1" if "front_blocked rq h"
    proof (cases "conflictList h")
      case (Cons i xs)
      then have "i \<notin> set (grantedList h)" using ok by (auto simp: head_ok_def)
      with u that Cons show ?thesis by (auto simp: front_blocked_def more_conflicts_def)
    qed (use u in \<open>simp add: front_blocked_def\<close>)
    moreover have "onLockModeChanged check (rq, h, nt) = Some (rq1, h1, nt1)"
      using False u(1) sync [OF u(2)] by (simp add: onLockModeChanged_def)
    ultimately show ?thesis using u False by auto
  qed
qed

end
