(* ===== verification/LockManager.thy ===== *)
theory LockManager
  imports LockHeadInv
begin

unbundle bit_operations_syntax

text \<open>
  The lock manager (\<open>class LockManager\<close> of \<open>lock_manager.cpp\<close>): lock heads in hash
  buckets, partitioned lock heads for intent modes, and the operations \<open>lock\<close>,
  \<open>convert\<close>, \<open>unlock\<close>, \<open>downgrade\<close> and \<open>cleanupUnusedLocks\<close>. Every critical
  section (bucket mutex, partition mutex) is one definition; \<open>lock\<close> has two of them, the
  partitioned fast path and the bucket path, so their interleaving with other operations is
  visible in the step relation of the state machine theory.
\<close>

record LockManager =
  requests :: "ReqId \<Rightarrow> LockRequest"
  buckets :: "nat \<Rightarrow> (ResourceId \<times> LockHead) list"
  partitionData :: "nat \<Rightarrow> (ResourceId \<times> ReqId list) list"
  notified :: "Notification list"

type_synonym PartitionTable = "nat \<Rightarrow> (ResourceId \<times> ReqId list) list"
type_synonym MigrateCtx = "(ReqId \<Rightarrow> LockRequest) \<times> LockHead \<times> PartitionTable"

definition numLockBuckets :: nat where
  "numLockBuckets = 128"

definition numPartitions :: nat where
  "numPartitions = 32"

definition getBucket :: "ResourceId \<Rightarrow> nat" where
  "getBucket r = unat r mod numLockBuckets"

definition getPartition :: "LockRequest \<Rightarrow> nat" where
  "getPartition q = unat (locker q) mod numPartitions"

subsection \<open>Tables\<close>

definition find_head :: "LockManager \<Rightarrow> ResourceId \<Rightarrow> LockHead option" where
  "find_head s r = map_of (buckets s (getBucket r)) r"

definition put_head :: "ResourceId \<Rightarrow> LockHead \<Rightarrow> LockManager \<Rightarrow> LockManager" where
  "put_head r h s =
     s\<lparr>buckets := (buckets s)(getBucket r := AList.update r h (buckets s (getBucket r)))\<rparr>"

definition LockBucket_findOrInsert :: "ResourceId \<Rightarrow> LockManager \<Rightarrow> LockHead \<times> LockManager" where
  "LockBucket_findOrInsert r s =
     (case find_head s r of
        None \<Rightarrow> (let h = LockHead_initNew r in (h, put_head r h s))
      | Some h \<Rightarrow> (h, s))"

definition Partition_find :: "PartitionTable \<Rightarrow> nat \<Rightarrow> ResourceId \<Rightarrow> ReqId list option" where
  "Partition_find pd p r = map_of (pd p) r"

definition Partition_put :: "nat \<Rightarrow> ResourceId \<Rightarrow> ReqId list \<Rightarrow> PartitionTable \<Rightarrow> PartitionTable" where
  "Partition_put p r l pd = pd(p := AList.update r l (pd p))"

definition Partition_erase :: "nat \<Rightarrow> ResourceId \<Rightarrow> PartitionTable \<Rightarrow> PartitionTable" where
  "Partition_erase p r pd = pd(p := AList.delete r (pd p))"

definition Partition_findOrInsert :: "nat \<Rightarrow> ResourceId \<Rightarrow> PartitionTable \<Rightarrow> ReqId list \<times> PartitionTable" where
  "Partition_findOrInsert p r pd =
     (case Partition_find pd p r of
        None \<Rightarrow> ([], Partition_put p r [] pd)
      | Some l \<Rightarrow> (l, pd))"

subsection \<open>Partitioned lock heads\<close>

definition PartitionedLockHead_newRequest ::
  "nat \<Rightarrow> ResourceId \<Rightarrow> ReqId \<Rightarrow> LockRequest \<Rightarrow> ReqId list \<Rightarrow> (LockRequest \<times> ReqId list) option" where
  "PartitionedLockHead_newRequest p r i q l =
     do { ensure (partitioned q);
          ensure (lock q = None);
          Some (q\<lparr>partitionedLock := Some (p, r), status := STATUS_GRANTED\<rparr>, l @ [i]) }"

fun migrateRequests ::
  "ReqId list \<Rightarrow> (ReqId \<Rightarrow> LockRequest) \<times> LockHead \<Rightarrow> ((ReqId \<Rightarrow> LockRequest) \<times> LockHead) option" where
  "migrateRequests [] ctx = Some ctx"
| "migrateRequests (i # is) (rq, h) =
     do { (res, q, h') \<leftarrow> newRequest i ((rq i)\<lparr>partitionedLock := None\<rparr>) h;
          ensure (res = LOCK_OK);
          migrateRequests is (rq(i := q), h') }"

fun migratePartitions :: "nat list \<Rightarrow> MigrateCtx \<Rightarrow> MigrateCtx option" where
  "migratePartitions [] ctx = Some ctx"
| "migratePartitions (p # ps) (rq, h, pd) =
     (case Partition_find pd p (resourceId h) of
        None \<Rightarrow> migratePartitions ps (rq, h\<lparr>partitions := butlast (partitions h)\<rparr>, pd)
      | Some l \<Rightarrow>
          do { (rq', h') \<leftarrow> migrateRequests l (rq, h);
               migratePartitions ps (rq', h'\<lparr>partitions := butlast (partitions h')\<rparr>,
                                     Partition_erase p (resourceId h) pd) })"

definition migratePartitionedLockHeads :: "MigrateCtx \<Rightarrow> MigrateCtx option" where
  "migratePartitionedLockHeads ctx =
     (let h = fst (snd ctx) in
      do { ensure (partitions h \<noteq> []);
           ensure (grantedModes h AND NOT intentModes = 0 \<and> conflictModes h = 0);
           migratePartitions (rev (partitions h)) ctx })"

text \<open>\<open>if (lock->partitioned()) lock->migratePartitionedLockHeads();\<close>\<close>

definition migrateIfPartitioned :: "MigrateCtx \<Rightarrow> MigrateCtx option" where
  "migrateIfPartitioned ctx =
     (if partitions (fst (snd ctx)) \<noteq> [] then migratePartitionedLockHeads ctx else Some ctx)"

subsection \<open>lock\<close>

definition lock_prepare :: "LockMode \<Rightarrow> LockRequest \<Rightarrow> LockRequest option" where
  "lock_prepare m q =
     do { ensure (status q = STATUS_NEW);
          ensure (recursiveCount q = 1);
          Some (q\<lparr>partitioned := (m = MODE_IX \<or> m = MODE_IS), mode := m\<rparr>) }"

text \<open>Fast path, under the partition mutex: \<open>None\<close> inside means "no partitioned head yet".\<close>

definition lock_fast :: "ResourceId \<Rightarrow> ReqId \<Rightarrow> LockManager \<Rightarrow> LockManager option option" where
  "lock_fast r i s =
     (let q = requests s i; p = getPartition q in
      if \<not> partitioned q then Some None
      else (case Partition_find (partitionData s) p r of
              None \<Rightarrow> Some None
            | Some l \<Rightarrow>
                do { (q', l') \<leftarrow> PartitionedLockHead_newRequest p r i q l;
                     Some (Some (s\<lparr>requests := (requests s)(i := q'),
                                   partitionData := Partition_put p r l' (partitionData s)\<rparr>)) }))"

text \<open>Regular path, under the bucket mutex.\<close>

definition lock_slow :: "ResourceId \<Rightarrow> ReqId \<Rightarrow> LockManager \<Rightarrow> (LockResult \<times> LockManager) option" where
  "lock_slow r i s0 =
     (let (h, s) = LockBucket_findOrInsert r s0; q = requests s i in
      if partitioned q \<and> grantedModes h AND NOT intentModes = 0 \<and> conflictModes h = 0
      then (let p = getPartition q; (l, pd) = Partition_findOrInsert p r (partitionData s) in
            do { (q', l') \<leftarrow> PartitionedLockHead_newRequest p r i q l;
                 Some (LOCK_OK, put_head r (h\<lparr>partitions := partitions h @ [p]\<rparr>)
                   (s\<lparr>requests := (requests s)(i := q'), partitionData := Partition_put p r l' pd\<rparr>)) })
      else
        do { (rq, h1, pd) \<leftarrow> migrateIfPartitioned (requests s, h, partitionData s);
             (res, q', h2) \<leftarrow> newRequest i ((rq i)\<lparr>partitioned := False\<rparr>) h1;
             Some (res, put_head r h2 (s\<lparr>requests := rq(i := q'), partitionData := pd\<rparr>)) })"

definition LockManager_lock ::
  "ResourceId \<Rightarrow> ReqId \<Rightarrow> LockMode \<Rightarrow> LockManager \<Rightarrow> (LockResult \<times> LockManager) option" where
  "LockManager_lock r i m s =
     do { q \<leftarrow> lock_prepare m (requests s i);
          let s1 = s\<lparr>requests := (requests s)(i := q)\<rparr>;
          fast \<leftarrow> lock_fast r i s1;
          (case fast of Some s2 \<Rightarrow> Some (LOCK_OK, s2) | None \<Rightarrow> lock_slow r i s1) }"

subsection \<open>convert\<close>

definition LockManager_convert ::
  "ResourceId \<Rightarrow> ReqId \<Rightarrow> LockMode \<Rightarrow> LockManager \<Rightarrow> (LockResult \<times> LockManager) option" where
  "LockManager_convert r i newMode s =
     (let q = requests s i; q1 = q\<lparr>recursiveCount := Suc (recursiveCount q)\<rparr> in
      do { ensure (status q = STATUS_GRANTED);
           ensure (recursiveCount q > 0);
           if (LockConflictsTable (mode q) OR LockConflictsTable newMode) = LockConflictsTable (mode q)
           then Some (LOCK_OK, s\<lparr>requests := (requests s)(i := q1)\<rparr>)
           else do {
             ensure ((LockConflictsTable (mode q) OR LockConflictsTable newMode) = LockConflictsTable newMode);
             h0 \<leftarrow> find_head s r;
             (rq, h, pd) \<leftarrow> migrateIfPartitioned ((requests s)(i := q1), h0, partitionData s);
             let own = (\<lambda>m. if mode (rq i) = m then 1 else 0);
             if conflicts newMode (grantedModesWithout (grantedCounts h) own)
             then do {
               h1 \<leftarrow> incGrantedModeCount newMode (h\<lparr>conversionsCount := Suc (conversionsCount h)\<rparr>);
               Some (LOCK_WAITING, put_head r h1
                 (s\<lparr>requests := rq(i := (rq i)\<lparr>status := STATUS_CONVERTING, convertMode := newMode\<rparr>),
                    partitionData := pd\<rparr>)) }
             else do {
               h1 \<leftarrow> incGrantedModeCount newMode h;
               h2 \<leftarrow> decGrantedModeCount (mode (rq i)) h1;
               Some (LOCK_OK, put_head r h2
                 (s\<lparr>requests := rq(i := (rq i)\<lparr>mode := newMode\<rparr>), partitionData := pd\<rparr>)) } } })"

subsection \<open>unlock and downgrade\<close>

definition put_ctx :: "ResourceId \<Rightarrow> LockCtx \<Rightarrow> LockManager \<Rightarrow> LockManager" where
  "put_ctx r = (\<lambda>(rq, h, nt) s. put_head r h (s\<lparr>requests := rq, notified := nt\<rparr>))"

text \<open>The three branches of \<open>unlock\<close> under the bucket mutex; \<open>q\<close> has the decremented count.\<close>

definition unlock_granted :: "ReqId \<Rightarrow> LockRequest \<Rightarrow> LockCtx \<Rightarrow> LockCtx option" where
  "unlock_granted i q = (\<lambda>(rq, h, nt).
     do { h1 \<leftarrow> decGrantedModeCount (mode q) (h\<lparr>grantedList := remove1 i (grantedList h)\<rparr>);
          h2 \<leftarrow> (if compatibleFirst q
                 then do { ensure (compatibleFirstCount h1 > 0);
                           let h' = h1\<lparr>compatibleFirstCount := compatibleFirstCount h1 - 1\<rparr>;
                           ensure (compatibleFirstCount h' = 0 \<or> grantedList h' \<noteq> []);
                           Some h' }
                 else Some h1);
          onLockModeChanged (grantedCounts h2 (mode q) = 0) (rq(i := q), h2, nt) })"

definition unlock_waiting :: "ReqId \<Rightarrow> LockRequest \<Rightarrow> LockCtx \<Rightarrow> LockCtx option" where
  "unlock_waiting i q = (\<lambda>(rq, h, nt).
     do { ensure (recursiveCount q = 0);
          h1 \<leftarrow> decConflictModeCount (mode q) (h\<lparr>conflictList := remove1 i (conflictList h)\<rparr>);
          onLockModeChanged True (rq(i := q), h1, nt) })"

definition unlock_converting :: "ReqId \<Rightarrow> LockRequest \<Rightarrow> LockCtx \<Rightarrow> LockCtx option" where
  "unlock_converting i q = (\<lambda>(rq, h, nt).
     do { ensure (recursiveCount q > 0);
          ensure (conversionsCount h > 0);
          h1 \<leftarrow> decGrantedModeCount (convertMode q) (h\<lparr>conversionsCount := conversionsCount h - 1\<rparr>);
          let q' = q\<lparr>status := STATUS_GRANTED, convertMode := MODE_NONE\<rparr>;
          onLockModeChanged (grantedCounts h1 (convertMode q') = 0) (rq(i := q'), h1, nt) })"

definition unlock_head :: "ReqId \<Rightarrow> LockManager \<Rightarrow> (bool \<times> LockManager) option" where
  "unlock_head i s =
     (let q = requests s i in
      do { r \<leftarrow> lock q;
           h \<leftarrow> find_head s r;
           ctx \<leftarrow> (case status q of
                     STATUS_GRANTED \<Rightarrow> unlock_granted i q (requests s, h, notified s)
                   | STATUS_WAITING \<Rightarrow> unlock_waiting i q (requests s, h, notified s)
                   | STATUS_CONVERTING \<Rightarrow> unlock_converting i q (requests s, h, notified s)
                   | STATUS_NEW \<Rightarrow> None);
           Some (recursiveCount q = 0, put_ctx r ctx s) })"

definition LockManager_unlock :: "ReqId \<Rightarrow> LockManager \<Rightarrow> (bool \<times> LockManager) option" where
  "LockManager_unlock i s0 =
     (let q0 = requests s0 i; q = q0\<lparr>recursiveCount := recursiveCount q0 - 1\<rparr>;
          s = s0\<lparr>requests := (requests s0)(i := q)\<rparr> in
      do { ensure (recursiveCount q0 > 0);
           if status q = STATUS_GRANTED \<and> recursiveCount q > 0 then Some (False, s)
           else if partitioned q then
             do { ensure (status q = STATUS_GRANTED \<or> status q = STATUS_CONVERTING);
                  (case partitionedLock q of
                     Some (p, r) \<Rightarrow>
                       do { l \<leftarrow> Partition_find (partitionData s) p r;
                            Some (True, s\<lparr>partitionData := Partition_put p r (remove1 i l) (partitionData s)\<rparr>) }
                   | None \<Rightarrow> unlock_head i s) }
           else unlock_head i s })"

definition LockManager_downgrade :: "ReqId \<Rightarrow> LockMode \<Rightarrow> LockManager \<Rightarrow> LockManager option" where
  "LockManager_downgrade i newMode s =
     (let q = requests s i in
      do { r \<leftarrow> lock q;
           ensure (status q = STATUS_GRANTED);
           ensure (recursiveCount q > 0);
           ensure ((LockConflictsTable (mode q) OR LockConflictsTable newMode) = LockConflictsTable (mode q));
           h \<leftarrow> find_head s r;
           h1 \<leftarrow> incGrantedModeCount newMode h;
           h2 \<leftarrow> decGrantedModeCount (mode q) h1;
           ctx \<leftarrow> onLockModeChanged True ((requests s)(i := q\<lparr>mode := newMode\<rparr>), h2, notified s);
           Some (put_ctx r ctx s) })"

subsection \<open>cleanupUnusedLocks\<close>

fun cleanupUnusedLocksInBucket ::
  "(ResourceId \<times> LockHead) list \<Rightarrow> (ReqId \<Rightarrow> LockRequest) \<times> PartitionTable \<Rightarrow>
   ((ResourceId \<times> LockHead) list \<times> (ReqId \<Rightarrow> LockRequest) \<times> PartitionTable) option" where
  "cleanupUnusedLocksInBucket [] (rq, pd) = Some ([], rq, pd)"
| "cleanupUnusedLocksInBucket ((r, h0) # es) (rq0, pd0) =
     do { (rq, h, pd) \<leftarrow> migrateIfPartitioned (rq0, h0, pd0);
          if grantedModes h = 0
          then do { ensure (grantedList h = []);
                    ensure (conflictModes h = 0);
                    ensure (conflictList h = []);
                    ensure (conversionsCount h = 0);
                    ensure (compatibleFirstCount h = 0);
                    cleanupUnusedLocksInBucket es (rq, pd) }
          else do { (es', rq', pd') \<leftarrow> cleanupUnusedLocksInBucket es (rq, pd);
                    Some ((r, h) # es', rq', pd') } }"

fun cleanupBuckets :: "nat list \<Rightarrow> LockManager \<Rightarrow> LockManager option" where
  "cleanupBuckets [] s = Some s"
| "cleanupBuckets (b # bs) s =
     do { (es, rq, pd) \<leftarrow> cleanupUnusedLocksInBucket (buckets s b) (requests s, partitionData s);
          cleanupBuckets bs (s\<lparr>buckets := (buckets s)(b := es), requests := rq, partitionData := pd\<rparr>) }"

definition cleanupUnusedLocks :: "LockManager \<Rightarrow> LockManager option" where
  "cleanupUnusedLocks s = cleanupBuckets [0..<numLockBuckets] s"

end
