(* ===== verification/LockManagerInv.thy ===== *)
theory LockManagerInv
  imports LockManager
begin

unbundle bit_operations_syntax

text \<open>
  The global invariant of the lock manager: every lock head satisfies \<open>head_ok\<close>, a head
  that references partitions has only intent modes granted and nobody waiting, every request on
  a partitioned lock head is a granted intent request, and the two hash tables keep each key in
  its own bucket. This theory proves it for the tables and for the migration of partitioned
  requests; \<open>LockManagerOps\<close> proves it for the operations.
\<close>

subsection \<open>The tables as keyed stores\<close>

text \<open>
  Buckets and partitions are both used through find and put only; \<open>findOrInsert\<close> is
  derived from them. The contract is stated once and interpreted on both tables.
\<close>

locale keyed_store =
  fixes lookup :: "'s \<Rightarrow> 'k \<Rightarrow> 'v option"
    and put :: "'k \<Rightarrow> 'v \<Rightarrow> 's \<Rightarrow> 's"
  assumes lookup_put: "lookup (put k v s) = (lookup s)(k \<mapsto> v)"
begin

lemma find_or_insert:
  assumes "(v, s') = (case lookup s k of None \<Rightarrow> (d, put k d s) | Some v \<Rightarrow> (v, s))"
  shows "lookup s' = (lookup s)(k \<mapsto> v)" "lookup s k = None \<Longrightarrow> v = d" "lookup s k = Some w \<Longrightarrow> v = w"
  using assms by (auto simp: lookup_put split: option.splits)

lemma insert_is_put:
  assumes "(v, s') = (case lookup s k of None \<Rightarrow> (d, put k d s) | Some v \<Rightarrow> (v, s))"
  shows "lookup (put k w s') = lookup (put k w s)"
  using find_or_insert(1) [OF assms] by (simp add: lookup_put)

end

lemma find_head_put: "find_head (put_head r h s) = (find_head s)(r \<mapsto> h)"
  by (rule ext) (auto simp: find_head_def put_head_def update_conv')

interpretation heads: keyed_store find_head put_head
  by unfold_locales (rule find_head_put)

interpretation parts: keyed_store "\<lambda>pd (p, r). Partition_find pd p r" "\<lambda>(p, r) l. Partition_put p r l"
  by unfold_locales (auto simp: Partition_find_def Partition_put_def update_conv' fun_eq_iff split: if_splits)

lemma Partition_find_put [simp]:
  "Partition_find (Partition_put p r l pd) p' r' =
     (if p' = p \<and> r' = r then Some l else Partition_find pd p' r')"
  using parts.lookup_put [of "(p, r)" l pd] by (auto dest: fun_cong [of _ _ "(p', r')"])

lemma Partition_find_erase [simp]:
  "Partition_find (Partition_erase p r pd) p' r' =
     (if p' = p \<and> r' = r then None else Partition_find pd p' r')"
  by (auto simp: Partition_find_def Partition_erase_def delete_conv')

lemma put_head_sel [simp]:
  "requests (put_head r h s) = requests s" "partitionData (put_head r h s) = partitionData s"
  "notified (put_head r h s) = notified s"
  by (simp_all add: put_head_def)

lemma find_head_other [simp]:
  "find_head (s\<lparr>requests := a\<rparr>) = find_head s" "find_head (s\<lparr>partitionData := b\<rparr>) = find_head s"
  "find_head (s\<lparr>notified := c\<rparr>) = find_head s"
  by (simp_all add: find_head_def fun_eq_iff)

definition tables_ok :: "LockManager \<Rightarrow> bool" where
  "tables_ok s \<longleftrightarrow> (\<forall>b. distinct (map fst (buckets s b)) \<and> fst ` set (buckets s b) \<subseteq> {k. getBucket k = b})"

lemma tables_ok_put_head: "tables_ok s \<Longrightarrow> tables_ok (put_head r h s)"
  by (simp add: tables_ok_def put_head_def distinct_update dom_update)

lemma tables_ok_other [simp]:
  "tables_ok (s\<lparr>requests := a\<rparr>) = tables_ok s" "tables_ok (s\<lparr>partitionData := b\<rparr>) = tables_ok s"
  "tables_ok (s\<lparr>notified := c\<rparr>) = tables_ok s"
  by (simp_all add: tables_ok_def)

subsection \<open>The invariant\<close>

definition intent :: "LockMode \<Rightarrow> bool" where
  "intent m \<longleftrightarrow> m = MODE_IS \<or> m = MODE_IX"

definition intent_only :: "LockHead \<Rightarrow> bool" where
  "intent_only h \<longleftrightarrow> grantedModes h AND NOT intentModes = 0 \<and> conflictModes h = 0"

definition part_req_ok :: "nat \<Rightarrow> ResourceId \<Rightarrow> LockRequest \<Rightarrow> bool" where
  "part_req_ok p r q \<longleftrightarrow>
     status q = STATUS_GRANTED \<and> intent (mode q) \<and> convertMode q = MODE_NONE \<and> 1 \<le> recursiveCount q \<and>
     partitionedLock q = Some (p, r) \<and> lock q = None \<and> partitioned q"

type_synonym HeadMap = "ResourceId \<Rightarrow> LockHead option"
type_synonym PartMap = "nat \<Rightarrow> ResourceId \<Rightarrow> ReqId list option"

definition members :: "LockHead \<Rightarrow> ReqId set" where
  "members h = set (grantedList h) \<union> set (conflictList h)"

definition lm_inv :: "(ReqId \<Rightarrow> LockRequest) \<Rightarrow> HeadMap \<Rightarrow> PartMap \<Rightarrow> bool" where
  "lm_inv rq F P \<longleftrightarrow>
     (\<forall>r h. F r = Some h \<longrightarrow> head_ok rq h \<and> resourceId h = r \<and> (partitions h \<noteq> [] \<longrightarrow> intent_only h)) \<and>
     (\<forall>p r l. P p r = Some l \<longrightarrow> distinct l \<and> (\<forall>i\<in>set l. part_req_ok p r (rq i)) \<and>
        (\<exists>h. F r = Some h \<and> p \<in> set (partitions h)))"

definition lm_ok :: "LockManager \<Rightarrow> bool" where
  "lm_ok s \<longleftrightarrow> tables_ok s \<and> lm_inv (requests s) (find_head s) (Partition_find (partitionData s))"

lemma lm_invD:
  assumes "lm_inv rq F P"
  shows "F r = Some h \<Longrightarrow> head_ok rq h" "F r = Some h \<Longrightarrow> resourceId h = r"
    "F r = Some h \<Longrightarrow> partitions h \<noteq> [] \<Longrightarrow> intent_only h"
    "P p r = Some l \<Longrightarrow> distinct l" "P p r = Some l \<Longrightarrow> i \<in> set l \<Longrightarrow> part_req_ok p r (rq i)"
    "P p r = Some l \<Longrightarrow> F r = Some h \<Longrightarrow> p \<in> set (partitions h)"
    "P p r = Some l \<Longrightarrow> \<exists>h. F r = Some h"
proof -
  show "F r = Some h \<Longrightarrow> head_ok rq h" "F r = Some h \<Longrightarrow> resourceId h = r"
    "F r = Some h \<Longrightarrow> partitions h \<noteq> [] \<Longrightarrow> intent_only h"
    "P p r = Some l \<Longrightarrow> distinct l" "P p r = Some l \<Longrightarrow> i \<in> set l \<Longrightarrow> part_req_ok p r (rq i)"
    "P p r = Some l \<Longrightarrow> \<exists>h. F r = Some h"
    using assms unfolding lm_inv_def by blast+
  show "P p r = Some l \<Longrightarrow> F r = Some h \<Longrightarrow> p \<in> set (partitions h)"
  proof -
    assume "P p r = Some l" "F r = Some h"
    moreover from this have "\<exists>h. F r = Some h \<and> p \<in> set (partitions h)"
      using assms unfolding lm_inv_def by blast
    ultimately show ?thesis by auto
  qed
qed

lemma lm_invI:
  assumes "\<And>r h. F r = Some h \<Longrightarrow> head_ok rq h \<and> resourceId h = r \<and> (partitions h \<noteq> [] \<longrightarrow> intent_only h)"
    and "\<And>p r l. P p r = Some l \<Longrightarrow> distinct l" "\<And>p r l i. P p r = Some l \<Longrightarrow> i \<in> set l \<Longrightarrow> part_req_ok p r (rq i)"
    and "\<And>p r l. P p r = Some l \<Longrightarrow> \<exists>h. F r = Some h \<and> p \<in> set (partitions h)"
  shows "lm_inv rq F P"
  using assms unfolding lm_inv_def by blast

lemma intent_mask: "mask_of c AND NOT intentModes = 0 \<longleftrightarrow> (\<forall>m. 0 < c m \<longrightarrow> intent m)"
proof -
  have b: "bit intentModes n \<longleftrightarrow> n = 1 \<or> n = 2" for n
    by (auto simp: intentModes_def bit_or_iff)
  have nb: "bit (NOT intentModes) (mode_num m) \<longleftrightarrow> \<not> intent m" for m
    by (cases m) (simp_all add: bit_not_iff b intent_def)
  have "mask_of c AND NOT intentModes \<noteq> 0 \<longleftrightarrow> (\<exists>m. 0 < c m \<and> \<not> intent m)"
    unfolding and_nonzero_bits bit_mask_of using nb by blast
  then show ?thesis by blast
qed

lemma intent_only_iff:
  assumes "head_ok rq h"
  shows "intent_only h \<longleftrightarrow> (\<forall>m. 0 < grantedCounts h m \<longrightarrow> intent m) \<and> conflictList h = []"
  using queue_mask_in_sync(2) [OF assms] by (auto simp: intent_only_def masks_ok(1) [OF assms] intent_mask)

lemma intent_compatible: "intent m \<Longrightarrow> intent m' \<Longrightarrow> \<not> conflicting m m'"
  by (auto simp: intent_def conflicting_table)

lemma intent_only_free:
  assumes "head_ok rq h" "intent_only h" "intent m"
  shows "\<not> blocked m h"
proof -
  have "conflictCounts h = (\<lambda>_. 0)"
    using assms(1,2) intent_only_iff [OF assms(1)] by (auto simp: head_ok_def counters_ok_def)
  then show ?thesis
    using assms intent_only_iff [OF assms(1)] intent_compatible
    by (auto simp: blocked_def masks_ok [OF assms(1)] conflicts_mask_of)
qed

lemma head_ok_cong:
  assumes "\<And>i. i \<in> members h \<Longrightarrow> rq' i = rq i"
  shows "head_ok rq' h = head_ok rq h"
proof -
  have "gcount rq' (grantedList h) = gcount rq (grantedList h)"
       "ccount rq' (conflictList h) = ccount rq (conflictList h)"
       "rcount Q rq' (grantedList h) = rcount Q rq (grantedList h)" for Q
    using assms unfolding gcount_def ccount_def rcount_def members_def
    by (auto intro!: ext count_if_cong arg_cong2 [where f = "(+)"])
  then show ?thesis
    using assms by (auto simp: head_ok_def counters_ok_def compatible_def members_def)
qed

text \<open>Where a request can be queued other than on the head of resource \<open>r\<close>.\<close>

definition elsewhere :: "HeadMap \<Rightarrow> PartMap \<Rightarrow> ResourceId \<Rightarrow> ReqId \<Rightarrow> bool" where
  "elsewhere F P r j \<longleftrightarrow> (\<exists>r' h. r' \<noteq> r \<and> F r' = Some h \<and> j \<in> members h) \<or>
     (\<exists>p r' l. P p r' = Some l \<and> j \<in> set l)"

definition queued :: "HeadMap \<Rightarrow> PartMap \<Rightarrow> ReqId \<Rightarrow> bool" where
  "queued F P j \<longleftrightarrow> (\<exists>r h. F r = Some h \<and> j \<in> members h) \<or> (\<exists>p r l. P p r = Some l \<and> j \<in> set l)"

lemma member_head:
  assumes "lm_inv rq F P" "F r = Some h" "j \<in> members h"
  shows "lock (rq j) = Some r" "partitionedLock (rq j) = None"
  using assms head_ok_grantedD [OF lm_invD(1) [OF assms(1,2)]] head_ok_waitingD [OF lm_invD(1) [OF assms(1,2)]]
    lm_invD(2) [OF assms(1,2)] by (auto simp: members_def)

lemma member_not_elsewhere:
  assumes "lm_inv rq F P" "F r = Some h" "j \<in> members h"
  shows "\<not> elsewhere F P r j"
proof
  assume "elsewhere F P r j"
  then consider r' h' where "r' \<noteq> r" "F r' = Some h'" "j \<in> members h'"
    | p r' l where "P p r' = Some l" "j \<in> set l" by (auto simp: elsewhere_def)
  then show False
    using member_head [OF assms] member_head(1) [OF assms(1)] lm_invD(5) [OF assms(1)]
    by cases (auto simp: part_req_ok_def)
qed

lemma queued_upd: "queued (F(r \<mapsto> h)) P j \<longleftrightarrow> j \<in> members h \<or> elsewhere F P r j"
  unfolding queued_def elsewhere_def by (metis fun_upd_other fun_upd_same option.inject)

lemma queued_Some: "F r = Some h \<Longrightarrow> queued F P j \<longleftrightarrow> j \<in> members h \<or> elsewhere F P r j"
  using queued_upd [of F r h P j] by (simp add: map_upd_triv)

lemma queued_None: "F r = None \<Longrightarrow> queued F P j \<longleftrightarrow> elsewhere F P r j"
  unfolding queued_def elsewhere_def by (metis option.distinct(1))

lemma not_queued_not_elsewhere: "\<not> queued F P j \<Longrightarrow> \<not> elsewhere F P r j"
  by (auto simp: queued_def elsewhere_def)

lemma lm_inv_head_update:
  assumes inv: "lm_inv rq F P"
    and h': "head_ok rq' h'" "resourceId h' = r" "partitions h' \<noteq> [] \<Longrightarrow> intent_only h'"
    and parts: "\<And>p l. P p r = Some l \<Longrightarrow> p \<in> set (partitions h')"
    and frame: "\<And>j. elsewhere F P r j \<Longrightarrow> rq' j = rq j"
  shows "lm_inv rq' (F(r \<mapsto> h')) P"
proof -
  have "head_ok rq' h" if "F r2 = Some h" "r2 \<noteq> r" for r2 h
  proof -
    have "rq' i = rq i" if "i \<in> members h" for i
      using that \<open>F r2 = Some h\<close> \<open>r2 \<noteq> r\<close> by (intro frame) (auto simp: elsewhere_def)
    then show ?thesis using head_ok_cong [of h rq' rq] lm_invD(1) [OF inv that(1)] by blast
  qed
  moreover have "part_req_ok p r2 (rq' i)" if "P p r2 = Some l" "i \<in> set l" for p r2 l i
  proof -
    have "rq' i = rq i" using that by (intro frame) (auto simp: elsewhere_def)
    then show ?thesis using lm_invD(5) [OF inv that] by simp
  qed
  ultimately show ?thesis
    using h' parts lm_invD(2,3,4,6,7) [OF inv] unfolding lm_inv_def
    by (intro conjI allI impI ballI) (auto split: if_splits, metis)
qed

text \<open>Changing a request that is not queued, and changing one partitioned lock head.\<close>

lemma lm_inv_fresh:
  assumes inv: "lm_inv rq F P" and new: "\<not> queued F P i"
  shows "lm_inv (rq(i := q)) F P"
proof (rule lm_invI)
  fix r h assume F: "F r = Some h"
  then have "i \<notin> members h" using new by (auto simp: queued_def)
  then have "head_ok (rq(i := q)) h"
    using head_ok_cong [of h "rq(i := q)" rq] lm_invD(1) [OF inv F] by fastforce
  then show "head_ok (rq(i := q)) h \<and> resourceId h = r \<and> (partitions h \<noteq> [] \<longrightarrow> intent_only h)"
    using lm_invD(2,3) [OF inv F] by simp
next
  fix p r l assume P: "P p r = Some l"
  show "distinct l" "\<exists>h. F r = Some h \<and> p \<in> set (partitions h)"
    using lm_invD(4,6,7) [OF inv P] by blast+
  show "part_req_ok p r ((rq(i := q)) j)" if "j \<in> set l" for j
    using lm_invD(5) [OF inv P that] new P that by (auto simp: queued_def)
qed

lemma lm_inv_partition_update:
  assumes inv: "lm_inv rq F P" and h: "F r = Some h" "p \<in> set (partitions h)"
    and l: "distinct l" "\<And>i. i \<in> set l \<Longrightarrow> part_req_ok p r (rq i)"
  shows "lm_inv rq F (P(p := (P p)(r \<mapsto> l)))"
proof (rule lm_invI)
  fix r h assume F: "F r = Some h"
  then show "head_ok rq h \<and> resourceId h = r \<and> (partitions h \<noteq> [] \<longrightarrow> intent_only h)"
    using lm_invD(1,2,3) [OF inv F] by simp
next
  fix p2 r2 l2 assume P: "(P(p := (P p)(r \<mapsto> l))) p2 r2 = Some l2"
  have "distinct l2 \<and> (\<exists>h. F r2 = Some h \<and> p2 \<in> set (partitions h)) \<and> (\<forall>j\<in>set l2. part_req_ok p2 r2 (rq j))"
  proof (cases "p2 = p \<and> r2 = r")
    case True
    then have "l2 = l" using P by simp
    with True l h show ?thesis by blast
  next
    case False
    then have P2: "P p2 r2 = Some l2" using P by (cases "p2 = p") auto
    show ?thesis using lm_invD(4,5,6,7) [OF inv P2] by blast
  qed
  then show "distinct l2" "\<exists>h. F r2 = Some h \<and> p2 \<in> set (partitions h)"
    and "\<And>j. j \<in> set l2 \<Longrightarrow> part_req_ok p2 r2 (rq j)" by blast+
qed

text \<open>The safety statement: all holders of a resource, on the head and on its partitions.\<close>

definition holders :: "LockManager \<Rightarrow> ResourceId \<Rightarrow> ReqId set" where
  "holders s r = (case find_head s r of None \<Rightarrow> {} | Some h \<Rightarrow> set (grantedList h)) \<union>
     {i. \<exists>p l. Partition_find (partitionData s) p r = Some l \<and> i \<in> set l}"

lemma lm_ok_compatible:
  assumes "lm_ok s"
  shows "compatible (requests s) (holders s r)"
proof -
  let ?F = "find_head s" and ?P = "Partition_find (partitionData s)" and ?rq = "requests s"
  have inv: "lm_inv ?rq ?F ?P" using assms by (simp add: lm_ok_def)
  show ?thesis
  proof (cases "\<exists>p l. ?P p r = Some l")
    case False
    then show ?thesis
      using head_okD(4) [OF lm_invD(1) [OF inv]]
      by (auto simp: holders_def compatible_def split: option.splits)
  next
    case True
    then obtain h where h: "?F r = Some h" "partitions h \<noteq> []"
      using lm_invD(6,7) [OF inv] by (metis empty_iff empty_set)
    have "intent (mode (?rq i))" if "i \<in> set (grantedList h)" for i
      using that intent_only_iff [OF lm_invD(1) [OF inv h(1)]] lm_invD(3) [OF inv h]
        mode_granted_counted [OF head_okD(5) [OF lm_invD(1) [OF inv h(1)]] that] by blast
    moreover have "intent (mode (?rq i))" if "?P p r = Some l" "i \<in> set l" for p l i
      using lm_invD(5) [OF inv that] by (simp add: part_req_ok_def)
    ultimately have "intent (mode (?rq i))" if "i \<in> holders s r" for i
      using that h(1) by (auto simp: holders_def)
    then show ?thesis using intent_compatible by (auto simp: compatible_def)
  qed
qed

subsection \<open>Migration of partitioned requests\<close>

abbreviation migrated :: "ResourceId \<Rightarrow> LockRequest \<Rightarrow> LockRequest" where
  "migrated r q \<equiv> q\<lparr>partitionedLock := None, lock := Some r\<rparr>"

lemma migrateRequests_ok:
  assumes "head_ok rq h" "intent_only h" "distinct l" "resourceId h = r"
    "\<And>i. i \<in> set l \<Longrightarrow> part_req_ok p r (rq i)"
  shows "\<exists>h'. migrateRequests l (rq, h) = Some (\<lambda>j. if j \<in> set l then migrated r (rq j) else rq j, h') \<and>
    head_ok (\<lambda>j. if j \<in> set l then migrated r (rq j) else rq j) h' \<and> intent_only h' \<and>
    grantedList h' = grantedList h @ l \<and> conflictList h' = conflictList h \<and> head_frame h h'"
  using assms
proof (induction l arbitrary: rq h)
  case Nil
  then show ?case by (simp add: head_frame_def)
next
  case (Cons i l)
  let ?q = "(rq i)\<lparr>partitionedLock := None\<rparr>"
  let ?q' = "migrated r (rq i)"
  let ?rq = "rq(i := ?q')"
  have po: "part_req_ok p r (rq i)" using Cons.prems by simp
  then have st: "?q\<lparr>lock := Some r, status := STATUS_GRANTED\<rparr> = ?q'"
    by (cases "rq i") (auto simp: part_req_ok_def)
  have new: "i \<notin> set (grantedList h @ conflictList h)"
    using po head_ok_grantedD(3) [OF Cons.prems(1)] head_ok_waitingD(3) [OF Cons.prems(1)]
    by (auto simp: part_req_ok_def)
  have free: "\<not> blocked (mode ?q) h"
    using po intent_only_free [OF Cons.prems(1,2)] by (simp add: part_req_ok_def)
  have q: "partitionedLock ?q = None" "convertMode ?q = MODE_NONE" "1 \<le> recursiveCount ?q"
    using po by (simp_all add: part_req_ok_def)
  obtain h1 where n: "newRequest i ?q h = Some (LOCK_OK, ?q', h1)" "head_ok ?rq h1"
      "grantedList h1 = grantedList h @ [i]" "conflictList h1 = conflictList h" "resourceId h1 = r"
      "partitions h1 = partitions h"
      "grantedCounts h1 = (grantedCounts h)(mode (rq i) := Suc (grantedCounts h (mode (rq i))))"
    using newRequest_granted [OF Cons.prems(1) new q free] st Cons.prems(4) by auto
  have io: "intent_only h1"
    using n Cons.prems(2) po by (auto simp: intent_only_iff [OF n(2)] intent_only_iff [OF Cons.prems(1)] part_req_ok_def)
  have "distinct l" "\<And>j. j \<in> set l \<Longrightarrow> part_req_ok p r (?rq j)" using Cons.prems by auto
  from Cons.IH [OF n(2) io this(1) n(5) this(2)]
  obtain h' where r: "migrateRequests l (?rq, h1) = Some (\<lambda>j. if j \<in> set l then migrated r (?rq j) else ?rq j, h')"
    "head_ok (\<lambda>j. if j \<in> set l then migrated r (?rq j) else ?rq j) h'" "intent_only h'"
    "grantedList h' = grantedList h1 @ l" "conflictList h' = conflictList h1" "head_frame h1 h'" by blast
  have eq: "(\<lambda>j. if j \<in> set l then migrated r (?rq j) else ?rq j)
          = (\<lambda>j. if j \<in> set (i # l) then migrated r (rq j) else rq j)"
    using Cons.prems(3) by auto
  show ?case
    using n(1) r(1) r(2-6) n(3-6) unfolding eq by (simp add: head_frame_def Cons.prems(4))
qed

definition parts_of :: "PartMap \<Rightarrow> ResourceId \<Rightarrow> ReqId set" where
  "parts_of P r = {i. \<exists>p l. P p r = Some l \<and> i \<in> set l}"

text \<open>The result of migrating resource \<open>r\<close>: its partitioned requests are on the head.\<close>

definition migration_result ::
  "(ReqId \<Rightarrow> LockRequest) \<Rightarrow> HeadMap \<Rightarrow> PartMap \<Rightarrow> ResourceId \<Rightarrow> LockHead \<Rightarrow>
   (ReqId \<Rightarrow> LockRequest) \<Rightarrow> LockHead \<Rightarrow> PartMap \<Rightarrow> bool" where
  "migration_result rq F P r h rq' h' P' \<longleftrightarrow>
     lm_inv rq' (F(r \<mapsto> h')) P' \<and> intent_only h' \<and> partitions h' = [] \<and>
     (\<forall>p r'. P' p r' = (if r' = r then None else P p r')) \<and>
     set (grantedList h') = set (grantedList h) \<union> parts_of P r \<and> conflictList h' = conflictList h \<and>
     (\<forall>j. rq' j = (if j \<in> parts_of P r then migrated r (rq j) else rq j))"

lemma lm_inv_migrate_one:
  assumes inv: "lm_inv rq F P" and h: "F r = Some h" "partitions h = ps @ [p]" "P p r = Some l"
  defines "rq' \<equiv> (\<lambda>j. if j \<in> set l then migrated r (rq j) else rq j)"
  shows "\<exists>h'. migrateRequests l (rq, h) = Some (rq', h') \<and> intent_only h' \<and> partitions h' = ps @ [p] \<and>
    resourceId h' = r \<and> set (grantedList h') = set (grantedList h) \<union> set l \<and>
    conflictList h' = conflictList h \<and>
    lm_inv rq' (F(r \<mapsto> h'\<lparr>partitions := ps\<rparr>)) (P(p := (P p)(r := None)))"
proof -
  note ok = lm_invD(1) [OF inv h(1)]
  have io: "intent_only h" using lm_invD(3) [OF inv h(1)] h(2) by simp
  obtain h' where h': "migrateRequests l (rq, h) = Some (rq', h')" "head_ok rq' h'" "intent_only h'"
    "grantedList h' = grantedList h @ l" "conflictList h' = conflictList h" "head_frame h h'"
    using migrateRequests_ok [OF ok io lm_invD(4) [OF inv h(3)] lm_invD(2) [OF inv h(1)] lm_invD(5) [OF inv h(3)]]
    unfolding rq'_def by blast
  let ?P = "P(p := (P p)(r := None))" and ?h = "h'\<lparr>partitions := ps\<rparr>"
  have inv': "lm_inv rq F ?P" using inv unfolding lm_inv_def by (auto split: if_splits)
  have ok': "head_ok rq' ?h" "intent_only ?h"
    using h'(2,3) by (simp_all add: head_ok_def counters_ok_def intent_only_def)
  have pl: "partitionedLock (rq j) = Some (p, r)" if "j \<in> set l" for j
    using lm_invD(5) [OF inv h(3) that] by (simp add: part_req_ok_def)
  have "lm_inv rq' (F(r \<mapsto> ?h)) ?P"
  proof (rule lm_inv_head_update [OF inv'])
    show "p' \<in> set (partitions ?h)" if "?P p' r = Some l'" for p' l'
      using that lm_invD(6) [OF inv _ h(1), of p' l'] h(2) by (auto split: if_splits)
    show "rq' j = rq j" if "elsewhere F ?P r j" for j
    proof -
      have "j \<notin> set l"
      proof
        assume "j \<in> set l"
        from pl [OF this] that show False
          using member_head(2) [OF inv] lm_invD(5) [OF inv]
          by (fastforce simp: elsewhere_def part_req_ok_def split: if_splits)
      qed
      then show ?thesis by (simp add: rq'_def)
    qed
  qed (use ok' h'(6) lm_invD(2) [OF inv h(1)] in \<open>auto simp: head_frame_def\<close>)
  then show ?thesis
    using h' h(2) lm_invD(2) [OF inv h(1)] by (auto simp: head_frame_def)
qed

lemma migratePartitions_ok:
  assumes "lm_inv rq F (Partition_find pd)" "F r = Some h" "intent_only h" "partitions h = rev ps"
  shows "\<exists>rq' h' pd'. migratePartitions ps (rq, h, pd) = Some (rq', h', pd') \<and>
    migration_result rq F (Partition_find pd) r h rq' h' (Partition_find pd')"
  using assms
proof (induction ps arbitrary: rq F h pd)
  case Nil
  have "Partition_find pd p r = None" for p
    using lm_invD(6) [OF Nil.prems(1) _ Nil.prems(2), of p] Nil.prems(4) by (cases "Partition_find pd p r") auto
  moreover have "F(r \<mapsto> h) = F" using Nil.prems(2) by auto
  ultimately show ?case using Nil by (auto simp: migration_result_def parts_of_def)
next
  case (Cons p ps)
  note inv = Cons.prems(1) and Fr = Cons.prems(2)
  have rid: "resourceId h = r" using lm_invD(2) [OF inv Fr] .
  have ph: "partitions h = rev ps @ [p]" using Cons.prems(4) by simp
  show ?case
  proof (cases "Partition_find pd p r")
    case None
    let ?h = "h\<lparr>partitions := rev ps\<rparr>"
    have inv': "lm_inv rq (F(r \<mapsto> ?h)) (Partition_find pd)"
    proof (rule lm_inv_head_update [OF inv])
      show "p' \<in> set (partitions ?h)" if "Partition_find pd p' r = Some l'" for p' l'
        using that lm_invD(6) [OF inv that Fr] ph None by auto
    qed (use lm_invD(1) [OF inv Fr] rid Cons.prems(3) in
         \<open>auto simp: head_ok_def counters_ok_def intent_only_def\<close>)
    have "intent_only ?h" using Cons.prems(3) by (simp add: intent_only_def)
    then obtain rq' h' pd' where r: "migratePartitions ps (rq, ?h, pd) = Some (rq', h', pd')"
        "migration_result rq (F(r \<mapsto> ?h)) (Partition_find pd) r ?h rq' h' (Partition_find pd')"
      using Cons.IH [OF inv' fun_upd_same] by fastforce
    have "migration_result rq F (Partition_find pd) r h rq' h' (Partition_find pd')"
      using r(2) unfolding migration_result_def by (simp only: fun_upd_upd) simp
    with r(1) None ph rid show ?thesis by simp
  next
    case (Some l)
    let ?rq = "\<lambda>j. if j \<in> set l then migrated r (rq j) else rq j"
    let ?pd = "Partition_erase p r pd"
    obtain h1 where h1: "migrateRequests l (rq, h) = Some (?rq, h1)" "intent_only h1"
      "partitions h1 = rev ps @ [p]" "resourceId h1 = r"
      "set (grantedList h1) = set (grantedList h) \<union> set l" "conflictList h1 = conflictList h"
      "lm_inv ?rq (F(r \<mapsto> h1\<lparr>partitions := rev ps\<rparr>)) ((Partition_find pd)(p := (Partition_find pd p)(r := None)))"
      using lm_inv_migrate_one [OF inv Fr ph Some] by auto
    have Peq: "(Partition_find pd)(p := (Partition_find pd p)(r := None)) = Partition_find ?pd"
      by (auto simp: fun_eq_iff)
    let ?h = "h1\<lparr>partitions := rev ps\<rparr>"
    have "intent_only ?h" using h1(2) by (simp add: intent_only_def)
    then obtain rq' h' pd' where r: "migratePartitions ps (?rq, ?h, ?pd) = Some (rq', h', pd')"
        "migration_result ?rq (F(r \<mapsto> ?h)) (Partition_find ?pd) r ?h rq' h' (Partition_find pd')"
      using Cons.IH [OF h1(7) [unfolded Peq] fun_upd_same] by fastforce
    have po: "parts_of (Partition_find pd) r = set l \<union> parts_of (Partition_find ?pd) r"
      using Some by (auto simp: parts_of_def) (metis option.inject)
    have "migration_result rq F (Partition_find pd) r h rq' h' (Partition_find pd')"
      using r(2) h1(5,6) unfolding migration_result_def po by (auto split: if_splits)
    moreover have "migratePartitions (p # ps) (rq, h, pd) = Some (rq', h', pd')"
      using r(1) h1(1,3) Some rid by simp
    ultimately show ?thesis by blast
  qed
qed

text \<open>
  Migration never aborts: every migrated request is granted at once. Afterwards the head is not
  partitioned and holds all requests of its partitions.
\<close>

lemma migrateIfPartitioned_ok:
  assumes inv: "lm_inv rq F (Partition_find pd)" and h: "F r = Some h"
  shows "\<exists>rq' h' pd'. migrateIfPartitioned (rq, h, pd) = Some (rq', h', pd') \<and>
    lm_inv rq' (F(r \<mapsto> h')) (Partition_find pd') \<and> partitions h' = [] \<and>
    (\<forall>p r'. Partition_find pd' p r' = (if r' = r then None else Partition_find pd p r')) \<and>
    set (grantedList h') = set (grantedList h) \<union> parts_of (Partition_find pd) r \<and>
    conflictList h' = conflictList h \<and>
    (partitions h = [] \<longrightarrow> h' = h) \<and> (partitions h \<noteq> [] \<longrightarrow> intent_only h') \<and>
    (\<forall>j. rq' j = (if j \<in> parts_of (Partition_find pd) r then migrated r (rq j) else rq j))"
proof (cases "partitions h = []")
  case True
  then have n: "Partition_find pd p r = None" for p
    using lm_invD(6) [OF inv _ h, of p] by (cases "Partition_find pd p r") auto
  moreover have "F(r \<mapsto> h) = F" using h by auto
  ultimately show ?thesis
    using True inv by (auto simp: migrateIfPartitioned_def parts_of_def)
next
  case False
  have io: "intent_only h" using lm_invD(3) [OF inv h False] .
  then show ?thesis
    using migratePartitions_ok [OF inv h io, of "rev (partitions h)"] False
    by (auto simp: migrateIfPartitioned_def migratePartitionedLockHeads_def intent_only_def migration_result_def)
qed

end
