(* ===== verification/LockManagerOps.thy ===== *)
theory LockManagerOps
  imports LockManagerInv
begin

unbundle bit_operations_syntax

text \<open>
  The operations of the lock manager keep its invariant and, called as their clients call them,
  never abort: here \<open>lock\<close> on a fresh request and \<open>convert\<close> on a granted one;
  \<open>LockManagerRelease\<close> has \<open>unlock\<close>, \<open>downgrade\<close> and
  \<open>cleanupUnusedLocks\<close>.
\<close>

definition is_queued :: "LockManager \<Rightarrow> ReqId \<Rightarrow> bool" where
  "is_queued s = queued (find_head s) (Partition_find (partitionData s))"

definition fresh :: "LockManager \<Rightarrow> ReqId \<Rightarrow> bool" where
  "fresh s i \<longleftrightarrow> \<not> is_queued s i \<and> status (requests s i) = STATUS_NEW \<and> recursiveCount (requests s i) = 1 \<and>
     lock (requests s i) = None \<and> partitionedLock (requests s i) = None \<and>
     convertMode (requests s i) = MODE_NONE"

definition waiters :: "LockManager \<Rightarrow> ResourceId \<Rightarrow> ReqId set" where
  "waiters s r = (case find_head s r of None \<Rightarrow> {} | Some h \<Rightarrow> set (conflictList h))"

text \<open>The modes a queued request stands for: its mode and, while converting, its target.\<close>

definition claims :: "LockRequest \<Rightarrow> LockMode \<Rightarrow> bool" where
  "claims q m \<longleftrightarrow> mode q = m \<or> (converting q \<and> convertMode q = m)"

lemma lm_okD: "lm_ok s \<Longrightarrow> lm_inv (requests s) (find_head s) (Partition_find (partitionData s))"
  "lm_ok s \<Longrightarrow> tables_ok s"
  by (simp_all add: lm_ok_def)

lemma lm_ok_put_head:
  assumes "tables_ok s" "lm_inv (requests s) ((find_head s)(r \<mapsto> h)) (Partition_find (partitionData s))"
  shows "lm_ok (put_head r h s)"
  using assms by (simp add: lm_ok_def tables_ok_put_head find_head_put)

lemma head_ok_initNew: "head_ok rq (LockHead_initNew r)"
  by (simp add: LockHead_initNew_def head_ok_def counters_ok_def compatible_def mask_of_zero [THEN iffD2])

lemma findOrInsert_ok:
  assumes ok: "lm_ok s" and f: "LockBucket_findOrInsert r s = (h, s1)"
  shows "lm_ok s1" "find_head s1 r = Some h" "requests s1 = requests s" "partitionData s1 = partitionData s"
    "is_queued s1 = is_queued s" "find_head s1 = (find_head s)(r \<mapsto> h)" "holders s1 = holders s" "waiters s1 = waiters s"
    "notified s1 = notified s"
proof -
  let ?P = "Partition_find (partitionData s)"
  note inv = lm_okD(1) [OF ok]
  have f': "(h, s1) = (case find_head s r of None \<Rightarrow> (LockHead_initNew r, put_head r (LockHead_initNew r) s) | Some v \<Rightarrow> (v, s))"
    using f by (auto simp: LockBucket_findOrInsert_def split: option.splits)
  note F = heads.find_or_insert [OF f']
  show sel: "requests s1 = requests s" "partitionData s1 = partitionData s" "notified s1 = notified s"
    using f' by (auto split: option.splits)
  show F1: "find_head s1 = (find_head s)(r \<mapsto> h)" and h: "find_head s1 r = Some h" using F by simp_all
  have new: "members h = {} \<and> grantedList h = [] \<and> conflictList h = []" if "find_head s r = None"
    using F(2) that by (simp add: members_def LockHead_initNew_def)
  have "lm_inv (requests s) ((find_head s)(r \<mapsto> h)) ?P"
  proof (cases "find_head s r")
    case None
    then have "?P p r = None" for p using lm_invD(7) [OF inv, of p r] by (cases "?P p r") auto
    then show ?thesis
      using F(2) [OF None] by (intro lm_inv_head_update [OF inv])
        (simp_all add: head_ok_initNew, simp_all add: LockHead_initNew_def)
  next
    case (Some w)
    then show ?thesis using inv F(3) [OF Some] by (simp add: map_upd_triv)
  qed
  moreover have "tables_ok s1" using f' lm_okD(2) [OF ok] by (auto simp: tables_ok_put_head split: option.splits)
  ultimately show "lm_ok s1" by (simp add: lm_ok_def sel F1)
  show "is_queued s1 = is_queued s"
    unfolding is_queued_def sel F1 using F(3) new
    by (cases "find_head s r") (auto simp: fun_eq_iff queued_upd queued_None queued_Some)
  show "holders s1 = holders s"
    unfolding holders_def sel F1 using F(3) new
    by (cases "find_head s r") (auto simp: fun_eq_iff map_upd_triv)
  show "waiters s1 = waiters s"
    unfolding waiters_def F1 using F(3) new
    by (cases "find_head s r") (auto simp: fun_eq_iff map_upd_triv)
qed

subsection \<open>lock\<close>

lemma lm_inv_partition_add:
  assumes inv: "lm_inv rq F P" and h: "F r = Some h" "p \<in> set (partitions h)"
    and new: "\<not> queued F P i" and q: "part_req_ok p r q"
    and l: "P p r = Some l \<or> (P p r = None \<and> l = [])"
  shows "lm_inv (rq(i := q)) F (P(p := (P p)(r \<mapsto> l @ [i])))"
proof (rule lm_inv_partition_update [OF lm_inv_fresh [OF inv new] h])
  show "distinct (l @ [i])" using l new lm_invD(4) [OF inv] by (auto simp: queued_def)
  show "part_req_ok p r ((rq(i := q)) j)" if "j \<in> set (l @ [i])" for j
    using that l q lm_invD(5) [OF inv, of p r l j] by auto
qed

lemma holders_alt:
  "holders s r = (case find_head s r of None \<Rightarrow> {} | Some h \<Rightarrow> set (grantedList h)) \<union>
     parts_of (Partition_find (partitionData s)) r"
  by (simp add: holders_def parts_of_def)

lemma Partition_find_put_fun:
  "Partition_find (Partition_put p r l pd) = (Partition_find pd)(p := (Partition_find pd p)(r \<mapsto> l))"
  by (auto simp: fun_eq_iff)

lemma parts_of_put:
  "parts_of (Partition_find (Partition_put p r l pd)) r' =
     (if r' = r then set l \<union> {i. \<exists>p' l'. p' \<noteq> p \<and> Partition_find pd p' r = Some l' \<and> i \<in> set l'}
      else parts_of (Partition_find pd) r')"
  by (auto simp: parts_of_def)

lemma parts_of_append:
  assumes "Partition_find pd p r = Some l \<or> Partition_find pd p r = None \<and> l = []"
  shows "parts_of (Partition_find (Partition_put p r (l @ [i]) pd)) r' =
     parts_of (Partition_find pd) r' \<union> (if r' = r then {i} else {})"
proof -
  have "x \<in> set l \<or> (\<exists>p' l'. p' \<noteq> p \<and> Partition_find pd p' r = Some l' \<and> x \<in> set l')
     \<longleftrightarrow> x \<in> parts_of (Partition_find pd) r" for x
    using assms unfolding parts_of_def
    by (cases "Partition_find pd p r") (auto, (metis option.distinct(1) option.inject)+)
  then show ?thesis by (auto simp: parts_of_put)
qed

definition lock_ready :: "LockManager \<Rightarrow> ReqId \<Rightarrow> bool" where
  "lock_ready s i \<longleftrightarrow> fresh s i \<and> (partitioned (requests s i) \<longrightarrow> intent (mode (requests s i)))"

text \<open>
  What a finished \<open>lock\<close> call says: granted in the mode that was asked for, which then is compatible with all
  that is held, or waiting behind a request whose mode conflicts; nobody else's locks change.
\<close>

definition lock_outcome ::
  "LockManager \<Rightarrow> ResourceId \<Rightarrow> ReqId \<Rightarrow> LockResult \<Rightarrow> LockManager \<Rightarrow> bool" where
  "lock_outcome s r i res s' \<longleftrightarrow>
     (\<forall>j. mode (requests s' j) = mode (requests s j) \<and> (j \<noteq> i \<longrightarrow> status (requests s' j) = status (requests s j))) \<and>
     (res = LOCK_OK \<and> status (requests s' i) = STATUS_GRANTED \<and>
        (\<forall>r'. holders s' r' = holders s r' \<union> (if r' = r then {i} else {})) \<and> waiters s' = waiters s \<and>
        (\<forall>j\<in>holders s r - {i}. \<not> conflicting (mode (requests s i)) (mode (requests s j))) \<or>
      res = LOCK_WAITING \<and> status (requests s' i) = STATUS_WAITING \<and> holders s' = holders s \<and> (\<forall>r'. waiters s' r' = waiters s r' \<union> (if r' = r then {i} else {})) \<and>
        (\<exists>j\<in>holders s r \<union> waiters s r. \<exists>m. claims (requests s j) m \<and> conflicting (mode (requests s i)) m))"

text \<open>That a granted mode is compatible follows from the invariant of the state after.\<close>

lemma lock_outcome_granted:
  assumes "lm_ok s'" "\<forall>j. mode (requests s' j) = mode (requests s j) \<and> (j \<noteq> i \<longrightarrow> status (requests s' j) = status (requests s j))"
    "status (requests s' i) = STATUS_GRANTED" "\<forall>r'. holders s' r' = holders s r' \<union> (if r' = r then {i} else {})" "waiters s' = waiters s"
  shows "lock_outcome s r i LOCK_OK s'"
proof -
  have "compatible (requests s') (holders s r \<union> {i})" using lm_ok_compatible [OF assms(1), of r] assms(4) by simp
  then have "\<forall>j\<in>holders s r - {i}. \<not> conflicting (mode (requests s i)) (mode (requests s j))"
    using assms(2) by (auto simp: compatible_def)
  then show ?thesis using assms(2-5) by (simp add: lock_outcome_def)
qed

lemma part_newRequest:
  assumes "lock_ready s i" "partitioned (requests s i)"
  shows "PartitionedLockHead_newRequest p r i (requests s i) l =
      Some ((requests s i)\<lparr>partitionedLock := Some (p, r), status := STATUS_GRANTED\<rparr>, l @ [i])"
    and "part_req_ok p r ((requests s i)\<lparr>partitionedLock := Some (p, r), status := STATUS_GRANTED\<rparr>)"
  using assms by (simp_all add: PartitionedLockHead_newRequest_def lock_ready_def fresh_def part_req_ok_def)

lemma waiters_other [simp]:
  "waiters (s\<lparr>requests := a\<rparr>) = waiters s" "waiters (s\<lparr>partitionData := b\<rparr>) = waiters s"
  by (simp_all add: waiters_def fun_eq_iff)

lemma lock_fast_ok:
  assumes ok: "lm_ok s" and rdy: "lock_ready s i"
  shows "lock_fast r i s = Some None \<or>
    (\<exists>s'. lock_fast r i s = Some (Some s') \<and> lm_ok s' \<and> lock_outcome s r i LOCK_OK s')"
proof -
  let ?q = "requests s i" and ?P = "Partition_find (partitionData s)"
  let ?p = "getPartition ?q"
  let ?q' = "?q\<lparr>partitionedLock := Some (?p, r), status := STATUS_GRANTED\<rparr>"
  note inv = lm_okD(1) [OF ok]
  show ?thesis
  proof (cases "partitioned ?q \<and> ?P ?p r \<noteq> None")
    case False
    then show ?thesis by (auto simp: lock_fast_def split: option.splits)
  next
    case True
    then obtain l where l: "?P ?p r = Some l" and p: "partitioned ?q" by auto
    note nr = part_newRequest [OF rdy p, of ?p r]
    let ?s = "s\<lparr>requests := (requests s)(i := ?q'), partitionData := Partition_put ?p r (l @ [i]) (partitionData s)\<rparr>"
    obtain h where h: "find_head s r = Some h" "?p \<in> set (partitions h)"
      using lm_invD(6,7) [OF inv l] by blast
    have "\<not> queued (find_head s) ?P i" using rdy by (simp add: lock_ready_def fresh_def is_queued_def)
    from lm_inv_partition_add [OF inv h this nr(2) disjI1 [OF l]]
    have "lm_ok ?s" using lm_okD(2) [OF ok] by (simp add: lm_ok_def Partition_find_put_fun)
    moreover have "lock_outcome s r i LOCK_OK ?s"
      using parts_of_append [OF disjI1 [OF l], of i] by (intro lock_outcome_granted \<open>lm_ok ?s\<close>) (auto simp: holders_alt)
    moreover have "lock_fast r i s = Some (Some ?s)" using p l nr(1) by (simp add: lock_fast_def)
    ultimately show ?thesis by blast
  qed
qed

lemma lock_slow_partition:
  assumes ok: "lm_ok s" and rdy: "lock_ready s i" and h: "find_head s r = Some h"
    and p: "partitioned (requests s i)" "intent_only h"
  defines "pt \<equiv> getPartition (requests s i)"
  defines "q' \<equiv> (requests s i)\<lparr>partitionedLock := Some (pt, r), status := STATUS_GRANTED\<rparr>"
  assumes l: "Partition_find (partitionData s) pt r = Some l \<or> Partition_find (partitionData s) pt r = None \<and> l = []"
  defines "s' \<equiv> put_head r (h\<lparr>partitions := partitions h @ [pt]\<rparr>)
     (s\<lparr>requests := (requests s)(i := q'), partitionData := Partition_put pt r (l @ [i]) (partitionData s)\<rparr>)"
  shows "lm_ok s'" "lock_outcome s r i LOCK_OK s'"
proof -
  let ?P = "Partition_find (partitionData s)" and ?h = "h\<lparr>partitions := partitions h @ [pt]\<rparr>"
  note inv = lm_okD(1) [OF ok] and nr = part_newRequest [OF rdy p(1), of pt r, folded q'_def]
  have new: "\<not> queued (find_head s) ?P i" using rdy by (simp add: lock_ready_def fresh_def is_queued_def)
  have hd: "lm_inv (requests s) ((find_head s)(r \<mapsto> ?h)) ?P"
    by (rule lm_inv_head_update [OF inv])
       (use lm_invD(1,2) [OF inv h] lm_invD(6) [OF inv _ h] p(2) in
         \<open>auto simp: head_ok_def counters_ok_def intent_only_def\<close>)
  have "members ?h = members h" by (simp add: members_def)
  then have new': "\<not> queued ((find_head s)(r \<mapsto> ?h)) ?P i"
    using new h by (simp add: queued_upd queued_Some)
  have "lm_inv ((requests s)(i := q')) ((find_head s)(r \<mapsto> ?h)) (?P(pt := (?P pt)(r \<mapsto> l @ [i])))"
    by (rule lm_inv_partition_add [OF hd fun_upd_same _ new' nr(2) l]) simp
  then show ok': "lm_ok s'" unfolding s'_def
    using lm_okD(2) [OF ok] by (intro lm_ok_put_head) (simp_all add: Partition_find_put_fun)
  show "lock_outcome s r i LOCK_OK s'"
    using h parts_of_append [OF l, of i]
    by (intro lock_outcome_granted ok') (auto simp: s'_def holders_alt waiters_def find_head_put fun_eq_iff q'_def)
qed

lemma blocked_reason:
  assumes "head_ok rq h" "blocked m h"
  shows "\<exists>j\<in>members h. \<exists>m'. claims (rq j) m' \<and> conflicting m m'"
proof -
  consider "conflicts m (grantedModes h)" | "conflicts m (conflictModes h)"
    using assms(2) by (auto simp: blocked_def)
  then show ?thesis
  proof cases
    case 1
    then show ?thesis unfolding conflicts_granted_iff [OF assms(1)] members_def claims_def by blast
  next
    case 2
    have "conflictModes h = mask_of (ccount rq (conflictList h))"
      using assms(1) by (simp add: head_ok_def counters_ok_def)
    with 2 have "\<exists>m'. conflicting m m' \<and> 0 < ccount rq (conflictList h) m'" by (simp add: conflicts_mask_of)
    then show ?thesis unfolding ccount_def count_if_pos members_def claims_def by blast
  qed
qed

lemma elsewhere_upd [simp]: "elsewhere (F(r \<mapsto> h)) P r = elsewhere F P r"
  by (auto simp: elsewhere_def fun_eq_iff)

text \<open>The common end of the operations under a bucket mutex: one head and its requests change.\<close>

lemma lm_ok_head_change:
  assumes tab: "tables_ok s" and inv: "lm_inv rq ((find_head s)(r \<mapsto> h)) (Partition_find pd)"
    and h': "head_ok rq' h'" "resourceId h' = r" "partitions h' = partitions h"
      "partitions h \<noteq> [] \<Longrightarrow> intent_only h'"
    and frame: "\<And>j. rq' j \<noteq> rq j \<Longrightarrow> j \<in> members h \<or> \<not> queued ((find_head s)(r \<mapsto> h)) (Partition_find pd) j"
  shows "lm_ok (put_head r h' (s\<lparr>requests := rq', partitionData := pd, notified := nt\<rparr>))"
    and "lm_ok (put_head r h' (s\<lparr>requests := rq', partitionData := pd\<rparr>))"
proof -
  let ?F = "(find_head s)(r \<mapsto> h)" and ?P = "Partition_find pd"
  have "lm_inv rq' (?F(r \<mapsto> h')) ?P"
  proof (rule lm_inv_head_update [OF inv h'(1,2)])
    show "intent_only h'" if "partitions h' \<noteq> []" using that h' by simp
    show "p \<in> set (partitions h')" if "?P p r = Some l" for p l
      using lm_invD(6) [OF inv that fun_upd_same] h'(3) by simp
    show "rq' j = rq j" if "elsewhere ?F ?P r j" for j
    proof (rule ccontr)
      assume "rq' j \<noteq> rq j"
      from frame [OF this] that show False
        using member_not_elsewhere [OF inv, of r h j] by (auto simp: queued_upd)
    qed
  qed
  then show "lm_ok (put_head r h' (s\<lparr>requests := rq', partitionData := pd, notified := nt\<rparr>))"
    "lm_ok (put_head r h' (s\<lparr>requests := rq', partitionData := pd\<rparr>))"
    using tab by (auto intro!: lm_ok_put_head)
qed

text \<open>Migration at the level of the lock manager: holders, waiters and queued requests stay.\<close>

lemma migrate_lm:
  assumes ok: "lm_ok s" and h: "find_head s r = Some h"
  shows "\<exists>rq h' pd. migrateIfPartitioned (requests s, h, partitionData s) = Some (rq, h', pd) \<and>
    lm_inv rq ((find_head s)(r \<mapsto> h')) (Partition_find pd) \<and> partitions h' = [] \<and>
    set (grantedList h') = holders s r \<and> conflictList h' = conflictList h \<and>
    (\<forall>r'. parts_of (Partition_find pd) r' = (if r' = r then {} else parts_of (Partition_find (partitionData s)) r')) \<and>
    (\<forall>j. rq j = requests s j \<or> j \<in> set (grantedList h') \<and> rq j = migrated r (requests s j)) \<and>
    (\<forall>j. queued ((find_head s)(r \<mapsto> h')) (Partition_find pd) j = is_queued s j) \<and>
    (partitions h = [] \<longrightarrow> h' = h) \<and> (partitions h \<noteq> [] \<longrightarrow> intent_only h')"
proof -
  let ?P = "Partition_find (partitionData s)"
  note inv = lm_okD(1) [OF ok]
  obtain rq h' pd where m: "migrateIfPartitioned (requests s, h, partitionData s) = Some (rq, h', pd)"
    "lm_inv rq ((find_head s)(r \<mapsto> h')) (Partition_find pd)" "partitions h' = []"
    "\<forall>p r'. Partition_find pd p r' = (if r' = r then None else ?P p r')"
    "set (grantedList h') = set (grantedList h) \<union> parts_of ?P r" "conflictList h' = conflictList h"
    "partitions h = [] \<longrightarrow> h' = h" "partitions h \<noteq> [] \<longrightarrow> intent_only h'"
    "\<forall>j. rq j = (if j \<in> parts_of ?P r then migrated r (requests s j) else requests s j)"
    using migrateIfPartitioned_ok [OF inv h] by blast
  have po: "parts_of (Partition_find pd) r' = (if r' = r then {} else parts_of ?P r')" for r'
    using m(4) by (simp add: parts_of_def)
  have "elsewhere (find_head s) ?P r j \<or> j \<in> members h \<longleftrightarrow>
        elsewhere (find_head s) (Partition_find pd) r j \<or> j \<in> members h'" for j
    using m(4,5,6) by (auto simp: elsewhere_def members_def parts_of_def split: if_splits) metis
  then have "queued ((find_head s)(r \<mapsto> h')) (Partition_find pd) j = is_queued s j" for j
    by (auto simp: queued_upd is_queued_def queued_Some [of "find_head s" r h, OF h])
  then show ?thesis using m po h by (intro exI [of _ rq] exI [of _ h'] exI [of _ pd]) (auto simp: holders_alt)
qed

lemma lock_slow_queue:
  assumes ok: "lm_ok s" and rdy: "lock_ready s i" and h: "find_head s r = Some h"
  shows "\<exists>rq h1 pd res q' h2. migrateIfPartitioned (requests s, h, partitionData s) = Some (rq, h1, pd) \<and>
    newRequest i ((rq i)\<lparr>partitioned := False\<rparr>) h1 = Some (res, q', h2) \<and>
    (let s' = put_head r h2 (s\<lparr>requests := rq(i := q'), partitionData := pd\<rparr>) in
     lm_ok s' \<and> lock_outcome s r i res s')"
proof -
  let ?F = "find_head s" let ?P = "Partition_find (partitionData s)"
  obtain rq h1 pd where m: "migrateIfPartitioned (requests s, h, partitionData s) = Some (rq, h1, pd)"
    "lm_inv rq (?F(r \<mapsto> h1)) (Partition_find pd)" "partitions h1 = []"
    "set (grantedList h1) = holders s r" "conflictList h1 = conflictList h"
    "\<forall>r'. parts_of (Partition_find pd) r' = (if r' = r then {} else parts_of ?P r')"
    "\<forall>j. rq j = requests s j \<or> j \<in> set (grantedList h1) \<and> rq j = migrated r (requests s j)"
    "\<forall>j. queued (?F(r \<mapsto> h1)) (Partition_find pd) j = is_queued s j"
    using migrate_lm [OF ok h] by blast
  have ok1: "head_ok rq h1" "resourceId h1 = r" using lm_invD(1,2) [OF m(2) fun_upd_same] .
  have nq: "\<not> queued (?F(r \<mapsto> h1)) (Partition_find pd) i"
    using m(8) rdy by (simp add: lock_ready_def fresh_def)
  then have new: "i \<notin> set (grantedList h1 @ conflictList h1)" by (auto simp: queued_upd members_def)
  with m(7) have rqi: "rq i = requests s i" by auto
  let ?q = "(rq i)\<lparr>partitioned := False\<rparr>"
  have q: "partitionedLock ?q = None" "convertMode ?q = MODE_NONE" "recursiveCount ?q = 1" "\<not> partitioned ?q"
    using rdy by (simp_all add: rqi lock_ready_def fresh_def)
  have modes: "mode (rq j) = mode (requests s j) \<and> status (rq j) = status (requests s j) \<and> convertMode (rq j) = convertMode (requests s j)" for j
    using m(7) by (metis LockRequest.select_convs(8-10) LockRequest.surjective LockRequest.update_convs(6,7))
  have hw: "holders (put_head r h2 (s\<lparr>requests := rq2, partitionData := pd\<rparr>)) r' =
      (if r' = r then set (grantedList h2) else holders s r')"
     "waiters (put_head r h2 (s\<lparr>requests := rq2, partitionData := pd\<rparr>)) r' =
      (if r' = r then set (conflictList h2) else waiters s r')" for h2 rq2 r'
    using m(6) by (auto simp: holders_alt waiters_def find_head_put)
  have wt: "waiters s r = set (conflictList h1)" using m(5) h by (simp add: waiters_def)
  show ?thesis
  proof (cases "blocked (mode ?q) h1")
    case True
    let ?q' = "?q\<lparr>lock := Some r, status := STATUS_WAITING\<rparr>"
    obtain h2 where n: "newRequest i ?q h1 = Some (LOCK_WAITING, ?q', h2)" "head_ok (rq(i := ?q')) h2"
        "grantedList h2 = grantedList h1" "conflictList h2 = (if enqueueAtFront ?q then i # conflictList h1 else conflictList h1 @ [i])"
        "resourceId h2 = r" "partitions h2 = partitions h1"
      using newRequest_waiting [OF ok1(1) new q True] unfolding ok1(2) by blast
    have cl: "set (conflictList h2) = insert i (set (conflictList h1))" unfolding n(4) by simp
    have l: "lm_ok (put_head r h2 (s\<lparr>requests := rq(i := ?q'), partitionData := pd\<rparr>))"
      using n nq m(3) by (intro lm_ok_head_change(2) [OF lm_okD(2) [OF ok] m(2)]) (auto split: if_splits)
    have "\<exists>j\<in>holders s r \<union> waiters s r. \<exists>m. claims (requests s j) m \<and> conflicting (mode (requests s i)) m"
    proof -
      obtain j m' where j: "j \<in> members h1" "claims (rq j) m'" "conflicting (mode ?q) m'"
        using blocked_reason [OF ok1(1) True] by blast
      have "claims (requests s j) m'" using j(2) modes [of j] by (simp add: claims_def converting_def)
      moreover have "j \<in> holders s r \<union> waiters s r" using j(1) m(4) wt by (simp add: members_def)
      ultimately show ?thesis using j(3) rqi by auto
    qed
    then have "lock_outcome s r i LOCK_WAITING (put_head r h2 (s\<lparr>requests := rq(i := ?q'), partitionData := pd\<rparr>))"
      using modes m(4) n(3) cl wt by (auto simp: lock_outcome_def hw fun_eq_iff)
    with l n(1) m(1) show ?thesis by (auto simp: Let_def)
  next
    case False
    let ?q' = "?q\<lparr>lock := Some r, status := STATUS_GRANTED\<rparr>"
    obtain h2 where n: "newRequest i ?q h1 = Some (LOCK_OK, ?q', h2)" "head_ok (rq(i := ?q')) h2"
        "grantedList h2 = grantedList h1 @ [i]" "conflictList h2 = conflictList h1"
        "resourceId h2 = r" "partitions h2 = partitions h1"
      using newRequest_granted [OF ok1(1) new q(1,2) _ False] q(3) unfolding ok1(2) by auto
    have l: "lm_ok (put_head r h2 (s\<lparr>requests := rq(i := ?q'), partitionData := pd\<rparr>))"
      using n nq m(3) by (intro lm_ok_head_change(2) [OF lm_okD(2) [OF ok] m(2)]) (auto split: if_splits)
    have "lock_outcome s r i LOCK_OK (put_head r h2 (s\<lparr>requests := rq(i := ?q'), partitionData := pd\<rparr>))"
      using modes m(4) n(3,4) wt by (intro lock_outcome_granted l) (auto simp: hw fun_eq_iff)
    with l n(1) m(1) show ?thesis by (auto simp: Let_def)
  qed
qed

lemma Partition_put_put [simp]:
  "Partition_put p r a (Partition_put p r b pd) = Partition_put p r a pd"
  by (simp add: Partition_put_def)

lemma lock_slow_ok:
  assumes ok: "lm_ok s" and rdy: "lock_ready s i"
  shows "\<exists>res s'. lock_slow r i s = Some (res, s') \<and> lm_ok s' \<and> lock_outcome s r i res s'"
proof -
  obtain h s1 where f: "LockBucket_findOrInsert r s = (h, s1)" by fastforce
  note fi = findOrInsert_ok [OF ok f]
  have rdy1: "lock_ready s1 i" using rdy fi by (simp add: lock_ready_def fresh_def)
  have out: "lock_outcome s1 r i res s' \<Longrightarrow> lock_outcome s r i res s'" for res s'
    using fi by (simp add: lock_outcome_def)
  let ?q = "requests s1 i" and ?P = "Partition_find (partitionData s1)"
  let ?p = "getPartition ?q"
  show ?thesis
  proof (cases "partitioned ?q \<and> intent_only h")
    case True
    obtain l pd where lp: "Partition_findOrInsert ?p r (partitionData s1) = (l, pd)" by fastforce
    then have l: "?P ?p r = Some l \<or> ?P ?p r = None \<and> l = []"
      and pd: "Partition_put ?p r x pd = Partition_put ?p r x (partitionData s1)" for x
      by (auto simp: Partition_findOrInsert_def split: option.splits)
    note lm = lock_slow_partition [OF fi(1) rdy1 fi(2) conjunct1 [OF True] conjunct2 [OF True] l]
    then show ?thesis
      using True f out [OF lm(2)] lp part_newRequest(1) [OF rdy1 conjunct1 [OF True]]
      by (simp add: lock_slow_def intent_only_def pd)
  next
    case False
    obtain rq h1 pd res q' h2 where m: "migrateIfPartitioned (requests s1, h, partitionData s1) = Some (rq, h1, pd)"
      "newRequest i ((rq i)\<lparr>partitioned := False\<rparr>) h1 = Some (res, q', h2)"
      "lm_ok (put_head r h2 (s1\<lparr>requests := rq(i := q'), partitionData := pd\<rparr>))"
      "lock_outcome s1 r i res (put_head r h2 (s1\<lparr>requests := rq(i := q'), partitionData := pd\<rparr>))"
      using lock_slow_queue [OF fi(1) rdy1 fi(2)] by (auto simp: Let_def)
    then show ?thesis
      using False f out by (auto simp: lock_slow_def intent_only_def)
  qed
qed

lemma lm_ok_fresh:
  assumes "lm_ok s" "\<not> is_queued s i"
  shows "lm_ok (s\<lparr>requests := (requests s)(i := q)\<rparr>)"
  using lm_inv_fresh [OF lm_okD(1)] assms by (simp add: lm_ok_def is_queued_def)

lemma holders_other [simp]: "holders (s\<lparr>requests := a\<rparr>) = holders s"
  by (simp add: holders_def fun_eq_iff)

lemma holders_queued: "i \<in> holders s r \<union> waiters s r \<Longrightarrow> is_queued s i"
  unfolding holders_def waiters_def is_queued_def queued_def members_def
  by (cases "find_head s r") auto

lemma LockManager_lock_ok:
  assumes ok: "lm_ok s" and fr: "fresh s i"
  shows "\<exists>res s'. LockManager_lock r i m s = Some (res, s') \<and> lm_ok s' \<and>
     lock_outcome (s\<lparr>requests := (requests s)(i := (requests s i)\<lparr>mode := m\<rparr>)\<rparr>) r i res s'"
proof -
  let ?q = "(requests s i)\<lparr>partitioned := (m = MODE_IX \<or> m = MODE_IS), mode := m\<rparr>"
  let ?s = "s\<lparr>requests := (requests s)(i := ?q)\<rparr>"
  have pr: "lock_prepare m (requests s i) = Some ?q" using fr by (simp add: lock_prepare_def fresh_def)
  have ok1: "lm_ok ?s" using lm_ok_fresh [OF ok] fr by (simp add: fresh_def)
  have rdy: "lock_ready ?s i" using fr by (auto simp: lock_ready_def fresh_def is_queued_def intent_def)
  let ?s2 = "s\<lparr>requests := (requests s)(i := (requests s i)\<lparr>mode := m\<rparr>)\<rparr>"
  have "claims (requests ?s j) = claims (requests ?s2 j)" "mode (requests ?s j) = mode (requests ?s2 j)"
    "status (requests ?s j) = status (requests ?s2 j)" "holders ?s = holders ?s2" "waiters ?s = waiters ?s2" for j
    by (simp_all add: claims_def converting_def fun_eq_iff)
  then have out: "lock_outcome ?s = lock_outcome ?s2"
    unfolding lock_outcome_def by (simp only:)
  show ?thesis
    using lock_fast_ok [OF ok1 rdy, of r] lock_slow_ok [OF ok1 rdy, of r] out
    by (auto simp: LockManager_lock_def pr)
qed

subsection \<open>convert\<close>

lemma without_free:
  assumes ok: "head_ok rq h" and i: "i \<in> set (grantedList h)"
    and free: "\<not> conflicts m (grantedModesWithout (grantedCounts h) (contrib (rq i)))"
    and j: "j \<in> set (grantedList h)" "j \<noteq> i"
  shows "\<not> conflicting m (mode (rq j))"
proof -
  have dist: "distinct (grantedList h)" and cnt: "grantedCounts h = gcount rq (grantedList h)"
    using ok by (auto simp: head_ok_def counters_ok_def)
  have "0 < gcount rq (remove1 i (grantedList h)) (mode (rq j))"
    using j dist by (auto simp: gcount_pos)
  then have "contrib (rq i) (mode (rq j)) < grantedCounts h (mode (rq j))"
    using gcount_remove1 [OF i, of rq "mode (rq j)"] cnt by (simp add: gcount_single_contrib)
  with free show ?thesis by (auto simp: conflicts_without)
qed

lemma without_conflict:
  assumes ok: "head_ok rq h" and i: "i \<in> set (grantedList h)"
    and c: "conflicts m (grantedModesWithout (grantedCounts h) (contrib (rq i)))"
  shows "\<exists>j\<in>set (grantedList h) - {i}. \<exists>m'. claims (rq j) m' \<and> conflicting m m'"
proof -
  have dist: "distinct (grantedList h)" and cnt: "grantedCounts h = gcount rq (grantedList h)"
    using ok by (auto simp: head_ok_def counters_ok_def)
  obtain m' where m': "conflicting m m'" "contrib (rq i) m' < grantedCounts h m'"
    using c by (auto simp: conflicts_without)
  then have "0 < gcount rq (remove1 i (grantedList h)) m'"
    using gcount_remove1 [OF i, of rq m'] cnt by (simp add: gcount_single_contrib)
  then show ?thesis using m'(1) dist unfolding gcount_pos claims_def by auto
qed

text \<open>The recursive count of a granted request is private to its owner.\<close>

lemma lm_ok_recount:
  assumes ok: "lm_ok s" and i: "i \<in> holders s r" and g: "status (requests s i) = STATUS_GRANTED" and n: "1 \<le> n"
  shows "lm_ok (s\<lparr>requests := (requests s)(i := (requests s i)\<lparr>recursiveCount := n\<rparr>)\<rparr>)"
proof -
  let ?q = "(requests s i)\<lparr>recursiveCount := n\<rparr>" and ?P = "Partition_find (partitionData s)"
  let ?rq = "(requests s)(i := ?q)"
  note inv = lm_okD(1) [OF ok]
  have "lm_inv ?rq (find_head s) ?P"
  proof (rule lm_invI)
    fix r h assume F: "find_head s r = Some h"
    note hok = lm_invD(1) [OF inv F]
    have "head_ok ?rq h"
    proof (cases "i \<in> set (grantedList h)")
      case True
      have "head_ok ?rq (h\<lparr>grantedCounts := grantedCounts h, grantedModes := mask_of (grantedCounts h), conversionsCount := conversionsCount h\<rparr>)"
        using head_ok_grantedD [OF hok True] g n head_okD(4) [OF hok] True
        by (intro head_ok_update [OF hok True])
           (auto simp: granted_req_ok_def on_head_def contrib_def converting_def compatible_def)
      then show ?thesis unfolding masks_ok(1) [OF hok, symmetric] by simp
    next
      case False
      then have "i \<notin> members h"
        using g head_ok_waitingD(1) [OF hok, of i] by (auto simp: members_def waiting_req_ok_def)
      then show ?thesis using head_ok_cong [of h ?rq "requests s"] hok by fastforce
    qed
    then show "head_ok ?rq h \<and> resourceId h = r \<and> (partitions h \<noteq> [] \<longrightarrow> intent_only h)"
      using lm_invD(2,3) [OF inv F] by simp
  next
    fix p r l assume P: "?P p r = Some l"
    show "distinct l" "\<exists>h. find_head s r = Some h \<and> p \<in> set (partitions h)"
      using lm_invD(4,6,7) [OF inv P] by blast+
    show "part_req_ok p r (?rq j)" if "j \<in> set l" for j
      using lm_invD(5) [OF inv P that] n by (auto simp: part_req_ok_def)
  qed
  then show ?thesis using lm_okD(2) [OF ok] by (simp add: lm_ok_def)
qed

text \<open>Strengthening the mode of a granted request at once, or leaving it as a blocked conversion.\<close>

lemma head_ok_strengthen:
  assumes ok: "head_ok rq h" and i: "i \<in> set (grantedList h)" and g: "status (rq i) = STATUS_GRANTED"
    and m: "\<not> isModeCovered m (mode (rq i))"
    and free: "\<not> conflicts m (grantedModesWithout (grantedCounts h) (contrib (rq i)))"
  shows "\<exists>h1 h2. incGrantedModeCount m h = Some h1 \<and> decGrantedModeCount (mode (rq i)) h1 = Some h2 \<and>
    head_ok (rq(i := (rq i)\<lparr>mode := m\<rparr>)) h2 \<and> head_frame h h2 \<and>
    grantedList h2 = grantedList h \<and> conflictList h2 = conflictList h"
proof -
  let ?q = "(rq i)\<lparr>mode := m\<rparr>"
  let ?c1 = "(grantedCounts h)(m := Suc (grantedCounts h m))"
  let ?c = "?c1(mode (rq i) := ?c1 (mode (rq i)) - 1)"
  note q = head_ok_grantedD [OF ok i]
  have ne: "m \<noteq> mode (rq i)" using m by auto
  have pos: "0 < grantedCounts h (mode (rq i))" using mode_granted_counted [OF head_okD(5) [OF ok] i] .
  have "head_ok (rq(i := ?q)) (h\<lparr>grantedCounts := ?c, grantedModes := mask_of ?c, conversionsCount := conversionsCount h\<rparr>)"
  proof (rule head_ok_update [OF ok i])
    show "\<not> conflicting (mode ?q) (mode (rq j))" if "j \<in> set (grantedList h)" "j \<noteq> i" for j
      using without_free [OF ok i free that] by simp
    show "?c m' + contrib (rq i) m' = grantedCounts h m' + contrib ?q m'" for m'
      using ne pos g by (auto simp: contrib_def converting_def)
  qed (use q g in \<open>auto simp: granted_req_ok_def on_head_def converting_def\<close>)
  moreover have "incGrantedModeCount m h = Some (h\<lparr>grantedCounts := ?c1, grantedModes := mask_of ?c1\<rparr>)"
    using inc_dec_granted(1) [OF masks_ok(1) [OF ok]] .
  moreover have "decGrantedModeCount (mode (rq i)) (h\<lparr>grantedCounts := ?c1, grantedModes := mask_of ?c1\<rparr>) =
      Some (h\<lparr>grantedCounts := ?c, grantedModes := mask_of ?c\<rparr>)"
    using inc_dec_granted(2) [of "h\<lparr>grantedCounts := ?c1, grantedModes := mask_of ?c1\<rparr>" "mode (rq i)"] pos ne by simp
  ultimately show ?thesis by (simp add: head_frame_def)
qed

lemma head_ok_convert_wait:
  assumes ok: "head_ok rq h" and i: "i \<in> set (grantedList h)" and g: "status (rq i) = STATUS_GRANTED"
    and m: "\<not> isModeCovered m (mode (rq i))" "isModeCovered (mode (rq i)) m" and rc: "2 \<le> recursiveCount (rq i)"
  shows "\<exists>h1. incGrantedModeCount m (h\<lparr>conversionsCount := Suc (conversionsCount h)\<rparr>) = Some h1 \<and>
    head_ok (rq(i := (rq i)\<lparr>status := STATUS_CONVERTING, convertMode := m\<rparr>)) h1 \<and> head_frame h h1 \<and>
    grantedList h1 = grantedList h \<and> conflictList h1 = conflictList h"
proof -
  let ?q = "(rq i)\<lparr>status := STATUS_CONVERTING, convertMode := m\<rparr>"
  let ?c = "(grantedCounts h)(m := Suc (grantedCounts h m))"
  note q = head_ok_grantedD [OF ok i]
  have "head_ok (rq(i := ?q)) (h\<lparr>grantedCounts := ?c, grantedModes := mask_of ?c, conversionsCount := Suc (conversionsCount h)\<rparr>)"
    using q g m rc head_okD(4) [OF ok] i by (intro head_ok_update [OF ok i])
      (auto simp: granted_req_ok_def on_head_def converting_def contrib_def compatible_def)
  then show ?thesis
    using inc_dec_granted(1) [of "h\<lparr>conversionsCount := Suc (conversionsCount h)\<rparr>" m] masks_ok(1) [OF ok]
    by (cases h) (simp add: head_frame_def)
qed

definition convert_outcome ::
  "LockManager \<Rightarrow> ResourceId \<Rightarrow> ReqId \<Rightarrow> LockMode \<Rightarrow> LockResult \<Rightarrow> LockManager \<Rightarrow> bool" where
  "convert_outcome s r i m res s' \<longleftrightarrow>
     holders s' = holders s \<and> waiters s' = waiters s \<and>
     recursiveCount (requests s' i) = Suc (recursiveCount (requests s i)) \<and>
     (\<forall>j. j \<noteq> i \<longrightarrow> mode (requests s' j) = mode (requests s j) \<and> status (requests s' j) = status (requests s j)) \<and>
     (res = LOCK_OK \<and> status (requests s' i) = STATUS_GRANTED \<and>
        mode (requests s' i) = (if isModeCovered m (mode (requests s i)) then mode (requests s i) else m) \<or>
      res = LOCK_WAITING \<and> status (requests s' i) = STATUS_CONVERTING \<and>
        mode (requests s' i) = mode (requests s i) \<and> convertMode (requests s' i) = m \<and>
        (\<exists>j\<in>holders s r - {i}. \<exists>m'. claims (requests s j) m' \<and> conflicting m m'))"

lemma holders_head: "lm_ok s \<Longrightarrow> i \<in> holders s r \<Longrightarrow> \<exists>h. find_head s r = Some h"
  using lm_invD(7) [OF lm_okD(1)] by (fastforce simp: holders_def split: option.splits)

lemma isModeCovered_or: "isModeCovered m c \<longleftrightarrow> LockConflictsTable c OR LockConflictsTable m = LockConflictsTable c"
  by (simp add: isModeCovered_def or.commute)

lemma LockManager_convert_ok:
  assumes ok: "lm_ok s" and i: "i \<in> holders s r" "status (requests s i) = STATUS_GRANTED" "0 < recursiveCount (requests s i)"
    and m: "isModeCovered m (mode (requests s i)) \<or> isModeCovered (mode (requests s i)) m"
  shows "\<exists>res s'. LockManager_convert r i m s = Some (res, s') \<and> lm_ok s' \<and> convert_outcome s r i m res s'"
proof -
  let ?q = "requests s i" let ?q1 = "?q\<lparr>recursiveCount := Suc (recursiveCount ?q)\<rparr>"
  let ?s = "s\<lparr>requests := (requests s)(i := ?q1)\<rparr>"
  have ok1: "lm_ok ?s" by (rule lm_ok_recount [OF ok i(1,2)]) simp
  show ?thesis
  proof (cases "isModeCovered m (mode ?q)")
    case True
    then show ?thesis
      using ok1 i by (auto simp: LockManager_convert_def convert_outcome_def isModeCovered_or)
  next
    case False
    with m have cov: "isModeCovered (mode ?q) m" by simp
    obtain h0 where h0: "find_head s r = Some h0" using holders_head [OF ok i(1)] by blast
    have sel: "partitionData ?s = partitionData s" "find_head ?s = find_head s" "holders ?s = holders s" by simp_all
    obtain rq h pd where g: "migrateIfPartitioned (requests ?s, h0, partitionData s) = Some (rq, h, pd)"
      "lm_inv rq ((find_head s)(r \<mapsto> h)) (Partition_find pd)" "partitions h = []"
      "set (grantedList h) = holders s r" "conflictList h = conflictList h0"
      "\<forall>r'. parts_of (Partition_find pd) r' = (if r' = r then {} else parts_of (Partition_find (partitionData s)) r')"
      "\<forall>j. rq j = requests ?s j \<or> j \<in> set (grantedList h) \<and> rq j = migrated r (requests ?s j)"
      using migrate_lm [OF ok1, of r h0, unfolded sel] h0 by blast
    have hok: "head_ok rq h" "resourceId h = r" using lm_invD(1,2) [OF g(2) fun_upd_same] .
    have ig: "i \<in> set (grantedList h)" using g(4) i(1) by simp
    have qi: "mode (rq i) = mode ?q" "status (rq i) = STATUS_GRANTED" "recursiveCount (rq i) = Suc (recursiveCount ?q)"
      using g(7) [rule_format, of i] i by auto
    have others: "mode (rq j) = mode (requests s j) \<and> status (rq j) = status (requests s j) \<and> convertMode (rq j) = convertMode (requests s j)"
      if "j \<noteq> i" for j using g(7) [rule_format, of j] that by auto
    have own: "(\<lambda>m. if mode (rq i) = m then 1 else 0) = contrib (rq i)"
      using qi by (auto simp: contrib_def converting_def)
    have fin: "lm_ok (put_head r h' (s\<lparr>requests := rq', partitionData := pd\<rparr>))"
      if "head_ok rq' h'" "head_frame h h'" "\<And>j. j \<noteq> i \<Longrightarrow> rq' j = rq j" for rq' h'
      using that hok(2) g(3) ig by (intro lm_ok_head_change(2) [OF lm_okD(2) [OF ok] g(2)])
        (auto simp: head_frame_def members_def, metis)
    have hw: "holders (put_head r h' (s\<lparr>requests := rq', partitionData := pd\<rparr>)) = holders s"
       "waiters (put_head r h' (s\<lparr>requests := rq', partitionData := pd\<rparr>)) = waiters s"
      if "grantedList h' = grantedList h" "conflictList h' = conflictList h" for h' rq'
      using that g(4-6) h0 by (auto simp: fun_eq_iff holders_alt waiters_def find_head_put)
    show ?thesis
    proof (cases "conflicts m (grantedModesWithout (grantedCounts h) (contrib (rq i)))")
      case True
      obtain h1 where h1: "incGrantedModeCount m (h\<lparr>conversionsCount := Suc (conversionsCount h)\<rparr>) = Some h1"
        "head_ok (rq(i := (rq i)\<lparr>status := STATUS_CONVERTING, convertMode := m\<rparr>)) h1" "head_frame h h1"
        "grantedList h1 = grantedList h" "conflictList h1 = conflictList h"
        using head_ok_convert_wait [OF hok(1) ig qi(2), of m] False cov qi i(3) by auto
      let ?s' = "put_head r h1 (s\<lparr>requests := rq(i := (rq i)\<lparr>status := STATUS_CONVERTING, convertMode := m\<rparr>), partitionData := pd\<rparr>)"
      have "LockManager_convert r i m s = Some (LOCK_WAITING, ?s')"
        using False cov i(2,3) h0 g(1) h1(1) True
        by (simp add: LockManager_convert_def isModeCovered_or own or.commute)
      moreover have "lm_ok ?s'" by (rule fin [OF h1(2,3)]) simp
      moreover have "\<exists>j\<in>holders s r - {i}. \<exists>m'. claims (requests s j) m' \<and> conflicting m m'"
        using without_conflict [OF hok(1) ig True] others g(4) by (auto simp: claims_def converting_def)
      ultimately show ?thesis
        using hw [OF h1(4,5)] qi others by (auto simp: convert_outcome_def)
    next
      case free: False
      obtain h1 h2 where h1: "incGrantedModeCount m h = Some h1" "decGrantedModeCount (mode (rq i)) h1 = Some h2"
        "head_ok (rq(i := (rq i)\<lparr>mode := m\<rparr>)) h2" "head_frame h h2"
        "grantedList h2 = grantedList h" "conflictList h2 = conflictList h"
        using head_ok_strengthen [OF hok(1) ig qi(2) _ free] False qi by auto
      let ?s' = "put_head r h2 (s\<lparr>requests := rq(i := (rq i)\<lparr>mode := m\<rparr>), partitionData := pd\<rparr>)"
      have "LockManager_convert r i m s = Some (LOCK_OK, ?s')"
        using False cov i(2,3) h0 g(1) h1(1,2) free
        by (simp add: LockManager_convert_def isModeCovered_or own or.commute)
      moreover have "lm_ok ?s'" by (rule fin [OF h1(3,4)]) simp
      ultimately show ?thesis
        using hw [OF h1(5,6)] qi others False by (auto simp: convert_outcome_def)
    qed
  qed
qed

end
