(* ===== verification/LockManagerRelease.thy ===== *)
theory LockManagerRelease
  imports LockManagerOps
begin

unbundle bit_operations_syntax

text \<open>
  Releasing locks: \<open>unlock\<close> of a granted, waiting or converting request,
  \<open>downgrade\<close>, and \<open>cleanupUnusedLocks\<close>. Each keeps the invariant and never
  aborts; \<open>unlock\<close> and \<open>downgrade\<close> leave no grantable request at the front of
  the conflict queue.
\<close>

subsection \<open>unlock and downgrade\<close>

text \<open>The two scans only ever give a request a mode it already asked for.\<close>

lemma unblockConversions_claims:
  assumes "unblockConversions is (rq, h, nt) = Some (rq', h', nt')" "claims (rq' j) m"
  shows "claims (rq j) m"
  using assms
proof (induction "is" arbitrary: rq h nt)
  case (Cons i "is")
  let ?q = "(rq i)\<lparr>status := STATUS_GRANTED, mode := convertMode (rq i), convertMode := MODE_NONE\<rparr>"
  have "claims ((rq(i := ?q)) j) m \<Longrightarrow> claims (rq j) m" if "status (rq i) = STATUS_CONVERTING"
    using that by (auto simp: claims_def converting_def split: if_splits)
  with Cons show ?case
    by (auto simp: unblockConversions.simps(2) bind_eq_Some_conv simp del: fun_upd_apply split: if_splits)
qed simp

lemma grantConflicts_claims:
  assumes "grantConflicts is b (rq, h, nt) = Some (rq', h', nt')" "claims (rq' j) m"
  shows "claims (rq j) m"
  using assms
proof (induction "is" arbitrary: rq h nt b)
  case (Cons i "is")
  let ?q = "(rq i)\<lparr>status := STATUS_GRANTED\<rparr>"
  have "claims ((rq(i := ?q)) j) m \<Longrightarrow> claims (rq j) m"
    by (auto simp: claims_def converting_def split: if_splits)
  with Cons show ?case
    by (auto simp: grantConflicts.simps(2) bind_eq_Some_conv simp del: fun_upd_apply split: if_splits)
qed simp

lemma onLockModeChanged_claims:
  assumes "onLockModeChanged c (rq, h, nt) = Some (rq', h', nt')" "claims (rq' j) m"
  shows "claims (rq j) m"
proof -
  obtain rq1 h1 nt1 where u: "unblockConversions (grantedList h) (rq, h, nt) = Some (rq1, h1, nt1)"
    "(if c then grantConflicts (conflictList h1) False (rq1, h1, nt1) else Some (rq1, h1, nt1)) = Some (rq', h', nt')"
    using assms(1) by (auto simp: onLockModeChanged_def bind_eq_Some_conv split: if_splits)
  then have "claims (rq1 j) m"
    using grantConflicts_claims [of "conflictList h1" False rq1 h1 nt1 rq' h' nt' j m] assms(2) by (cases c) auto
  then show ?thesis by (rule unblockConversions_claims [OF u(1)])
qed

definition weaker :: "LockMode \<Rightarrow> LockMode \<Rightarrow> bool" where
  "weaker m m' \<longleftrightarrow> m = m' \<or> (m \<noteq> MODE_NONE \<and> isModeCovered m m')"

lemma weaker_refl [simp]: "weaker m m"
  by (simp add: weaker_def)

lemma weaker_trans: "weaker a b \<Longrightarrow> weaker b c \<Longrightarrow> weaker a c"
  by (auto simp: weaker_def isModeCovered_iff)

lemma weaker_intent: "weaker m m' \<Longrightarrow> intent m' \<Longrightarrow> intent m"
  by (cases m; cases m') (auto simp: weaker_def intent_def isModeCovered_iff conflicting_table)

lemma intent_only_claims:
  assumes "head_ok rq h"
  shows "intent_only h \<longleftrightarrow> conflictList h = [] \<and> (\<forall>i\<in>set (grantedList h). \<forall>m. claims (rq i) m \<longrightarrow> intent m)"
proof -
  have "grantedCounts h = gcount rq (grantedList h)" using assms by (simp add: head_ok_def counters_ok_def)
  then show ?thesis by (auto simp: intent_only_iff [OF assms] gcount_pos claims_def)
qed

text \<open>
  The head after the requests in \<open>S\<close> have left it and everybody who could be granted was:
  nobody else left, nobody lost a lock, no claim grew.
\<close>

definition released ::
  "ReqId set \<Rightarrow> (ReqId \<Rightarrow> LockRequest) \<Rightarrow> LockHead \<Rightarrow> (ReqId \<Rightarrow> LockRequest) \<Rightarrow> LockHead \<Rightarrow> bool" where
  "released S rq h rq' h' \<longleftrightarrow>
     head_ok rq' h' \<and> head_frame h h' \<and> members h' = members h - S \<and>
     set (grantedList h) - S \<subseteq> set (grantedList h') \<and>
     (\<forall>j. rq' j \<noteq> rq j \<longrightarrow> j \<in> members h) \<and>
     (\<forall>j\<in>members h'. \<forall>m. claims (rq' j) m \<longrightarrow> (\<exists>m'. claims (rq j) m' \<and> weaker m m'))"

lemma released_claims:
  "released S rq h rq' h' \<Longrightarrow> j \<in> members h' \<Longrightarrow> claims (rq' j) m \<Longrightarrow> \<exists>m'. claims (rq j) m' \<and> weaker m m'"
  unfolding released_def by blast

lemma released_trans:
  assumes "released S rq h rq1 h1" "released T rq1 h1 rq2 h2"
  shows "released (S \<union> T) rq h rq2 h2"
proof -
  have "\<exists>m'. claims (rq j) m' \<and> weaker m m'" if j: "j \<in> members h2" "claims (rq2 j) m" for j m
  proof -
    obtain m1 where m1: "claims (rq1 j) m1" "weaker m m1" using released_claims [OF assms(2) j] by blast
    moreover have "j \<in> members h1" using assms(2) j by (auto simp: released_def)
    ultimately show ?thesis using released_claims [OF assms(1)] weaker_trans by blast
  qed
  moreover have "j \<in> members h" if "rq2 j \<noteq> rq j" for j
    using that assms by (cases "rq1 j = rq j") (auto simp: released_def)
  ultimately show ?thesis using assms unfolding released_def head_frame_def by (auto simp: Un_Diff)
qed

lemma released_intent:
  assumes "released S rq h rq' h'" "head_ok rq h" "intent_only h"
  shows "intent_only h'"
proof -
  have ok': "head_ok rq' h'" using assms(1) by (simp add: released_def)
  have c: "conflictList h = []" and int: "\<forall>i\<in>set (grantedList h). \<forall>m. claims (rq i) m \<longrightarrow> intent m"
    using assms(3) intent_only_claims [OF assms(2)] by simp_all
  have sub: "members h' \<subseteq> set (grantedList h)" "set (grantedList h) - S \<subseteq> set (grantedList h')" "members h' \<inter> S = {}"
    using assms(1) c by (auto simp: released_def members_def)
  have "set (conflictList h') = {}"
  proof (rule equals0I)
    fix j assume j: "j \<in> set (conflictList h')"
    then have "j \<in> set (grantedList h)" "j \<notin> S" using sub(1,3) by (auto simp: members_def)
    then have "j \<in> set (grantedList h')" using sub(2) by blast
    with j head_okD(3) [OF ok'] show False by blast
  qed
  then have "conflictList h' = []" by simp
  moreover have "intent m" if ig: "i \<in> set (grantedList h')" and cl: "claims (rq' i) m" for i m
  proof -
    have i: "i \<in> members h'" using ig by (simp add: members_def)
    obtain m' where "claims (rq i) m'" "weaker m m'"
      using released_claims [OF assms(1) i cl] by blast
    moreover have "i \<in> set (grantedList h)" using i sub(1) by blast
    ultimately show ?thesis
      using int weaker_intent by blast
  qed
  ultimately show ?thesis by (simp add: intent_only_claims [OF ok'])
qed

lemma onLockModeChanged_released:
  assumes rel: "released S rq h rq1 h1"
    and fb: "check \<or> (k \<and> front_blocked rq h \<longrightarrow> front_blocked rq1 h1)"
    and ne: "check \<or> grantedList h1 \<noteq> []"
  shows "\<exists>rq' h' nt'. onLockModeChanged check (rq1, h1, nt) = Some (rq', h', nt') \<and> released S rq h rq' h' \<and>
    (k \<and> front_blocked rq h \<longrightarrow> front_blocked rq' h') \<and> (\<forall>j. same_identity (rq1 j) (rq' j)) \<and>
    (\<forall>j. j \<notin> members h1 \<longrightarrow> rq' j = rq1 j) \<and> (conflictList h' \<noteq> [] \<longrightarrow> grantedList h' \<noteq> [])"
proof -
  have ok: "head_ok rq1 h1" using rel by (simp add: released_def)
  obtain rq' h' nt' where o: "onLockModeChanged check (rq1, h1, nt) = Some (rq', h', nt')" "head_ok rq' h'"
    "head_frame h1 h'" "set (grantedList h1) \<subseteq> set (grantedList h')"
    "set (grantedList h') \<union> set (conflictList h') = set (grantedList h1) \<union> set (conflictList h1)"
    "\<forall>j. same_identity (rq1 j) (rq' j)" "\<forall>j. j \<notin> set (grantedList h1) \<union> set (conflictList h1) \<longrightarrow> rq' j = rq1 j"
    "check \<or> front_blocked rq1 h1 \<longrightarrow> front_blocked rq' h'"
    using onLockModeChanged_ok [OF ok, of check nt] by blast
  have "released {} rq1 h1 rq' h'"
    unfolding released_def members_def
    using o(2-5,7) onLockModeChanged_claims [OF o(1)] weaker_refl by (intro conjI allI impI ballI) blast+
  from released_trans [OF rel this] have "released S rq h rq' h'" by simp
  moreover have "conflictList h' \<noteq> [] \<longrightarrow> grantedList h' \<noteq> []"
  proof (cases check)
    case True
    then have "front_blocked rq' h'" using o(8) by blast
    then show ?thesis by (auto simp: front_blocked_def conflicts_granted_iff [OF o(2)] split: list.splits)
  qed (use ne o(4) in auto)
  ultimately show ?thesis using o fb by (auto simp: members_def)
qed

definition unlocked ::
  "bool \<Rightarrow> ReqId set \<Rightarrow> (ReqId \<Rightarrow> LockRequest) \<Rightarrow> LockHead \<Rightarrow> ReqId \<Rightarrow> LockRequest \<Rightarrow> LockCtx \<Rightarrow> bool" where
  "unlocked k S rq h i q = (\<lambda>(rq', h', nt').
     released S rq h rq' h' \<and> (k \<and> front_blocked rq h \<longrightarrow> front_blocked rq' h') \<and> same_identity q (rq' i) \<and>
     (i \<in> S \<longrightarrow> rq' i = q) \<and> (conflictList h' \<noteq> [] \<longrightarrow> grantedList h' \<noteq> []))"

lemma onLockModeChanged_unlocked:
  assumes "released S rq h rq1 h1" "check \<or> (k \<and> front_blocked rq h \<longrightarrow> front_blocked rq1 h1)"
    "check \<or> grantedList h1 \<noteq> []"
  shows "\<exists>ctx. onLockModeChanged check (rq1, h1, nt) = Some ctx \<and> unlocked k S rq h i (rq1 i) ctx"
proof -
  obtain rq' h' nt' where o: "onLockModeChanged check (rq1, h1, nt) = Some (rq', h', nt')"
    "released S rq h rq' h'" "k \<and> front_blocked rq h \<longrightarrow> front_blocked rq' h'" "\<forall>j. same_identity (rq1 j) (rq' j)"
    "\<forall>j. j \<notin> members h1 \<longrightarrow> rq' j = rq1 j" "conflictList h' \<noteq> [] \<longrightarrow> grantedList h' \<noteq> []"
    using onLockModeChanged_released [OF assms] by blast
  have "members h1 \<inter> S = {}" using assms(1) by (auto simp: released_def)
  with o show ?thesis by (auto simp: unlocked_def)
qed

lemma front_blocked_release:
  assumes ok: "head_ok rq h" and i: "i \<in> set (grantedList h)"
    and fb: "front_blocked rq h" and same: "\<And>m. 0 < grantedCounts h m \<Longrightarrow> 0 < c m"
  shows "front_blocked (rq(i := q)) (h\<lparr>grantedList := gl, grantedCounts := c, grantedModes := mask_of c,
     compatibleFirstCount := cf\<rparr>)"
proof (cases "conflictList h")
  case (Cons j js)
  then have "j \<noteq> i" using ok i by (auto simp: head_ok_def)
  then show ?thesis
    using fb Cons same by (auto simp: front_blocked_def masks_ok(1) [OF ok] conflicts_mask_of)
qed (simp add: front_blocked_def)

lemma unlock_granted_ok:
  assumes ok: "head_ok rq h" and i: "i \<in> set (grantedList h)" and g: "status (rq i) = STATUS_GRANTED"
    and q: "mode q = mode (rq i)" "compatibleFirst q = compatibleFirst (rq i)"
  shows "\<exists>ctx. unlock_granted i q (rq(i := q), h, nt) = Some ctx \<and> unlocked True {i} rq h i q ctx"
proof -
  let ?m = "mode (rq i)"
  let ?c = "(grantedCounts h)(?m := grantedCounts h ?m - 1)"
  let ?gl = "remove1 i (grantedList h)"
  let ?cf = "compatibleFirstCount h - (if compatibleFirst (rq i) then 1 else 0)"
  let ?h = "h\<lparr>grantedList := ?gl, grantedCounts := ?c, grantedModes := mask_of ?c, compatibleFirstCount := ?cf\<rparr>"
  have hok: "head_ok (rq(i := q)) ?h" by (rule head_ok_release [OF ok i g])
  have mem: "members ?h = members h - {i}" "set ?gl = set (grantedList h) - {i}"
    using head_okD(1,3) [OF ok] i by (auto simp: members_def)
  have rel: "released {i} rq h (rq(i := q)) ?h"
    using hok mem i by (auto simp: released_def head_frame_def members_def intro: weaker_refl)
  have pos: "0 < grantedCounts h ?m" using mode_granted_counted [OF head_okD(5) [OF ok] i] .
  have dec: "decGrantedModeCount ?m (h\<lparr>grantedList := ?gl\<rparr>) = Some (h\<lparr>grantedList := ?gl, grantedCounts := ?c, grantedModes := mask_of ?c\<rparr>)"
    using inc_dec_granted(2) [of "h\<lparr>grantedList := ?gl\<rparr>" ?m] masks_ok(1) [OF ok] pos by simp
  have cf: "compatibleFirst (rq i) \<Longrightarrow> 0 < compatibleFirstCount h"
    using head_okD(5) [OF ok] i by (auto simp: counters_ok_def rcount_pos)
  have cf': "?cf = 0 \<or> ?gl \<noteq> []"
  proof -
    have "?cf = rcount compatibleFirst rq ?gl"
      using head_okD(5) [OF ok] rcount_remove1 [OF i, of compatibleFirst rq] by (simp add: counters_ok_def)
    then show ?thesis using rcount_pos [of compatibleFirst rq ?gl] by (cases ?gl) auto
  qed
  have fb: "(?c ?m = 0) \<or> (front_blocked rq h \<longrightarrow> front_blocked (rq(i := q)) ?h)"
  proof (rule disjCI)
    assume "\<not> (front_blocked rq h \<longrightarrow> front_blocked (rq(i := q)) ?h)"
    then have fb: "front_blocked rq h" and no: "\<not> front_blocked (rq(i := q)) ?h" by simp_all
    show "?c ?m = 0"
    proof (rule ccontr)
      assume "?c ?m \<noteq> 0"
      then have "0 < ?c m" if "0 < grantedCounts h m" for m using that by (cases "m = ?m") simp_all
      from front_blocked_release [OF ok i fb, of ?c, OF this] no show False by blast
    qed
  qed
  have ne: "?c ?m = 0 \<or> ?gl \<noteq> []"
  proof -
    have "?c = gcount (rq(i := q)) ?gl" using hok by (simp add: head_ok_def counters_ok_def)
    then show ?thesis using gcount_simps(1) by (cases ?gl) metis+
  qed
  obtain ctx where ctx: "onLockModeChanged (?c ?m = 0) (rq(i := q), ?h, nt) = Some ctx" "unlocked True {i} rq h i q ctx"
    using onLockModeChanged_unlocked [OF rel, of "?c ?m = 0" True nt i] fb ne by auto
  have "unlock_granted i q (rq(i := q), h, nt) = Some ctx"
    using ctx(1) dec cf cf' q
    by (cases "compatibleFirst (rq i)") (simp_all add: unlock_granted_def)
  with ctx(2) show ?thesis by blast
qed

lemma unlock_waiting_ok:
  assumes ok: "head_ok rq h" and i: "i \<in> set (conflictList h)"
    and q: "mode q = mode (rq i)" "recursiveCount q = 0"
  shows "\<exists>ctx. unlock_waiting i q (rq(i := q), h, nt) = Some ctx \<and> unlocked True {i} rq h i q ctx"
proof -
  let ?m = "mode (rq i)"
  let ?c = "(conflictCounts h)(?m := conflictCounts h ?m - 1)"
  let ?cl = "remove1 i (conflictList h)"
  let ?h = "h\<lparr>conflictList := ?cl, conflictCounts := ?c, conflictModes := mask_of ?c\<rparr>"
  have hok: "head_ok (rq(i := q)) ?h" by (rule head_ok_cancel [OF ok i])
  have mem: "members ?h = members h - {i}" "set ?cl = set (conflictList h) - {i}"
    using head_okD(2,3) [OF ok] i by (auto simp: members_def)
  have rel: "released {i} rq h (rq(i := q)) ?h"
    using hok mem i by (auto simp: released_def head_frame_def members_def intro: weaker_refl)
  have "0 < conflictCounts h ?m"
    using ok i by (auto simp: head_ok_def counters_ok_def ccount_def count_if_pos)
  then have dec: "decConflictModeCount ?m (h\<lparr>conflictList := ?cl\<rparr>) = Some ?h"
    using inc_dec_conflict(2) [of "h\<lparr>conflictList := ?cl\<rparr>" ?m] masks_ok(2) [OF ok] by simp
  obtain ctx where "onLockModeChanged True (rq(i := q), ?h, nt) = Some ctx" "unlocked True {i} rq h i q ctx"
    using onLockModeChanged_unlocked [OF rel, of True True nt i] by auto
  then show ?thesis using dec q by (simp add: unlock_waiting_def)
qed

text \<open>
  Cancelling a conversion. The source recomputes the flag for the conflict queue from
  \<open>convertMode\<close> after it was reset, so the queue is scanned whenever nobody holds the
  lock in \<open>MODE_NONE\<close>.
\<close>

lemma unlock_converting_ok:
  assumes ok: "head_ok rq h" and i: "i \<in> set (grantedList h)" and cv: "converting (rq i)"
    and q: "q = (rq i)\<lparr>recursiveCount := n\<rparr>" "1 \<le> n"
  shows "\<exists>ctx. unlock_converting i q (rq(i := q), h, nt) = Some ctx \<and>
    unlocked (grantedCounts h MODE_NONE = 0) {} rq h i (q\<lparr>status := STATUS_GRANTED, convertMode := MODE_NONE\<rparr>) ctx"
proof -
  let ?k = "convertMode (rq i)" and ?q = "q\<lparr>status := STATUS_GRANTED, convertMode := MODE_NONE\<rparr>"
  let ?c = "(grantedCounts h)(?k := grantedCounts h ?k - 1)"
  let ?h = "h\<lparr>grantedCounts := ?c, grantedModes := mask_of ?c, conversionsCount := conversionsCount h - 1\<rparr>"
  note f = converting_facts [OF head_ok_grantedD(1) [OF ok i] cv]
  have pos: "0 < grantedCounts h ?k"
    using ok i cv by (auto simp: head_ok_def counters_ok_def gcount_pos)
  have cc: "0 < conversionsCount h" using head_okD(5) [OF ok] i cv by (auto simp: counters_ok_def rcount_pos)
  have hok: "head_ok (rq(i := ?q)) ?h"
  proof (rule head_ok_update [OF ok i])
    show "\<not> conflicting (mode ?q) (mode (rq j))" if "j \<in> set (grantedList h)" "j \<noteq> i" for j
      using head_okD(4) [OF ok] i that q by (auto simp: compatible_def)
    show "?c m + contrib (rq i) m = grantedCounts h m + contrib ?q m" for m
      using pos cv f q by (auto simp: contrib_def converting_def)
  qed (use head_ok_grantedD [OF ok i] q cc cv in \<open>auto simp: granted_req_ok_def on_head_def converting_def\<close>)
  have rel: "released {} rq h (rq(i := ?q)) ?h"
    using hok i q by (auto simp: released_def head_frame_def members_def claims_def converting_def intro: weaker_refl)
  have dec: "decGrantedModeCount ?k (h\<lparr>conversionsCount := conversionsCount h - 1\<rparr>) = Some ?h"
    using inc_dec_granted(2) [of "h\<lparr>conversionsCount := conversionsCount h - 1\<rparr>" ?k] masks_ok(1) [OF ok] pos
    by (cases h) simp
  obtain ctx where "onLockModeChanged (grantedCounts h MODE_NONE = 0) (rq(i := ?q), ?h, nt) = Some ctx"
      "unlocked (grantedCounts h MODE_NONE = 0) {} rq h i ?q ctx"
    using onLockModeChanged_unlocked [OF rel, of "grantedCounts h MODE_NONE = 0" "grantedCounts h MODE_NONE = 0" nt i] length_pos_if_in_set [OF i]
    by auto
  then show ?thesis using dec q cc f(1) by (simp add: unlock_converting_def)
qed

lemma lm_ok_released:
  assumes ok: "lm_ok s" and h: "find_head s r = Some h" and rel: "released S (requests s) h rq' h'"
  shows "lm_ok (put_head r h' (s\<lparr>requests := rq', notified := nt\<rparr>))"
proof -
  note inv = lm_okD(1) [OF ok]
  have F: "(find_head s)(r \<mapsto> h) = find_head s" using h by (simp add: map_upd_triv)
  have "lm_ok (put_head r h' (s\<lparr>requests := rq', partitionData := partitionData s, notified := nt\<rparr>))"
    using inv rel lm_invD(2) [OF inv h] released_intent [OF rel lm_invD(1) [OF inv h]] lm_invD(3) [OF inv h]
    by (intro lm_ok_head_change(1) [OF lm_okD(2) [OF ok], where h = h]) (auto simp: F released_def head_frame_def)
  then show ?thesis by (cases s) simp
qed

lemma put_ctx_eq: "put_ctx r (rq', h', nt') (s\<lparr>requests := x\<rparr>) = put_head r h' (s\<lparr>requests := rq', notified := nt'\<rparr>)"
  by (simp add: put_ctx_def)

definition unlock_outcome :: "LockManager \<Rightarrow> ResourceId \<Rightarrow> ReqId \<Rightarrow> bool \<Rightarrow> LockManager \<Rightarrow> bool" where
  "unlock_outcome s r i b s' \<longleftrightarrow>
     b = (status (requests s i) \<noteq> STATUS_CONVERTING \<and> recursiveCount (requests s i) = 1) \<and>
     recursiveCount (requests s' i) = recursiveCount (requests s i) - 1 \<and>
     (\<forall>r'. r' \<noteq> r \<longrightarrow> holders s' r' = holders s r' \<and> waiters s' r' = waiters s r') \<and>
     holders s r - (if b then {i} else {}) \<subseteq> holders s' r \<and>
     holders s' r \<union> waiters s' r = holders s r \<union> waiters s r - (if b then {i} else {}) \<and>
     (waiters s' r \<noteq> {} \<longrightarrow> holders s' r \<noteq> {})"

text \<open>
  Progress: the request at the front of a conflict queue is blocked by somebody who holds the
  resource. It is never left waiting for nothing.
\<close>

definition queue_blocked :: "LockManager \<Rightarrow> ResourceId \<Rightarrow> bool" where
  "queue_blocked s r \<longleftrightarrow>
     (case find_head s r of None \<Rightarrow> True | Some h \<Rightarrow> front_blocked (requests s) h)"

lemma released_holders:
  fixes nt :: "Notification list"
  assumes h: "find_head s r = Some h" and rel: "released S (requests s) h rq' h'" and S: "S \<subseteq> members h"
    and inv: "lm_ok s"
  defines "s' \<equiv> put_head r h' (s\<lparr>requests := rq', notified := nt\<rparr>)"
  shows "r' \<noteq> r \<Longrightarrow> holders s' r' = holders s r'" "r' \<noteq> r \<Longrightarrow> waiters s' r' = waiters s r'"
    "holders s r - S \<subseteq> holders s' r" "holders s' r \<union> waiters s' r = holders s r \<union> waiters s r - S"
proof -
  have "parts_of (Partition_find (partitionData s)) r \<inter> S = {}"
  proof -
    have "j \<notin> members h" if "j \<in> parts_of (Partition_find (partitionData s)) r" for j
      using that member_head(2) [OF lm_okD(1) [OF inv] h, of j] lm_invD(5) [OF lm_okD(1) [OF inv]]
      by (fastforce simp: parts_of_def part_req_ok_def)
    then show ?thesis using S by blast
  qed
  then show "r' \<noteq> r \<Longrightarrow> holders s' r' = holders s r'" "r' \<noteq> r \<Longrightarrow> waiters s' r' = waiters s r'"
    "holders s r - S \<subseteq> holders s' r" "holders s' r \<union> waiters s' r = holders s r \<union> waiters s r - S"
    using rel h by (auto simp: s'_def holders_alt waiters_def find_head_put released_def members_def)
qed

lemma lm_ok_partition_remove:
  fixes q :: LockRequest
  assumes ok: "lm_ok s" and l: "Partition_find (partitionData s) p r = Some l" and i: "i \<in> set l"
  defines "s' \<equiv> s\<lparr>requests := (requests s)(i := q), partitionData := Partition_put p r (remove1 i l) (partitionData s)\<rparr>"
  shows "lm_ok s'" "parts_of (Partition_find (partitionData s')) r' =
     parts_of (Partition_find (partitionData s)) r' - (if r' = r then {i} else {})"
    "find_head s r' = Some h \<Longrightarrow> i \<notin> members h"
proof -
  let ?P = "Partition_find (partitionData s)" and ?P' = "Partition_find (partitionData s')"
  note inv = lm_okD(1) [OF ok]
  have d: "distinct l" using lm_invD(4) [OF inv l] .
  have pl: "partitionedLock (requests s i) = Some (p, r)" using lm_invD(5) [OF inv l i] by (simp add: part_req_ok_def)
  obtain h0 where h0: "find_head s r = Some h0" "p \<in> set (partitions h0)" using lm_invD(6,7) [OF inv l] by blast
  have P': "?P' = ?P(p := (?P p)(r \<mapsto> remove1 i l))" by (simp add: s'_def Partition_find_put_fun)
  have nm: "i \<notin> members h" if "find_head s r' = Some h" for r' h
    using member_head(2) [OF inv that, of i] pl by auto
  then show "find_head s r' = Some h \<Longrightarrow> i \<notin> members h" .
  have only: "p2 = p \<and> r2 = r" if "?P p2 r2 = Some l2" "i \<in> set l2" for p2 r2 l2
    using lm_invD(5) [OF inv that] pl by (simp add: part_req_ok_def)
  have inv1: "lm_inv (requests s) (find_head s) ?P'"
    unfolding P' using d lm_invD(5) [OF inv l] by (intro lm_inv_partition_update [OF inv h0]) auto
  have "i \<notin> set l2" if "?P' p2 r2 = Some l2" for p2 r2 l2
    using that only [of p2 r2 l2] d by (auto simp: P' split: if_splits)
  then have "\<not> queued (find_head s) ?P' i" using nm by (auto simp: queued_def)
  from lm_inv_fresh [OF inv1 this, of q] show "lm_ok s'"
    using lm_okD(2) [OF ok] by (simp add: lm_ok_def s'_def)
  show "parts_of ?P' r' = parts_of ?P r' - (if r' = r then {i} else {})"
    using only d l unfolding parts_of_def P' by (auto split: if_splits) (metis option.inject)+
qed

lemma queue_blocked_put:
  "queue_blocked (put_head r h' (s\<lparr>requests := rq', notified := nt\<rparr>)) r \<longleftrightarrow>
     front_blocked rq' h'"
  by (simp add: queue_blocked_def find_head_put)

text \<open>One branch of \<open>unlock\<close> under the bucket mutex, seen from the lock manager.\<close>

lemma unlock_branch:
  assumes ok: "lm_ok s" and h: "find_head s r = Some h" and S: "S \<subseteq> members h"
    and u: "unlocked (grantedCounts h MODE_NONE = 0) S (requests s) h i q ctx"
    and b: "S = (if b then {i} else {})" "b = (status (requests s i) \<noteq> STATUS_CONVERTING \<and> recursiveCount (requests s i) = 1)"
    and q: "recursiveCount q = recursiveCount (requests s i) - 1"
  shows "lm_ok (put_ctx r ctx (s\<lparr>requests := x\<rparr>)) \<and> unlock_outcome s r i b (put_ctx r ctx (s\<lparr>requests := x\<rparr>)) \<and>
     (grantedCounts h MODE_NONE = 0 \<and> front_blocked (requests s) h \<longrightarrow> queue_blocked (put_ctx r ctx (s\<lparr>requests := x\<rparr>)) r)"
proof -
  obtain rq' h' nt' where ctx: "ctx = (rq', h', nt')" by (cases ctx)
  have rel: "released S (requests s) h rq' h'" and si: "same_identity q (rq' i)"
    and fb: "grantedCounts h MODE_NONE = 0 \<and> front_blocked (requests s) h \<longrightarrow> front_blocked rq' h'"
    using u by (auto simp: unlocked_def ctx)
  note rh = released_holders [OF h rel S ok, where nt = nt']
  have "conflictList h' \<noteq> [] \<longrightarrow> grantedList h' \<noteq> []" using u by (simp add: unlocked_def ctx)
  then have "waiters s' r \<noteq> {} \<longrightarrow> holders s' r \<noteq> {}"
    if "s' = put_head r h' (s\<lparr>requests := rq', notified := nt'\<rparr>)" for s'
    by (auto simp: that waiters_def holders_def find_head_put)
  then have "unlock_outcome s r i b (put_head r h' (s\<lparr>requests := rq', notified := nt'\<rparr>))"
    using rh b q same_identity_fields(5) [OF si] by (simp add: unlock_outcome_def)
  then show ?thesis
    using lm_ok_released [OF ok h rel] fb by (simp add: ctx put_ctx_eq queue_blocked_put)
qed

lemma unlock_head_granted:
  assumes ok: "lm_ok s" and h: "find_head s r = Some h" and i: "i \<in> set (grantedList h)"
    and rc: "\<not> (status (requests s i) = STATUS_GRANTED \<and> 1 < recursiveCount (requests s i))"
  defines "q \<equiv> (requests s i)\<lparr>recursiveCount := recursiveCount (requests s i) - 1\<rparr>"
  shows "\<exists>b s'. unlock_head i (s\<lparr>requests := (requests s)(i := q)\<rparr>) = Some (b, s') \<and> lm_ok s' \<and>
    unlock_outcome s r i b s' \<and> (grantedCounts h MODE_NONE = 0 \<and> front_blocked (requests s) h \<longrightarrow> queue_blocked s' r)"
proof -
  let ?rq = "requests s" let ?s = "s\<lparr>requests := ?rq(i := q)\<rparr>"
  note inv = lm_okD(1) [OF ok]
  note hok = lm_invD(1) [OF inv h] and g = head_ok_grantedD [OF lm_invD(1) [OF inv h] i]
  have lk: "lock q = Some r" using g(2) lm_invD(2) [OF inv h] by (simp add: q_def)
  have mem: "i \<in> members h" using i by (simp add: members_def)
  consider (grant) "status (?rq i) = STATUS_GRANTED" "recursiveCount (?rq i) = 1"
    | (conv) "status (?rq i) = STATUS_CONVERTING" "2 \<le> recursiveCount (?rq i)"
    using g(1) rc by (auto simp: granted_req_ok_def)
  then show ?thesis
  proof cases
    case grant
    obtain ctx where c: "unlock_granted i q (?rq(i := q), h, notified s) = Some ctx" "unlocked True {i} ?rq h i q ctx"
      using unlock_granted_ok [OF hok i grant(1), of q "notified s"] by (auto simp: q_def)
    have "unlocked (grantedCounts h MODE_NONE = 0) {i} ?rq h i q ctx" using c(2) by (auto simp: unlocked_def)
    from unlock_branch [OF ok h _ this, where b = True and x = "?rq(i := q)"] show ?thesis
      using c(1) grant lk h mem by (auto simp: unlock_head_def q_def)
  next
    case conv
    obtain ctx where c: "unlock_converting i q (?rq(i := q), h, notified s) = Some ctx"
      "unlocked (grantedCounts h MODE_NONE = 0) {} ?rq h i (q\<lparr>status := STATUS_GRANTED, convertMode := MODE_NONE\<rparr>) ctx"
      using unlock_converting_ok [OF hok i _ meta_eq_to_obj_eq [OF q_def], of "notified s"] conv
      by (auto simp: converting_def Suc_le_eq)
    from unlock_branch [OF ok h _ c(2), where b = False and x = "?rq(i := q)"] show ?thesis
      using c(1) conv lk h by (auto simp: unlock_head_def q_def)
  qed
qed

lemma unlock_head_waiting:
  assumes ok: "lm_ok s" and h: "find_head s r = Some h" and i: "i \<in> set (conflictList h)"
  defines "q \<equiv> (requests s i)\<lparr>recursiveCount := recursiveCount (requests s i) - 1\<rparr>"
  shows "\<exists>b s'. unlock_head i (s\<lparr>requests := (requests s)(i := q)\<rparr>) = Some (b, s') \<and> lm_ok s' \<and>
    unlock_outcome s r i b s' \<and> (grantedCounts h MODE_NONE = 0 \<and> front_blocked (requests s) h \<longrightarrow> queue_blocked s' r)"
proof -
  let ?rq = "requests s"
  note inv = lm_okD(1) [OF ok]
  note hok = lm_invD(1) [OF inv h] and w = head_ok_waitingD [OF lm_invD(1) [OF inv h] i]
  have st: "status (?rq i) = STATUS_WAITING" "recursiveCount (?rq i) = 1" using w(1) by (simp_all add: waiting_req_ok_def)
  have lk: "lock q = Some r" using w(2) lm_invD(2) [OF inv h] by (simp add: q_def)
  have mem: "i \<in> members h" using i by (simp add: members_def)
  obtain ctx where c: "unlock_waiting i q (?rq(i := q), h, notified s) = Some ctx" "unlocked True {i} ?rq h i q ctx"
    using unlock_waiting_ok [OF hok i, of q "notified s"] st by (auto simp: q_def)
  have "unlocked (grantedCounts h MODE_NONE = 0) {i} ?rq h i q ctx" using c(2) by (auto simp: unlocked_def)
  from unlock_branch [OF ok h _ this, where b = True and x = "?rq(i := q)"] show ?thesis
    using c(1) st lk h mem by (auto simp: unlock_head_def q_def)
qed

definition no_none :: "LockManager \<Rightarrow> ResourceId \<Rightarrow> bool" where
  "no_none s r \<longleftrightarrow> (\<forall>j\<in>holders s r. mode (requests s j) \<noteq> MODE_NONE)"

lemma no_none_count:
  assumes "lm_ok s" "find_head s r = Some h" "no_none s r"
  shows "grantedCounts h MODE_NONE = 0"
proof (rule ccontr)
  note hok = lm_invD(1) [OF lm_okD(1) [OF assms(1)] assms(2)]
  assume "grantedCounts h MODE_NONE \<noteq> 0"
  then have "0 < gcount (requests s) (grantedList h) MODE_NONE" using hok by (simp add: head_ok_def counters_ok_def)
  then obtain j where j: "j \<in> set (grantedList h)" "claims (requests s j) MODE_NONE"
    unfolding gcount_pos claims_def by blast
  then have "mode (requests s j) \<noteq> MODE_NONE" using assms(2,3) by (auto simp: no_none_def holders_def)
  with j converting_facts(1) [OF head_ok_grantedD(1) [OF hok j(1)]] show False by (auto simp: claims_def)
qed

lemma unlock_recount:
  assumes ok: "lm_ok s" and i: "i \<in> holders s r" "status (requests s i) = STATUS_GRANTED" "1 < recursiveCount (requests s i)"
  defines "s' \<equiv> s\<lparr>requests := (requests s)(i := (requests s i)\<lparr>recursiveCount := recursiveCount (requests s i) - 1\<rparr>)\<rparr>"
  shows "LockManager_unlock i s = Some (False, s')" "lm_ok s'" "unlock_outcome s r i False s'"
    "queue_blocked s r \<longrightarrow> queue_blocked s' r"
proof -
  show "LockManager_unlock i s = Some (False, s')" using i by (simp add: LockManager_unlock_def s'_def)
  show "lm_ok s'" unfolding s'_def using i by (intro lm_ok_recount [OF ok i(1,2)]) simp
  show "unlock_outcome s r i False s'" using i by (auto simp: unlock_outcome_def s'_def)
  have "mode (((requests s)(i := (requests s i)\<lparr>recursiveCount := n\<rparr>)) j) = mode (requests s j)" for j n by simp
  then show "queue_blocked s r \<longrightarrow> queue_blocked s' r"
    by (simp add: queue_blocked_def s'_def front_blocked_def split: option.splits list.splits)
qed

lemma unlock_partition:
  assumes ok: "lm_ok s" and l: "Partition_find (partitionData s) p r = Some l" and i: "i \<in> set l"
    and rc: "recursiveCount (requests s i) = 1"
  shows "\<exists>s'. LockManager_unlock i s = Some (True, s') \<and> lm_ok s' \<and> unlock_outcome s r i True s' \<and>
    (queue_blocked s r \<longrightarrow> queue_blocked s' r)"
proof -
  let ?q = "(requests s i)\<lparr>recursiveCount := 0\<rparr>"
  let ?s = "s\<lparr>requests := (requests s)(i := ?q), partitionData := Partition_put p r (remove1 i l) (partitionData s)\<rparr>"
  note rem = lm_ok_partition_remove(1,2) [OF ok l i, where q = ?q] lm_ok_partition_remove(3) [OF ok l i]
  have po: "part_req_ok p r (requests s i)" using lm_invD(5) [OF lm_okD(1) [OF ok] l i] .
  have "LockManager_unlock i s = Some (True, ?s)"
    using po rc l by (simp add: LockManager_unlock_def part_req_ok_def)
  moreover have "unlock_outcome s r i True ?s"
  proof -
    have "i \<notin> (case find_head s r of None \<Rightarrow> {} | Some h \<Rightarrow> set (grantedList h))" "i \<notin> waiters s r"
      using rem(3) by (auto simp: waiters_def members_def split: option.splits)
    moreover have "waiters s r = {}"
    proof -
      note inv = lm_okD(1) [OF ok]
      obtain h where h: "find_head s r = Some h" "p \<in> set (partitions h)" using lm_invD(6,7) [OF inv l] by blast
      then have "intent_only h" using lm_invD(3) [OF inv h(1)] by (cases "partitions h") auto
      then show ?thesis using h(1) intent_only_iff [OF lm_invD(1) [OF inv h(1)]] by (simp add: waiters_def)
    qed
    ultimately show ?thesis
      using rem(2) rc po by (auto simp: unlock_outcome_def holders_alt part_req_ok_def)
  qed
  moreover have "queue_blocked ?s r" if "queue_blocked s r"
  proof (cases "find_head s r")
    case (Some h)
    with rem(3) [OF Some] that show ?thesis
      by (auto simp: queue_blocked_def front_blocked_def members_def split: list.splits)
  qed (simp add: queue_blocked_def)
  ultimately show ?thesis using rem(1) by blast
qed

lemma queued_at:
  assumes "i \<in> holders s r \<union> waiters s r"
  shows "(\<exists>p l. Partition_find (partitionData s) p r = Some l \<and> i \<in> set l) \<or>
    (\<exists>h. find_head s r = Some h \<and> i \<in> members h)"
  using assms by (cases "find_head s r") (auto simp: holders_def waiters_def members_def)

lemma LockManager_unlock_ok:
  assumes ok: "lm_ok s" and i: "i \<in> holders s r \<union> waiters s r"
  shows "\<exists>b s'. LockManager_unlock i s = Some (b, s') \<and> lm_ok s' \<and> unlock_outcome s r i b s' \<and>
    (no_none s r \<and> queue_blocked s r \<longrightarrow> queue_blocked s' r)"
proof -
  note inv = lm_okD(1) [OF ok]
  let ?q = "requests s i" let ?q1 = "?q\<lparr>recursiveCount := recursiveCount ?q - 1\<rparr>"
  consider (re) "i \<in> holders s r" "status ?q = STATUS_GRANTED" "1 < recursiveCount ?q"
    | (part) p l where "Partition_find (partitionData s) p r = Some l" "i \<in> set l" "\<not> (status ?q = STATUS_GRANTED \<and> 1 < recursiveCount ?q)"
    | (head) h where "find_head s r = Some h" "i \<in> members h" "\<not> (status ?q = STATUS_GRANTED \<and> 1 < recursiveCount ?q)"
  proof (cases "status ?q = STATUS_GRANTED \<and> 1 < recursiveCount ?q")
    case True
    have "i \<notin> waiters s r"
      using True head_ok_waitingD(1) [OF lm_invD(1) [OF inv], of r _ i]
      by (auto simp: waiters_def waiting_req_ok_def split: option.splits)
    with i True re show ?thesis by blast
  next
    case False
    with queued_at [OF i] part head show ?thesis by blast
  qed
  then show ?thesis
  proof cases
    case re
    show ?thesis using unlock_recount [OF ok re] by blast
  next
    case part
    have "recursiveCount ?q = 1"
      using lm_invD(5) [OF inv part(1,2)] part(3) by (auto simp: part_req_ok_def)
    from unlock_partition [OF ok part(1,2) this] show ?thesis by blast
  next
    case head
    note hok = lm_invD(1) [OF inv head(1)]
    have rc: "0 < recursiveCount ?q" and pl: "partitionedLock ?q = None"
      and st: "partitioned ?q \<Longrightarrow> status ?q = STATUS_GRANTED \<or> status ?q = STATUS_CONVERTING"
      using head(2) head_ok_grantedD [OF hok, of i] head_ok_waitingD [OF hok, of i]
      by (auto simp: members_def granted_req_ok_def waiting_req_ok_def)
    have eq: "LockManager_unlock i s = unlock_head i (s\<lparr>requests := (requests s)(i := ?q1)\<rparr>)"
      using rc pl st head(3) by (auto simp: LockManager_unlock_def split: if_splits)
    have qb: "no_none s r \<and> queue_blocked s r \<longrightarrow> grantedCounts h MODE_NONE = 0 \<and> front_blocked (requests s) h"
      using no_none_count [OF ok head(1)] head(1) by (simp add: queue_blocked_def)
    from head(2) consider "i \<in> set (grantedList h)" | "i \<in> set (conflictList h)" by (auto simp: members_def)
    then show ?thesis
    proof cases
      case 1
      from unlock_head_granted [OF ok head(1) 1 head(3)] show ?thesis unfolding eq using qb by blast
    next
      case 2
      from unlock_head_waiting [OF ok head(1) 2] show ?thesis unfolding eq using qb by blast
    qed
  qed
qed

lemma LockManager_downgrade_ok:
  assumes ok: "lm_ok s" and h: "find_head s r = Some h" and i: "i \<in> set (grantedList h)"
    and g: "status (requests s i) = STATUS_GRANTED" and m: "isModeCovered m (mode (requests s i))" "m \<noteq> MODE_NONE"
  shows "\<exists>s'. LockManager_downgrade i m s = Some s' \<and> lm_ok s' \<and> queue_blocked s' r \<and>
    mode (requests s' i) = m \<and> (\<forall>r'. r' \<noteq> r \<longrightarrow> holders s' r' = holders s r' \<and> waiters s' r' = waiters s r') \<and>
    holders s r \<subseteq> holders s' r \<and> holders s' r \<union> waiters s' r = holders s r \<union> waiters s r"
proof -
  let ?rq = "requests s" let ?q = "(?rq i)\<lparr>mode := m\<rparr>" and ?k = "mode (requests s i)"
  note inv = lm_okD(1) [OF ok]
  note hok = lm_invD(1) [OF inv h] and gd = head_ok_grantedD [OF lm_invD(1) [OF inv h] i]
  let ?c1 = "(grantedCounts h)(m := Suc (grantedCounts h m))"
  let ?c = "?c1(?k := ?c1 ?k - 1)"
  let ?h = "h\<lparr>grantedCounts := ?c, grantedModes := mask_of ?c\<rparr>"
  have pos: "0 < grantedCounts h ?k" using mode_granted_counted [OF head_okD(5) [OF hok] i] .
  have "head_ok (?rq(i := ?q)) (h\<lparr>grantedCounts := ?c, grantedModes := mask_of ?c, conversionsCount := conversionsCount h\<rparr>)"
  proof (rule head_ok_update [OF hok i])
    show "\<not> conflicting (mode ?q) (mode (?rq j))" if "j \<in> set (grantedList h)" "j \<noteq> i" for j
      using head_okD(4) [OF hok] i that covered_conflicting [OF m(1), of "mode (?rq j)"]
      unfolding compatible_def by fastforce
    show "?c m' + contrib (?rq i) m' = grantedCounts h m' + contrib ?q m'" for m'
      using pos g by (auto simp: contrib_def converting_def)
  qed (use gd g in \<open>auto simp: granted_req_ok_def on_head_def converting_def\<close>)
  then have hok1: "head_ok (?rq(i := ?q)) ?h" by simp
  have cl: "\<exists>m''. claims (?rq j) m'' \<and> weaker m' m''" if "claims ((?rq(i := ?q)) j) m'" for j m'
  proof (cases "j = i")
    case True
    then have "m' = m" using that g by (auto simp: claims_def converting_def)
    then show ?thesis using m True by (auto simp: claims_def weaker_def)
  next
    case False
    then show ?thesis using that weaker_refl by auto
  qed
  have rel: "released {} ?rq h (?rq(i := ?q)) ?h"
    unfolding released_def
  proof (intro conjI ballI allI impI)
    show "\<exists>m''. claims (?rq j) m'' \<and> weaker m' m''" if "claims ((?rq(i := ?q)) j) m'" for j m' using cl [OF that] .
    show "j \<in> members h" if "(?rq(i := ?q)) j \<noteq> ?rq j" for j
      using that i by (cases "j = i") (auto simp: members_def)
  qed (use hok1 in \<open>auto simp: head_frame_def members_def\<close>)
  obtain rq' h' nt' where o: "onLockModeChanged True (?rq(i := ?q), ?h, notified s) = Some (rq', h', nt')"
      "released {} ?rq h rq' h'" "same_identity ?q (rq' i)" "front_blocked rq' h'"
  proof -
    obtain rq' h' nt' where o: "onLockModeChanged True (?rq(i := ?q), ?h, notified s) = Some (rq', h', nt')"
      "released {} ?rq h rq' h'" "\<forall>j. same_identity ((?rq(i := ?q)) j) (rq' j)"
      using onLockModeChanged_released [OF rel, of True False "notified s"] by blast
    moreover have "front_blocked rq' h'"
      using onLockModeChanged_ok [OF hok1, of True "notified s"] o(1) by auto
    ultimately show ?thesis using spec [OF o(3), of i] that by auto
  qed
  let ?s' = "put_head r h' (s\<lparr>requests := rq', notified := nt'\<rparr>)"
  have "LockManager_downgrade i m s = Some ?s'"
    using gd(2) lm_invD(2) [OF inv h] g gd(1) m(1) h pos o(1) masks_ok(1) [OF hok]
    by (auto simp: LockManager_downgrade_def granted_req_ok_def isModeCovered_or inc_dec_granted put_ctx_def)
  moreover have "mode (rq' i) = m"
  proof -
    have "claims (rq' i) (mode (rq' i))" by (simp add: claims_def)
    from onLockModeChanged_claims [OF o(1) this] g show ?thesis by (simp add: claims_def converting_def)
  qed
  ultimately show ?thesis
    using lm_ok_released [OF ok h o(2)] o(4) released_holders [OF h o(2) _ ok, where nt = nt']
    by (intro exI [of _ ?s']) (simp add: queue_blocked_put)
qed

subsection \<open>cleanupUnusedLocks\<close>

definition granted_on :: "HeadMap \<Rightarrow> PartMap \<Rightarrow> ResourceId \<Rightarrow> ReqId set" where
  "granted_on F P r = (case F r of None \<Rightarrow> {} | Some h \<Rightarrow> set (grantedList h)) \<union> parts_of P r"

definition waiting_on :: "HeadMap \<Rightarrow> ResourceId \<Rightarrow> ReqId set" where
  "waiting_on F r = (case F r of None \<Rightarrow> {} | Some h \<Rightarrow> set (conflictList h))"

lemma holders_granted_on: "holders s = granted_on (find_head s) (Partition_find (partitionData s))"
  "waiters s = waiting_on (find_head s)"
  by (simp_all add: fun_eq_iff holders_alt granted_on_def waiters_def waiting_on_def)

definition served :: "HeadMap \<Rightarrow> PartMap \<Rightarrow> bool" where
  "served F P \<longleftrightarrow> (\<forall>r. waiting_on F r \<noteq> {} \<longrightarrow> granted_on F P r \<noteq> {})"

text \<open>Cleanup may move requests from partitions to heads and drop empty heads; nothing else.\<close>

definition same_locks ::
  "(ReqId \<Rightarrow> LockRequest) \<Rightarrow> HeadMap \<Rightarrow> PartMap \<Rightarrow> (ReqId \<Rightarrow> LockRequest) \<Rightarrow> HeadMap \<Rightarrow> PartMap \<Rightarrow> bool" where
  "same_locks rq F P rq' F' P' \<longleftrightarrow>
     granted_on F' P' = granted_on F P \<and> waiting_on F' = waiting_on F \<and>
     (\<forall>j. mode (rq' j) = mode (rq j) \<and> status (rq' j) = status (rq j) \<and> recursiveCount (rq' j) = recursiveCount (rq j))"

lemma same_locks_trans:
  "same_locks rq F P rq1 F1 P1 \<Longrightarrow> same_locks rq1 F1 P1 rq2 F2 P2 \<Longrightarrow> same_locks rq F P rq2 F2 P2"
  by (simp add: same_locks_def)

lemma migrate_same_locks:
  assumes inv: "lm_inv rq F (Partition_find pd)" and h: "F r = Some h"
  shows "\<exists>rq' h' pd'. migrateIfPartitioned (rq, h, pd) = Some (rq', h', pd') \<and>
    lm_inv rq' (F(r \<mapsto> h')) (Partition_find pd') \<and> partitions h' = [] \<and>
    (\<forall>p. Partition_find pd' p r = None) \<and> (\<forall>p r'. r' \<noteq> r \<longrightarrow> Partition_find pd' p r' = Partition_find pd p r') \<and>
    same_locks rq F (Partition_find pd) rq' (F(r \<mapsto> h')) (Partition_find pd')"
proof -
  let ?P = "Partition_find pd"
  obtain rq' h' pd' where m: "migrateIfPartitioned (rq, h, pd) = Some (rq', h', pd')"
    "lm_inv rq' (F(r \<mapsto> h')) (Partition_find pd')" "partitions h' = []"
    "\<forall>p r'. Partition_find pd' p r' = (if r' = r then None else ?P p r')"
    "set (grantedList h') = set (grantedList h) \<union> parts_of ?P r" "conflictList h' = conflictList h"
    "\<forall>j. rq' j = (if j \<in> parts_of ?P r then migrated r (rq j) else rq j)"
    using migrateIfPartitioned_ok [OF inv h] by blast
  have "same_locks rq F ?P rq' (F(r \<mapsto> h')) (Partition_find pd')"
    using m(4-7) h by (auto simp: same_locks_def granted_on_def waiting_on_def fun_eq_iff parts_of_def)
  then show ?thesis using m by auto
qed

lemma lm_inv_drop_head:
  assumes inv: "lm_inv rq F P" and P: "\<And>p. P p r = None"
  shows "lm_inv rq (F(r := None)) P"
proof (rule lm_invI)
  fix r2 h assume "(F(r := None)) r2 = Some h"
  then have "F r2 = Some h" by (auto split: if_splits)
  then show "head_ok rq h \<and> resourceId h = r2 \<and> (partitions h \<noteq> [] \<longrightarrow> intent_only h)"
    using lm_invD(1,2,3) [OF inv] by blast
next
  fix p r2 l assume P2: "P p r2 = Some l"
  then have "r2 \<noteq> r" using P by auto
  then show "\<exists>h. (F(r := None)) r2 = Some h \<and> p \<in> set (partitions h)"
    using lm_invD(6,7) [OF inv P2] by auto
qed (use lm_invD(4,5) [OF inv] in blast)+

lemma cleanupBucket_ok:
  assumes "lm_inv rq F (Partition_find pd)" "served F (Partition_find pd)"
    "distinct (map fst es)" "\<And>r h. (r, h) \<in> set es \<Longrightarrow> F r = Some h"
  defines "upd \<equiv> \<lambda>es'. (\<lambda>r. if r \<in> fst ` set es then map_of es' r else F r)"
  shows "\<exists>es' rq' pd'. cleanupUnusedLocksInBucket es (rq, pd) = Some (es', rq', pd') \<and>
    distinct (map fst es') \<and> fst ` set es' \<subseteq> fst ` set es \<and>
    lm_inv rq' (upd es') (Partition_find pd') \<and>
    same_locks rq F (Partition_find pd) rq' (upd es') (Partition_find pd')"
  using assms(1-4) unfolding upd_def
proof (induction es arbitrary: rq F pd)
  case Nil
  then show ?case by (simp add: same_locks_def)
next
  case (Cons e es)
  obtain r h0 where e: "e = (r, h0)" by fastforce
  note inv = Cons.prems(1)
  have Fr: "F r = Some h0" using Cons.prems(4) e by auto
  have d: "distinct (map fst es)" "r \<notin> fst ` set es" using Cons.prems(3) e by auto
  have keep: "F r2 = Some h2 \<and> r2 \<noteq> r" if "(r2, h2) \<in> set es" for r2 h2
    using Cons.prems(4) [of r2 h2] that d(2) by (auto simp: rev_image_eqI)
  obtain rq1 h pd1 where m: "migrateIfPartitioned (rq, h0, pd) = Some (rq1, h, pd1)"
    "lm_inv rq1 (F(r \<mapsto> h)) (Partition_find pd1)" "partitions h = []" "\<forall>p. Partition_find pd1 p r = None"
    "same_locks rq F (Partition_find pd) rq1 (F(r \<mapsto> h)) (Partition_find pd1)"
    using migrate_same_locks [OF inv Fr] by blast
  have sv: "served (F(r \<mapsto> h)) (Partition_find pd1)"
    using Cons.prems(2) m(5) by (simp add: served_def same_locks_def)
  have hok: "head_ok rq1 h" using lm_invD(1) [OF m(2), of r h] by simp
  show ?case
  proof (cases "grantedModes h = 0")
    case True
    let ?F = "F(r := None)"
    have gl: "grantedList h = []" using queue_mask_in_sync(1) [OF hok] True by simp
    have "granted_on (F(r \<mapsto> h)) (Partition_find pd1) r = {}"
      using gl m(4) by (simp add: granted_on_def parts_of_def)
    then have "waiting_on (F(r \<mapsto> h)) r = {}" using sv unfolding served_def by blast
    then have cl: "conflictList h = []" by (simp add: waiting_on_def)
    have cnt: "conversionsCount h = 0" "compatibleFirstCount h = 0" "conflictModes h = 0"
      using head_okD(5) [OF hok] gl queue_mask_in_sync(2) [OF hok] cl by (simp_all add: counters_ok_def)
    have inv1: "lm_inv rq1 ?F (Partition_find pd1)"
      using lm_inv_drop_head [OF m(2), of r] m(4) by simp
    have sl: "same_locks rq1 (F(r \<mapsto> h)) (Partition_find pd1) rq1 ?F (Partition_find pd1)"
      using gl cl by (auto simp: same_locks_def granted_on_def waiting_on_def fun_eq_iff)
    have sv1: "served ?F (Partition_find pd1)" using sv sl by (simp add: served_def same_locks_def)
    have k1: "?F r2 = Some h2" if "(r2, h2) \<in> set es" for r2 h2 using keep [OF that] by simp
    obtain es' rq' pd' where r: "cleanupUnusedLocksInBucket es (rq1, pd1) = Some (es', rq', pd')"
      "distinct (map fst es')" "fst ` set es' \<subseteq> fst ` set es"
      "lm_inv rq' (\<lambda>r. if r \<in> fst ` set es then map_of es' r else ?F r) (Partition_find pd')"
      "same_locks rq1 ?F (Partition_find pd1) rq' (\<lambda>r. if r \<in> fst ` set es then map_of es' r else ?F r) (Partition_find pd')"
      using Cons.IH [OF inv1 sv1 d(1) k1] by blast
    have "map_of es' r = None" using r(3) d(2) by (auto simp: map_of_eq_None_iff)
    then have eq: "(\<lambda>r. if r \<in> fst ` set es then map_of es' r else ?F r)
        = (\<lambda>r. if r \<in> fst ` set (e # es) then map_of es' r else F r)"
      using d(2) by (auto simp: e fun_eq_iff)
    have "cleanupUnusedLocksInBucket (e # es) (rq, pd) = Some (es', rq', pd')"
      using m(1) True gl cl cnt r(1) by (simp add: e)
    with r(2-4) same_locks_trans [OF same_locks_trans [OF m(5) sl] r(5)] show ?thesis
      unfolding eq by (auto simp: e)
  next
    case False
    let ?F = "F(r \<mapsto> h)"
    have k1: "?F r2 = Some h2" if "(r2, h2) \<in> set es" for r2 h2 using keep [OF that] by simp
    obtain es' rq' pd' where r: "cleanupUnusedLocksInBucket es (rq1, pd1) = Some (es', rq', pd')"
      "distinct (map fst es')" "fst ` set es' \<subseteq> fst ` set es"
      "lm_inv rq' (\<lambda>r. if r \<in> fst ` set es then map_of es' r else ?F r) (Partition_find pd')"
      "same_locks rq1 ?F (Partition_find pd1) rq' (\<lambda>r. if r \<in> fst ` set es then map_of es' r else ?F r) (Partition_find pd')"
      using Cons.IH [OF m(2) sv d(1) k1] by blast
    have eq: "(\<lambda>x. if x \<in> fst ` set es then map_of es' x else ?F x)
        = (\<lambda>x. if x \<in> fst ` set (e # es) then map_of ((r, h) # es') x else F x)"
      using d(2) by (auto simp: e fun_eq_iff)
    have "cleanupUnusedLocksInBucket (e # es) (rq, pd) = Some ((r, h) # es', rq', pd')"
      using m(1) False r(1) by (simp add: e)
    with r(2-4) d(2) same_locks_trans [OF m(5) r(5)] show ?thesis
      unfolding eq by (intro exI [of _ "(r, h) # es'"] exI [of _ rq'] exI [of _ pd']) (auto simp: e)
  qed
qed

definition lm_served :: "LockManager \<Rightarrow> bool" where
  "lm_served s \<longleftrightarrow> (\<forall>r. waiters s r \<noteq> {} \<longrightarrow> holders s r \<noteq> {})"

definition same_state :: "LockManager \<Rightarrow> LockManager \<Rightarrow> bool" where
  "same_state s s' \<longleftrightarrow> holders s' = holders s \<and> waiters s' = waiters s \<and>
     (\<forall>j. mode (requests s' j) = mode (requests s j) \<and> status (requests s' j) = status (requests s j) \<and>
          recursiveCount (requests s' j) = recursiveCount (requests s j))"

lemma cleanup_one_bucket:
  assumes ok: "lm_ok s" and sv: "lm_served s"
  shows "\<exists>es rq pd. cleanupUnusedLocksInBucket (buckets s b) (requests s, partitionData s) = Some (es, rq, pd) \<and>
    (let s' = s\<lparr>buckets := (buckets s)(b := es), requests := rq, partitionData := pd\<rparr> in
     lm_ok s' \<and> same_state s s')"
proof -
  let ?es = "buckets s b" and ?P = "Partition_find (partitionData s)"
  note inv = lm_okD(1) [OF ok]
  have tab: "distinct (map fst ?es)" "\<And>r. r \<in> fst ` set ?es \<Longrightarrow> getBucket r = b"
    using lm_okD(2) [OF ok] by (auto simp: tables_ok_def)
  have look: "find_head s r = Some h" if "(r, h) \<in> set ?es" for r h
  proof -
    have "getBucket r = b" using that tab(2) [of r] by (force simp: image_iff)
    then show ?thesis using that tab(1) by (simp add: find_head_def)
  qed
  have sv': "served (find_head s) ?P" using sv by (simp add: lm_served_def served_def holders_granted_on)
  let ?upd = "\<lambda>es'. (\<lambda>r. if r \<in> fst ` set ?es then map_of es' r else find_head s r)"
  obtain es' rq' pd' where r: "cleanupUnusedLocksInBucket ?es (requests s, partitionData s) = Some (es', rq', pd')"
    "distinct (map fst es')" "fst ` set es' \<subseteq> fst ` set ?es" "lm_inv rq' (?upd es') (Partition_find pd')"
    "same_locks (requests s) (find_head s) ?P rq' (?upd es') (Partition_find pd')"
    using cleanupBucket_ok [OF inv sv' tab(1) look] by blast
  let ?s = "s\<lparr>buckets := (buckets s)(b := es'), requests := rq', partitionData := pd'\<rparr>"
  have F: "find_head ?s = ?upd es'"
  proof
    fix r
    show "find_head ?s r = ?upd es' r"
    proof (cases "getBucket r = b")
      case True
      have "find_head s r = None \<and> map_of es' r = None" if "r \<notin> fst ` set ?es"
        using that r(3) True by (auto simp: find_head_def map_of_eq_None_iff)
      then show ?thesis using True by (auto simp: find_head_def)
    next
      case False
      then show ?thesis using tab(2) [of r] by (auto simp: find_head_def)
    qed
  qed
  have "fst ` set es' \<subseteq> {k. getBucket k = b}" using r(3) tab(2) by blast
  then have "tables_ok ?s" using lm_okD(2) [OF ok] r(2) by (simp add: tables_ok_def)
  then have "lm_ok ?s" using r(4) F by (simp add: lm_ok_def)
  moreover have "same_state s ?s"
    using r(5) F by (simp add: same_state_def same_locks_def holders_granted_on)
  ultimately show ?thesis using r(1) by simp
qed

lemma cleanupBuckets_ok:
  assumes "lm_ok s" "lm_served s"
  shows "\<exists>s'. cleanupBuckets bs s = Some s' \<and> lm_ok s' \<and> same_state s s'"
  using assms
proof (induction bs arbitrary: s)
  case Nil
  then show ?case by (simp add: same_state_def)
next
  case (Cons b bs)
  obtain es rq pd where c: "cleanupUnusedLocksInBucket (buckets s b) (requests s, partitionData s) = Some (es, rq, pd)"
    "lm_ok (s\<lparr>buckets := (buckets s)(b := es), requests := rq, partitionData := pd\<rparr>)"
    "same_state s (s\<lparr>buckets := (buckets s)(b := es), requests := rq, partitionData := pd\<rparr>)"
    using cleanup_one_bucket [OF Cons.prems, of b] by (auto simp: Let_def)
  let ?s = "s\<lparr>buckets := (buckets s)(b := es), requests := rq, partitionData := pd\<rparr>"
  have sv: "lm_served ?s" using Cons.prems(2) c(3) by (simp add: lm_served_def same_state_def)
  obtain s' where r: "cleanupBuckets bs ?s = Some s'" "lm_ok s'" "same_state ?s s'"
    using Cons.IH [OF c(2) sv] by blast
  have "same_state s s'" using c(3) r(3) unfolding same_state_def by metis
  then show ?case using c(1) r by auto
qed

lemma cleanupUnusedLocks_ok:
  "lm_ok s \<Longrightarrow> lm_served s \<Longrightarrow> \<exists>s'. cleanupUnusedLocks s = Some s' \<and> lm_ok s' \<and> same_state s s'"
  unfolding cleanupUnusedLocks_def by (rule cleanupBuckets_ok)

subsection \<open>Waiting requests wait for a holder\<close>

lemma lock_outcome_served: "lm_served s \<Longrightarrow> lock_outcome s r i res s' \<Longrightarrow> lm_served s'"
proof -
  assume sv: "lm_served s" and o: "lock_outcome s r i res s'"
  have "holders s' r' \<noteq> {}" if w: "waiters s' r' \<noteq> {}" for r'
  proof (cases "res = LOCK_OK")
    case True
    with o have "holders s r' \<subseteq> holders s' r'" "waiters s' = waiters s" by (auto simp: lock_outcome_def)
    with sv w show ?thesis unfolding lm_served_def by (metis subset_empty)
  next
    case False
    with o have h: "holders s' = holders s" "holders s r \<union> waiters s r \<noteq> {}" "r' \<noteq> r \<longrightarrow> waiters s' r' = waiters s r'"
      by (auto simp: lock_outcome_def)
    with sv w show ?thesis unfolding lm_served_def by (cases "r' = r") auto
  qed
  then show "lm_served s'" by (simp add: lm_served_def)
qed

lemma unlock_outcome_served: "lm_served s \<Longrightarrow> unlock_outcome s r i b s' \<Longrightarrow> lm_served s'"
  unfolding lm_served_def unlock_outcome_def by metis

lemma convert_outcome_served: "lm_served s \<Longrightarrow> convert_outcome s r i m res s' \<Longrightarrow> lm_served s'"
  unfolding lm_served_def convert_outcome_def by auto

end
