(* ===== verification/LockStateMachine.thy ===== *)
theory LockStateMachine
  imports LockManagerRelease
begin

unbundle bit_operations_syntax

text \<open>
  The lock manager as a state machine. One step is one critical section run by one client:
  \<open>lock\<close> is two steps (the partition fast path and the bucket path), so the step
  relation has the interleavings the source comments call "benign races". The guards are the
  clients' side of the contract (\<open>LockerImpl\<close>): a request is initialised before it is
  locked, \<open>convert\<close>, \<open>unlock\<close> and \<open>downgrade\<close> are called on requests the
  client owns, conversions are between comparable modes, and nobody asks for
  \<open>MODE_NONE\<close>.
\<close>

definition LockManager_empty :: LockManager where
  "LockManager_empty = \<lparr>requests = (\<lambda>_. LockRequest_initNew 0), buckets = (\<lambda>_. []),
     partitionData = (\<lambda>_. []), notified = []\<rparr>"

inductive lm_step :: "LockManager \<Rightarrow> LockManager \<Rightarrow> bool" where
  step_init: "\<not> is_queued s i \<Longrightarrow>
     lm_step s (s\<lparr>requests := (requests s)(i := (LockRequest_initNew l)\<lparr>enqueueAtFront := a, compatibleFirst := b\<rparr>)\<rparr>)"
| step_lock_fast: "fresh s i \<Longrightarrow> m \<noteq> MODE_NONE \<Longrightarrow> lock_prepare m (requests s i) = Some q \<Longrightarrow>
     s1 = s\<lparr>requests := (requests s)(i := q)\<rparr> \<Longrightarrow> lock_fast r i s1 = Some res \<Longrightarrow>
     lm_step s (case res of Some s2 \<Rightarrow> s2 | None \<Rightarrow> s1)"
| step_lock_slow: "lock_ready s i \<Longrightarrow> mode (requests s i) \<noteq> MODE_NONE \<Longrightarrow>
     lock_slow r i s = Some (res, s') \<Longrightarrow> lm_step s s'"
| step_convert: "i \<in> holders s r \<Longrightarrow> status (requests s i) = STATUS_GRANTED \<Longrightarrow> m \<noteq> MODE_NONE \<Longrightarrow>
     isModeCovered m (mode (requests s i)) \<or> isModeCovered (mode (requests s i)) m \<Longrightarrow>
     LockManager_convert r i m s = Some (res, s') \<Longrightarrow> lm_step s s'"
| step_unlock: "i \<in> holders s r \<union> waiters s r \<Longrightarrow> LockManager_unlock i s = Some (b, s') \<Longrightarrow> lm_step s s'"
| step_downgrade: "find_head s r = Some h \<Longrightarrow> i \<in> set (grantedList h) \<Longrightarrow>
     status (requests s i) = STATUS_GRANTED \<Longrightarrow> isModeCovered m (mode (requests s i)) \<Longrightarrow> m \<noteq> MODE_NONE \<Longrightarrow>
     LockManager_downgrade i m s = Some s' \<Longrightarrow> lm_step s s'"
| step_cleanup: "cleanupUnusedLocksInBucket (buckets s b) (requests s, partitionData s) = Some (es, rq, pd) \<Longrightarrow>
     lm_step s (s\<lparr>buckets := (buckets s)(b := es), requests := rq, partitionData := pd\<rparr>)"

definition lm_good :: "LockManager \<Rightarrow> bool" where
  "lm_good s \<longleftrightarrow> lm_ok s \<and> lm_served s"

lemma holder_count_pos:
  assumes "lm_ok s" "i \<in> holders s r"
  shows "0 < recursiveCount (requests s i)"
proof -
  note inv = lm_okD(1) [OF assms(1)]
  from queued_at [of i s r] assms(2) consider p l where "Partition_find (partitionData s) p r = Some l" "i \<in> set l"
    | h where "find_head s r = Some h" "i \<in> members h" by auto
  then show ?thesis
  proof cases
    case 1
    then show ?thesis using lm_invD(5) [OF inv 1] by (simp add: part_req_ok_def)
  next
    case 2
    then show ?thesis
      using head_ok_grantedD(1) [OF lm_invD(1) [OF inv 2(1)], of i] head_ok_waitingD(1) [OF lm_invD(1) [OF inv 2(1)], of i]
      by (auto simp: members_def granted_req_ok_def waiting_req_ok_def)
  qed
qed

lemma lm_served_other [simp]: "lm_served (s\<lparr>requests := a\<rparr>) = lm_served s"
  by (simp add: lm_served_def)

lemma downgrade_served:
  assumes "lm_served s" "holders s r \<subseteq> holders s' r" "i \<in> holders s r"
    "\<forall>r'. r' \<noteq> r \<longrightarrow> holders s' r' = holders s r' \<and> waiters s' r' = waiters s r'"
  shows "lm_served s'"
  using assms unfolding lm_served_def by (metis empty_iff subsetD)

lemma fast_good:
  assumes good: "lm_good s" and fr: "fresh s i" and m: "lock_prepare m (requests s i) = Some q"
    and s1: "s1 = s\<lparr>requests := (requests s)(i := q)\<rparr>" and res: "lock_fast r i s1 = Some res"
  shows "lm_good (case res of Some s2 \<Rightarrow> s2 | None \<Rightarrow> s1)"
proof -
  have q: "q = (requests s i)\<lparr>partitioned := (m = MODE_IX \<or> m = MODE_IS), mode := m\<rparr>"
    using m fr by (simp add: lock_prepare_def fresh_def)
  have ok1: "lm_good s1" using good lm_ok_fresh [of s i] fr by (simp add: lm_good_def s1 fresh_def)
  have "lock_ready s1 i" using fr by (auto simp: s1 q lock_ready_def fresh_def is_queued_def intent_def)
  from lock_fast_ok [OF _ this, of r] ok1 res show ?thesis
    by (auto simp: lm_good_def intro: lock_outcome_served)
qed

lemma lm_step_good: "lm_step s s' \<Longrightarrow> lm_good s \<Longrightarrow> lm_good s'"
proof (induction rule: lm_step.induct)
  case (step_init s i l a b)
  then show ?case by (simp add: lm_good_def lm_ok_fresh)
next
  case (step_lock_fast s i m q s1 r res)
  then show ?case using fast_good by blast
next
  case (step_lock_slow s i r res s')
  then show ?case using lock_slow_ok [of s i r] lock_outcome_served by (fastforce simp: lm_good_def)
next
  case (step_convert i s r m res s')
  then show ?case
    using LockManager_convert_ok [of s i r m] holder_count_pos convert_outcome_served by (fastforce simp: lm_good_def)
next
  case (step_unlock i s r b s')
  then show ?case using LockManager_unlock_ok [of s i r] unlock_outcome_served by (fastforce simp: lm_good_def)
next
  case (step_downgrade s r h i m s')
  then have "lm_ok s' \<and> lm_served s'"
    using LockManager_downgrade_ok [of s r h i m] downgrade_served [of s r s' i] by (auto simp: lm_good_def holders_def)
  then show ?case by (simp add: lm_good_def)
next
  case (step_cleanup s b es rq pd)
  then show ?case using cleanup_one_bucket [of s b] by (auto simp: lm_good_def lm_served_def same_state_def)
qed

lemma lm_empty_good: "lm_good LockManager_empty"
proof -
  have n: "find_head LockManager_empty r = None" "Partition_find (partitionData LockManager_empty) p r = None" for p r
    by (simp_all add: LockManager_empty_def find_head_def Partition_find_def)
  show ?thesis
    by (auto simp: lm_good_def lm_ok_def lm_inv_def n lm_served_def waiters_def, simp add: LockManager_empty_def tables_ok_def)
qed

interpretation lock_machine: step_invariant "\<lambda>s. s = LockManager_empty" lm_step lm_good
  by unfold_locales (auto intro: lm_empty_good lm_step_good)

subsection \<open>Properties\<close>

lemma reachable_good: "lm_step\<^sup>*\<^sup>* LockManager_empty s \<Longrightarrow> lm_ok s \<and> lm_served s"
  using lock_machine.reachable_inv [of LockManager_empty s] by (simp add: lm_good_def)

lemma LockManager_lock_steps:
  assumes "fresh s i" "m \<noteq> MODE_NONE" "LockManager_lock r i m s = Some (res, s')"
  shows "lm_step\<^sup>*\<^sup>* s s'"
proof -
  obtain q x where q: "lock_prepare m (requests s i) = Some q"
    "lock_fast r i (s\<lparr>requests := (requests s)(i := q)\<rparr>) = Some x"
    "(case x of Some s2 \<Rightarrow> Some (LOCK_OK, s2) | None \<Rightarrow> lock_slow r i (s\<lparr>requests := (requests s)(i := q)\<rparr>)) = Some (res, s')"
    using assms(3) by (auto simp: LockManager_lock_def bind_eq_Some_conv)
  let ?s = "s\<lparr>requests := (requests s)(i := q)\<rparr>"
  have st: "lm_step s (case x of Some s2 \<Rightarrow> s2 | None \<Rightarrow> ?s)"
    by (rule step_lock_fast [OF assms(1,2) q(1) refl q(2)])
  have qm: "mode q = m" "partitioned q = (m = MODE_IX \<or> m = MODE_IS)" "lock_ready ?s i"
    using q(1) assms(1) by (auto simp: lock_prepare_def fresh_def lock_ready_def intent_def is_queued_def split: if_splits)
  show ?thesis
  proof (cases x)
    case None
    then have "lm_step ?s s'" using q(3) qm assms(2) by (intro step_lock_slow [of ?s i r res]) auto
    with st None show ?thesis by (auto intro: converse_rtranclp_into_rtranclp)
  next
    case (Some s2)
    with st q(3) show ?thesis by auto
  qed
qed

text \<open>Two intent locks on resource 5, taken one after the other.\<close>

definition demo_one :: LockManager where
  "demo_one = snd (the (LockManager_lock 5 0 MODE_IX LockManager_empty))"

definition demo_two :: LockManager where
  "demo_two = snd (the (LockManager_lock 5 1 MODE_IS demo_one))"

text \<open>An exclusive request on the same resource: it waits behind the first one.\<close>

definition demo_wait :: LockManager where
  "demo_wait = snd (the (LockManager_lock 5 1 MODE_X demo_one))"

lemmas lm_eval = LockManager_lock_def lock_prepare_def lock_fast_def lock_slow_def LockBucket_findOrInsert_def
  find_head_def put_head_def Partition_find_def Partition_put_def Partition_findOrInsert_def
  PartitionedLockHead_newRequest_def getPartition_def getBucket_def numPartitions_def numLockBuckets_def
  LockManager_empty_def LockRequest_initNew_def LockHead_initNew_def

lemma demo_one_lock: "LockManager_lock 5 0 MODE_IX LockManager_empty = Some (LOCK_OK, demo_one)"
  unfolding demo_one_def by (simp add: lm_eval)

lemma demo_two_lock: "LockManager_lock 5 1 MODE_IS demo_one = Some (LOCK_OK, demo_two)"
  unfolding demo_two_def demo_one_def by (simp add: lm_eval)

lemmas mode_eval = conflicts_def incConflictModeCount_def incGrantedModeCount_def incModeCount_def modeMask_def intentModes_def
  newRequest_def migrateIfPartitioned_def migratePartitionedLockHeads_def Partition_erase_def

lemma demo_wait_lock: "LockManager_lock 5 1 MODE_X demo_one = Some (LOCK_WAITING, demo_wait)"
  unfolding demo_wait_def demo_one_def by (simp add: lm_eval mode_eval)

lemma demo_waiters: "waiters demo_wait 5 = {1}"
  unfolding demo_wait_def demo_one_def by (simp add: lm_eval mode_eval waiters_def)

lemma fresh_empty: "fresh LockManager_empty i"
  by (simp add: fresh_def is_queued_def queued_def LockManager_empty_def find_head_def Partition_find_def LockRequest_initNew_def)

lemma demo_one_fresh: "fresh demo_one 1"
  unfolding demo_one_def
  by (auto simp: lm_eval fresh_def is_queued_def queued_def members_def split: if_splits)

lemma demo_reachable: "lm_step\<^sup>*\<^sup>* LockManager_empty demo_one" "lm_step\<^sup>*\<^sup>* LockManager_empty demo_two"
  "lm_step\<^sup>*\<^sup>* LockManager_empty demo_wait"
proof -
  show one: "lm_step\<^sup>*\<^sup>* LockManager_empty demo_one"
    using LockManager_lock_steps [OF fresh_empty _ demo_one_lock] by simp
  show "lm_step\<^sup>*\<^sup>* LockManager_empty demo_two"
    using rtranclp_trans [OF one LockManager_lock_steps [OF demo_one_fresh _ demo_two_lock]] by simp
  show "lm_step\<^sup>*\<^sup>* LockManager_empty demo_wait"
    using rtranclp_trans [OF one LockManager_lock_steps [OF demo_one_fresh _ demo_wait_lock]] by simp
qed

lemma demo_holders: "holders demo_two 5 = {0, 1}" "0 \<in> holders demo_one 5"
  unfolding demo_two_def demo_one_def by (auto simp: lm_eval holders_def split: if_splits)

lemma demo_modes: "mode (requests demo_two 0) = MODE_IX" "mode (requests demo_two 1) = MODE_IS"
  "status (requests demo_two 0) = STATUS_GRANTED"
  unfolding demo_two_def demo_one_def by (simp_all add: lm_eval)

text \<open>
  C1: mutual exclusion. In every reachable state of the lock manager, with any interleaving of the
  critical sections, two different requests that hold the same resource hold compatible modes,
  whether they sit on the lock head or on a partitioned lock head.
\<close>

theorem lock_mutual_exclusion:
  assumes "lm_step\<^sup>*\<^sup>* LockManager_empty s" "i \<in> holders s r" "j \<in> holders s r" "i \<noteq> j"
  shows "\<not> conflicts (mode (requests s i)) (modeMask (mode (requests s j)))"
  using lm_ok_compatible [of s r] reachable_good [OF assms(1)] assms(2-4)
  by (auto simp: compatible_def conflicting_def)

theorem lock_mutual_exclusion_witness:
  "0 \<in> holders demo_two 5 \<and> 1 \<in> holders demo_two 5 \<and>
   \<not> conflicts (mode (requests demo_two 0)) (modeMask (mode (requests demo_two 1)))"
  using lock_mutual_exclusion [OF demo_reachable(2), of 0 5 1] by (simp add: demo_holders)

text \<open>
  C13: \<open>lock\<close> never aborts in a reachable state. It either grants the request in the mode asked for, which then conflicts with
  no mode that another request holds, or queues it behind a request that holds, converts to, or waits
  for a conflicting mode; no other request changes its mode or status, and no other resource changes.
\<close>

theorem lock_grants_or_waits:
  assumes "lm_step\<^sup>*\<^sup>* LockManager_empty s" "fresh s i"
  shows "\<exists>res s'. LockManager_lock r i m s = Some (res, s') \<and>
     lock_outcome (s\<lparr>requests := (requests s)(i := (requests s i)\<lparr>mode := m\<rparr>)\<rparr>) r i res s' \<and> mode (requests s' i) = m \<and>
     (res = LOCK_OK \<longrightarrow> (\<forall>j\<in>holders s r. \<not> conflicting m (mode (requests s j))))"
proof -
  let ?s = "s\<lparr>requests := (requests s)(i := (requests s i)\<lparr>mode := m\<rparr>)\<rparr>"
  obtain res s' where l: "LockManager_lock r i m s = Some (res, s')" "lock_outcome ?s r i res s'"
    using LockManager_lock_ok [OF _ assms(2)] reachable_good [OF assms(1)] by blast
  have "i \<notin> holders s r" using holders_queued [of i s r] assms(2) by (auto simp: fresh_def)
  then have "\<forall>j\<in>holders s r. j \<noteq> i" by blast
  then show ?thesis using l by (auto simp: lock_outcome_def)
qed

theorem lock_grants_or_waits_witness:
  "\<exists>res s'. LockManager_lock 5 1 MODE_IS demo_one = Some (res, s') \<and> 1 \<in> holders s' 5 \<and> mode (requests s' 1) = MODE_IS \<and>
     status (requests s' 1) = STATUS_GRANTED \<and> \<not> conflicting MODE_IS (mode (requests demo_one 0))"
  using lock_grants_or_waits [OF demo_reachable(1) demo_one_fresh, of 5 MODE_IS] demo_two_lock demo_holders(2)
  by (auto simp: lock_outcome_def)

text \<open>
  C14: \<open>unlock\<close> never aborts on a request that holds or waits for a resource. It removes
  exactly that request, takes no lock away from anybody, leaves every other resource alone, and
  leaves no request waiting unless somebody holds the resource; the first waiter is blocked by
  a holder if it was before.
\<close>

theorem unlock_releases:
  assumes "lm_step\<^sup>*\<^sup>* LockManager_empty s" "i \<in> holders s r \<union> waiters s r"
  shows "\<exists>b s'. LockManager_unlock i s = Some (b, s') \<and> unlock_outcome s r i b s' \<and>
     (no_none s r \<and> queue_blocked s r \<longrightarrow> queue_blocked s' r)"
  using LockManager_unlock_ok [OF _ assms(2)] reachable_good [OF assms(1)] by blast

theorem unlock_releases_witness:
  "\<exists>b s'. LockManager_unlock 0 demo_two = Some (b, s') \<and> unlock_outcome demo_two 5 0 b s'"
proof -
  have "0 \<in> holders demo_two 5 \<union> waiters demo_two 5" by (simp add: demo_holders)
  from unlock_releases [OF demo_reachable(2) this] show ?thesis by blast
qed

text \<open>
  C16: \<open>convert\<close> of a granted request to a comparable mode never aborts: it is granted with
  the stronger of the two modes, or it waits for another holder whose mode conflicts and keeps
  its old mode; holders and waiters stay the same.
\<close>

theorem convert_grants_or_waits:
  assumes "lm_step\<^sup>*\<^sup>* LockManager_empty s" "i \<in> holders s r" "status (requests s i) = STATUS_GRANTED"
    and "isModeCovered m (mode (requests s i)) \<or> isModeCovered (mode (requests s i)) m"
  shows "\<exists>res s'. LockManager_convert r i m s = Some (res, s') \<and> convert_outcome s r i m res s'"
proof -
  have ok: "lm_ok s" using reachable_good [OF assms(1)] by simp
  from LockManager_convert_ok [OF ok assms(2,3) holder_count_pos [OF ok assms(2)] assms(4)] show ?thesis by blast
qed

theorem convert_grants_or_waits_witness:
  "\<exists>res s'. LockManager_convert 5 0 MODE_X demo_two = Some (res, s') \<and> convert_outcome demo_two 5 0 MODE_X res s'"
  by (rule convert_grants_or_waits [OF demo_reachable(2)])
     (simp_all add: demo_holders demo_modes isModeCovered_iff conflicting_table)

text \<open>
  C15: a request waits only while somebody holds the resource, in every reachable state.
\<close>

theorem waiters_have_holder:
  assumes "lm_step\<^sup>*\<^sup>* LockManager_empty s" "waiters s r \<noteq> {}"
  shows "holders s r \<noteq> {}"
  using reachable_good [OF assms(1)] assms(2) by (simp add: lm_served_def)

theorem waiters_have_holder_witness: "holders demo_wait 5 \<noteq> {} \<and> waiters demo_wait 5 \<noteq> {}"
  using waiters_have_holder [OF demo_reachable(3), of 5] by (simp add: demo_waiters)

text \<open>
  C35: \<open>cleanupUnusedLocks\<close> never aborts in a reachable state (its five checks on the
  heads it deletes hold) and changes nobody's locks.
\<close>

theorem cleanup_keeps_locks:
  assumes "lm_step\<^sup>*\<^sup>* LockManager_empty s"
  shows "\<exists>s'. cleanupUnusedLocks s = Some s' \<and> same_state s s'"
  using cleanupUnusedLocks_ok reachable_good [OF assms] by blast

theorem cleanup_keeps_locks_witness: "\<exists>s'. cleanupUnusedLocks demo_two = Some s' \<and> same_state demo_two s'"
  by (rule cleanup_keeps_locks [OF demo_reachable(2)])

text \<open>
  \<open>downgrade\<close> of a granted request on the lock head to a mode its own mode covers never
  aborts: the request ends with the weaker mode, nobody loses a lock, and every request at the
  front of the conflict queue that the weaker mode admits has been granted.
\<close>

theorem downgrade_weakens:
  assumes "lm_step\<^sup>*\<^sup>* LockManager_empty s" "find_head s r = Some h" "i \<in> set (grantedList h)"
    and "status (requests s i) = STATUS_GRANTED" "isModeCovered m (mode (requests s i))" "m \<noteq> MODE_NONE"
  shows "\<exists>s'. LockManager_downgrade i m s = Some s' \<and> mode (requests s' i) = m \<and> queue_blocked s' r \<and>
     holders s r \<subseteq> holders s' r \<and> holders s' r \<union> waiters s' r = holders s r \<union> waiters s r"
  using LockManager_downgrade_ok [OF _ assms(2-6)] reachable_good [OF assms(1)] by blast

lemma demo_wait_head:
  "\<exists>h. find_head demo_wait 5 = Some h \<and> 0 \<in> set (grantedList h)"
  "status (requests demo_wait 0) = STATUS_GRANTED" "mode (requests demo_wait 0) = MODE_IX"
  unfolding demo_wait_def demo_one_def by (simp_all add: lm_eval mode_eval)

theorem downgrade_weakens_witness:
  "\<exists>s'. LockManager_downgrade 0 MODE_IS demo_wait = Some s' \<and> mode (requests s' 0) = MODE_IS \<and> queue_blocked s' 5 \<and>
     holders demo_wait 5 \<subseteq> holders s' 5 \<and> holders s' 5 \<union> waiters s' 5 = holders demo_wait 5 \<union> waiters demo_wait 5"
proof -
  obtain h where h: "find_head demo_wait 5 = Some h" "0 \<in> set (grantedList h)" using demo_wait_head(1) by blast
  show ?thesis
    by (rule downgrade_weakens [OF demo_reachable(3) h])
       (simp_all add: demo_wait_head isModeCovered_iff conflicting_table)
qed

end
