(* ===== verification/DeadlockDetector.thy ===== *)
theory DeadlockDetector
  imports LockStateMachine
begin

text \<open>
  The deadlock detector (\<open>class DeadlockDetector\<close> of \<open>lock_manager.h\<close> and
  \<open>lock_manager.cpp\<close>): a search of the wait-for graph from one blocked locker. A node of the
  queue is a locker with the resource it waits for. \<open>Locker::getWaitingResource\<close> is called on
  lockers the detector only has a pointer to; it is the argument \<open>waiting\<close> of the definitions.
\<close>

section \<open>The detector\<close>

type_synonym UnprocessedNode = "LockerId \<times> ResourceId"
type_synonym Edges = "ResourceId \<times> LockerId list"

record DeadlockDetector =
  dd_initialLockerId :: LockerId
  dd_queue :: "UnprocessedNode list"
  dd_graph :: "(LockerId \<times> Edges) list"
  dd_foundCycle :: bool

definition DeadlockDetector_new :: "(LockerId \<Rightarrow> ResourceId) \<Rightarrow> LockerId \<Rightarrow> DeadlockDetector" where
  "DeadlockDetector_new waiting l =
     \<lparr>dd_initialLockerId = l, dd_queue = (if isValidResource (waiting l) then [(l, waiting l)] else []),
      dd_graph = [], dd_foundCycle = False\<rparr>"

text \<open>
  The scan of the granted queue, from its end. A waiting request conflicts with the mode held and
  the mode converted to; a converting one with the mode held, and with the mode converted to
  of the requests before it, those after the place where \<open>seen\<close> was set.
\<close>

fun conflictingGranted :: "(ReqId \<Rightarrow> LockRequest) \<Rightarrow> ReqId \<Rightarrow> bool \<Rightarrow> ReqId list \<Rightarrow> ReqId list option" where
  "conflictingGranted rq i seen [] = Some []"
| "conflictingGranted rq i seen (j # js) =
     (if j = i then conflictingGranted rq i True js
      else do {
        hit \<leftarrow> (if status (rq i) = STATUS_WAITING
               then Some (conflicts (mode (rq i)) (modeMask (mode (rq j))) \<or>
                          conflicts (mode (rq i)) (modeMask (convertMode (rq j))))
               else do { ensure (status (rq i) = STATUS_CONVERTING);
                         Some (conflicts (convertMode (rq i)) (modeMask (mode (rq j))) \<or>
                               (seen \<and> conflicts (convertMode (rq i)) (modeMask (convertMode (rq j))))) });
        rest \<leftarrow> conflictingGranted rq i seen js;
        Some (if hit then j # rest else rest) })"

text \<open>The waiting requests before \<open>i\<close> in the conflict queue, backwards.\<close>

definition conflictingWaiting :: "(ReqId \<Rightarrow> LockRequest) \<Rightarrow> ReqId \<Rightarrow> ReqId list \<Rightarrow> ReqId list" where
  "conflictingWaiting rq i cs =
     (if status (rq i) = STATUS_WAITING
      then filter (\<lambda>j. conflicts (mode (rq i)) (modeMask (mode (rq j)))) (rev (takeWhile (\<lambda>j. j \<noteq> i) cs))
      else [])"

definition conflictingOwners ::
  "(ReqId \<Rightarrow> LockRequest) \<Rightarrow> (LockerId \<Rightarrow> ResourceId) \<Rightarrow> LockHead \<Rightarrow> ReqId \<Rightarrow> LockerId list option" where
  "conflictingOwners rq waiting h i =
     do { js \<leftarrow> conflictingGranted rq i False (rev (grantedList h));
          Some (filter (\<lambda>l. isValidResource (waiting l)) (map (\<lambda>j. locker (rq j)) (js @ conflictingWaiting rq i (conflictList h)))) }"

definition processNextNode ::
  "LockManager \<Rightarrow> (LockerId \<Rightarrow> ResourceId) \<Rightarrow> UnprocessedNode \<Rightarrow> DeadlockDetector \<Rightarrow> DeadlockDetector option" where
  "processNextNode s waiting node d =
     (case find_head s (snd node) of
        None \<Rightarrow> Some d
      | Some h \<Rightarrow>
        (case findRequest (requests s) h (fst node) of
           None \<Rightarrow> Some d
         | Some i \<Rightarrow>
             if status (requests s i) = STATUS_GRANTED then Some d
             else if fst node \<in> fst ` set (dd_graph d)
             then Some (if dd_foundCycle d then d else d\<lparr>dd_foundCycle := (fst node = dd_initialLockerId d)\<rparr>)
             else do {
               owners \<leftarrow> conflictingOwners (requests s) waiting h i;
               Some (d\<lparr>dd_graph := (fst node, snd node, owners) # dd_graph d,
                       dd_queue := rev (map (\<lambda>l. (l, waiting l)) owners) @ dd_queue d\<rparr>) }))"

definition DeadlockDetector_next ::
  "LockManager \<Rightarrow> (LockerId \<Rightarrow> ResourceId) \<Rightarrow> DeadlockDetector \<Rightarrow> (bool \<times> DeadlockDetector) option" where
  "DeadlockDetector_next s waiting d =
     (case dd_queue d of
        [] \<Rightarrow> Some (False, d)
      | front # rest \<Rightarrow>
          do { d1 \<leftarrow> processNextNode s waiting front (d\<lparr>dd_queue := rest\<rparr>);
               Some (dd_queue d1 \<noteq> [], d1) })"

section \<open>Termination\<close>

text \<open>The lockers that have a request on some lock head; only they enter the graph.\<close>

definition queued_lockers :: "LockManager \<Rightarrow> LockerId set" where
  "queued_lockers s = (\<Union>b<numLockBuckets. \<Union>(r, h)\<in>set (buckets s b). (\<lambda>j. locker (requests s j)) ` members h)"

lemma finite_queued_lockers: "finite (queued_lockers s)"
  by (auto simp: queued_lockers_def members_def)

lemma findRequest_member: "findRequest rq h l = Some i \<Longrightarrow> i \<in> members h \<and> locker (rq i) = l"
  by (auto simp: findRequest_def members_def find_Some_iff split: option.splits)

lemma findRequest_queued:
  assumes "find_head s r = Some h" "findRequest (requests s) h l = Some i"
  shows "l \<in> queued_lockers s"
proof -
  have "(r, h) \<in> set (buckets s (getBucket r))" using assms(1) by (simp add: find_head_def map_of_SomeD)
  moreover have "getBucket r < numLockBuckets" by (simp add: getBucket_def numLockBuckets_def)
  ultimately show ?thesis using findRequest_member [OF assms(2)] by (force simp: queued_lockers_def)
qed

definition unseen :: "LockManager \<Rightarrow> DeadlockDetector \<Rightarrow> LockerId set" where
  "unseen s d = queued_lockers s - fst ` set (dd_graph d)"

lemma processNextNode_cases:
  assumes "processNextNode s waiting (l, r) d = Some d'"
  obtains "d' = d"
    | "l \<in> fst ` set (dd_graph d)" "d' = d\<lparr>dd_foundCycle := dd_foundCycle d \<or> l = dd_initialLockerId d\<rparr>"
    | h i owners where "find_head s r = Some h" "findRequest (requests s) h l = Some i" "status (requests s i) \<noteq> STATUS_GRANTED"
        "l \<notin> fst ` set (dd_graph d)" "conflictingOwners (requests s) waiting h i = Some owners"
        "d' = d\<lparr>dd_graph := (l, r, owners) # dd_graph d, dd_queue := rev (map (\<lambda>l. (l, waiting l)) owners) @ dd_queue d\<rparr>"
proof -
  note p = assms [unfolded processNextNode_def fst_conv snd_conv]
  show thesis
  proof (cases "find_head s r")
    case None
    then show thesis using p that(1) by simp
  next
    case h: (Some h)
    show thesis
    proof (cases "findRequest (requests s) h l")
      case None
      then show thesis using p h that(1) by simp
    next
      case i: (Some i)
      consider "status (requests s i) = STATUS_GRANTED" | "status (requests s i) \<noteq> STATUS_GRANTED" "l \<in> fst ` set (dd_graph d)"
        | "status (requests s i) \<noteq> STATUS_GRANTED" "l \<notin> fst ` set (dd_graph d)" by blast
      then show thesis
      proof cases
        case 1
        then show thesis using p h i that(1) by simp
      next
        case 2
        then have "d' = d\<lparr>dd_foundCycle := dd_foundCycle d \<or> l = dd_initialLockerId d\<rparr>"
          using p h i by (cases "dd_foundCycle d") auto
        then show thesis by (rule that(2) [OF 2(2)])
      next
        case 3
        then obtain owners where "conflictingOwners (requests s) waiting h i = Some owners"
          "d' = d\<lparr>dd_graph := (l, r, owners) # dd_graph d, dd_queue := rev (map (\<lambda>l. (l, waiting l)) owners) @ dd_queue d\<rparr>"
          using p h i by (cases "conflictingOwners (requests s) waiting h i") simp_all
        then show thesis by (rule that(3) [OF h i 3])
      qed
    qed
  qed
qed

function DeadlockDetector_check ::
  "LockManager \<Rightarrow> (LockerId \<Rightarrow> ResourceId) \<Rightarrow> DeadlockDetector \<Rightarrow> DeadlockDetector option" where
  "DeadlockDetector_check s waiting d =
     do { (more, d1) \<leftarrow> DeadlockDetector_next s waiting d;
          if more then DeadlockDetector_check s waiting d1 else Some d1 }"
  by pat_completeness auto

lemma next_measure:
  assumes "DeadlockDetector_next s waiting d = Some (True, d')"
  shows "((unseen s d', length (dd_queue d')), (unseen s d, length (dd_queue d))) \<in> finite_psubset <*lex*> less_than"
proof -
  obtain l r rest where q: "dd_queue d = (l, r) # rest" "processNextNode s waiting (l, r) (d\<lparr>dd_queue := rest\<rparr>) = Some d'"
    using assms by (auto simp: DeadlockDetector_next_def bind_eq_Some_conv split: list.splits)
  from q(2) show ?thesis
  proof (cases rule: processNextNode_cases)
    case 3
    then have "unseen s d' \<subset> unseen s d" using findRequest_queued [of s r _ l] by (auto simp: unseen_def)
    then show ?thesis using finite_queued_lockers [of s] by (auto simp: finite_psubset_def unseen_def)
  qed (auto simp: q(1) unseen_def)
qed

termination DeadlockDetector_check
proof (relation "inv_image (finite_psubset <*lex*> less_than) (\<lambda>(s, waiting, d). (unseen s d, length (dd_queue d)))")
  fix s waiting d more d1 and x :: "bool \<times> DeadlockDetector"
  assume "DeadlockDetector_next s waiting d = Some x" "(more, d1) = x" "more"
  then show "((s, waiting, d1), s, waiting, d) \<in> inv_image (finite_psubset <*lex*> less_than) (\<lambda>(s, waiting, d). (unseen s d, length (dd_queue d)))"
    unfolding in_inv_image prod.case by (intro next_measure) simp
qed (auto simp: wf_finite_psubset)

definition hasCycle :: "DeadlockDetector \<Rightarrow> bool option" where
  "hasCycle d = do { ensure (dd_queue d = []); Some (dd_foundCycle d) }"

section \<open>The wait-for graph\<close>

text \<open>
  When a request blocks another one of the same lock head, without the order in which the detector finds
  out: a waiting request is blocked by a holder whose present or future mode conflicts and by an
  earlier waiting request that conflicts, a conversion by another holder that conflicts and by
  an earlier conversion that conflicts.
\<close>

definition before :: "'a \<Rightarrow> 'a \<Rightarrow> 'a list \<Rightarrow> bool" where
  "before a b xs \<longleftrightarrow> (\<exists>us vs ws. xs = us @ a # vs @ b # ws)"

definition blocks :: "(ReqId \<Rightarrow> LockRequest) \<Rightarrow> LockHead \<Rightarrow> ReqId \<Rightarrow> ReqId \<Rightarrow> bool" where
  "blocks rq h i j \<longleftrightarrow>
     (case status (rq i) of
        STATUS_WAITING \<Rightarrow>
          j \<in> set (grantedList h) \<and> (conflicting (mode (rq i)) (mode (rq j)) \<or> conflicting (mode (rq i)) (convertMode (rq j))) \<or>
          before j i (conflictList h) \<and> conflicting (mode (rq i)) (mode (rq j))
      | STATUS_CONVERTING \<Rightarrow>
          j \<noteq> i \<and> j \<in> set (grantedList h) \<and>
          (conflicting (convertMode (rq i)) (mode (rq j)) \<or>
           before j i (grantedList h) \<and> conflicting (convertMode (rq i)) (convertMode (rq j)))
      | _ \<Rightarrow> False)"

definition waits_for :: "LockManager \<Rightarrow> (LockerId \<Rightarrow> ResourceId) \<Rightarrow> LockerId \<Rightarrow> LockerId \<Rightarrow> bool" where
  "waits_for s waiting a b \<longleftrightarrow>
     (\<exists>h i j. find_head s (waiting a) = Some h \<and> findRequest (requests s) h a = Some i \<and>
        blocks (requests s) h i j \<and> b = locker (requests s j) \<and> isValidResource (waiting b))"

lemma waits_forI:
  "find_head s (waiting a) = Some h \<Longrightarrow> findRequest (requests s) h a = Some i \<Longrightarrow> blocks (requests s) h i j \<Longrightarrow>
   b = locker (requests s j) \<Longrightarrow> isValidResource (waiting b) \<Longrightarrow> waits_for s waiting a b"
  by (auto simp: waits_for_def)

lemma before_rev: "before a b (rev xs) = before b a xs"
proof -
  have "before b a xs" if "before a b (rev xs)" for a b :: 'a and xs
  proof -
    from that obtain us vs ws where "rev xs = us @ a # vs @ b # ws" by (auto simp: before_def)
    then have "xs = rev ws @ b # rev vs @ a # rev us" by (simp add: rev_swap)
    then show ?thesis by (auto simp: before_def)
  qed
  from this [of a b xs] this [of b a "rev xs"] show ?thesis by auto
qed

lemma before_Cons: "before a b (x # xs) \<longleftrightarrow> x = a \<and> b \<in> set xs \<or> before a b xs"
proof
  assume "before a b (x # xs)"
  then obtain us vs ws where "x # xs = us @ a # vs @ b # ws" by (auto simp: before_def)
  then show "x = a \<and> b \<in> set xs \<or> before a b xs" by (cases us) (auto simp: before_def)
next
  assume "x = a \<and> b \<in> set xs \<or> before a b xs"
  then show "before a b (x # xs)"
  proof
    assume "x = a \<and> b \<in> set xs"
    then obtain vs ws where "x # xs = [] @ a # vs @ b # ws" by (auto dest: split_list)
    then show ?thesis unfolding before_def by blast
  next
    assume "before a b xs"
    then obtain us vs ws where "x # xs = (x # us) @ a # vs @ b # ws" by (auto simp: before_def)
    then show ?thesis unfolding before_def by blast
  qed
qed

lemma before_takeWhile:
  assumes "i \<in> set xs" "distinct xs"
  shows "j \<in> set (takeWhile (\<lambda>j. j \<noteq> i) xs) \<longleftrightarrow> before j i xs"
  using assms
proof (induction xs)
  case (Cons x xs)
  have no: "\<not> before j i xs" if "i \<notin> set xs" using that by (auto simp: before_def)
  show ?case using Cons no by (auto simp: before_Cons)
qed simp

lemma before_in_set: "before a b xs \<Longrightarrow> a \<in> set xs \<and> b \<in> set xs"
  by (auto simp: before_def)

lemma before_neq: "before a b xs \<Longrightarrow> distinct xs \<Longrightarrow> a \<noteq> b"
  by (auto simp: before_def)

lemma conflictingGranted_ok:
  assumes "status (rq i) = STATUS_WAITING \<or> status (rq i) = STATUS_CONVERTING" "distinct xs"
  shows "\<exists>js. conflictingGranted rq i seen xs = Some js \<and>
    set js = {j \<in> set xs. j \<noteq> i \<and>
      (if status (rq i) = STATUS_WAITING
       then conflicting (mode (rq i)) (mode (rq j)) \<or> conflicting (mode (rq i)) (convertMode (rq j))
       else conflicting (convertMode (rq i)) (mode (rq j)) \<or>
            (seen \<or> before i j xs) \<and> conflicting (convertMode (rq i)) (convertMode (rq j)))}"
  using assms(2)
proof (induction xs arbitrary: seen)
  case (Cons x xs)
  have d: "distinct xs" "x \<notin> set xs" using Cons.prems by auto
  have nb: "\<not> before i j xs" if "i \<notin> set xs" for j using that before_in_set by metis
  show ?case
  proof (cases "x = i")
    case True
    obtain js where "conflictingGranted rq i True xs = Some js"
      "set js = {j \<in> set xs. j \<noteq> i \<and>
      (if status (rq i) = STATUS_WAITING
       then conflicting (mode (rq i)) (mode (rq j)) \<or> conflicting (mode (rq i)) (convertMode (rq j))
       else conflicting (convertMode (rq i)) (mode (rq j)) \<or> conflicting (convertMode (rq i)) (convertMode (rq j)))}"
      using Cons.IH [OF d(1), of True] by auto
    then show ?thesis using True d by (auto simp: before_Cons)
  next
    case False
    obtain js where js: "conflictingGranted rq i seen xs = Some js"
      "set js = {j \<in> set xs. j \<noteq> i \<and>
      (if status (rq i) = STATUS_WAITING
       then conflicting (mode (rq i)) (mode (rq j)) \<or> conflicting (mode (rq i)) (convertMode (rq j))
       else conflicting (convertMode (rq i)) (mode (rq j)) \<or>
            (seen \<or> before i j xs) \<and> conflicting (convertMode (rq i)) (convertMode (rq j)))}"
      using Cons.IH [OF d(1), of seen] by blast
    have bx: "\<not> before i x xs" using d(2) before_in_set by metis
    show ?thesis using js False assms(1) d bx
      by (auto simp: before_Cons conflicting_def)
  qed
qed simp

lemma conflictingOwners_ok:
  assumes ok: "head_ok rq h" and i: "i \<in> members h" "status (rq i) \<noteq> STATUS_GRANTED"
  shows "\<exists>owners. conflictingOwners rq waiting h i = Some owners \<and>
    set owners = {l. isValidResource (waiting l) \<and> (\<exists>j. blocks rq h i j \<and> l = locker (rq j))}"
proof -
  have d: "distinct (grantedList h)" "distinct (conflictList h)" "set (grantedList h) \<inter> set (conflictList h) = {}"
    using ok by (auto simp: head_ok_def)
  have g: "i \<in> set (grantedList h) \<Longrightarrow> status (rq i) = STATUS_CONVERTING"
    using ok i(2) by (auto simp: head_ok_def granted_req_ok_def)
  have c: "i \<in> set (conflictList h) \<Longrightarrow> status (rq i) = STATUS_WAITING"
    using ok by (auto simp: head_ok_def waiting_req_ok_def)
  have st: "status (rq i) = STATUS_WAITING \<or> status (rq i) = STATUS_CONVERTING"
    using i(1) g c by (auto simp: members_def)
  obtain js where js: "conflictingGranted rq i False (rev (grantedList h)) = Some js"
    "set js = {j \<in> set (rev (grantedList h)). j \<noteq> i \<and>
      (if status (rq i) = STATUS_WAITING
       then conflicting (mode (rq i)) (mode (rq j)) \<or> conflicting (mode (rq i)) (convertMode (rq j))
       else conflicting (convertMode (rq i)) (mode (rq j)) \<or>
            (False \<or> before i j (rev (grantedList h))) \<and> conflicting (convertMode (rq i)) (convertMode (rq j)))}"
    using conflictingGranted_ok [of rq i "rev (grantedList h)" False] st d(1) by auto
  have "j \<in> set js \<or> j \<in> set (conflictingWaiting rq i (conflictList h)) \<longleftrightarrow> blocks rq h i j" for j
  proof (cases "status (rq i) = STATUS_WAITING")
    case True
    then have w: "i \<in> set (conflictList h)" "i \<notin> set (grantedList h)" using i(1) g by (auto simp: members_def)
    show ?thesis
      using True w js(2) before_takeWhile [OF w(1) d(2), of j]
      by (auto simp: blocks_def conflictingWaiting_def conflicting_def)
  next
    case False
    then have "status (rq i) = STATUS_CONVERTING" using st by blast
    then show ?thesis using js(2) by (auto simp: blocks_def conflictingWaiting_def before_rev)
  qed
  then show ?thesis using js(1) by (auto simp: conflictingOwners_def)
qed

section \<open>The search finds the cycle\<close>

text \<open>
  Between two steps: the graph holds blocked lockers reachable from the initial one, the queue
  lockers that somebody in the graph waits for, each with its resource; whoever a locker in the graph waits for
  is in the graph, in the queue, or not blocked; and the initial locker, once it is waited for, stays
  in the queue until the cycle is recorded.
\<close>

definition is_blocked :: "LockManager \<Rightarrow> (LockerId \<Rightarrow> ResourceId) \<Rightarrow> LockerId \<Rightarrow> bool" where
  "is_blocked s waiting l \<longleftrightarrow>
     (\<exists>h i. find_head s (waiting l) = Some h \<and> findRequest (requests s) h l = Some i \<and> status (requests s i) \<noteq> STATUS_GRANTED)"

definition search_ok :: "('a \<Rightarrow> 'a \<Rightarrow> bool) \<Rightarrow> ('a \<Rightarrow> bool) \<Rightarrow> 'a \<Rightarrow> 'a set \<Rightarrow> 'a set \<Rightarrow> bool \<Rightarrow> bool" where
  "search_ok W B l0 G Q found \<longleftrightarrow>
     l0 \<in> G \<and> (\<forall>l\<in>G. W\<^sup>*\<^sup>* l0 l) \<and> (\<forall>l\<in>Q. W\<^sup>+\<^sup>+ l0 l) \<and>
     (\<forall>a\<in>G. \<forall>b. W a b \<longrightarrow> B b \<longrightarrow> b \<in> Q \<or> b \<in> G \<and> (b = l0 \<longrightarrow> found)) \<and> (found \<longrightarrow> W\<^sup>+\<^sup>+ l0 l0)"

lemma search_ok_seen:
  assumes "search_ok W B l0 G (insert l Q) found" "l \<in> G"
  shows "search_ok W B l0 G Q (found \<or> l = l0)"
  using assms unfolding search_ok_def by blast

lemma search_ok_free:
  assumes "search_ok W B l0 G (insert l Q) found" "\<not> B l"
  shows "search_ok W B l0 G Q found"
  using assms unfolding search_ok_def by blast

lemma search_ok_new:
  assumes "search_ok W B l0 G (insert l Q) found" "l \<notin> G"
  shows "search_ok W B l0 (insert l G) ({b. W l b} \<union> Q) found"
proof -
  have reach: "W\<^sup>+\<^sup>+ l0 l" using assms(1) by (simp add: search_ok_def)
  then have "W\<^sup>*\<^sup>* l0 l" "\<And>b. W l b \<Longrightarrow> W\<^sup>+\<^sup>+ l0 b" by (auto intro: tranclp_into_rtranclp tranclp.trancl_into_trancl)
  moreover have "l \<noteq> l0" using assms by (auto simp: search_ok_def)
  ultimately show ?thesis using assms unfolding search_ok_def by blast
qed

definition search_inv :: "LockManager \<Rightarrow> (LockerId \<Rightarrow> ResourceId) \<Rightarrow> LockerId \<Rightarrow> DeadlockDetector \<Rightarrow> bool" where
  "search_inv s waiting l0 d \<longleftrightarrow>
     dd_initialLockerId d = l0 \<and> (\<forall>(l, r)\<in>set (dd_queue d). r = waiting l) \<and>
     search_ok (waits_for s waiting) (is_blocked s waiting) l0 (fst ` set (dd_graph d)) (fst ` set (dd_queue d)) (dd_foundCycle d)"

lemma waits_for_blocked: "waits_for s waiting a b \<Longrightarrow> is_blocked s waiting a"
  unfolding waits_for_def is_blocked_def blocks_def by (auto split: LockRequestStatus.splits)

lemma owners_waits_for:
  assumes "lm_ok s" "find_head s (waiting l) = Some h" "findRequest (requests s) h l = Some i" "status (requests s i) \<noteq> STATUS_GRANTED"
  shows "\<exists>owners. conflictingOwners (requests s) waiting h i = Some owners \<and> set owners = {b. waits_for s waiting l b}"
proof -
  have "head_ok (requests s) h" using assms(1,2) by (auto simp: lm_ok_def lm_inv_def)
  from conflictingOwners_ok [OF this _ assms(4), of waiting] findRequest_member [OF assms(3)] obtain owners where
    "conflictingOwners (requests s) waiting h i = Some owners"
    "set owners = {l. isValidResource (waiting l) \<and> (\<exists>j. blocks (requests s) h i j \<and> l = locker (requests s j))}" by blast
  then show ?thesis using assms(2,3) by (auto simp: waits_for_def)
qed

text \<open>Processing a node that the graph does not have yet.\<close>

lemma process_new:
  assumes ok: "lm_ok s" and new: "l \<notin> fst ` set (dd_graph d)"
  shows "\<exists>d'. processNextNode s waiting (l, waiting l) d = Some d' \<and>
     (if is_blocked s waiting l
      then \<exists>owners. set owners = {b. waits_for s waiting l b} \<and>
        d' = d\<lparr>dd_graph := (l, waiting l, owners) # dd_graph d, dd_queue := rev (map (\<lambda>l. (l, waiting l)) owners) @ dd_queue d\<rparr>
      else d' = d)"
proof (cases "is_blocked s waiting l")
  case True
  then obtain h i where b: "find_head s (waiting l) = Some h" "findRequest (requests s) h l = Some i" "status (requests s i) \<noteq> STATUS_GRANTED"
    by (auto simp: is_blocked_def)
  from owners_waits_for [of s waiting l h i] ok b obtain owners where
    "conflictingOwners (requests s) waiting h i = Some owners" "set owners = {b. waits_for s waiting l b}" by blast
  then show ?thesis using True b new by (auto simp: processNextNode_def)
next
  case False
  then show ?thesis by (auto simp: processNextNode_def is_blocked_def split: option.splits)
qed

lemma process_seen:
  assumes "l \<in> fst ` set (dd_graph d)"
  shows "processNextNode s waiting (l, waiting l) d =
     Some (if is_blocked s waiting l then d\<lparr>dd_foundCycle := dd_foundCycle d \<or> l = dd_initialLockerId d\<rparr> else d)"
proof (cases "is_blocked s waiting l")
  case True
  then obtain h i where "find_head s (waiting l) = Some h" "findRequest (requests s) h l = Some i" "status (requests s i) \<noteq> STATUS_GRANTED"
    by (auto simp: is_blocked_def)
  then show ?thesis using True assms unfolding processNextNode_def by (cases "dd_foundCycle d") simp_all
next
  case False
  then show ?thesis by (auto simp: processNextNode_def is_blocked_def split: option.splits)
qed

lemma search_inv_step:
  assumes ok: "lm_ok s" and inv: "search_inv s waiting l0 d" and q: "dd_queue d = node # rest"
  shows "\<exists>d'. processNextNode s waiting node (d\<lparr>dd_queue := rest\<rparr>) = Some d' \<and> search_inv s waiting l0 d'"
proof -
  let ?d = "d\<lparr>dd_queue := rest\<rparr>" and ?W = "waits_for s waiting" and ?B = "is_blocked s waiting"
  let ?G = "fst ` set (dd_graph d)" and ?Q = "fst ` set rest"
  obtain l where node: "node = (l, waiting l)" using inv q by (cases node) (auto simp: search_inv_def)
  have i: "dd_initialLockerId d = l0" "\<forall>(l, r)\<in>set rest. r = waiting l" "search_ok ?W ?B l0 ?G (insert l ?Q) (dd_foundCycle d)"
    using inv q node by (simp_all add: search_inv_def)
  show ?thesis
  proof (cases "?B l")
    case False
    then have "processNextNode s waiting node ?d = Some ?d"
      by (auto simp: processNextNode_def is_blocked_def node split: option.splits)
    moreover have "search_inv s waiting l0 ?d" using i search_ok_free [OF i(3) False] by (simp add: search_inv_def)
    ultimately show ?thesis by blast
  next
    case b: True
    show ?thesis
    proof (cases "l \<in> ?G")
      case True
      then have "processNextNode s waiting node ?d = Some (?d\<lparr>dd_foundCycle := dd_foundCycle d \<or> l = l0\<rparr>)"
        using process_seen [of l ?d s waiting] i(1) b by (simp add: node)
      moreover have "search_inv s waiting l0 (?d\<lparr>dd_foundCycle := dd_foundCycle d \<or> l = l0\<rparr>)"
        using i search_ok_seen [OF i(3) True] by (simp add: search_inv_def)
      ultimately show ?thesis by blast
    next
      case new: False
      then obtain owners where ow: "set owners = {b. ?W l b}" "processNextNode s waiting node ?d =
          Some (?d\<lparr>dd_graph := (l, waiting l, owners) # dd_graph ?d, dd_queue := rev (map (\<lambda>l. (l, waiting l)) owners) @ dd_queue ?d\<rparr>)"
        using process_new [OF ok, of l ?d waiting] b by (auto simp: node)
      have "search_inv s waiting l0 (?d\<lparr>dd_graph := (l, waiting l, owners) # dd_graph ?d,
          dd_queue := rev (map (\<lambda>l. (l, waiting l)) owners) @ dd_queue ?d\<rparr>)"
        using i search_ok_new [OF i(3) new] ow(1) by (auto simp: search_inv_def image_Un image_image)
      then show ?thesis using ow(2) by blast
    qed
  qed
qed

lemma check_from_inv:
  assumes "lm_ok s" "search_inv s waiting l0 d"
  shows "\<exists>d'. DeadlockDetector_check s waiting d = Some d' \<and> dd_queue d' = [] \<and> search_inv s waiting l0 d'"
  using assms
proof (induction s waiting d rule: DeadlockDetector_check.induct)
  case (1 s waiting d)
  show ?case
  proof (cases "dd_queue d")
    case Nil
    then show ?thesis using 1(3) by (subst DeadlockDetector_check.simps) (simp add: DeadlockDetector_next_def)
  next
    case (Cons node rest)
    obtain d1 where d1: "processNextNode s waiting node (d\<lparr>dd_queue := rest\<rparr>) = Some d1" "search_inv s waiting l0 d1"
      using search_inv_step [OF 1(2,3) Cons] by blast
    then have n: "DeadlockDetector_next s waiting d = Some (dd_queue d1 \<noteq> [], d1)" by (simp add: DeadlockDetector_next_def Cons)
    show ?thesis
    proof (cases "dd_queue d1 = []")
      case True
      then show ?thesis using n d1(2) by (subst DeadlockDetector_check.simps) simp
    next
      case False
      then have "\<exists>d'. DeadlockDetector_check s waiting d1 = Some d' \<and> dd_queue d' = [] \<and> search_inv s waiting l0 d'"
        using 1(1) [OF n refl _ 1(2) d1(2)] by simp
      then show ?thesis using n False by (subst DeadlockDetector_check.simps) simp
    qed
  qed
qed

text \<open>At the end of the search the graph is closed under waiting, so it has every locker that can be reached.\<close>

lemma search_ok_final:
  assumes "search_ok W B l0 G {} found" "\<And>a b. W a b \<Longrightarrow> B a" "B l0"
  shows "found \<longleftrightarrow> W\<^sup>+\<^sup>+ l0 l0"
proof
  assume "W\<^sup>+\<^sup>+ l0 l0"
  then obtain z where z: "W\<^sup>*\<^sup>* l0 z" "W z l0" by (cases rule: tranclp.cases) (auto intro: tranclp_into_rtranclp)
  have "z \<in> G \<or> \<not> B z" using z(1)
  proof (induction rule: rtranclp_induct)
    case (step y z')
    then have "y \<in> G" using assms(2) by blast
    then show ?case using assms(1) step(2) by (auto simp: search_ok_def)
  qed (use assms(1) in \<open>simp add: search_ok_def\<close>)
  then have "z \<in> G" using assms(2) z(2) by blast
  then show found using assms(1,3) z(2) by (auto simp: search_ok_def)
qed (use assms(1) in \<open>simp add: search_ok_def\<close>)

lemma check_decides:
  assumes ok: "lm_ok s"
  shows "\<exists>d. DeadlockDetector_check s waiting (DeadlockDetector_new waiting l) = Some d \<and> dd_queue d = [] \<and>
     (dd_foundCycle d \<longleftrightarrow> (waits_for s waiting)\<^sup>+\<^sup>+ l l)"
proof -
  let ?W = "waits_for s waiting" and ?d0 = "DeadlockDetector_new waiting l"
  have valid: "isValidResource (waiting l)" if "?W\<^sup>+\<^sup>+ l l" using that by (induction rule: tranclp_induct) (auto simp: waits_for_def)
  have start: "is_blocked s waiting l" if "?W\<^sup>+\<^sup>+ l l" using tranclpD [OF that] waits_for_blocked by blast
  show ?thesis
  proof (cases "isValidResource (waiting l)")
    case False
    then show ?thesis
      using valid by (subst DeadlockDetector_check.simps) (auto simp: DeadlockDetector_next_def DeadlockDetector_new_def)
  next
    case True
    then have q: "dd_queue ?d0 = [(l, waiting l)]" by (simp add: DeadlockDetector_new_def)
    define e where "e = ?d0\<lparr>dd_queue := []\<rparr>"
    have e: "dd_graph e = []" "dd_queue e = []" "\<not> dd_foundCycle e" "dd_initialLockerId e = l" by (simp_all add: e_def DeadlockDetector_new_def)
    obtain d1 where p: "processNextNode s waiting (l, waiting l) e = Some d1"
      "if is_blocked s waiting l
       then \<exists>owners. set owners = {b. ?W l b} \<and>
         d1 = e\<lparr>dd_graph := (l, waiting l, owners) # dd_graph e, dd_queue := rev (map (\<lambda>l. (l, waiting l)) owners) @ dd_queue e\<rparr>
       else d1 = e"
      using process_new [OF ok, of l e waiting] by (auto simp: e)
    then have n: "DeadlockDetector_next s waiting ?d0 = Some (dd_queue d1 \<noteq> [], d1)" by (simp add: DeadlockDetector_next_def q e_def)
    show ?thesis
    proof (cases "is_blocked s waiting l")
      case False
      then have "dd_queue d1 = []" "\<not> dd_foundCycle d1" using p(2) by (simp_all add: e)
      then show ?thesis using n start False by (subst DeadlockDetector_check.simps) auto
    next
      case True
      then obtain owners where ow: "set owners = {b. ?W l b}"
        "d1 = e\<lparr>dd_graph := (l, waiting l, owners) # dd_graph e, dd_queue := rev (map (\<lambda>l. (l, waiting l)) owners) @ dd_queue e\<rparr>" using p(2) by auto
      have inv: "search_inv s waiting l d1"
        using ow by (auto simp: search_inv_def search_ok_def e image_image)
      obtain d' where d': "DeadlockDetector_check s waiting d1 = Some d'" "dd_queue d' = []" "search_inv s waiting l d'"
        using check_from_inv [OF ok inv] by blast
      have "dd_foundCycle d' \<longleftrightarrow> ?W\<^sup>+\<^sup>+ l l"
        using search_ok_final [of ?W "is_blocked s waiting" l "fst ` set (dd_graph d')"] d'(2,3) waits_for_blocked True
        by (auto simp: search_inv_def)
      moreover have "DeadlockDetector_check s waiting ?d0 = Some d'"
      proof (cases "dd_queue d1 = []")
        case True
        then have "DeadlockDetector_check s waiting d1 = Some d1"
          by (subst DeadlockDetector_check.simps) (simp add: DeadlockDetector_next_def)
        then show ?thesis using n d'(1) True by (subst DeadlockDetector_check.simps) simp
      next
        case False
        then show ?thesis using n d'(1) by (subst DeadlockDetector_check.simps) simp
      qed
      ultimately show ?thesis using d'(2) by blast
    qed
  qed
qed

section \<open>Properties\<close>

text \<open>
  C12: the deadlock detector is sound and complete on a lock table that does not change under it. In every
  reachable state of the lock manager the search ends, passes its internal checks, and reports a
  cycle exactly if the locker it started from waits, directly or through others, for itself.
\<close>

theorem deadlock_detector_decides:
  assumes "lm_step\<^sup>*\<^sup>* LockManager_empty s"
  shows "\<exists>d. DeadlockDetector_check s waiting (DeadlockDetector_new waiting l) = Some d \<and>
     hasCycle d = Some ((waits_for s waiting)\<^sup>+\<^sup>+ l l)"
  using check_decides [of s waiting l] reachable_good [OF assms] by (auto simp: hasCycle_def)

text \<open>Two lockers that hold a database each and wait for the other's.\<close>

definition demo_dbA :: ResourceId where "demo_dbA = 6917529027641081857"

definition demo_dbB :: ResourceId where "demo_dbB = 6917529027641081858"

definition demo_init :: "ReqId \<Rightarrow> LockerId \<Rightarrow> LockManager \<Rightarrow> LockManager" where
  "demo_init i l s = s\<lparr>requests := (requests s)(i := LockRequest_initNew l)\<rparr>"

definition demo_dl1 :: LockManager where "demo_dl1 = snd (the (LockManager_lock demo_dbA 0 MODE_X (demo_init 0 1 LockManager_empty)))"

definition demo_dl2 :: LockManager where "demo_dl2 = snd (the (LockManager_lock demo_dbB 1 MODE_X (demo_init 1 2 demo_dl1)))"

definition demo_dl3 :: LockManager where "demo_dl3 = snd (the (LockManager_lock demo_dbB 2 MODE_X (demo_init 2 1 demo_dl2)))"

definition demo_deadlock :: LockManager where "demo_deadlock = snd (the (LockManager_lock demo_dbA 3 MODE_X (demo_init 3 2 demo_dl3)))"

definition demo_waiting :: "LockerId \<Rightarrow> ResourceId" where
  "demo_waiting l = (if l = 1 then demo_dbB else if l = 2 then demo_dbA else 0)"

lemmas demo_db_eval = demo_dbA_def demo_dbB_def demo_init_def lm_eval mode_eval

lemma demo_dl_locks:
  "LockManager_lock demo_dbA 0 MODE_X (demo_init 0 1 LockManager_empty) = Some (LOCK_OK, demo_dl1)"
  "LockManager_lock demo_dbB 1 MODE_X (demo_init 1 2 demo_dl1) = Some (LOCK_OK, demo_dl2)"
  "LockManager_lock demo_dbB 2 MODE_X (demo_init 2 1 demo_dl2) = Some (LOCK_WAITING, demo_dl3)"
  "LockManager_lock demo_dbA 3 MODE_X (demo_init 3 2 demo_dl3) = Some (LOCK_WAITING, demo_deadlock)"
  unfolding demo_deadlock_def demo_dl3_def demo_dl2_def demo_dl1_def by (simp_all add: demo_db_eval)

lemma demo_dl_unused: "\<not> is_queued LockManager_empty 0" "\<not> is_queued demo_dl1 1" "\<not> is_queued demo_dl2 2" "\<not> is_queued demo_dl3 3"
  unfolding demo_dl3_def demo_dl2_def demo_dl1_def
  by (auto simp: demo_db_eval is_queued_def queued_def members_def split: if_splits)

lemma locked_reachable:
  assumes "lm_step\<^sup>*\<^sup>* LockManager_empty s" "\<not> is_queued s i" "m \<noteq> MODE_NONE" "LockManager_lock r i m (demo_init i l s) = Some (res, s')"
  shows "lm_step\<^sup>*\<^sup>* LockManager_empty s'"
proof -
  have "lm_step s (s\<lparr>requests := (requests s)(i := (LockRequest_initNew l)\<lparr>enqueueAtFront := False, compatibleFirst := False\<rparr>)\<rparr>)"
    by (rule step_init [OF assms(2)])
  moreover have "(LockRequest_initNew l)\<lparr>enqueueAtFront := False, compatibleFirst := False\<rparr> = LockRequest_initNew l"
    by (simp add: LockRequest_initNew_def)
  ultimately have "lm_step s (demo_init i l s)" by (simp add: demo_init_def)
  moreover have "fresh (demo_init i l s) i"
    using assms(2) by (simp add: fresh_def demo_init_def is_queued_def LockRequest_initNew_def)
  ultimately show ?thesis
    using LockManager_lock_steps [OF _ assms(3,4)] assms(1) by (meson rtranclp.rtrancl_into_rtrancl rtranclp_trans)
qed

lemma demo_deadlock_reachable: "lm_step\<^sup>*\<^sup>* LockManager_empty demo_deadlock"
proof -
  note r1 = locked_reachable [OF rtranclp.rtrancl_refl demo_dl_unused(1) _ demo_dl_locks(1), simplified]
  note r2 = locked_reachable [OF r1 demo_dl_unused(2) _ demo_dl_locks(2), simplified]
  note r3 = locked_reachable [OF r2 demo_dl_unused(3) _ demo_dl_locks(3), simplified]
  show ?thesis using locked_reachable [OF r3 demo_dl_unused(4) _ demo_dl_locks(4)] by simp
qed

lemma demo_valid: "isValidResource 6917529027641081857" "isValidResource 6917529027641081858" by code_simp+

lemma demo_waits: "waits_for demo_deadlock demo_waiting 1 2" "waits_for demo_deadlock demo_waiting 2 1"
proof -
  obtain h where h: "find_head demo_deadlock demo_dbB = Some h" "findRequest (requests demo_deadlock) h 1 = Some 2"
    "grantedList h = [1]" "conflictList h = [2]"
    unfolding demo_deadlock_def demo_dl3_def demo_dl2_def demo_dl1_def by (simp add: demo_db_eval findRequest_def)
  obtain h' where h': "find_head demo_deadlock demo_dbA = Some h'" "findRequest (requests demo_deadlock) h' 2 = Some 3"
    "grantedList h' = [0]" "conflictList h' = [3]"
    unfolding demo_deadlock_def demo_dl3_def demo_dl2_def demo_dl1_def by (simp add: demo_db_eval findRequest_def)
  have q: "status (requests demo_deadlock 2) = STATUS_WAITING" "status (requests demo_deadlock 3) = STATUS_WAITING"
    "map (\<lambda>i. mode (requests demo_deadlock i)) [0, 1, 2, 3] = [MODE_X, MODE_X, MODE_X, MODE_X]"
    "locker (requests demo_deadlock 0) = 1" "locker (requests demo_deadlock 1) = 2"
    unfolding demo_deadlock_def demo_dl3_def demo_dl2_def demo_dl1_def by (simp_all add: demo_db_eval)
  have b: "blocks (requests demo_deadlock) h 2 1" "blocks (requests demo_deadlock) h' 3 0"
    using q h(3) h'(3) by (simp_all add: blocks_def conflicting_table)
  have w: "demo_waiting 1 = demo_dbB" "demo_waiting 2 = demo_dbA" "isValidResource demo_dbA" "isValidResource demo_dbB"
    using demo_valid by (simp_all add: demo_waiting_def demo_dbA_def demo_dbB_def)
  show "waits_for demo_deadlock demo_waiting 1 2" "waits_for demo_deadlock demo_waiting 2 1"
    by (rule waits_forI [OF _ _ b(1)], simp_all only: w h q) (rule waits_forI [OF _ _ b(2)], simp_all only: w h' q)
qed

theorem deadlock_detector_decides_witness:
  "\<exists>d. DeadlockDetector_check demo_deadlock demo_waiting (DeadlockDetector_new demo_waiting 1) = Some d \<and> hasCycle d = Some True"
proof -
  have "(waits_for demo_deadlock demo_waiting)\<^sup>+\<^sup>+ 1 1" using demo_waits by (rule tranclp.trancl_into_trancl [OF tranclp.r_into_trancl])
  then show ?thesis using deadlock_detector_decides [OF demo_deadlock_reachable, of demo_waiting 1] by simp
qed

end
