(* ===== verification/ReplTypes.thy ===== *)
theory ReplTypes
  imports Complex_Main Prelude
begin

text \<open>
  Values shared by the replication code: error codes and statuses, doubles as far as the
  configuration compares them, timestamps and optimes (\<open>bson/timestamp.h\<close>,
  \<open>repl/optime.h\<close>), member states (\<open>repl/member_state.h\<close>). Dates and durations
  are integers counting milliseconds (seconds where the field is in seconds). The text of a
  \<open>Status\<close> is a log message and is left out; its code is kept.
\<close>

datatype ErrorCode =
    BadValue | NoSuchKey | TypeMismatch | FailedToParse | NodeNotFound | DuplicateKey
  | NodeNotElectable | NewReplicaSetConfigurationIncompatible | UnknownReplWriteConcern
  | CannotSatisfyWriteConcern | NotSecondary | InvalidOptions | Unauthorized
  | AuthenticationFailed | HostUnreachable | ReplicaSetNotFound | InconsistentReplicaSetNames
  | InvalidReplicaSetConfig | NotMaster | StaleTerm | CallbackCanceled
  | CannotInitializeNodeWithData | NotMasterOrSecondary | NotMasterNoSlaveOk | NoReplicationEnabled
  | NotYetInitialized | NotAReplicaSet | IllegalOperation | ShutdownInProgress | WriteConcernFailed
  | PrimarySteppedDown | ExceededTimeLimit | ReadConcernMajorityNotEnabled | CommandNotSupported
  | OperationFailed | CommandFailed | ConfigurationInProgress | AlreadyInitialized | Interrupted | OtherError

text \<open>\<open>None\<close> is \<open>Status::OK()\<close>; a \<open>StatusWith<T>\<close> is a sum.\<close>

type_synonym Status = "ErrorCode option"
type_synonym 'a StatusWith = "ErrorCode + 'a"

abbreviation StatusOK :: Status where "StatusOK \<equiv> None"

fun andThen :: "Status \<Rightarrow> Status \<Rightarrow> Status" where
  "andThen None b = b"
| "andThen (Some e) _ = Some e"

lemma andThen_OK [simp]: "andThen a b = None \<longleftrightarrow> a = None \<and> b = None"
  by (cases a) auto

definition failIf :: "bool \<Rightarrow> ErrorCode \<Rightarrow> Status" where
  "failIf b e = (if b then Some e else None)"

lemma failIf_simps [simp]: "failIf b e = None \<longleftrightarrow> \<not> b" "failIf True e = Some e" "failIf False e = None"
  "failIf b e = Some e' \<longleftrightarrow> b \<and> e' = e"
  by (auto simp: failIf_def)

subsection \<open>Doubles\<close>

text \<open>IEEE values with their comparison: every comparison with NaN is false.\<close>

datatype Double = NaN | NegInf | PosInf | Num rat

fun d_less :: "Double \<Rightarrow> Double \<Rightarrow> bool" where
  "d_less (Num a) (Num b) = (a < b)"
| "d_less NegInf (Num _) = True"
| "d_less NegInf PosInf = True"
| "d_less (Num _) PosInf = True"
| "d_less _ _ = False"

definition d_eq :: "Double \<Rightarrow> Double \<Rightarrow> bool" where
  "d_eq a b \<longleftrightarrow> a = b \<and> a \<noteq> NaN"

definition d_le :: "Double \<Rightarrow> Double \<Rightarrow> bool" where
  "d_le a b \<longleftrightarrow> d_less a b \<or> d_eq a b"

lemma d_less_irrefl [simp]: "\<not> d_less a a"
  by (cases a) auto

lemma d_less_trans: "d_less a b \<Longrightarrow> d_less b c \<Longrightarrow> d_less a c"
  by (cases a; cases b; cases c) auto

lemma d_not_less: "a \<noteq> NaN \<Longrightarrow> b \<noteq> NaN \<Longrightarrow> \<not> d_less a b \<longleftrightarrow> d_le b a"
  by (cases a; cases b) (auto simp: d_le_def d_eq_def)

lemma d_nan [simp]: "\<not> d_less NaN b" "\<not> d_less a NaN" "\<not> d_le NaN b" "\<not> d_le a NaN" "\<not> d_eq NaN b"
  by (cases b; cases a; simp add: d_le_def d_eq_def)+

subsection \<open>Timestamps and optimes\<close>

record Timestamp =
  ts_secs :: "32 word"
  ts_inc :: "32 word"

definition Timestamp_null :: Timestamp where
  "Timestamp_null = \<lparr>ts_secs = 0, ts_inc = 0\<rparr>"

definition ts_less :: "Timestamp \<Rightarrow> Timestamp \<Rightarrow> bool" where
  "ts_less a b \<longleftrightarrow> ts_secs a < ts_secs b \<or> (ts_secs a = ts_secs b \<and> ts_inc a < ts_inc b)"

definition ts_isNull :: "Timestamp \<Rightarrow> bool" where
  "ts_isNull t \<longleftrightarrow> ts_secs t = 0"

definition ts_asULL :: "Timestamp \<Rightarrow> 64 word" where
  "ts_asULL t = or (push_bit 32 (ucast (ts_secs t))) (ucast (ts_inc t))"

type_synonym Term = int

definition kUninitializedTerm :: Term where "kUninitializedTerm = -1"

definition kInitialTerm :: Term where "kInitialTerm = 0"

record OpTime =
  ot_timestamp :: Timestamp
  ot_term :: Term

definition OpTime_default :: OpTime where
  "OpTime_default = \<lparr>ot_timestamp = Timestamp_null, ot_term = kUninitializedTerm\<rparr>"

definition ot_isNull :: "OpTime \<Rightarrow> bool" where
  "ot_isNull o1 \<longleftrightarrow> ts_isNull (ot_timestamp o1)"

text \<open>\<open>getSecs\<close> of an optime is a \<open>long long\<close>: no wrap-around in sums with it.\<close>

definition ot_getSecs :: "OpTime \<Rightarrow> int" where
  "ot_getSecs o1 = uint (ts_secs (ot_timestamp o1))"

definition ot_eq :: "OpTime \<Rightarrow> OpTime \<Rightarrow> bool" where
  "ot_eq a b \<longleftrightarrow>
     (if ot_term a = kUninitializedTerm \<or> ot_term b = kUninitializedTerm
      then ot_timestamp a = ot_timestamp b
      else ot_term a = ot_term b \<and> ot_timestamp a = ot_timestamp b)"

definition ot_less :: "OpTime \<Rightarrow> OpTime \<Rightarrow> bool" where
  "ot_less a b \<longleftrightarrow>
     (if ot_term a = kUninitializedTerm \<or> ot_term b = kUninitializedTerm
      then ts_less (ot_timestamp a) (ot_timestamp b)
      else ot_term a < ot_term b \<or> (ot_term a = ot_term b \<and> ts_less (ot_timestamp a) (ot_timestamp b)))"

definition ot_le :: "OpTime \<Rightarrow> OpTime \<Rightarrow> bool" where
  "ot_le a b \<longleftrightarrow> ot_less a b \<or> ot_eq a b"

definition ot_gt :: "OpTime \<Rightarrow> OpTime \<Rightarrow> bool" where
  "ot_gt a b \<longleftrightarrow> \<not> ot_le a b"

definition ot_ge :: "OpTime \<Rightarrow> OpTime \<Rightarrow> bool" where
  "ot_ge a b \<longleftrightarrow> \<not> ot_less a b"

text \<open>\<open>std::max\<close>: the second argument only if the first is smaller.\<close>

definition ot_max :: "OpTime \<Rightarrow> OpTime \<Rightarrow> OpTime" where
  "ot_max a b = (if ot_less a b then b else a)"

lemma ts_less_linear: "ts_less a b \<or> a = b \<or> ts_less b a"
  by (cases a; cases b) (auto simp: ts_less_def)

lemma ts_less_trans: "ts_less a b \<Longrightarrow> ts_less b c \<Longrightarrow> ts_less a c"
  by (auto simp: ts_less_def)

lemma ts_less_irrefl [simp]: "\<not> ts_less a a"
  by (simp add: ts_less_def)

lemma ts_less_asym: "ts_less a b \<Longrightarrow> \<not> ts_less b a"
  using ts_less_trans ts_less_irrefl by blast

lemma ts_not_less: "\<not> (ts_less a b \<or> a = b) \<longleftrightarrow> ts_less b a"
  using ts_less_linear ts_less_asym ts_less_irrefl by metis

lemma ot_gt_less: "ot_gt a b \<longleftrightarrow> ot_less b a"
proof (cases "ot_term a = kUninitializedTerm \<or> ot_term b = kUninitializedTerm")
  case True
  then have "ot_le a b \<longleftrightarrow> ts_less (ot_timestamp a) (ot_timestamp b) \<or> ot_timestamp a = ot_timestamp b"
    "ot_less b a \<longleftrightarrow> ts_less (ot_timestamp b) (ot_timestamp a)"
    by (auto simp: ot_le_def ot_less_def ot_eq_def)
  then show ?thesis using ts_not_less unfolding ot_gt_def by blast
next
  case False
  then have "ot_le a b \<longleftrightarrow> ot_term a < ot_term b \<or> (ot_term a = ot_term b \<and>
      (ts_less (ot_timestamp a) (ot_timestamp b) \<or> ot_timestamp a = ot_timestamp b))"
    "ot_less b a \<longleftrightarrow> ot_term b < ot_term a \<or> (ot_term a = ot_term b \<and> ts_less (ot_timestamp b) (ot_timestamp a))"
    by (auto simp: ot_le_def ot_less_def ot_eq_def)
  then show ?thesis using ts_not_less [of "ot_timestamp a" "ot_timestamp b"] unfolding ot_gt_def by auto
qed

lemma ot_less_irrefl [simp]: "\<not> ot_less a a"
  by (simp add: ot_less_def)

lemma ot_less_asym: "ot_less a b \<Longrightarrow> \<not> ot_less b a"
  using ts_less_asym by (auto simp: ot_less_def split: if_splits)

lemma ot_total: "ot_less a b \<or> ot_eq a b \<or> ot_less b a"
  using ot_gt_less [of a b] by (auto simp: ot_gt_def ot_le_def)

text \<open>With the terms known, optimes are ordered: term first, then timestamp.\<close>

lemma ot_less_trans:
  assumes "ot_term a \<noteq> kUninitializedTerm" "ot_term b \<noteq> kUninitializedTerm" "ot_term c \<noteq> kUninitializedTerm"
    and "ot_less a b" "ot_less b c"
  shows "ot_less a c"
  using assms ts_less_trans [of "ot_timestamp a" "ot_timestamp b" "ot_timestamp c"] by (auto simp: ot_less_def)

subsection \<open>Member states\<close>

datatype MemberState =
    RS_STARTUP | RS_PRIMARY | RS_SECONDARY | RS_RECOVERING | RS_STARTUP2 | RS_UNKNOWN
  | RS_ARBITER | RS_DOWN | RS_ROLLBACK | RS_REMOVED

fun MemberState_num :: "MemberState \<Rightarrow> int" where
  "MemberState_num RS_STARTUP = 0"
| "MemberState_num RS_PRIMARY = 1"
| "MemberState_num RS_SECONDARY = 2"
| "MemberState_num RS_RECOVERING = 3"
| "MemberState_num RS_STARTUP2 = 5"
| "MemberState_num RS_UNKNOWN = 6"
| "MemberState_num RS_ARBITER = 7"
| "MemberState_num RS_DOWN = 8"
| "MemberState_num RS_ROLLBACK = 9"
| "MemberState_num RS_REMOVED = 10"

fun readable :: "MemberState \<Rightarrow> bool" where
  "readable s = (s = RS_PRIMARY \<or> s = RS_SECONDARY)"

fun MemberState_toString :: "MemberState \<Rightarrow> string" where
  "MemberState_toString RS_STARTUP = ''STARTUP''"
| "MemberState_toString RS_PRIMARY = ''PRIMARY''"
| "MemberState_toString RS_SECONDARY = ''SECONDARY''"
| "MemberState_toString RS_RECOVERING = ''RECOVERING''"
| "MemberState_toString RS_STARTUP2 = ''STARTUP2''"
| "MemberState_toString RS_ARBITER = ''ARBITER''"
| "MemberState_toString RS_DOWN = ''DOWN''"
| "MemberState_toString RS_ROLLBACK = ''ROLLBACK''"
| "MemberState_toString RS_UNKNOWN = ''UNKNOWN''"
| "MemberState_toString RS_REMOVED = ''REMOVED''"

type_synonym Date = int
type_synonym Millis = int

end
