(* ===== verification/HostAndPort.thy ===== *)
theory HostAndPort
  imports ReplTypes
begin

text \<open>
  Network addresses (\<open>util/net/hostandport.cpp\<close>) and the number parser they use
  (\<open>base/parse_number.cpp\<close> at type \<open>int\<close>): parsing, printing, comparison with the
  default port, and the round trip between parsing and printing.
\<close>

subsection \<open>Parsing integers\<close>

definition int_max :: int where "int_max = 2147483647"
definition int_min :: int where "int_min = -2147483648"

definition digitValue :: "char \<Rightarrow> int" where
  "digitValue c =
     (let k = of_char c :: int in
      if 48 \<le> k \<and> k \<le> 57 then k - 48
      else if 97 \<le> k \<and> k \<le> 122 then k - 97 + 10
      else if 65 \<le> k \<and> k \<le> 90 then k - 65 + 10
      else 36)"

fun extractSign :: "string \<Rightarrow> string \<times> bool" where
  "extractSign [] = ([], False)"
| "extractSign (c # cs) =
     (if c = CHR ''-'' then (cs, True) else if c = CHR ''+'' then (cs, False) else (c # cs, False))"

definition hasHexPrefix :: "string \<Rightarrow> bool" where
  "hasHexPrefix s \<longleftrightarrow> take 2 s = ''0x'' \<or> take 2 s = ''0X''"

definition extractBase :: "string \<Rightarrow> int \<Rightarrow> string \<times> int" where
  "extractBase s inputBase =
     (if inputBase = 0 then
        (if 2 < length s \<and> hasHexPrefix s then (drop 2 s, 16)
         else if 1 < length s \<and> hd s = CHR ''0'' then (s, 8)
         else (s, 10))
      else if inputBase = 16 \<and> hasHexPrefix s then (drop 2 s, inputBase)
      else (s, inputBase))"

fun parseDigits :: "int \<Rightarrow> string \<Rightarrow> int \<Rightarrow> int StatusWith" where
  "parseDigits base [] n = Inr n"
| "parseDigits base (c # cs) n =
     (let d = digitValue c in
      if d \<ge> base then Inl FailedToParse
      else if int_max div base < n \<or> int_max - n * base < d then Inl FailedToParse
      else parseDigits base cs (n * base + d))"

text \<open>\<open>limits::min() / base\<close> rounds towards zero.\<close>

fun parseDigitsNeg :: "int \<Rightarrow> string \<Rightarrow> int \<Rightarrow> int StatusWith" where
  "parseDigitsNeg base [] n = Inr n"
| "parseDigitsNeg base (c # cs) n =
     (let d = digitValue c in
      if d \<ge> base then Inl FailedToParse
      else if - ((- int_min) div base) > n \<or> int_min - n * base > - d then Inl FailedToParse
      else parseDigitsNeg base cs (n * base - d))"

definition parseNumberFromStringWithBase :: "string \<Rightarrow> int \<Rightarrow> int StatusWith" where
  "parseNumberFromStringWithBase s base0 =
     (if base0 = 1 \<or> base0 < 0 \<or> base0 > 36 then Inl BadValue
      else
        (let (s1, isNegative) = extractSign s; (str, base) = extractBase s1 base0 in
         if str = [] then Inl FailedToParse
         else if isNegative then parseDigitsNeg base str 0 else parseDigits base str 0))"

subsection \<open>Hosts\<close>

record HostAndPort =
  hp_host :: string
  hp_port :: int

definition HostAndPort_empty :: HostAndPort where
  "HostAndPort_empty = \<lparr>hp_host = [], hp_port = -1\<rparr>"

definition DefaultDBPort :: int where "DefaultDBPort = 27017"

definition hasPort :: "HostAndPort \<Rightarrow> bool" where
  "hasPort h \<longleftrightarrow> hp_port h \<ge> 0"

definition port :: "HostAndPort \<Rightarrow> int" where
  "port h = (if hasPort h then hp_port h else DefaultDBPort)"

text \<open>\<open>operator==\<close>, also the key equality of every map and set of hosts.\<close>

definition hp_eq :: "HostAndPort \<Rightarrow> HostAndPort \<Rightarrow> bool" where
  "hp_eq a b \<longleftrightarrow> hp_host a = hp_host b \<and> port a = port b"

definition hp_empty :: "HostAndPort \<Rightarrow> bool" where
  "hp_empty h \<longleftrightarrow> hp_host h = [] \<and> hp_port h < 0"

text \<open>Reading the first byte of an empty string gives the terminating NUL.\<close>

definition isLocalHost :: "HostAndPort \<Rightarrow> bool" where
  "isLocalHost h \<longleftrightarrow>
     hp_host h = ''localhost'' \<or> take 4 (hp_host h) = ''127.'' \<or> hp_host h = ''::1'' \<or>
     hp_host h = ''anonymous unix socket'' \<or> (hp_host h \<noteq> [] \<and> hd (hp_host h) = CHR ''/'')"

subsubsection \<open>Printing\<close>

definition digitChar :: "nat \<Rightarrow> char" where
  "digitChar d = ''0123456789'' ! d"

fun natString :: "nat \<Rightarrow> string" where
  "natString n = (if n < 10 then [digitChar n] else natString (n div 10) @ [digitChar (n mod 10)])"

definition intString :: "int \<Rightarrow> string" where
  "intString i = (if i < 0 then CHR ''-'' # natString (nat (- i)) else natString (nat i))"

definition HostAndPort_toString :: "HostAndPort \<Rightarrow> string" where
  "HostAndPort_toString h =
     (if CHR '':'' \<in> set (hp_host h) then ''['' @ hp_host h @ '']'' else hp_host h) @
     (if CHR ''/'' \<in> set (hp_host h) then [] else '':'' @ intString (port h))"

subsubsection \<open>Parsing\<close>

definition npos :: nat where "npos = 2 ^ 64 - 1"

fun find_char :: "char \<Rightarrow> nat \<Rightarrow> string \<Rightarrow> nat" where
  "find_char c i [] = npos"
| "find_char c i (d # ds) = (if d = c then i else find_char c (Suc i) ds)"

fun rfind_char :: "char \<Rightarrow> nat \<Rightarrow> nat \<Rightarrow> string \<Rightarrow> nat" where
  "rfind_char c i best [] = best"
| "rfind_char c i best (d # ds) = rfind_char c (Suc i) (if d = c then i else best) ds"

definition substr :: "string \<Rightarrow> nat \<Rightarrow> nat \<Rightarrow> string" where
  "substr s pos n = take n (drop pos s)"

text \<open>The bracket rules: the host part and the position of the colon before the port.\<close>

definition splitHost :: "string \<Rightarrow> (string \<times> nat) StatusWith" where
  "splitHost s =
     (let colonPos = rfind_char (CHR '':'') 0 npos s;
          hostPart = substr s 0 colonPos;
          openPos = find_char (CHR ''['') 0 s;
          closePos = find_char (CHR '']'') 0 s in
      if openPos \<noteq> npos then
        (if openPos \<noteq> 0 then Inl FailedToParse
         else if closePos = npos then Inl FailedToParse
         else (let hostPart = substr s (openPos + 1) (closePos - openPos - 1) in
               if colonPos < closePos then
                 (if length s \<noteq> closePos + 1 then Inl FailedToParse else Inr (hostPart, npos))
               else if colonPos \<noteq> closePos + 1 then Inl FailedToParse
               else Inr (hostPart, colonPos)))
      else if closePos \<noteq> npos then Inl FailedToParse
      else if find_char (CHR '':'') 0 s \<noteq> colonPos then Inl FailedToParse
      else Inr (hostPart, colonPos))"

definition HostAndPort_initialize :: "string \<Rightarrow> HostAndPort StatusWith" where
  "HostAndPort_initialize s =
     (case splitHost s of
        Inl e \<Rightarrow> Inl e
      | Inr (hostPart, colonPos) \<Rightarrow>
          if hostPart = [] then Inl FailedToParse
          else if colonPos \<noteq> npos then
            (case parseNumberFromStringWithBase (drop (colonPos + 1) s) 10 of
               Inl e \<Rightarrow> Inl e
             | Inr p \<Rightarrow> if p \<le> 0 \<or> p > 65535 then Inl FailedToParse
                        else Inr \<lparr>hp_host = hostPart, hp_port = p\<rparr>)
          else Inr \<lparr>hp_host = hostPart, hp_port = -1\<rparr>)"

subsection \<open>Properties\<close>

declare natString.simps [simp del]

lemma less_10: "d < 10 \<Longrightarrow> (d::nat) \<in> {0, 1, 2, 3, 4, 5, 6, 7, 8, 9}"
  by auto

lemma digitValue_digitChar: "d < 10 \<Longrightarrow> digitValue (digitChar d) = int d"
  using less_10 [of d] by (auto simp: digitValue_def digitChar_def)

lemma digitChar_cases: "d < 10 \<Longrightarrow> digitChar d \<in> set ''0123456789''"
  using less_10 [of d] by (auto simp: digitChar_def)

lemma natString_digits: "set (natString n) \<subseteq> set ''0123456789''" "natString n \<noteq> []"
proof -
  show "set (natString n) \<subseteq> set ''0123456789''"
  proof (induction n rule: natString.induct)
    case (1 n)
    show ?case
    proof (cases "n < 10")
      case True
      then show ?thesis using digitChar_cases [OF True] by (subst natString.simps) simp
    next
      case False
      then show ?thesis using 1 [OF False] digitChar_cases [of "n mod 10"] by (subst natString.simps) simp
    qed
  qed
  show "natString n \<noteq> []" by (subst natString.simps) simp
qed

lemma parseDigits_append:
  "parseDigits 10 (s @ [c]) n = (case parseDigits 10 s n of Inl e \<Rightarrow> Inl e | Inr k \<Rightarrow> parseDigits 10 [c] k)"
  by (induction s arbitrary: n) (auto split: sum.splits)

lemma parseDigits_natString: "int n \<le> int_max \<Longrightarrow> parseDigits 10 (natString n) 0 = Inr (int n)"
proof (induction n rule: natString.induct)
  case (1 n)
  show ?case
  proof (cases "n < 10")
    case True
    then show ?thesis by (subst natString.simps) (simp add: digitValue_digitChar int_max_def)
  next
    case False
    have div: "int (n div 10) = int n div 10" by (simp add: zdiv_int)
    then have "parseDigits 10 (natString (n div 10)) 0 = Inr (int (n div 10))"
      using 1 False by (simp add: int_max_def)
    moreover have "int (n div 10) * 10 + int (n mod 10) = int n" by presburger
    ultimately show ?thesis
      using False 1(2) by (subst natString.simps) (auto simp: parseDigits_append digitValue_digitChar int_max_def)
  qed
qed

lemma parseNumber_natString:
  assumes "int n \<le> int_max"
  shows "parseNumberFromStringWithBase (natString n) 10 = Inr (int n)"
proof -
  obtain c cs where s: "natString n = c # cs" using natString_digits(2) by (cases "natString n") auto
  then have "c \<noteq> CHR ''-''" "c \<noteq> CHR ''+''" using natString_digits(1) [of n] by auto
  then show ?thesis
    using parseDigits_natString [OF assms] s by (simp add: parseNumberFromStringWithBase_def extractBase_def)
qed

lemma find_char_none: "c \<notin> set s \<Longrightarrow> find_char c i s = npos"
  by (induction s arbitrary: i) auto

lemma find_char_append: "c \<notin> set a \<Longrightarrow> find_char c i (a @ c # b) = i + length a"
  by (induction a arbitrary: i) auto

lemma rfind_char_none: "c \<notin> set s \<Longrightarrow> rfind_char c i best s = best"
  by (induction s arbitrary: i) auto

lemma rfind_char_append: "c \<notin> set b \<Longrightarrow> rfind_char c i best (a @ c # b) = i + length a"
  by (induction a arbitrary: i best) (auto simp: rfind_char_none)

text \<open>
  C26: round trip of network addresses. For a host name or IPv6 address (no brackets, no slash) and a port in
  range, parsing the printed form gives the address back; addresses with colons are printed in
  brackets so that the port can be told from the address.
\<close>

theorem HostAndPort_roundtrip:
  assumes "hp_host h \<noteq> []" "set (hp_host h) \<inter> set ''[]/'' = {}" "0 < hp_port h" "hp_port h \<le> 65535"
    and "length (hp_host h) + 100 < npos"
  shows "HostAndPort_initialize (HostAndPort_toString h) = Inr h"
proof -
  let ?n = "nat (hp_port h)" and ?a = "hp_host h"
  have p: "port h = int ?n" "intString (port h) = natString ?n" using assms by (auto simp: port_def hasPort_def intString_def)
  have dig: "CHR '':'' \<notin> set (natString ?n)" "CHR ''['' \<notin> set (natString ?n)" "CHR '']'' \<notin> set (natString ?n)"
    using natString_digits(1) [of ?n] by auto
  have a: "CHR ''['' \<notin> set ?a" "CHR '']'' \<notin> set ?a" "CHR ''/'' \<notin> set ?a" using assms(2) by auto
  have num: "parseNumberFromStringWithBase (natString ?n) 10 = Inr (int ?n)"
    using assms by (intro parseNumber_natString) (simp add: int_max_def)
  show ?thesis
  proof (cases "CHR '':'' \<in> set ?a")
    case True
    let ?s = "''['' @ ?a @ '']'' @ '':'' @ natString ?n"
    have s: "HostAndPort_toString h = ?s" using True a p by (simp add: HostAndPort_toString_def)
    have "rfind_char (CHR '':'') 0 npos ?s = length ?a + 2"
      using rfind_char_append [OF dig(1), of 0 npos "''['' @ ?a @ '']''"] by simp
    moreover have "find_char (CHR '']'') 0 ?s = length ?a + 1"
      using find_char_append [of "CHR '']''" "''['' @ ?a" 0] a by simp
    moreover have "find_char (CHR ''['') 0 ?s = 0" by simp
    ultimately have "splitHost ?s = Inr (?a, length ?a + 2)"
      using assms(5) by (simp add: splitHost_def substr_def npos_def)
    then show ?thesis using assms num p s by (simp add: HostAndPort_initialize_def npos_def)
  next
    case False
    let ?s = "?a @ '':'' @ natString ?n"
    have s: "HostAndPort_toString h = ?s" using False a p by (simp add: HostAndPort_toString_def)
    have "rfind_char (CHR '':'') 0 npos ?s = length ?a"
      using rfind_char_append [OF dig(1), of 0 npos ?a] by simp
    moreover have "find_char (CHR '':'') 0 ?s = length ?a" using find_char_append [OF False, of 0] by simp
    moreover have "find_char (CHR ''['') 0 ?s = npos" "find_char (CHR '']'') 0 ?s = npos"
      using a dig by (auto intro: find_char_none)
    ultimately have "splitHost ?s = Inr (?a, length ?a)"
      using assms(5) by (simp add: splitHost_def substr_def)
    then show ?thesis using assms num p s by (simp add: HostAndPort_initialize_def)
  qed
qed

theorem HostAndPort_roundtrip_witness:
  "HostAndPort_initialize (HostAndPort_toString \<lparr>hp_host = ''fe80::1'', hp_port = 27018\<rparr>)
     = Inr \<lparr>hp_host = ''fe80::1'', hp_port = 27018\<rparr>"
  by (rule HostAndPort_roundtrip) (auto simp: npos_def)

end
