(* ===== verification/ReplSetTag.thy ===== *)
theory ReplSetTag
  imports HostAndPort
begin

text \<open>
  Replica set tags (\<open>repl_set_tag.cpp\<close>): the table that numbers tag keys and values,
  patterns of minimum counts, and the matcher that decides whether a set of tags satisfies a
  pattern. Write concern modes are such patterns.
\<close>

record ReplSetTag =
  tag_keyIndex :: int
  tag_valueIndex :: int

definition invalidTag :: ReplSetTag where
  "invalidTag = \<lparr>tag_keyIndex = -1, tag_valueIndex = -1\<rparr>"

definition tag_isValid :: "ReplSetTag \<Rightarrow> bool" where
  "tag_isValid t \<longleftrightarrow> 0 \<le> tag_keyIndex t"

text \<open>The table: for every key its values; a tag is a pair of positions.\<close>

type_synonym TagConfig = "(string \<times> string list) list"

text \<open>A linear search that gives the length of the list when nothing is found.\<close>

fun findIndex :: "('a \<Rightarrow> bool) \<Rightarrow> 'a list \<Rightarrow> nat" where
  "findIndex P [] = 0"
| "findIndex P (x # xs) = (if P x then 0 else Suc (findIndex P xs))"

definition findKeyIndex :: "string \<Rightarrow> TagConfig \<Rightarrow> nat" where
  "findKeyIndex key td = findIndex (\<lambda>kv. fst kv = key) td"

definition makeTag :: "string \<Rightarrow> string \<Rightarrow> TagConfig \<Rightarrow> ReplSetTag \<times> TagConfig" where
  "makeTag key v td0 =
     (let k = findKeyIndex key td0;
          td = (if k = length td0 then td0 @ [(key, [])] else td0);
          vs = snd (td ! k);
          j = findIndex (\<lambda>x. x = v) vs in
      if j < length vs then (\<lparr>tag_keyIndex = int k, tag_valueIndex = int j\<rparr>, td)
      else (\<lparr>tag_keyIndex = int k, tag_valueIndex = int (length vs)\<rparr>, td[k := (fst (td ! k), vs @ [v])]))"

definition findTag :: "string \<Rightarrow> string \<Rightarrow> TagConfig \<Rightarrow> ReplSetTag" where
  "findTag key v td =
     (let k = findKeyIndex key td in
      if k = length td then invalidTag
      else (let vs = snd (td ! k); j = findIndex (\<lambda>x. x = v) vs in
            if j < length vs then \<lparr>tag_keyIndex = int k, tag_valueIndex = int j\<rparr> else invalidTag))"

definition getTagKey :: "ReplSetTag \<Rightarrow> TagConfig \<Rightarrow> string option" where
  "getTagKey t td =
     do { ensure (tag_isValid t \<and> tag_keyIndex t < int (length td));
          Some (fst (td ! nat (tag_keyIndex t))) }"

definition getTagValue :: "ReplSetTag \<Rightarrow> TagConfig \<Rightarrow> string option" where
  "getTagValue t td =
     do { ensure (tag_isValid t \<and> tag_keyIndex t < int (length td));
          let vs = snd (td ! nat (tag_keyIndex t));
          ensure (0 \<le> tag_valueIndex t \<and> tag_valueIndex t < int (length vs));
          Some (vs ! nat (tag_valueIndex t)) }"

subsection \<open>Patterns and matching\<close>

text \<open>A pattern: pairs of a key index and the minimum number of distinct values.\<close>

type_synonym TagPattern = "(int \<times> int) list"

fun addTagCountConstraint :: "int \<Rightarrow> int \<Rightarrow> TagPattern \<Rightarrow> TagPattern" where
  "addTagCountConstraint k n [] = [(k, n)]"
| "addTagCountConstraint k n ((k', n') # cs) =
     (if k' = k then (if n' < n then (k, n) # cs else (k', n') # cs)
      else (k', n') # addTagCountConstraint k n cs)"

definition addTagCountConstraintToPattern :: "string \<Rightarrow> int \<Rightarrow> TagConfig \<Rightarrow> TagPattern \<Rightarrow> TagPattern StatusWith" where
  "addTagCountConstraintToPattern key n td p =
     (let k = findKeyIndex key td in
      if k = length td then Inl NoSuchKey else Inr (addTagCountConstraint (int k) n p))"

text \<open>The matcher: every constraint with the distinct values seen so far.\<close>

type_synonym TagMatch = "((int \<times> int) \<times> int list) list"

definition newTagMatch :: "TagPattern \<Rightarrow> TagMatch" where
  "newTagMatch p = map (\<lambda>c. (c, [])) p"

definition boundSatisfied :: "(int \<times> int) \<times> int list \<Rightarrow> bool" where
  "boundSatisfied b \<longleftrightarrow> snd (fst b) \<le> int (length (snd b))"

definition matchSatisfied :: "TagMatch \<Rightarrow> bool" where
  "matchSatisfied m \<longleftrightarrow> list_all boundSatisfied m"

fun bindTag :: "ReplSetTag \<Rightarrow> TagMatch \<Rightarrow> TagMatch" where
  "bindTag t [] = []"
| "bindTag t (((k, n), vs) # m) =
     (if k = tag_keyIndex t
      then ((k, n), if tag_valueIndex t \<in> set vs then vs else vs @ [tag_valueIndex t]) # m
      else ((k, n), vs) # bindTag t m)"

definition matchUpdate :: "ReplSetTag \<Rightarrow> TagMatch \<Rightarrow> bool \<times> TagMatch" where
  "matchUpdate t m = (let m' = bindTag t m in (matchSatisfied m', m'))"

subsection \<open>Lemmas\<close>

lemma findIndex_le: "findIndex P xs \<le> length xs"
  by (induction xs) auto

lemma findIndex_less: "findIndex P xs < length xs \<longleftrightarrow> (\<exists>x\<in>set xs. P x)"
  by (induction xs) auto

lemma findIndex_sat: "findIndex P xs < length xs \<Longrightarrow> P (xs ! findIndex P xs)"
  by (induction xs) auto

lemma findIndex_append: "findIndex P (xs @ ys) =
  (if findIndex P xs < length xs then findIndex P xs else length xs + findIndex P ys)"
  by (induction xs) auto

lemma findIndex_upd_fst:
  "k < length td \<Longrightarrow> findIndex (\<lambda>kv. fst kv = key) (td[k := (fst (td ! k), vs)]) = findIndex (\<lambda>kv. fst kv = key) td"
  by (induction td arbitrary: k) (auto split: nat.splits simp: nth_Cons)

text \<open>The key is found at its place after \<open>makeTag\<close>.\<close>

lemma findKeyIndex_extended:
  assumes "td = (if findKeyIndex key td0 = length td0 then td0 @ [(key, [])] else td0)"
  shows "findKeyIndex key td = findKeyIndex key td0" "findKeyIndex key td0 < length td"
    "fst (td ! findKeyIndex key td0) = key"
proof -
  have "findKeyIndex key td0 \<le> length td0" by (simp add: findKeyIndex_def findIndex_le)
  then show l: "findKeyIndex key td0 < length td" using assms by auto
  show e: "findKeyIndex key td = findKeyIndex key td0"
    using assms \<open>findKeyIndex key td0 \<le> length td0\<close> by (auto simp: findKeyIndex_def findIndex_append)
  show "fst (td ! findKeyIndex key td0) = key"
    using findIndex_sat [of "\<lambda>kv. fst kv = key" td] l e by (simp add: findKeyIndex_def)
qed

text \<open>
  Numbering of tags. The tag \<open>makeTag\<close> returns is the one \<open>findTag\<close> finds
  afterwards, and it decodes to the key and the value it was made from.
\<close>

theorem makeTag_roundtrip:
  assumes "makeTag key v td0 = (t, td)"
  shows "findTag key v td = t \<and> getTagKey t td = Some key \<and> getTagValue t td = Some v"
proof -
  let ?k = "findKeyIndex key td0"
  define td1 where "td1 = (if ?k = length td0 then td0 @ [(key, [])] else td0)"
  let ?vs = "snd (td1 ! ?k)"
  let ?j = "findIndex (\<lambda>x. x = v) ?vs"
  note f = findKeyIndex_extended [OF td1_def]
  show ?thesis
  proof (cases "?j < length ?vs")
    case True
    then have "t = \<lparr>tag_keyIndex = int ?k, tag_valueIndex = int ?j\<rparr>" "td = td1"
      using assms by (auto simp: makeTag_def td1_def [symmetric])
    then show ?thesis
      using f True findIndex_sat [OF True] by (simp add: findTag_def getTagKey_def getTagValue_def tag_isValid_def)
  next
    case False
    let ?td = "td1[?k := (fst (td1 ! ?k), ?vs @ [v])]"
    have t: "t = \<lparr>tag_keyIndex = int ?k, tag_valueIndex = int (length ?vs)\<rparr>" "td = ?td"
      using assms False by (auto simp: makeTag_def td1_def [symmetric])
    have "findKeyIndex key ?td = ?k"
      using f findIndex_upd_fst [OF f(2)] by (simp add: findKeyIndex_def)
    moreover have "findIndex (\<lambda>x. x = v) (?vs @ [v]) = length ?vs"
      using False by (simp add: findIndex_append)
    ultimately show ?thesis
      using f t by (simp add: findTag_def getTagKey_def getTagValue_def tag_isValid_def)
  qed
qed

theorem makeTag_roundtrip_witness:
  "findTag ''dc'' ''ny'' (snd (makeTag ''dc'' ''ny'' [(''dc'', [''sf''])])) = fst (makeTag ''dc'' ''ny'' [(''dc'', [''sf''])]) \<and>
   getTagKey (fst (makeTag ''dc'' ''ny'' [(''dc'', [''sf''])])) (snd (makeTag ''dc'' ''ny'' [(''dc'', [''sf''])])) = Some ''dc'' \<and>
   getTagValue (fst (makeTag ''dc'' ''ny'' [(''dc'', [''sf''])])) (snd (makeTag ''dc'' ''ny'' [(''dc'', [''sf''])])) = Some ''ny''"
  using makeTag_roundtrip [of "''dc''" "''ny''" "[(''dc'', [''sf''])]"] by (metis prod.collapse)

text \<open>Matching a list of tags one after the other.\<close>

fun matchAll :: "ReplSetTag list \<Rightarrow> TagMatch \<Rightarrow> TagMatch" where
  "matchAll [] m = m"
| "matchAll (t # ts) m = matchAll ts (bindTag t m)"

definition values_of :: "int \<Rightarrow> ReplSetTag list \<Rightarrow> int set" where
  "values_of k ts = tag_valueIndex ` {t \<in> set ts. tag_keyIndex t = k}"

definition bound_to :: "ReplSetTag list \<Rightarrow> TagMatch \<Rightarrow> bool" where
  "bound_to ts m \<longleftrightarrow> (\<forall>((k, n), vs)\<in>set m. distinct vs \<and> set vs = values_of k ts)"

lemma bindTag_keys: "map fst (bindTag t m) = map fst m"
  by (induction t m rule: bindTag.induct) auto

lemma bindTag_bound:
  assumes "distinct (map (fst \<circ> fst) m)" "bound_to ts m"
  shows "bound_to (ts @ [t]) (bindTag t m)"
  using assms
proof (induction t m rule: bindTag.induct)
  case (1 t)
  then show ?case by (simp add: bound_to_def)
next
  case (2 t k n vs m)
  have other: "values_of k' (ts @ [t]) = values_of k' ts" if "k' \<noteq> tag_keyIndex t" for k'
    using that by (auto simp: values_of_def)
  have same: "values_of (tag_keyIndex t) (ts @ [t]) = insert (tag_valueIndex t) (values_of (tag_keyIndex t) ts)"
    by (auto simp: values_of_def)
  show ?case
  proof (cases "k = tag_keyIndex t")
    case True
    have "\<forall>((k', n'), vs')\<in>set m. k' \<noteq> k" using 2(2) by force
    then have "\<forall>((k', n'), vs')\<in>set m. distinct vs' \<and> set vs' = values_of k' (ts @ [t])"
      using 2(3) other True by (fastforce simp: bound_to_def)
    then show ?thesis using 2(3) True same by (auto simp: bound_to_def)
  next
    case False
    then show ?thesis using 2 other by (auto simp: bound_to_def)
  qed
qed

lemma matchAll_bound:
  assumes "distinct (map (fst \<circ> fst) m)" "bound_to ts m"
  shows "bound_to (ts @ us) (matchAll us m)" "map fst (matchAll us m) = map fst m"
proof -
  show "bound_to (ts @ us) (matchAll us m)"
    using assms
  proof (induction us arbitrary: ts m)
    case (Cons u us)
    have "distinct (map (fst \<circ> fst) (bindTag u m))"
      using Cons.prems(1) bindTag_keys [of u m] by (metis map_map)
    from Cons.IH [OF this bindTag_bound [OF Cons.prems]] show ?case by simp
  qed simp
  show "map fst (matchAll us m) = map fst m"
    by (induction us arbitrary: m) (simp_all add: bindTag_keys)
qed

lemma match_decides:
  assumes "distinct (map fst p)"
  shows "matchSatisfied (matchAll ts (newTagMatch p)) \<longleftrightarrow>
    (\<forall>(k, n)\<in>set p. n \<le> int (card (values_of k ts)))"
proof -
  let ?m = "matchAll ts (newTagMatch p)"
  have d: "distinct (map (fst \<circ> fst) (newTagMatch p))" using assms by (simp add: newTagMatch_def comp_def)
  have "bound_to [] (newTagMatch p)" by (auto simp: bound_to_def newTagMatch_def values_of_def)
  note b = matchAll_bound [OF d this, of ts]
  have keys: "map fst ?m = p" using b(2) by (simp add: newTagMatch_def comp_def)
  have len: "length vs = card (values_of k ts)" if "((k, n), vs) \<in> set ?m" for k n vs
    using b(1) that distinct_card [of vs] by (fastforce simp: bound_to_def)
  have "matchSatisfied ?m \<longleftrightarrow> (\<forall>((k, n), vs)\<in>set ?m. n \<le> int (card (values_of k ts)))"
    using len by (fastforce simp: matchSatisfied_def boundSatisfied_def list_all_iff)
  also have "\<dots> \<longleftrightarrow> (\<forall>(k, n)\<in>fst ` set ?m. n \<le> int (card (values_of k ts)))" by fastforce
  also have "fst ` set ?m = set p" using keys by (metis list.set_map)
  finally show ?thesis .
qed

text \<open>
  C25: the matcher decides the pattern. After any sequence of tags, the pattern is satisfied
  exactly if for each of its constraints the tags seen with that key have at least the minimum
  number of distinct values.
\<close>

theorem matchSatisfied_iff:
  assumes "distinct (map fst p)"
  shows "matchSatisfied (matchAll ts (newTagMatch p)) \<longleftrightarrow>
    (\<forall>(k, n)\<in>set p. n \<le> int (card (values_of k ts)))"
  by (rule match_decides [OF assms])

theorem matchSatisfied_iff_witness:
  "matchSatisfied (matchAll [\<lparr>tag_keyIndex = 0, tag_valueIndex = 1\<rparr>, \<lparr>tag_keyIndex = 0, tag_valueIndex = 2\<rparr>] (newTagMatch [(0, 2)]))"
proof -
  have "values_of 0 [\<lparr>tag_keyIndex = 0, tag_valueIndex = 1\<rparr>, \<lparr>tag_keyIndex = 0, tag_valueIndex = 2\<rparr>] = {1, 2}"
    by (force simp: values_of_def)
  then have v: "card (values_of 0 [\<lparr>tag_keyIndex = 0, tag_valueIndex = 1\<rparr>, \<lparr>tag_keyIndex = 0, tag_valueIndex = 2\<rparr>]) = 2" by simp
  show ?thesis by (subst matchSatisfied_iff) (simp_all add: v)
qed

end
