(* ===== verification/ReplSetConfig.thy ===== *)
theory ReplSetConfig
  imports ReplSetTag
begin

text \<open>
  Replica set configurations: \<open>member_config.cpp\<close> and \<open>repl_set_config.cpp\<close>, as
  far as they are independent of BSON parsing: the internal tags of a member, validation, the
  majorities, the internal write concern modes, member lookup, write concern satisfiability and
  the priority takeover delay.
\<close>

subsection \<open>Members\<close>

record MemberConfig =
  mc_id :: int
  mc_host :: HostAndPort
  mc_priority :: Double
  mc_votes :: int
  mc_arbiterOnly :: bool
  mc_slaveDelay :: int
  mc_hidden :: bool
  mc_buildIndexes :: bool
  mc_tags :: "ReplSetTag list"

definition isVoter :: "MemberConfig \<Rightarrow> bool" where
  "isVoter m \<longleftrightarrow> mc_votes m \<noteq> 0"

definition getNumVotes :: "MemberConfig \<Rightarrow> int" where
  "getNumVotes m = (if isVoter m then 1 else 0)"

definition isArbiter :: "MemberConfig \<Rightarrow> bool" where
  "isArbiter m = mc_arbiterOnly m"

definition isElectable :: "MemberConfig \<Rightarrow> bool" where
  "isElectable m \<longleftrightarrow> \<not> isArbiter m \<and> d_less (Num 0) (mc_priority m)"

definition kMaxSlaveDelay :: int where "kMaxSlaveDelay = 3600 * 24 * 366"

text \<open>The tags added at the end of \<open>MemberConfig::initialize\<close>, after the user's tags.\<close>

definition pushTag :: "string \<Rightarrow> string \<Rightarrow> ReplSetTag list \<times> TagConfig \<Rightarrow> ReplSetTag list \<times> TagConfig" where
  "pushTag key v = (\<lambda>(ts, td). let (t, td') = makeTag key v td in (ts @ [t], td'))"

definition addInternalTags :: "MemberConfig \<Rightarrow> TagConfig \<Rightarrow> MemberConfig \<times> TagConfig" where
  "addInternalTags m td0 =
     (let i = intString (mc_id m);
          s1 = (if isVoter m \<and> \<not> mc_arbiterOnly m then pushTag ''$voter'' i (mc_tags m, td0) else (mc_tags m, td0));
          s2 = (if isElectable m then pushTag ''$electable'' i s1 else s1);
          s3 = (if \<not> mc_arbiterOnly m then pushTag ''$all'' i s2 else s2) in
      (m\<lparr>mc_tags := fst s3\<rparr>, snd s3))"

definition MemberConfig_validate :: "MemberConfig \<Rightarrow> Status" where
  "MemberConfig_validate m =
     (if mc_id m < 0 \<or> mc_id m > 255 then Some BadValue
      else if d_less (mc_priority m) (Num 0) \<or> d_less (Num 1000) (mc_priority m) then Some BadValue
      else if mc_votes m \<noteq> 0 \<and> mc_votes m \<noteq> 1 then Some BadValue
      else if mc_arbiterOnly m \<and> mc_tags m \<noteq> [] then Some BadValue
      else if mc_arbiterOnly m \<and> \<not> isVoter m then Some BadValue
      else if mc_slaveDelay m < 0 \<or> mc_slaveDelay m > kMaxSlaveDelay then Some BadValue
      else if \<not> d_eq (mc_priority m) (Num 0) then
        (if mc_votes m = 0 then Some BadValue
         else if mc_slaveDelay m > 0 then Some BadValue
         else if mc_hidden m then Some BadValue
         else if \<not> mc_buildIndexes m then Some BadValue
         else StatusOK)
      else StatusOK)"

text \<open>\<open>std::string\<close> subscript 0 of an empty key is the terminating NUL.\<close>

definition internalKey :: "string \<Rightarrow> bool" where
  "internalKey k \<longleftrightarrow> k \<noteq> [] \<and> hd k = CHR ''$''"

fun hasTags_loop :: "ReplSetTag list \<Rightarrow> TagConfig \<Rightarrow> bool option" where
  "hasTags_loop [] td = Some False"
| "hasTags_loop (t # ts) td =
     do { k \<leftarrow> getTagKey t td; if internalKey k then hasTags_loop ts td else Some True }"

definition hasTags :: "MemberConfig \<Rightarrow> TagConfig \<Rightarrow> bool option" where
  "hasTags m td = hasTags_loop (mc_tags m) td"

subsection \<open>Configurations\<close>

record WriteConcern =
  wMode :: string
  wNumNodes :: int

record ReplSetConfig =
  c_isInitialized :: bool
  c_version :: int
  c_replSetName :: string
  c_members :: "MemberConfig list"
  c_defaultWriteConcern :: WriteConcern
  c_electionTimeoutPeriod :: Millis
  c_heartbeatInterval :: Millis
  c_heartbeatTimeoutPeriod :: int
  c_catchUpTimeoutPeriod :: Millis
  c_chainingAllowed :: bool
  c_writeConcernMajorityJournalDefault :: bool
  c_majorityVoteCount :: int
  c_writeMajority :: int
  c_totalVotingMembers :: int
  c_tagConfig :: TagConfig
  c_customWriteConcernModes :: "(string \<times> TagPattern) list"
  c_protocolVersion :: int
  c_configServer :: bool
  c_replicaSetId :: "nat option"
  c_connectionString :: "(string \<times> HostAndPort list) option"

definition ReplSetConfig_default :: ReplSetConfig where
  "ReplSetConfig_default =
     \<lparr>c_isInitialized = False, c_version = 1, c_replSetName = [], c_members = [],
      c_defaultWriteConcern = \<lparr>wMode = [], wNumNodes = 0\<rparr>,
      c_electionTimeoutPeriod = 10000, c_heartbeatInterval = 2000, c_heartbeatTimeoutPeriod = 10,
      c_catchUpTimeoutPeriod = 60000, c_chainingAllowed = True,
      c_writeConcernMajorityJournalDefault = False, c_majorityVoteCount = 0, c_writeMajority = 0,
      c_totalVotingMembers = 0, c_tagConfig = [], c_customWriteConcernModes = [],
      c_protocolVersion = 0, c_configServer = False, c_replicaSetId = None, c_connectionString = None\<rparr>"

definition kMaxMembers :: nat where "kMaxMembers = 50"

definition kMaxVotingMembers :: nat where "kMaxVotingMembers = 7"

definition getNumMembers :: "ReplSetConfig \<Rightarrow> int" where
  "getNumMembers c = int (length (c_members c))"

text \<open>The parameter is a \<open>size_t\<close>: a negative index is out of range.\<close>

definition getMemberAt :: "ReplSetConfig \<Rightarrow> int \<Rightarrow> MemberConfig option" where
  "getMemberAt c i = nth_opt (c_members c) i"

definition findMemberByID :: "ReplSetConfig \<Rightarrow> int \<Rightarrow> MemberConfig option" where
  "findMemberByID c i = List.find (\<lambda>m. mc_id m = i) (c_members c)"

fun indexOf :: "('a \<Rightarrow> bool) \<Rightarrow> int \<Rightarrow> 'a list \<Rightarrow> int" where
  "indexOf P x [] = -1"
| "indexOf P x (y # ys) = (if P y then x else indexOf P (x + 1) ys)"

definition findMemberIndexByHostAndPort :: "ReplSetConfig \<Rightarrow> HostAndPort \<Rightarrow> int" where
  "findMemberIndexByHostAndPort c h = indexOf (\<lambda>m. hp_eq (mc_host m) h) 0 (c_members c)"

definition findMemberIndexByConfigId :: "ReplSetConfig \<Rightarrow> int \<Rightarrow> int" where
  "findMemberIndexByConfigId c i = indexOf (\<lambda>m. mc_id m = i) 0 (c_members c)"

definition findMemberByHostAndPort :: "ReplSetConfig \<Rightarrow> HostAndPort \<Rightarrow> MemberConfig option option" where
  "findMemberByHostAndPort c h =
     (let i = findMemberIndexByHostAndPort c h in
      if i \<noteq> -1 then do { m \<leftarrow> getMemberAt c i; Some (Some m) } else Some None)"

definition findCustomWriteMode :: "ReplSetConfig \<Rightarrow> string \<Rightarrow> TagPattern StatusWith" where
  "findCustomWriteMode c name =
     (case map_of (c_customWriteConcernModes c) name of
        None \<Rightarrow> Inl UnknownReplWriteConcern | Some p \<Rightarrow> Inr p)"

definition kMajority :: string where "kMajority = ''majority''"

definition kMajorityWriteConcernModeName :: string where "kMajorityWriteConcernModeName = ''$majority''"

definition kStepDownCheckWriteConcernModeName :: string where
  "kStepDownCheckWriteConcernModeName = ''$stepDownCheck''"

subsubsection \<open>The end of \<open>_initialize\<close>\<close>

definition calculateMajorities :: "ReplSetConfig \<Rightarrow> ReplSetConfig" where
  "calculateMajorities c =
     (let voters = int (count_if isVoter (c_members c)); arbiters = int (count_if isArbiter (c_members c));
          majority = voters div 2 + 1 in
      c\<lparr>c_totalVotingMembers := voters, c_majorityVoteCount := majority,
        c_writeMajority := min majority (voters - arbiters)\<rparr>)"

definition addInternalMode :: "string \<Rightarrow> string \<Rightarrow> int \<Rightarrow> ReplSetConfig \<Rightarrow> ReplSetConfig option" where
  "addInternalMode name key n c =
     (case addTagCountConstraintToPattern key n (c_tagConfig c) [] of
        Inr p \<Rightarrow> Some (c\<lparr>c_customWriteConcernModes := AList.update name p (c_customWriteConcernModes c)\<rparr>)
      | Inl e \<Rightarrow> do { ensure (e = NoSuchKey); Some c })"

definition addInternalWriteConcernModes :: "ReplSetConfig \<Rightarrow> ReplSetConfig option" where
  "addInternalWriteConcernModes c =
     do { c1 \<leftarrow> addInternalMode kMajorityWriteConcernModeName ''$voter'' (c_writeMajority c) c;
          addInternalMode kStepDownCheckWriteConcernModeName ''$electable'' 2 c1 }"

definition initializeConnectionString :: "ReplSetConfig \<Rightarrow> ReplSetConfig" where
  "initializeConnectionString c =
     (let visible = map mc_host (filter (\<lambda>m. \<not> mc_hidden m \<and> \<not> isArbiter m) (c_members c)) in
      if c_replSetName c = [] \<or> visible = [] then c
      else c\<lparr>c_connectionString := Some (c_replSetName c, visible)\<rparr>)"

definition finishInitialize :: "ReplSetConfig \<Rightarrow> ReplSetConfig option" where
  "finishInitialize c =
     do { c1 \<leftarrow> addInternalWriteConcernModes (calculateMajorities c);
          Some ((initializeConnectionString c1)\<lparr>c_isInitialized := True\<rparr>) }"

subsubsection \<open>Validation\<close>

text \<open>What the node was started as: \<open>--configsvr\<close> and the test override.\<close>

record ServerParams =
  sp_configsvr :: bool
  sp_skipShardingConfigurationChecks :: bool

text \<open>The inner loop over \<open>j\<close> for one member, and the outer loop over \<open>i\<close>.\<close>

definition memberPairCheck :: "nat \<Rightarrow> MemberConfig \<Rightarrow> MemberConfig list \<Rightarrow> Status" where
  "memberPairCheck i mi ms =
     failIf (list_ex (\<lambda>j. j \<noteq> i \<and> (mc_id mi = mc_id (ms ! j) \<or> hp_eq (mc_host mi) (mc_host (ms ! j))))
                     [0..<length ms]) BadValue"

fun membersCheck :: "nat \<Rightarrow> MemberConfig list \<Rightarrow> MemberConfig list \<Rightarrow> Status" where
  "membersCheck i [] all = StatusOK"
| "membersCheck i (m # ms) all =
     andThen (MemberConfig_validate m) (andThen (memberPairCheck i m all) (membersCheck (Suc i) ms all))"

definition localhostCheck :: "MemberConfig list \<Rightarrow> Status" where
  "localhostCheck ms =
     (let n = count_if (\<lambda>m. isLocalHost (mc_host m)) ms in failIf (n \<noteq> 0 \<and> n \<noteq> length ms) BadValue)"

definition voterCheck :: "MemberConfig list \<Rightarrow> Status" where
  "voterCheck ms = (let n = count_if isVoter ms in failIf (n > kMaxVotingMembers \<or> n = 0) BadValue)"

definition electableCheck :: "MemberConfig list \<Rightarrow> Status" where
  "electableCheck ms = failIf (count_if (\<lambda>m. \<not> isArbiter m \<and> d_less (Num 0) (mc_priority m)) ms = 0) BadValue"

definition writeConcernCheck :: "ReplSetConfig \<Rightarrow> Status" where
  "writeConcernCheck c =
     (let w = c_defaultWriteConcern c in
      if wMode w = [] then failIf (wNumNodes w = 0) BadValue
      else failIf (kMajority \<noteq> wMode w \<and> isl (findCustomWriteMode c (wMode w))) BadValue)"

definition configServerCheck :: "ServerParams \<Rightarrow> ReplSetConfig \<Rightarrow> Status" where
  "configServerCheck sp c =
     (if c_configServer c then
        (if c_protocolVersion c = 0 then Some BadValue
         else if count_if isArbiter (c_members c) > 0 then Some BadValue
         else if list_ex (\<lambda>m. \<not> mc_buildIndexes m \<or> mc_slaveDelay m \<noteq> 0) (c_members c) then Some BadValue
         else if \<not> sp_configsvr sp \<and> \<not> sp_skipShardingConfigurationChecks sp then Some BadValue
         else if \<not> c_writeConcernMajorityJournalDefault c then Some BadValue
         else StatusOK)
      else failIf (sp_configsvr sp) BadValue)"

definition ReplSetConfig_validate :: "ServerParams \<Rightarrow> ReplSetConfig \<Rightarrow> Status" where
  "ReplSetConfig_validate sp c =
     (let ms = c_members c in
      andThen (failIf (c_version c \<le> 0 \<or> c_version c > int_max) BadValue)
      (andThen (failIf (c_replSetName c = []) BadValue)
      (andThen (failIf (c_heartbeatInterval c < 0) BadValue)
      (andThen (failIf (length ms > kMaxMembers \<or> ms = []) BadValue)
      (andThen (membersCheck 0 ms ms)
      (andThen (localhostCheck ms)
      (andThen (voterCheck ms)
      (andThen (electableCheck ms)
      (andThen (writeConcernCheck c)
      (andThen (failIf (c_protocolVersion c \<noteq> 0 \<and> c_protocolVersion c \<noteq> 1) BadValue)
      (andThen (configServerCheck sp c)
               (failIf (c_connectionString c = None) BadValue))))))))))))"

subsubsection \<open>Write concerns and takeover delay\<close>

text \<open>The matcher is fed every tag of every member until it says yes.\<close>

fun anyTagSatisfies :: "ReplSetTag list \<Rightarrow> TagMatch \<Rightarrow> bool" where
  "anyTagSatisfies [] m = False"
| "anyTagSatisfies (t # ts) m = (let (ok, m') = matchUpdate t m in ok \<or> anyTagSatisfies ts m')"

fun enoughDataNodes :: "int \<Rightarrow> MemberConfig list \<Rightarrow> bool" where
  "enoughDataNodes n [] = False"
| "enoughDataNodes n (m # ms) =
     (if \<not> isArbiter m then (n - 1 \<le> 0 \<or> enoughDataNodes (n - 1) ms) else enoughDataNodes n ms)"

definition checkIfWriteConcernCanBeSatisfied :: "ReplSetConfig \<Rightarrow> WriteConcern \<Rightarrow> Status" where
  "checkIfWriteConcernCanBeSatisfied c w =
     (if wMode w \<noteq> [] \<and> wMode w \<noteq> kMajority then
        (case findCustomWriteMode c (wMode w) of
           Inl e \<Rightarrow> Some e
         | Inr p \<Rightarrow> failIf (\<not> anyTagSatisfies (concat (map mc_tags (c_members c))) (newTagMatch p))
                      CannotSatisfyWriteConcern)
      else failIf (\<not> enoughDataNodes (wNumNodes w) (c_members c)) CannotSatisfyWriteConcern)"

definition calculatePriorityRank :: "ReplSetConfig \<Rightarrow> Double \<Rightarrow> int" where
  "calculatePriorityRank c p = int (count_if (\<lambda>m. d_less p (mc_priority m)) (c_members c))"

definition getPriorityTakeoverDelay :: "ReplSetConfig \<Rightarrow> int \<Rightarrow> Millis option" where
  "getPriorityTakeoverDelay c i =
     do { m \<leftarrow> getMemberAt c i;
          Some ((calculatePriorityRank c (mc_priority m) + 1) * c_electionTimeoutPeriod c) }"

definition isLocalHostAllowed :: "ReplSetConfig \<Rightarrow> bool option" where
  "isLocalHostAllowed c = do { m \<leftarrow> getMemberAt c 0; Some (isLocalHost (mc_host m)) }"

definition getHeartbeatTimeoutPeriodMillis :: "ReplSetConfig \<Rightarrow> Millis" where
  "getHeartbeatTimeoutPeriodMillis c = c_heartbeatTimeoutPeriod c * 1000"

end
