(* ===== verification/ConfigChecks.thy ===== *)
theory ConfigChecks
  imports ReplSetConfig
begin

text \<open>
  The checks on a new configuration (\<open>repl_set_config_checks.cpp\<close>) and what validation
  establishes. Whether an address is this node (\<open>externalState->isSelf\<close>) is asked of the
  network and is a parameter of the definitions.
\<close>

subsection \<open>Definitions\<close>

definition findSelfInConfig :: "(HostAndPort \<Rightarrow> bool) \<Rightarrow> ReplSetConfig \<Rightarrow> int StatusWith" where
  "findSelfInConfig isSelf c =
     (let me = filter (\<lambda>i. isSelf (mc_host (c_members c ! i))) [0..<length (c_members c)] in
      if me = [] then Inl NodeNotFound
      else if length me > 1 then Inl DuplicateKey
      else Inr (int (hd me)))"

definition checkElectable :: "ReplSetConfig \<Rightarrow> int \<Rightarrow> Status option" where
  "checkElectable c i = do { m \<leftarrow> getMemberAt c i; Some (failIf (\<not> isElectable m) NodeNotElectable) }"

definition findSelfInConfigIfElectable :: "(HostAndPort \<Rightarrow> bool) \<Rightarrow> ReplSetConfig \<Rightarrow> int StatusWith option" where
  "findSelfInConfigIfElectable isSelf c =
     (case findSelfInConfig isSelf c of
        Inl e \<Rightarrow> Some (Inl e)
      | Inr i \<Rightarrow> do { st \<leftarrow> checkElectable c i;
                      Some (case st of Some e \<Rightarrow> Inl e | None \<Rightarrow> Inr i) })"

text \<open>One pair of members of the two configurations.\<close>

definition memberCompatible :: "MemberConfig \<Rightarrow> MemberConfig \<Rightarrow> Status" where
  "memberCompatible mNew mOld =
     (let idsEqual = (mc_id mOld = mc_id mNew); hostsEqual = hp_eq (mc_host mOld) (mc_host mNew) in
      if \<not> idsEqual \<and> \<not> hostsEqual then StatusOK
      else if hostsEqual \<and> \<not> idsEqual then Some NewReplicaSetConfigurationIncompatible
      else if mc_buildIndexes mOld \<noteq> mc_buildIndexes mNew then Some NewReplicaSetConfigurationIncompatible
      else if isArbiter mOld \<noteq> isArbiter mNew then Some NewReplicaSetConfigurationIncompatible
      else StatusOK)"

fun firstError :: "Status list \<Rightarrow> Status" where
  "firstError [] = StatusOK"
| "firstError (s # ss) = andThen s (firstError ss)"

definition validateOldAndNewConfigsCompatible :: "ReplSetConfig \<Rightarrow> ReplSetConfig \<Rightarrow> Status option" where
  "validateOldAndNewConfigsCompatible old new =
     do { ensure (c_isInitialized new); ensure (c_isInitialized old);
          Some (if c_version old \<ge> c_version new then Some NewReplicaSetConfigurationIncompatible
                else if c_replSetName old \<noteq> c_replSetName new then Some NewReplicaSetConfigurationIncompatible
                else if c_replicaSetId old \<noteq> c_replicaSetId new then Some NewReplicaSetConfigurationIncompatible
                else if c_configServer old \<and> \<not> c_configServer new then Some NewReplicaSetConfigurationIncompatible
                else firstError [memberCompatible mNew mOld. mNew \<leftarrow> c_members new, mOld \<leftarrow> c_members old]) }"

definition validateConfigForStartUp ::
  "ServerParams \<Rightarrow> (HostAndPort \<Rightarrow> bool) \<Rightarrow> ReplSetConfig \<Rightarrow> ReplSetConfig \<Rightarrow> int StatusWith option" where
  "validateConfigForStartUp sp isSelf old new =
     (case ReplSetConfig_validate sp new of
        Some e \<Rightarrow> Some (Inl e)
      | None \<Rightarrow>
          do { st \<leftarrow> (if c_isInitialized old then validateOldAndNewConfigsCompatible old new else Some StatusOK);
               Some (case st of Some e \<Rightarrow> Inl e | None \<Rightarrow> findSelfInConfig isSelf new) })"

definition validateConfigForInitiate ::
  "ServerParams \<Rightarrow> (HostAndPort \<Rightarrow> bool) \<Rightarrow> ReplSetConfig \<Rightarrow> int StatusWith option" where
  "validateConfigForInitiate sp isSelf new =
     (case ReplSetConfig_validate sp new of
        Some e \<Rightarrow> Some (Inl e)
      | None \<Rightarrow> if c_version new \<noteq> 1 then Some (Inl NewReplicaSetConfigurationIncompatible)
                else findSelfInConfigIfElectable isSelf new)"

definition validateConfigForReconfig ::
  "ServerParams \<Rightarrow> (HostAndPort \<Rightarrow> bool) \<Rightarrow> ReplSetConfig \<Rightarrow> ReplSetConfig \<Rightarrow> bool \<Rightarrow> int StatusWith option" where
  "validateConfigForReconfig sp isSelf old new force =
     (case ReplSetConfig_validate sp new of
        Some e \<Rightarrow> Some (Inl e)
      | None \<Rightarrow>
          do { st \<leftarrow> validateOldAndNewConfigsCompatible old new;
               (case st of
                  Some e \<Rightarrow> Some (Inl e)
                | None \<Rightarrow> if force then Some (findSelfInConfig isSelf new)
                          else findSelfInConfigIfElectable isSelf new) })"

definition validateConfigForHeartbeatReconfig ::
  "ServerParams \<Rightarrow> (HostAndPort \<Rightarrow> bool) \<Rightarrow> ReplSetConfig \<Rightarrow> int StatusWith" where
  "validateConfigForHeartbeatReconfig sp isSelf new =
     (case ReplSetConfig_validate sp new of Some e \<Rightarrow> Inl e | None \<Rightarrow> findSelfInConfig isSelf new)"

subsection \<open>What validation establishes\<close>

lemma firstError_OK [simp]: "firstError ss = None \<longleftrightarrow> (\<forall>s\<in>set ss. s = None)"
  by (induction ss) auto

lemma membersCheck_OK:
  "membersCheck i ms all = None \<longleftrightarrow>
     (\<forall>k<length ms. MemberConfig_validate (ms ! k) = None \<and> memberPairCheck (i + k) (ms ! k) all = None)"
proof (induction ms arbitrary: i)
  case (Cons m ms)
  have "(\<forall>k<Suc (length ms). Q k) \<longleftrightarrow> Q 0 \<and> (\<forall>k<length ms. Q (Suc k))" for Q
    by (metis Suc_less_eq less_Suc_eq_0_disj)
  then show ?case by (simp add: Cons.IH)
qed simp

definition valid_members :: "MemberConfig list \<Rightarrow> bool" where
  "valid_members ms \<longleftrightarrow>
     ms \<noteq> [] \<and> length ms \<le> 50 \<and>
     (\<forall>m\<in>set ms. MemberConfig_validate m = None) \<and>
     (\<forall>i<length ms. \<forall>j<length ms. i \<noteq> j \<longrightarrow>
        mc_id (ms ! i) \<noteq> mc_id (ms ! j) \<and> \<not> hp_eq (mc_host (ms ! i)) (mc_host (ms ! j))) \<and>
     0 < count_if isVoter ms \<and> count_if isVoter ms \<le> 7 \<and> (\<exists>m\<in>set ms. isElectable m)"

lemma validate_members:
  assumes "ReplSetConfig_validate sp c = None"
  shows "valid_members (c_members c)"
proof -
  let ?ms = "c_members c"
  have v: "membersCheck 0 ?ms ?ms = None" "voterCheck ?ms = None" "electableCheck ?ms = None"
     "length ?ms \<le> kMaxMembers" "?ms \<noteq> []"
    using assms by (auto simp: ReplSetConfig_validate_def)
  have "\<exists>m\<in>set ?ms. isElectable m"
    using v(3) by (auto simp: electableCheck_def count_if_zero isElectable_def)
  moreover have "0 < count_if isVoter ?ms" "count_if isVoter ?ms \<le> 7"
    using v(2) by (auto simp: voterCheck_def kMaxVotingMembers_def)
  moreover have "\<forall>m\<in>set ?ms. MemberConfig_validate m = None"
    using v(1) unfolding membersCheck_OK by (metis in_set_conv_nth)
  moreover have "mc_id (?ms ! i) \<noteq> mc_id (?ms ! j) \<and> \<not> hp_eq (mc_host (?ms ! i)) (mc_host (?ms ! j))"
    if "i < length ?ms" "j < length ?ms" "i \<noteq> j" for i j
  proof -
    have "memberPairCheck i (?ms ! i) ?ms = None" using v(1) that(1) unfolding membersCheck_OK by simp
    then show ?thesis using that by (auto simp: memberPairCheck_def list_ex_iff)
  qed
  ultimately show ?thesis using v(4,5) by (auto simp: valid_members_def kMaxMembers_def)
qed

text \<open>An electable member of a valid configuration votes, is not delayed and builds indexes.\<close>

lemma validate_electable:
  assumes "MemberConfig_validate m = None" "isElectable m"
  shows "isVoter m" "mc_slaveDelay m = 0" "\<not> mc_hidden m" "mc_buildIndexes m" "\<not> isArbiter m"
proof -
  have "\<not> d_eq (mc_priority m) (Num 0)" "\<not> isArbiter m"
    using assms(2) by (auto simp: isElectable_def d_eq_def)
  then show "isVoter m" "mc_slaveDelay m = 0" "\<not> mc_hidden m" "mc_buildIndexes m" "\<not> isArbiter m"
    using assms(1) by (auto simp: MemberConfig_validate_def isVoter_def split: if_splits)
qed

lemma validate_arbiter: "MemberConfig_validate m = None \<Longrightarrow> isArbiter m \<Longrightarrow> isVoter m"
  by (auto simp: MemberConfig_validate_def isArbiter_def split: if_splits)

lemma count_if_diff:
  assumes "\<And>x. x \<in> set xs \<Longrightarrow> Q x \<Longrightarrow> P x"
  shows "count_if P xs = count_if (\<lambda>x. P x \<and> \<not> Q x) xs + count_if Q xs"
  using assms by (induction xs) auto

text \<open>
  C17: majorities. In a configuration that passes validation, the number of votes that elects a primary is more
  than half of the voting members and at most all of them; the number of nodes that makes a
  write majority-committed is at least one and never more than the data-bearing voting members,
  so a majority write can always be acknowledged.
\<close>

theorem majorities_sound:
  assumes "ReplSetConfig_validate sp c = None"
  defines "c' \<equiv> calculateMajorities c"
  shows "c_totalVotingMembers c' < 2 * c_majorityVoteCount c' \<and>
     c_majorityVoteCount c' \<le> c_totalVotingMembers c' \<and>
     1 \<le> c_writeMajority c' \<and> c_writeMajority c' \<le> c_majorityVoteCount c' \<and>
     c_writeMajority c' \<le> int (count_if (\<lambda>m. isVoter m \<and> \<not> isArbiter m) (c_members c))"
proof -
  let ?ms = "c_members c"
  have v: "valid_members ?ms" by (rule validate_members [OF assms(1)])
  have "count_if isVoter ?ms = count_if (\<lambda>m. isVoter m \<and> \<not> isArbiter m) ?ms + count_if isArbiter ?ms"
    using v validate_arbiter by (intro count_if_diff) (auto simp: valid_members_def)
  moreover have "0 < count_if (\<lambda>m. isVoter m \<and> \<not> isArbiter m) ?ms"
    using v validate_electable unfolding valid_members_def count_if_pos by blast
  moreover have "0 < count_if isVoter ?ms" using v by (simp add: valid_members_def)
  ultimately show ?thesis by (auto simp: c'_def calculateMajorities_def)
qed

definition demo_member :: "int \<Rightarrow> int \<Rightarrow> MemberConfig" where
  "demo_member i p = \<lparr>mc_id = i, mc_host = \<lparr>hp_host = ''db.example.net'', hp_port = p\<rparr>, mc_priority = Num 1,
     mc_votes = 1, mc_arbiterOnly = False, mc_slaveDelay = 0, mc_hidden = False, mc_buildIndexes = True, mc_tags = []\<rparr>"

definition demo_config :: ReplSetConfig where
  "demo_config = ReplSetConfig_default\<lparr>c_isInitialized := True, c_replSetName := ''rs0'',
     c_members := [demo_member 0 27017, demo_member 1 27018, demo_member 2 27019],
     c_defaultWriteConcern := \<lparr>wMode = [], wNumNodes = 1\<rparr>, c_protocolVersion := 1,
     c_totalVotingMembers := 3, c_majorityVoteCount := 2, c_writeMajority := 2,
     c_connectionString := Some (''rs0'', [])\<rparr>"

definition demo_params :: ServerParams where
  "demo_params = \<lparr>sp_configsvr = False, sp_skipShardingConfigurationChecks = False\<rparr>"

lemma demo_config_valid: "ReplSetConfig_validate demo_params demo_config = None"
  by code_simp

theorem majorities_sound_witness:
  "c_majorityVoteCount (calculateMajorities demo_config) \<le> c_totalVotingMembers (calculateMajorities demo_config) \<and>
   1 \<le> c_writeMajority (calculateMajorities demo_config)"
  using majorities_sound [OF demo_config_valid] by simp

subsection \<open>Reconfiguration\<close>

lemma findSelfInConfig_Inr:
  assumes "findSelfInConfig isSelf c = Inr i"
  shows "0 \<le> i" "i < getNumMembers c" "isSelf (mc_host (c_members c ! nat i))"
    "\<And>j. j < length (c_members c) \<Longrightarrow> isSelf (mc_host (c_members c ! j)) \<Longrightarrow> j = nat i"
proof -
  let ?me = "filter (\<lambda>i. isSelf (mc_host (c_members c ! i))) [0..<length (c_members c)]"
  have ne: "?me \<noteq> []" and le: "\<not> length ?me > 1" and hd: "i = int (hd ?me)"
    using assms by (auto simp only: findSelfInConfig_def Let_def sum.inject sum.distinct split: if_splits)
  obtain x where x: "?me = [x]" using ne le by (cases ?me) auto
  have i: "i = int x" using hd unfolding x by simp
  have mem: "j = x \<longleftrightarrow> j < length (c_members c) \<and> isSelf (mc_host (c_members c ! j))" for j
    using arg_cong [OF x, of "\<lambda>l. j \<in> set l"] by auto
  show "0 \<le> i" "i < getNumMembers c" "isSelf (mc_host (c_members c ! nat i))"
    using mem [of x] i by (simp_all add: getNumMembers_def)
  show "\<And>j. j < length (c_members c) \<Longrightarrow> isSelf (mc_host (c_members c ! j)) \<Longrightarrow> j = nat i"
    using mem i by (metis nat_int)
qed

lemma checkElectable_in_range:
  assumes "0 \<le> i" "i < getNumMembers c"
  shows "checkElectable c i = Some (failIf (\<not> isElectable (c_members c ! nat i)) NodeNotElectable)"
  using assms by (simp add: checkElectable_def getMemberAt_def nth_opt_def getNumMembers_def)

lemma findSelfInConfigIfElectable_total:
  "\<exists>r. findSelfInConfigIfElectable isSelf c = Some r \<and>
     (\<forall>i. r = Inr i \<longleftrightarrow> findSelfInConfig isSelf c = Inr i \<and> isElectable (c_members c ! nat i))"
proof (cases "findSelfInConfig isSelf c")
  case (Inr i)
  note f = findSelfInConfig_Inr [OF Inr]
  show ?thesis
    using Inr checkElectable_in_range [OF f(1,2)]
    by (cases "isElectable (c_members c ! nat i)") (auto simp: findSelfInConfigIfElectable_def)
qed (auto simp: findSelfInConfigIfElectable_def)

lemma memberCompatible_OK:
  "memberCompatible mNew mOld = None \<longleftrightarrow>
     (hp_eq (mc_host mOld) (mc_host mNew) \<longrightarrow> mc_id mOld = mc_id mNew) \<and>
     (mc_id mOld = mc_id mNew \<longrightarrow> mc_buildIndexes mOld = mc_buildIndexes mNew \<and> isArbiter mOld = isArbiter mNew)"
  by (auto simp: memberCompatible_def)

text \<open>
  C23: reconfiguration. When \<open>replSetReconfig\<close> accepts a configuration, its version is larger, it is the
  same set (name and id), it does not stop being a config server set, no host changes its member
  id, no member id changes its arbiter or index-building flag, and the accepting node is exactly
  one of its members, electable unless the reconfiguration is forced. The check itself never
  aborts on initialized configurations.
\<close>

theorem reconfig_accepts_successor:
  assumes "c_isInitialized old" "c_isInitialized new"
  shows "\<exists>r. validateConfigForReconfig sp isSelf old new force = Some r \<and>
    (\<forall>i. r = Inr i \<longrightarrow>
       valid_members (c_members new) \<and> c_version old < c_version new \<and> c_replSetName new = c_replSetName old \<and>
       c_replicaSetId new = c_replicaSetId old \<and> (c_configServer old \<longrightarrow> c_configServer new) \<and>
       (\<forall>m\<in>set (c_members new). \<forall>m'\<in>set (c_members old).
          (hp_eq (mc_host m') (mc_host m) \<longrightarrow> mc_id m' = mc_id m) \<and>
          (mc_id m' = mc_id m \<longrightarrow> mc_buildIndexes m' = mc_buildIndexes m \<and> isArbiter m' = isArbiter m)) \<and>
       findSelfInConfig isSelf new = Inr i \<and> (force \<or> isElectable (c_members new ! nat i)))"
proof (cases "ReplSetConfig_validate sp new")
  case None
  note vm = validate_members [OF None]
  let ?st = "if c_version old \<ge> c_version new then Some NewReplicaSetConfigurationIncompatible
                else if c_replSetName old \<noteq> c_replSetName new then Some NewReplicaSetConfigurationIncompatible
                else if c_replicaSetId old \<noteq> c_replicaSetId new then Some NewReplicaSetConfigurationIncompatible
                else if c_configServer old \<and> \<not> c_configServer new then Some NewReplicaSetConfigurationIncompatible
                else firstError [memberCompatible mNew mOld. mNew \<leftarrow> c_members new, mOld \<leftarrow> c_members old]"
  have v: "validateOldAndNewConfigsCompatible old new = Some ?st"
    using assms by (simp add: validateOldAndNewConfigsCompatible_def)
  show ?thesis
  proof (cases ?st)
    case st: None
    have compat: "c_version old < c_version new \<and> c_replSetName new = c_replSetName old \<and>
       c_replicaSetId new = c_replicaSetId old \<and> (c_configServer old \<longrightarrow> c_configServer new) \<and>
       (\<forall>m\<in>set (c_members new). \<forall>m'\<in>set (c_members old).
          (hp_eq (mc_host m') (mc_host m) \<longrightarrow> mc_id m' = mc_id m) \<and>
          (mc_id m' = mc_id m \<longrightarrow> mc_buildIndexes m' = mc_buildIndexes m \<and> isArbiter m' = isArbiter m))"
    proof -
      have "\<forall>m\<in>set (c_members new). \<forall>m'\<in>set (c_members old). memberCompatible m m' = None"
        using st by (auto split: if_splits)
      then have "\<forall>m\<in>set (c_members new). \<forall>m'\<in>set (c_members old).
          (hp_eq (mc_host m') (mc_host m) \<longrightarrow> mc_id m' = mc_id m) \<and>
          (mc_id m' = mc_id m \<longrightarrow> mc_buildIndexes m' = mc_buildIndexes m \<and> isArbiter m' = isArbiter m)"
        unfolding memberCompatible_OK .
      then show ?thesis using st by (simp split: if_splits)
    qed
    have eq: "validateConfigForReconfig sp isSelf old new force =
        (if force then Some (findSelfInConfig isSelf new) else findSelfInConfigIfElectable isSelf new)"
      using None v st by (simp add: validateConfigForReconfig_def)
    show ?thesis
      unfolding eq using vm compat findSelfInConfigIfElectable_total [of isSelf new] by auto
  next
    case (Some e)
    then have "validateConfigForReconfig sp isSelf old new force = Some (Inl e)"
      using None v by (simp only: validateConfigForReconfig_def bind.simps option.case)
    then show ?thesis by simp
  qed
qed (simp add: validateConfigForReconfig_def)

theorem reconfig_accepts_successor_witness:
  "validateConfigForReconfig demo_params (\<lambda>h. hp_port h = 27018) demo_config (demo_config\<lparr>c_version := 2\<rparr>) False = Some (Inr 1) \<and>
   findSelfInConfig (\<lambda>h. hp_port h = 27018) (demo_config\<lparr>c_version := 2\<rparr>) = Inr 1"
proof -
  let ?new = "demo_config\<lparr>c_version := 2\<rparr>" and ?self = "\<lambda>h. hp_port h = 27018"
  have i: "c_isInitialized demo_config" "c_isInitialized ?new" by (simp_all add: demo_config_def)
  have r: "validateConfigForReconfig demo_params ?self demo_config ?new False = Some (Inr 1)" by code_simp
  show ?thesis using reconfig_accepts_successor [OF i, of demo_params ?self False] r by auto
qed

text \<open>A configuration in which one member has moved to another host and kept its id.\<close>

definition moved :: "ReplSetConfig \<Rightarrow> nat \<Rightarrow> HostAndPort \<Rightarrow> int \<Rightarrow> ReplSetConfig" where
  "moved c k h v = c\<lparr>c_version := v, c_members := (c_members c)[k := (c_members c ! k)\<lparr>mc_host := h\<rparr>]\<rparr>"

lemma moved_compatible:
  assumes "ReplSetConfig_validate sp c = None" "k < length (c_members c)" "\<forall>m\<in>set (c_members c). \<not> hp_eq (mc_host m) h"
    and "m \<in> set (c_members (moved c k h v))" "m' \<in> set (c_members c)"
  shows "memberCompatible m m' = None"
proof -
  let ?ms = "c_members c"
  have ids: "mc_id (?ms ! a) \<noteq> mc_id (?ms ! b) \<and> \<not> hp_eq (mc_host (?ms ! b)) (mc_host (?ms ! a))"
    if "a < length ?ms" "b < length ?ms" "a \<noteq> b" for a b
    using validate_members [OF assms(1)] that by (simp add: valid_members_def)
  obtain a where a: "a < length ?ms" "m = ?ms[k := (?ms ! k)\<lparr>mc_host := h\<rparr>] ! a"
    using assms(4) by (auto simp: moved_def in_set_conv_nth)
  obtain b where b: "b < length ?ms" "m' = ?ms ! b" using assms(5) by (auto simp: in_set_conv_nth)
  have h: "\<not> hp_eq (mc_host m') h" using assms(3,5) by blast
  have "mc_id m = mc_id (?ms ! a) \<and> mc_buildIndexes m = mc_buildIndexes (?ms ! a) \<and> isArbiter m = isArbiter (?ms ! a) \<and>
      (mc_host m = h \<or> mc_host m = mc_host (?ms ! a))"
    using a by (cases "a = k") (simp_all add: isArbiter_def)
  then show ?thesis using ids [OF a(1) b(1)] b(2) h by (cases "a = b") (auto simp: memberCompatible_OK)
qed

text \<open>
  C37: a member id may move to another host. The comment in \<open>validateOldAndNewConfigsCompatible\<close> says that
  past the host check the ids and the hosts of the two members are equal; the code accepts every valid new
  configuration that differs from a valid old one in its version and in the host of one member, which no member had
  before, as long as the node finds itself in it, electable or forced.
\<close>

theorem reconfig_host_may_change:
  assumes "c_isInitialized old" "ReplSetConfig_validate sp old = None" "k < length (c_members old)" "c_version old < v"
    and "\<forall>m\<in>set (c_members old). \<not> hp_eq (mc_host m) h"
    and "ReplSetConfig_validate sp (moved old k h v) = None" "findSelfInConfig isSelf (moved old k h v) = Inr i"
    and "force \<or> isElectable (c_members (moved old k h v) ! nat i)"
  shows "validateConfigForReconfig sp isSelf old (moved old k h v) force = Some (Inr i) \<and>
    mc_id (c_members (moved old k h v) ! k) = mc_id (c_members old ! k) \<and>
    \<not> hp_eq (mc_host (c_members old ! k)) (mc_host (c_members (moved old k h v) ! k))"
proof -
  have "validateOldAndNewConfigsCompatible old (moved old k h v) = Some StatusOK"
    using assms(1,4) moved_compatible [OF assms(2,3,5), of _ v]
    by (auto simp: validateOldAndNewConfigsCompatible_def moved_def)
  then show ?thesis
    using assms(3,5-8) findSelfInConfigIfElectable_total [of isSelf "moved old k h v"]
    by (auto simp: validateConfigForReconfig_def) (simp_all add: moved_def)
qed

theorem reconfig_host_may_change_witness:
  "validateConfigForReconfig demo_params (\<lambda>h. hp_port h = 27017) demo_config
     (moved demo_config 2 \<lparr>hp_host = ''new.example.net'', hp_port = 30000\<rparr> 2) False = Some (Inr 0)"
proof -
  let ?h = "\<lparr>hp_host = ''new.example.net'', hp_port = 30000\<rparr>" and ?s = "\<lambda>h. hp_port h = (27017 :: int)"
  have c: "c_isInitialized demo_config" "2 < length (c_members demo_config)" "c_version demo_config < 2"
    "ReplSetConfig_validate demo_params (moved demo_config 2 ?h 2) = None" "isElectable (c_members (moved demo_config 2 ?h 2) ! nat 0)"
    by code_simp+
  have h: "\<forall>m\<in>set (c_members demo_config). \<not> hp_eq (mc_host m) ?h" "findSelfInConfig ?s (moved demo_config 2 ?h 2) = Inr 0" by code_simp+
  from reconfig_host_may_change [OF c(1) demo_config_valid c(2,3) h(1) c(4) h(2), of False] c(5) show ?thesis by simp
qed

subsection \<open>Write concerns\<close>

lemma enoughDataNodes_iff:
  "enoughDataNodes n ms \<longleftrightarrow> max 1 n \<le> int (count_if (\<lambda>m. \<not> isArbiter m) ms)"
  by (induction n ms rule: enoughDataNodes.induct) auto

lemma values_of_mono: "set ts \<subseteq> set us \<Longrightarrow> card (values_of k ts) \<le> card (values_of k us)"
  unfolding values_of_def by (intro card_mono) auto

lemma anyTagSatisfies_alt:
  "anyTagSatisfies ts m \<longleftrightarrow> (\<exists>k<length ts. matchSatisfied (matchAll (take (Suc k) ts) m))"
proof (induction ts arbitrary: m)
  case (Cons t ts)
  have "(\<exists>k<Suc (length ts). Q k) \<longleftrightarrow> Q 0 \<or> (\<exists>k<length ts. Q (Suc k))" for Q
    by (metis Suc_less_eq less_Suc_eq_0_disj)
  then show ?case by (simp add: Cons.IH matchUpdate_def)
qed simp

lemma anyTagSatisfies_iff:
  assumes "distinct (map fst p)"
  shows "anyTagSatisfies ts (newTagMatch p) \<longleftrightarrow>
    ts \<noteq> [] \<and> (\<forall>(k, n)\<in>set p. n \<le> int (card (values_of k ts)))"
proof
  assume "anyTagSatisfies ts (newTagMatch p)"
  then obtain k where k: "k < length ts" "matchSatisfied (matchAll (take (Suc k) ts) (newTagMatch p))"
    by (auto simp: anyTagSatisfies_alt)
  have "n \<le> int (card (values_of k' ts))" if "(k', n) \<in> set p" for k' n
  proof -
    have "card (values_of k' (take (Suc k) ts)) \<le> card (values_of k' ts)"
      by (rule values_of_mono) (rule set_take_subset)
    moreover have "n \<le> int (card (values_of k' (take (Suc k) ts)))"
      using k(2) that unfolding match_decides [OF assms] by blast
    ultimately show ?thesis by linarith
  qed
  then show "ts \<noteq> [] \<and> (\<forall>(k, n)\<in>set p. n \<le> int (card (values_of k ts)))" using k(1) by auto
next
  assume a: "ts \<noteq> [] \<and> (\<forall>(k, n)\<in>set p. n \<le> int (card (values_of k ts)))"
  then have "matchSatisfied (matchAll (take (Suc (length ts - 1)) ts) (newTagMatch p))"
    by (simp add: match_decides [OF assms])
  then show "anyTagSatisfies ts (newTagMatch p)"
    using a unfolding anyTagSatisfies_alt by (metis diff_less length_greater_0_conv zero_less_one)
qed

text \<open>
  C34: satisfiability of write concerns. A numeric or majority write concern is accepted exactly if that many
  data-bearing members exist (at least one); a custom mode is accepted exactly if the tags of
  all members together reach every minimum count of its pattern.
\<close>

theorem write_concern_satisfiable:
  assumes "\<And>p. findCustomWriteMode c (wMode w) = Inr p \<Longrightarrow> distinct (map fst p)"
  shows "checkIfWriteConcernCanBeSatisfied c w = StatusOK \<longleftrightarrow>
    (if wMode w \<noteq> [] \<and> wMode w \<noteq> kMajority
     then \<exists>p. findCustomWriteMode c (wMode w) = Inr p \<and> concat (map mc_tags (c_members c)) \<noteq> [] \<and>
            (\<forall>(k, n)\<in>set p. n \<le> int (card (values_of k (concat (map mc_tags (c_members c))))))
     else max 1 (wNumNodes w) \<le> int (count_if (\<lambda>m. \<not> isArbiter m) (c_members c)))"
proof (cases "wMode w \<noteq> [] \<and> wMode w \<noteq> kMajority")
  case True
  then show ?thesis
    using assms anyTagSatisfies_iff
    by (cases "findCustomWriteMode c (wMode w)") (auto simp: checkIfWriteConcernCanBeSatisfied_def)
next
  case False
  then show ?thesis by (auto simp: checkIfWriteConcernCanBeSatisfied_def enoughDataNodes_iff)
qed

text \<open>Members in two data centers: a mode for two of them can be satisfied, one for three can not.\<close>

definition demo_tagged_members :: ReplSetConfig where
  "demo_tagged_members = demo_config\<lparr>
     c_members := map (\<lambda>i. (demo_member i (27017 + i))\<lparr>mc_tags := [\<lparr>tag_keyIndex = 0, tag_valueIndex = min i 1\<rparr>]\<rparr>) [0, 1, 2],
     c_customWriteConcernModes := [(''twoCenters'', [(0, 2)]), (''threeCenters'', [(0, 3)])]\<rparr>"

theorem write_concern_satisfiable_witness:
  "checkIfWriteConcernCanBeSatisfied demo_tagged_members \<lparr>wMode = ''twoCenters'', wNumNodes = 0\<rparr> = StatusOK \<and>
   checkIfWriteConcernCanBeSatisfied demo_tagged_members \<lparr>wMode = ''threeCenters'', wNumNodes = 0\<rparr> \<noteq> StatusOK"
proof -
  let ?ts = "concat (map mc_tags (c_members demo_tagged_members))"
  have m: "findCustomWriteMode demo_tagged_members ''twoCenters'' = Inr [(0, 2)]"
    "findCustomWriteMode demo_tagged_members ''threeCenters'' = Inr [(0, 3)]" "kMajority = ''majority''" by code_simp+
  have t: "?ts = [\<lparr>tag_keyIndex = 0, tag_valueIndex = 0\<rparr>, \<lparr>tag_keyIndex = 0, tag_valueIndex = 1\<rparr>, \<lparr>tag_keyIndex = 0, tag_valueIndex = 1\<rparr>]"
    by code_simp
  have "values_of 0 ?ts = {0, 1}" unfolding t values_of_def by (force simp: image_iff)
  then have v: "card (values_of 0 ?ts) = 2" by simp
  have ne: "\<exists>m\<in>set (c_members demo_tagged_members). mc_tags m \<noteq> []" by code_simp
  show ?thesis
    using write_concern_satisfiable [of demo_tagged_members "\<lparr>wMode = ''twoCenters'', wNumNodes = 0\<rparr>"]
      write_concern_satisfiable [of demo_tagged_members "\<lparr>wMode = ''threeCenters'', wNumNodes = 0\<rparr>"]
    by (simp add: m v ne)
qed
subsection \<open>Priority takeover\<close>

text \<open>
  The member with the strictly higher priority waits less before a priority takeover, by at
  least one election timeout.
\<close>

theorem takeover_delay_order:
  assumes "0 \<le> i" "i < getNumMembers c" "0 \<le> j" "j < getNumMembers c" "0 \<le> c_electionTimeoutPeriod c"
    and "d_less (mc_priority (c_members c ! nat i)) (mc_priority (c_members c ! nat j))"
  shows "\<exists>di dj. getPriorityTakeoverDelay c i = Some di \<and> getPriorityTakeoverDelay c j = Some dj \<and>
     dj + c_electionTimeoutPeriod c \<le> di"
proof -
  let ?p = "mc_priority (c_members c ! nat i)" and ?q = "mc_priority (c_members c ! nat j)"
  have nj: "nat j < length (c_members c)" using assms(3,4) by (auto simp: getNumMembers_def)
  have mono: "count_if (\<lambda>m. d_less ?q (mc_priority m)) ms \<le> count_if (\<lambda>m. d_less ?p (mc_priority m)) ms" for ms
    using d_less_trans [OF assms(6)] by (induction ms) auto
  have count_split: "count_if Q (c_members c) = count_if Q (take (nat j) (c_members c)) +
     (if Q (c_members c ! nat j) then 1 else 0) + count_if Q (drop (Suc (nat j)) (c_members c))" for Q
    using arg_cong [OF id_take_nth_drop [OF nj], of "count_if Q"] by (simp only: count_if_simps) auto
  have "count_if (\<lambda>m. d_less ?p (mc_priority m)) (c_members c) =
     count_if (\<lambda>m. d_less ?p (mc_priority m)) (take (nat j) (c_members c)) + 1 +
     count_if (\<lambda>m. d_less ?p (mc_priority m)) (drop (Suc (nat j)) (c_members c))"
    "count_if (\<lambda>m. d_less ?q (mc_priority m)) (c_members c) =
     count_if (\<lambda>m. d_less ?q (mc_priority m)) (take (nat j) (c_members c)) +
     count_if (\<lambda>m. d_less ?q (mc_priority m)) (drop (Suc (nat j)) (c_members c))"
    using assms(6) count_split by auto
  then have r: "calculatePriorityRank c ?q + 1 \<le> calculatePriorityRank c ?p"
    using mono [of "take (nat j) (c_members c)"] mono [of "drop (Suc (nat j)) (c_members c)"]
    unfolding calculatePriorityRank_def by linarith
  then have "(calculatePriorityRank c ?q + 1 + 1) * c_electionTimeoutPeriod c \<le> (calculatePriorityRank c ?p + 1) * c_electionTimeoutPeriod c"
    using assms(5) by (intro mult_right_mono) auto
  then show ?thesis
    using assms(1-4) by (auto simp: getPriorityTakeoverDelay_def getMemberAt_def nth_opt_def getNumMembers_def distrib_right)
qed

theorem takeover_delay_order_witness:
  "\<exists>di dj. getPriorityTakeoverDelay (demo_config\<lparr>c_members := [demo_member 0 1, (demo_member 1 2)\<lparr>mc_priority := Num 5\<rparr>]\<rparr>) 0 = Some di \<and>
     getPriorityTakeoverDelay (demo_config\<lparr>c_members := [demo_member 0 1, (demo_member 1 2)\<lparr>mc_priority := Num 5\<rparr>]\<rparr>) 1 = Some dj \<and>
     dj + c_electionTimeoutPeriod (demo_config\<lparr>c_members := [demo_member 0 1, (demo_member 1 2)\<lparr>mc_priority := Num 5\<rparr>]\<rparr>) \<le> di"
  by (rule takeover_delay_order)
     (simp_all add: demo_config_def ReplSetConfig_default_def getNumMembers_def demo_member_def)

end
