(* ===== verification/HeartbeatData.thy ===== *)
theory HeartbeatData
  imports ConfigChecks
begin

text \<open>
  What a node knows about the other members: the latency statistics of its heartbeat requests
  (\<open>PingStats\<close>), the content of a heartbeat response (\<open>ReplSetHeartbeatResponse\<close>), the
  data kept per member (\<open>MemberHeartbeatData\<close>) and the action a processed response asks for
  (\<open>HeartbeatResponseAction\<close>). Dates are milliseconds since the epoch; \<open>Date_t()\<close> is 0.
\<close>

subsection \<open>Heartbeat latency\<close>

record PingStats =
  ps_count :: "32 word"
  ps_value :: Millis
  ps_lastHeartbeatStartDate :: Date
  ps_numFailuresSinceLastStart :: int

definition UninitializedPing :: Millis where "UninitializedPing = -1"

definition PingStats_default :: PingStats where
  "PingStats_default = \<lparr>ps_count = 0, ps_value = UninitializedPing, ps_lastHeartbeatStartDate = 0,
     ps_numFailuresSinceLastStart = int_max\<rparr>"

definition ps_start :: "Date \<Rightarrow> PingStats \<Rightarrow> PingStats" where
  "ps_start now p = p\<lparr>ps_lastHeartbeatStartDate := now, ps_numFailuresSinceLastStart := 0\<rparr>"

text \<open>Integer division of C++ rounds towards zero.\<close>

definition trunc_div :: "int \<Rightarrow> int \<Rightarrow> int" where
  "trunc_div a b = sgn a * sgn b * (\<bar>a\<bar> div \<bar>b\<bar>)"

definition ps_hit :: "Millis \<Rightarrow> PingStats \<Rightarrow> PingStats" where
  "ps_hit millis p = p\<lparr>ps_numFailuresSinceLastStart := int_max, ps_count := ps_count p + 1,
     ps_value := (if ps_value p = UninitializedPing then millis else trunc_div (ps_value p * 4 + millis) 5)\<rparr>"

text \<open>Incrementing the largest \<open>int\<close> is undefined behaviour and counts as an abort.\<close>

definition ps_miss :: "PingStats \<Rightarrow> PingStats option" where
  "ps_miss p = do { ensure (ps_numFailuresSinceLastStart p < int_max);
     Some (p\<lparr>ps_numFailuresSinceLastStart := ps_numFailuresSinceLastStart p + 1\<rparr>) }"

definition ps_getMillis :: "PingStats \<Rightarrow> Millis" where
  "ps_getMillis p = (if ps_value p = UninitializedPing then 0 else ps_value p)"

subsection \<open>Heartbeat responses\<close>

text \<open>A field with a "set" flag is an option.\<close>

record ReplSetHeartbeatResponse =
  r_electionTime :: "Timestamp option"
  r_time :: "int option"
  r_appliedOpTime :: "OpTime option"
  r_durableOpTime :: "OpTime option"
  r_electable :: "bool option"
  r_hasData :: bool
  r_mismatch :: bool
  r_isReplSet :: bool
  r_stateDisagreement :: bool
  r_state :: "MemberState option"
  r_configVersion :: int
  r_setName :: string
  r_hbmsg :: string
  r_syncingTo :: HostAndPort
  r_config :: "ReplSetConfig option"
  r_primaryId :: "int option"
  r_term :: Term

definition ReplSetHeartbeatResponse_default :: ReplSetHeartbeatResponse where
  "ReplSetHeartbeatResponse_default =
     \<lparr>r_electionTime = None, r_time = None, r_appliedOpTime = None, r_durableOpTime = None,
      r_electable = None, r_hasData = False, r_mismatch = False, r_isReplSet = False,
      r_stateDisagreement = False, r_state = None, r_configVersion = -1, r_setName = [], r_hbmsg = [],
      r_syncingTo = HostAndPort_empty, r_config = None, r_primaryId = None, r_term = -1\<rparr>"

subsection \<open>Data per member\<close>

text \<open>
  The constructor and the three setters always leave the state, the election time and the applied
  optime of the stored response set, so these fields are total; the other fields of the stored
  response are those the accessors read.
\<close>

record MemberHeartbeatData =
  hb_health :: int
  hb_upSince :: Date
  hb_lastHeartbeat :: Date
  hb_lastHeartbeatRecv :: Date
  hb_authIssue :: bool
  hb_updatedSinceRestart :: bool
  hb_state :: MemberState
  hb_electionTime :: Timestamp
  hb_appliedOpTime :: OpTime
  hb_durableOpTime :: "OpTime option"
  hb_electable :: "bool option"
  hb_configVersion :: int
  hb_hbmsg :: string
  hb_syncSource :: HostAndPort
  hb_term :: Term

definition MemberHeartbeatData_default :: MemberHeartbeatData where
  "MemberHeartbeatData_default =
     \<lparr>hb_health = -1, hb_upSince = 0, hb_lastHeartbeat = 0, hb_lastHeartbeatRecv = 0, hb_authIssue = False,
      hb_updatedSinceRestart = False, hb_state = RS_UNKNOWN, hb_electionTime = Timestamp_null,
      hb_appliedOpTime = OpTime_default, hb_durableOpTime = None, hb_electable = None,
      hb_configVersion = -1, hb_hbmsg = [], hb_syncSource = HostAndPort_empty, hb_term = -1\<rparr>"

definition up :: "MemberHeartbeatData \<Rightarrow> bool" where
  "up h \<longleftrightarrow> hb_health h > 0"

definition maybeUp :: "MemberHeartbeatData \<Rightarrow> bool" where
  "maybeUp h \<longleftrightarrow> hb_health h \<noteq> 0"

definition isUnelectable :: "MemberHeartbeatData \<Rightarrow> bool" where
  "isUnelectable h \<longleftrightarrow> hb_electable h = Some False"

definition getDurableOpTime :: "MemberHeartbeatData \<Rightarrow> OpTime" where
  "getDurableOpTime h = (case hb_durableOpTime h of Some t \<Rightarrow> t | None \<Rightarrow> OpTime_default)"

definition setUpValues :: "Date \<Rightarrow> ReplSetHeartbeatResponse \<Rightarrow> MemberHeartbeatData \<Rightarrow> MemberHeartbeatData" where
  "setUpValues now r h =
     \<lparr>hb_health = 1, hb_upSince = (if hb_upSince h = 0 then now else hb_upSince h), hb_lastHeartbeat = now,
      hb_lastHeartbeatRecv = hb_lastHeartbeatRecv h, hb_authIssue = False, hb_updatedSinceRestart = True,
      hb_state = (case r_state r of None \<Rightarrow> RS_UNKNOWN | Some s \<Rightarrow> s),
      hb_electionTime = (case r_electionTime r of None \<Rightarrow> hb_electionTime h | Some t \<Rightarrow> t),
      hb_appliedOpTime = (case r_appliedOpTime r of None \<Rightarrow> hb_appliedOpTime h | Some t \<Rightarrow> t),
      hb_durableOpTime = r_durableOpTime r, hb_electable = r_electable r,
      hb_configVersion = r_configVersion r, hb_hbmsg = r_hbmsg r, hb_syncSource = r_syncingTo r,
      hb_term = r_term r\<rparr>"

text \<open>The fresh response that replaces the stored one when a member cannot be reached.\<close>

definition resetResponse :: "MemberState \<Rightarrow> string \<Rightarrow> MemberHeartbeatData \<Rightarrow> MemberHeartbeatData" where
  "resetResponse s msg h = h\<lparr>hb_state := s, hb_electionTime := Timestamp_null, hb_appliedOpTime := OpTime_default,
     hb_durableOpTime := None, hb_electable := None, hb_configVersion := -1, hb_hbmsg := msg,
     hb_syncSource := HostAndPort_empty, hb_term := -1\<rparr>"

definition setDownValues :: "Date \<Rightarrow> string \<Rightarrow> MemberHeartbeatData \<Rightarrow> MemberHeartbeatData" where
  "setDownValues now msg h = resetResponse RS_DOWN msg
     (h\<lparr>hb_health := 0, hb_upSince := 0, hb_lastHeartbeat := now, hb_authIssue := False, hb_updatedSinceRestart := True\<rparr>)"

definition setAuthIssue :: "Date \<Rightarrow> MemberHeartbeatData \<Rightarrow> MemberHeartbeatData" where
  "setAuthIssue now h = resetResponse RS_UNKNOWN []
     (h\<lparr>hb_health := 0, hb_upSince := 0, hb_lastHeartbeat := now, hb_authIssue := True, hb_updatedSinceRestart := True\<rparr>)"

definition hb_restart :: "MemberHeartbeatData \<Rightarrow> MemberHeartbeatData" where
  "hb_restart h = h\<lparr>hb_updatedSinceRestart := False\<rparr>"

text \<open>The member reports itself as a primary in a heartbeat that succeeded.\<close>

definition seenPrimary :: "MemberHeartbeatData \<Rightarrow> bool" where
  "seenPrimary h \<longleftrightarrow> hb_state h = RS_PRIMARY \<and> up h"

lemma setDownValues_simps [simp]:
  "up (setDownValues now msg h) = False" "hb_state (setDownValues now msg h) = RS_DOWN"
  "seenPrimary (setDownValues now msg h) = False" "hb_authIssue (setDownValues now msg h) = False"
  by (simp_all add: setDownValues_def resetResponse_def up_def seenPrimary_def)

lemma setAuthIssue_simps [simp]:
  "up (setAuthIssue now h) = False" "hb_state (setAuthIssue now h) = RS_UNKNOWN"
  "seenPrimary (setAuthIssue now h) = False" "hb_authIssue (setAuthIssue now h) = True"
  by (simp_all add: setAuthIssue_def resetResponse_def up_def seenPrimary_def)

lemma setUpValues_simps [simp]:
  "up (setUpValues now r h)" "hb_authIssue (setUpValues now r h) = False"
  "hb_term (setUpValues now r h) = r_term r"
  by (simp_all add: setUpValues_def up_def)

lemma seenPrimary_default [simp]: "\<not> seenPrimary MemberHeartbeatData_default" "\<not> up MemberHeartbeatData_default"
  by (simp_all add: seenPrimary_def up_def MemberHeartbeatData_default_def)

subsection \<open>Actions\<close>

datatype Action = NoAction | Reconfig | StartElection | StepDownSelf | StepDownRemotePrimary | PriorityTakeover

record HeartbeatResponseAction =
  a_action :: Action
  a_primaryIndex :: int
  a_nextHeartbeatStartDate :: Date

definition makeNoAction :: HeartbeatResponseAction where
  "makeNoAction = \<lparr>a_action = NoAction, a_primaryIndex = -1, a_nextHeartbeatStartDate = 0\<rparr>"

definition makeReconfigAction :: HeartbeatResponseAction where
  "makeReconfigAction = makeNoAction\<lparr>a_action := Reconfig\<rparr>"

definition makePriorityTakeoverAction :: HeartbeatResponseAction where
  "makePriorityTakeoverAction = makeNoAction\<lparr>a_action := PriorityTakeover\<rparr>"

definition makeElectAction :: HeartbeatResponseAction where
  "makeElectAction = makeNoAction\<lparr>a_action := StartElection\<rparr>"

definition makeStepDownSelfAction :: "int \<Rightarrow> HeartbeatResponseAction" where
  "makeStepDownSelfAction i = makeNoAction\<lparr>a_action := StepDownSelf, a_primaryIndex := i\<rparr>"

definition makeStepDownRemoteAction :: "int \<Rightarrow> HeartbeatResponseAction" where
  "makeStepDownRemoteAction i = makeNoAction\<lparr>a_action := StepDownRemotePrimary, a_primaryIndex := i\<rparr>"

definition setNextHeartbeatStartDate :: "Date \<Rightarrow> HeartbeatResponseAction \<Rightarrow> HeartbeatResponseAction" where
  "setNextHeartbeatStartDate d a = a\<lparr>a_nextHeartbeatStartDate := d\<rparr>"

lemmas action_defs = makeNoAction_def makeReconfigAction_def makePriorityTakeoverAction_def makeElectAction_def
  makeStepDownSelfAction_def makeStepDownRemoteAction_def setNextHeartbeatStartDate_def

end
