(* ===== verification/TopologyState.thy ===== *)
theory TopologyState
  imports HeartbeatData
begin

text \<open>
  The state of the topology coordinator (\<open>topology_coordinator_impl.h\<close>) and the functions that
  only read it: the member state, the electability masks, the latest known optime. Every member
  variable of \<open>TopologyCoordinatorImpl\<close> is a field. The \<open>std::map\<close>s keyed by
  \<open>HostAndPort\<close> are ordered by host and effective port, so their keys are that pair. Server
  parameters, the fail point and the local time formatting the functions consult are fields of
  the options. The text of log lines and of statuses is left out.
\<close>

datatype Role = RoleFollower | RoleCandidate | RoleLeader

datatype ClusterRole = ClusterNone | ClusterShardServer | ClusterConfigServer

datatype ReadCommittedSupport = ReadCommittedUnknown | ReadCommittedNo | ReadCommittedYes

record TopologyOptions =
  o_maxSyncSourceLagSecs :: int
  o_clusterRole :: ClusterRole
  o_skipShardingConfigurationChecks :: bool
  o_priorityTakeoverFreshnessWindowSeconds :: "32 word"
  o_disableMaxSyncSourceLagSecs :: bool
  o_dateToISOStringLocal :: "Date \<Rightarrow> string"

record VoteLease =
  vl_when :: Date
  vl_whoId :: int
  vl_whoHostAndPort :: HostAndPort

definition leaseTime :: Millis where "leaseTime = 30 * 1000"

record LastVote =
  lv_term :: Term
  lv_candidateIndex :: int

type_synonym HostKey = "string \<times> int"
type_synonym OID = "96 word"

definition hp_key :: "HostAndPort \<Rightarrow> HostKey" where
  "hp_key h = (hp_host h, port h)"

record TopologyCoordinator =
  t_role :: Role
  t_electionId :: OID
  t_electionTime :: Timestamp
  t_term :: Term
  t_currentPrimaryIndex :: int
  t_syncSource :: HostAndPort
  t_syncSourceBlacklist :: "(HostKey \<times> Date) list"
  t_forceSyncSourceIndex :: int
  t_options :: TopologyOptions
  t_hbmsg :: string
  t_hbmsgTime :: Date
  t_selfIndex :: int
  t_rsConfig :: ReplSetConfig
  t_hbdata :: "MemberHeartbeatData list"
  t_stepDownPending :: bool
  t_stepDownUntil :: Date
  t_electionSleepUntil :: Date
  t_maintenanceModeCalls :: int
  t_followerMode :: MemberState
  t_pings :: "(HostKey \<times> PingStats) list"
  t_voteLease :: VoteLease
  t_lastVote :: LastVote
  t_storageEngineSupportsReadCommitted :: ReadCommittedSupport

definition TopologyCoordinator_new :: "TopologyOptions \<Rightarrow> TopologyCoordinator" where
  "TopologyCoordinator_new opts =
     \<lparr>t_role = RoleFollower, t_electionId = 0, t_electionTime = Timestamp_null, t_term = kUninitializedTerm,
      t_currentPrimaryIndex = -1, t_syncSource = HostAndPort_empty, t_syncSourceBlacklist = [],
      t_forceSyncSourceIndex = -1, t_options = opts, t_hbmsg = [], t_hbmsgTime = 0, t_selfIndex = -1,
      t_rsConfig = ReplSetConfig_default, t_hbdata = [], t_stepDownPending = False, t_stepDownUntil = 0,
      t_electionSleepUntil = 0, t_maintenanceModeCalls = 0, t_followerMode = RS_STARTUP2, t_pings = [],
      t_voteLease = \<lparr>vl_when = 0, vl_whoId = -1, vl_whoHostAndPort = HostAndPort_empty\<rparr>,
      t_lastVote = \<lparr>lv_term = kInitialTerm, lv_candidateIndex = -1\<rparr>,
      t_storageEngineSupportsReadCommitted = ReadCommittedUnknown\<rparr>"

subsection \<open>Iteration\<close>

text \<open>The elements of a vector with the index the iterator stands at (\<open>indexOfIterator\<close>).\<close>

definition indexed :: "'a list \<Rightarrow> (int \<times> 'a) list" where
  "indexed xs = zip (map int [0..<length xs]) xs"

lemma set_indexed: "(i, x) \<in> set (indexed xs) \<longleftrightarrow> 0 \<le> i \<and> i < int (length xs) \<and> x = xs ! nat i"
  by (force simp: indexed_def in_set_zip)

lemma indexed_simps [simp]: "indexed [] = []" "length (indexed xs) = length xs" "map snd (indexed xs) = xs"
  by (simp_all add: indexed_def)

subsection \<open>Roles and member states\<close>

definition hasOnlyAuthErrorUpHeartbeats :: "MemberHeartbeatData list \<Rightarrow> int \<Rightarrow> bool" where
  "hasOnlyAuthErrorUpHeartbeats hbdata self =
     (let others = filter (\<lambda>(i, h). i \<noteq> self) (indexed hbdata) in
      \<not> list_ex (\<lambda>(i, h). up h) others \<and> list_ex (\<lambda>(i, h). hb_authIssue h) others)"

definition selfConfig :: "TopologyCoordinator \<Rightarrow> MemberConfig option" where
  "selfConfig t = getMemberAt (t_rsConfig t) (t_selfIndex t)"

definition currentPrimaryMember :: "TopologyCoordinator \<Rightarrow> MemberConfig option option" where
  "currentPrimaryMember t =
     (if t_currentPrimaryIndex t = -1 then Some None
      else do { m \<leftarrow> getMemberAt (t_rsConfig t) (t_currentPrimaryIndex t); Some (Some m) })"

definition iAmPrimary :: "TopologyCoordinator \<Rightarrow> bool option" where
  "iAmPrimary t =
     (if t_role t = RoleLeader then do { ensure (t_currentPrimaryIndex t = t_selfIndex t); Some True } else Some False)"

text \<open>The part of \<open>getMemberState\<close> after the checks on the cluster role.\<close>

definition roleState :: "TopologyCoordinator \<Rightarrow> MemberState option" where
  "roleState t =
     (if t_role t = RoleLeader
      then do { ensure (t_currentPrimaryIndex t = t_selfIndex t); Some RS_PRIMARY }
      else do { myConfig \<leftarrow> selfConfig t;
                Some (if isArbiter myConfig then RS_ARBITER
                      else if (t_maintenanceModeCalls t > 0 \<or> hasOnlyAuthErrorUpHeartbeats (t_hbdata t) (t_selfIndex t)) \<and>
                              t_followerMode t = RS_SECONDARY then RS_RECOVERING
                      else t_followerMode t) })"

definition getMemberState :: "TopologyCoordinator \<Rightarrow> MemberState option" where
  "getMemberState t =
     (let configsvr = (o_clusterRole (t_options t) = ClusterConfigServer);
          skip = o_skipShardingConfigurationChecks (t_options t) in
      if t_selfIndex t = -1 then Some (if c_isInitialized (t_rsConfig t) then RS_REMOVED else RS_STARTUP)
      else if c_configServer (t_rsConfig t) then
        (if \<not> configsvr \<and> \<not> skip then Some RS_REMOVED
         else do { ensure (t_storageEngineSupportsReadCommitted t \<noteq> ReadCommittedUnknown);
                   if t_storageEngineSupportsReadCommitted t = ReadCommittedNo then Some RS_REMOVED
                   else roleState t })
      else if configsvr \<and> \<not> skip then Some RS_REMOVED
      else roleState t)"

subsection \<open>Optimes and majorities\<close>

fun latestKnownLoop :: "int \<Rightarrow> (int \<times> MemberHeartbeatData) list \<Rightarrow> OpTime \<Rightarrow> OpTime" where
  "latestKnownLoop self [] latest = latest"
| "latestKnownLoop self ((i, h) # hs) latest =
     latestKnownLoop self hs
       (if i = self \<or> \<not> up h \<or> hb_state h = RS_REMOVED then latest
        else if ot_gt (hb_appliedOpTime h) latest then hb_appliedOpTime h else latest)"

definition latestKnownOpTime :: "TopologyCoordinator \<Rightarrow> OpTime \<Rightarrow> OpTime" where
  "latestKnownOpTime t ourLastOpApplied =
     latestKnownLoop (t_selfIndex t) (indexed (t_hbdata t)) ourLastOpApplied"

fun votesUp :: "TopologyCoordinator \<Rightarrow> (int \<times> MemberHeartbeatData) list \<Rightarrow> int option" where
  "votesUp t [] = Some 0"
| "votesUp t ((i, h) # hs) =
     do { v \<leftarrow> (if i = t_selfIndex t \<or> up h
                then do { m \<leftarrow> getMemberAt (t_rsConfig t) i; Some (getNumVotes m) } else Some 0);
          r \<leftarrow> votesUp t hs; Some (v + r) }"

definition aMajoritySeemsToBeUp :: "TopologyCoordinator \<Rightarrow> bool option" where
  "aMajoritySeemsToBeUp t =
     do { vUp \<leftarrow> votesUp t (indexed (t_hbdata t)); Some (vUp * 2 > c_totalVotingMembers (t_rsConfig t)) }"

fun findHealthyPrimary :: "ReplSetConfig \<Rightarrow> int \<Rightarrow> Double \<Rightarrow> (int \<times> MemberHeartbeatData) list \<Rightarrow> int option" where
  "findHealthyPrimary c candidate prio [] = Some (-1)"
| "findHealthyPrimary c candidate prio ((i, h) # hs) =
     (if \<not> up h \<or> hb_state h \<noteq> RS_PRIMARY then findHealthyPrimary c candidate prio hs
      else do { m \<leftarrow> getMemberAt c i;
                if i \<noteq> candidate \<and> d_le prio (mc_priority m) then Some i
                else findHealthyPrimary c candidate prio hs })"

definition findHealthyPrimaryOfEqualOrGreaterPriority :: "TopologyCoordinator \<Rightarrow> int \<Rightarrow> int option" where
  "findHealthyPrimaryOfEqualOrGreaterPriority t candidate =
     do { m \<leftarrow> getMemberAt (t_rsConfig t) candidate;
          findHealthyPrimary (t_rsConfig t) candidate (mc_priority m) (indexed (t_hbdata t)) }"

definition isOpTimeCloseEnoughToLatestToElect :: "TopologyCoordinator \<Rightarrow> OpTime \<Rightarrow> OpTime \<Rightarrow> bool" where
  "isOpTimeCloseEnoughToLatestToElect t other ours \<longleftrightarrow>
     ot_getSecs other + 10 \<ge> ot_getSecs (latestKnownOpTime t ours)"

text \<open>Timestamps are unsigned 32-bit numbers here, and the sums wrap around.\<close>

definition amIFreshEnoughForPriorityTakeover :: "TopologyCoordinator \<Rightarrow> OpTime \<Rightarrow> bool" where
  "amIFreshEnoughForPriorityTakeover t ours =
     (let latest = latestKnownOpTime t ours; mine = ot_timestamp ours; theirs = ot_timestamp latest in
      if ot_term ours \<noteq> ot_term latest then False
      else if ts_secs mine \<noteq> ts_secs theirs
      then ts_secs mine + o_priorityTakeoverFreshnessWindowSeconds (t_options t) \<ge> ts_secs theirs
      else ts_inc mine + 1000 \<ge> ts_inc theirs)"

subsection \<open>Electability\<close>

type_synonym UnelectableReasonMask = "32 word"

definition CannotSeeMajority :: UnelectableReasonMask where "CannotSeeMajority = 1"
definition NotCloseEnoughToLatestOptime :: UnelectableReasonMask where "NotCloseEnoughToLatestOptime = 2"
definition ArbiterIAm :: UnelectableReasonMask where "ArbiterIAm = 4"
definition NotSecondaryBit :: UnelectableReasonMask where "NotSecondaryBit = 8"
definition NoPriority :: UnelectableReasonMask where "NoPriority = 16"
definition StepDownPeriodActive :: UnelectableReasonMask where "StepDownPeriodActive = 32"
definition NoData :: UnelectableReasonMask where "NoData = 64"
definition NotInitialized :: UnelectableReasonMask where "NotInitialized = 128"
definition VotedTooRecently :: UnelectableReasonMask where "VotedTooRecently = 256"
definition RefusesToStand :: UnelectableReasonMask where "RefusesToStand = 512"
definition NotCloseEnoughToLatestForPriorityTakeover :: UnelectableReasonMask where
  "NotCloseEnoughToLatestForPriorityTakeover = 1024"

lemmas mask_defs = CannotSeeMajority_def NotCloseEnoughToLatestOptime_def ArbiterIAm_def NotSecondaryBit_def
  NoPriority_def StepDownPeriodActive_def NoData_def NotInitialized_def VotedTooRecently_def
  RefusesToStand_def NotCloseEnoughToLatestForPriorityTakeover_def

text \<open>\<open>if (b) result |= x\<close>\<close>

definition orIf :: "bool \<Rightarrow> UnelectableReasonMask \<Rightarrow> UnelectableReasonMask \<Rightarrow> UnelectableReasonMask" where
  "orIf b x result = (if b then or result x else result)"

definition getUnelectableReason :: "TopologyCoordinator \<Rightarrow> int \<Rightarrow> OpTime \<Rightarrow> UnelectableReasonMask option" where
  "getUnelectableReason t i lastOpApplied =
     do { ensure (i \<noteq> t_selfIndex t);
          m \<leftarrow> getMemberAt (t_rsConfig t) i;
          h \<leftarrow> nth_opt (t_hbdata t) i;
          let result =
            orIf (up h \<and> isUnelectable h) RefusesToStand
            (orIf (c_protocolVersion (t_rsConfig t) = 0 \<and>
                   \<not> isOpTimeCloseEnoughToLatestToElect t (hb_appliedOpTime h) lastOpApplied) NotCloseEnoughToLatestOptime
            (orIf (hb_state h \<noteq> RS_SECONDARY) NotSecondaryBit
            (orIf (d_le (mc_priority m) (Num 0)) NoPriority
            (orIf (isArbiter m) ArbiterIAm 0))));
          ensure (result \<noteq> 0 \<or> isElectable m);
          Some result }"

definition getMyUnelectableReason :: "TopologyCoordinator \<Rightarrow> Date \<Rightarrow> OpTime \<Rightarrow> bool \<Rightarrow> UnelectableReasonMask option" where
  "getMyUnelectableReason t now lastApplied isPriorityTakeover =
     do { majority \<leftarrow> aMajoritySeemsToBeUp t;
          let r0 = orIf (\<not> majority) CannotSeeMajority (orIf (ot_isNull lastApplied) NoData 0);
          if t_selfIndex t = -1 then Some (orIf True NotInitialized r0)
          else do {
            me \<leftarrow> selfConfig t;
            state \<leftarrow> getMemberState t;
            primary \<leftarrow> (if state = RS_SECONDARY then Some False else iAmPrimary t);
            let r1 = orIf (state \<noteq> RS_SECONDARY \<and> \<not> primary) NotSecondaryBit
                     (orIf (t_stepDownUntil t > now) StepDownPeriodActive
                     (orIf (d_le (mc_priority me) (Num 0)) NoPriority
                     (orIf (isArbiter me) ArbiterIAm r0)));
            if c_protocolVersion (t_rsConfig t) = 0
            then Some (orIf (\<not> isOpTimeCloseEnoughToLatestToElect t lastApplied lastApplied) NotCloseEnoughToLatestOptime
                      (orIf (vl_whoId (t_voteLease t) \<noteq> -1 \<and> vl_whoId (t_voteLease t) \<noteq> mc_id me \<and>
                             vl_when (t_voteLease t) + leaseTime \<ge> now) VotedTooRecently r1))
            else do { ensure (c_protocolVersion (t_rsConfig t) = 1);
                      Some (orIf (isPriorityTakeover \<and> \<not> amIFreshEnoughForPriorityTakeover t lastApplied)
                              NotCloseEnoughToLatestForPriorityTakeover r1) } } }"

text \<open>The printed form of a mask; the loop of \<open>integerToHex\<close> drops leading zeros.\<close>

fun hexDigits :: "nat \<Rightarrow> 32 word \<Rightarrow> string" where
  "hexDigits 0 w = []"
| "hexDigits (Suc n) w = hexDigits n (drop_bit 4 w) @ [''0123456789ABCDEF'' ! unat (and w 15)]"

definition integerToHex :: "32 word \<Rightarrow> string" where
  "integerToHex w = (if w = 0 then ''0'' else dropWhile (\<lambda>c. c = CHR ''0'') (hexDigits 8 w))"

definition getUnelectableReasonString :: "TopologyCoordinator \<Rightarrow> UnelectableReasonMask \<Rightarrow> string option" where
  "getUnelectableReasonString t ur =
     (let msgs = concat (map (\<lambda>(x, msg). if and ur x \<noteq> 0 then [msg] else [])
        [(NoData, ''node has no applied oplog entries''),
         (VotedTooRecently, ''I recently voted for '' @ HostAndPort_toString (vl_whoHostAndPort (t_voteLease t))),
         (CannotSeeMajority, ''I cannot see a majority''),
         (ArbiterIAm, ''member is an arbiter''),
         (NoPriority, ''member has zero priority''),
         (StepDownPeriodActive, ''I am still waiting for stepdown period to end at '' @
            o_dateToISOStringLocal (t_options t) (t_stepDownUntil t)),
         (NotSecondaryBit, ''member is not currently a secondary''),
         (NotCloseEnoughToLatestOptime, ''member is more than 10 seconds behind the most up-to-date member''),
         (NotCloseEnoughToLatestForPriorityTakeover,
            ''member is not caught up enough to the most up-to-date member to call for priority takeover - must be within '' @
            intString (sint (o_priorityTakeoverFreshnessWindowSeconds (t_options t))) @ '' seconds''),
         (NotInitialized, ''node is not a member of a valid replica set configuration''),
         (RefusesToStand, ''most recent heartbeat indicates node will not stand for election'')]) in
      do { ensure (ur \<noteq> 0); ensure (msgs \<noteq> []);
           Some (foldl (\<lambda>s m. s @ ''; '' @ m) (hd msgs) (tl msgs) @ '' (mask 0x'' @ integerToHex ur @ '')'') })"

subsection \<open>Priorities\<close>

definition isMemberHigherPriority :: "TopologyCoordinator \<Rightarrow> int \<Rightarrow> int \<Rightarrow> bool option" where
  "isMemberHigherPriority t i j =
     (if i = -1 then Some False else if j = -1 then Some True
      else do { mi \<leftarrow> getMemberAt (t_rsConfig t) i; mj \<leftarrow> getMemberAt (t_rsConfig t) j;
                Some (d_less (mc_priority mj) (mc_priority mi)) })"

fun highestPriorityLoop :: "TopologyCoordinator \<Rightarrow> Date \<Rightarrow> OpTime \<Rightarrow> int list \<Rightarrow> int \<Rightarrow> int option" where
  "highestPriorityLoop t now lastOpApplied [] maxIndex = Some maxIndex"
| "highestPriorityLoop t now lastOpApplied (i # is) maxIndex =
     do { reason \<leftarrow> (if i = t_selfIndex t then getMyUnelectableReason t now lastOpApplied False
                     else getUnelectableReason t i lastOpApplied);
          higher \<leftarrow> (if reason = 0 then isMemberHigherPriority t i maxIndex else Some False);
          highestPriorityLoop t now lastOpApplied is (if higher then i else maxIndex) }"

definition getHighestPriorityElectableIndex :: "TopologyCoordinator \<Rightarrow> Date \<Rightarrow> OpTime \<Rightarrow> int option" where
  "getHighestPriorityElectableIndex t now lastOpApplied =
     highestPriorityLoop t now lastOpApplied (map int [0..<length (c_members (t_rsConfig t))]) (-1)"

definition getMemberIndex :: "TopologyCoordinator \<Rightarrow> int \<Rightarrow> int" where
  "getMemberIndex t i = findMemberIndexByConfigId (t_rsConfig t) i"

definition isElectableNodeInSingleNodeReplicaSet :: "TopologyCoordinator \<Rightarrow> bool option" where
  "isElectableNodeInSingleNodeReplicaSet t =
     (if t_followerMode t = RS_SECONDARY \<and> getNumMembers (t_rsConfig t) = 1 \<and> t_selfIndex t = 0
      then do { m \<leftarrow> getMemberAt (t_rsConfig t) (t_selfIndex t);
                Some (isElectable m \<and> t_maintenanceModeCalls t = 0) }
      else Some False)"

subsection \<open>Blacklist, pings and messages\<close>

definition memberIsBlacklisted :: "TopologyCoordinator \<Rightarrow> MemberConfig \<Rightarrow> Date \<Rightarrow> bool" where
  "memberIsBlacklisted t m now =
     (case map_of (t_syncSourceBlacklist t) (hp_key (mc_host m)) of Some until \<Rightarrow> until > now | None \<Rightarrow> False)"

definition getPingStats :: "TopologyCoordinator \<Rightarrow> HostAndPort \<Rightarrow> PingStats" where
  "getPingStats t host = (case map_of (t_pings t) (hp_key host) of Some p \<Rightarrow> p | None \<Rightarrow> PingStats_default)"

definition putPingStats :: "HostAndPort \<Rightarrow> PingStats \<Rightarrow> TopologyCoordinator \<Rightarrow> TopologyCoordinator" where
  "putPingStats host p t = t\<lparr>t_pings := AList.update (hp_key host) p (t_pings t)\<rparr>"

definition getPing :: "TopologyCoordinator \<Rightarrow> HostAndPort \<Rightarrow> Millis" where
  "getPing t host = ps_getMillis (getPingStats t host)"

text \<open>Sums of \<open>unsigned int\<close> counters kept in an \<open>int\<close>.\<close>

definition int32 :: "int \<Rightarrow> int" where
  "int32 n = (n + 2 ^ 31) mod 2 ^ 32 - 2 ^ 31"

definition getTotalPings :: "TopologyCoordinator \<Rightarrow> int" where
  "getTotalPings t = foldl (\<lambda>total (k, p). int32 (total + uint (ps_count p))) 0 (t_pings t)"

definition setMyHeartbeatMessage :: "Date \<Rightarrow> string \<Rightarrow> TopologyCoordinator \<Rightarrow> TopologyCoordinator" where
  "setMyHeartbeatMessage now msg t = t\<lparr>t_hbmsgTime := now, t_hbmsg := msg\<rparr>"

definition getHbmsg :: "TopologyCoordinator \<Rightarrow> Date \<Rightarrow> string" where
  "getHbmsg t now = (if now - t_hbmsgTime t > 120 * 1000 then [] else t_hbmsg t)"

definition getMaybeUpHostAndPorts :: "TopologyCoordinator \<Rightarrow> HostAndPort list option" where
  "getMaybeUpHostAndPorts t =
     mapM (\<lambda>(i, h). do { m \<leftarrow> getMemberAt (t_rsConfig t) i; Some (mc_host m) })
       (filter (\<lambda>(i, h). i \<noteq> t_selfIndex t \<and> maybeUp h) (indexed (t_hbdata t)))"

fun latestSinceRestartLoop :: "int \<Rightarrow> (int \<times> MemberHeartbeatData) list \<Rightarrow> OpTime \<Rightarrow> OpTime option" where
  "latestSinceRestartLoop self [] latest = Some latest"
| "latestSinceRestartLoop self ((i, h) # hs) latest =
     (if i = self then latestSinceRestartLoop self hs latest
      else if \<not> hb_updatedSinceRestart h then None
      else latestSinceRestartLoop self hs
             (if up h \<and> ot_gt (hb_appliedOpTime h) latest then hb_appliedOpTime h else latest))"

definition latestKnownOpTimeSinceHeartbeatRestart :: "TopologyCoordinator \<Rightarrow> OpTime option" where
  "latestKnownOpTimeSinceHeartbeatRestart t =
     latestSinceRestartLoop (t_selfIndex t) (indexed (t_hbdata t)) \<lparr>ot_timestamp = Timestamp_null, ot_term = 0\<rparr>"

end
