(* ===== verification/TopologyVotes.thy ===== *)
theory TopologyVotes
  imports TopologyState
begin

text \<open>
  How the topology coordinator takes part in elections: the answers to \<open>replSetFresh\<close> and
  \<open>replSetElect\<close> (protocol version 0) and to \<open>replSetRequestVotes\<close> (protocol version 1),
  the votes for itself, terms, and the transitions between the three roles.
\<close>

subsection \<open>Protocol version 0\<close>

record ReplSetFreshArgs =
  fa_setName :: string
  fa_id :: "32 word"
  fa_cfgver :: int
  fa_opTime :: Timestamp

record FreshResponse =
  fr_configStale :: bool
  fr_opTime :: "64 word"
  fr_fresher :: bool
  fr_veto :: bool

definition shouldVetoMember :: "TopologyCoordinator \<Rightarrow> ReplSetFreshArgs \<Rightarrow> Date \<Rightarrow> OpTime \<Rightarrow> bool option" where
  "shouldVetoMember t args now lastOpApplied =
     (if c_version (t_rsConfig t) < fa_cfgver args then Some False
      else do {
        let hopefulIndex = getMemberIndex t (sint (fa_id args));
        ensure (hopefulIndex \<noteq> t_selfIndex t);
        highest \<leftarrow> getHighestPriorityElectableIndex t now lastOpApplied;
        if hopefulIndex = -1 then Some True
        else do {
          primary \<leftarrow> iAmPrimary t;
          meFresher \<leftarrow>
            (if primary then do { h \<leftarrow> nth_opt (t_hbdata t) hopefulIndex; Some (ot_ge lastOpApplied (hb_appliedOpTime h)) }
             else Some False);
          if meFresher then Some True
          else do {
            otherFresher \<leftarrow>
              (if t_currentPrimaryIndex t \<noteq> -1 \<and> hopefulIndex \<noteq> t_currentPrimaryIndex t
               then do { p \<leftarrow> nth_opt (t_hbdata t) (t_currentPrimaryIndex t);
                         h \<leftarrow> nth_opt (t_hbdata t) hopefulIndex;
                         Some (ot_ge (hb_appliedOpTime p) (hb_appliedOpTime h)) }
               else Some False);
            if otherFresher then Some True
            else do {
              higher \<leftarrow>
                (if highest \<noteq> -1
                 then do { hm \<leftarrow> getMemberAt (t_rsConfig t) hopefulIndex;
                           pm \<leftarrow> getMemberAt (t_rsConfig t) highest;
                           Some (d_less (mc_priority hm) (mc_priority pm)) }
                 else Some False);
              if higher then Some True
              else do {
                reason \<leftarrow> getUnelectableReason t hopefulIndex lastOpApplied;
                let reason' = and reason (not RefusesToStand);
                if reason' \<noteq> 0 then do { _ \<leftarrow> getUnelectableReasonString t reason'; Some True }
                else Some False } } } } })"

definition prepareFreshResponse ::
  "TopologyCoordinator \<Rightarrow> ReplSetFreshArgs \<Rightarrow> Date \<Rightarrow> OpTime \<Rightarrow> FreshResponse StatusWith option" where
  "prepareFreshResponse t args now lastOpApplied =
     (if c_protocolVersion (t_rsConfig t) \<noteq> 0 then Some (Inl BadValue)
      else if t_selfIndex t = -1 then Some (Inl ReplicaSetNotFound)
      else if fa_setName args \<noteq> c_replSetName (t_rsConfig t) then Some (Inl ReplicaSetNotFound)
      else do {
        me \<leftarrow> selfConfig t;
        if fa_id args = word_of_int (mc_id me) then Some (Inl BadValue)
        else do {
          let stale = (c_version (t_rsConfig t) > fa_cfgver args);
          let weAreFresher = (stale \<or>
            ot_less \<lparr>ot_timestamp = fa_opTime args, ot_term = t_term t\<rparr> (latestKnownOpTime t lastOpApplied));
          doVeto \<leftarrow> shouldVetoMember t args now lastOpApplied;
          Some (Inr \<lparr>fr_configStale = stale, fr_opTime = ts_asULL (ot_timestamp lastOpApplied),
                     fr_fresher = weAreFresher, fr_veto = doVeto\<rparr>) } })"

record ReplSetElectArgs =
  ea_set :: string
  ea_whoid :: int
  ea_cfgver :: int
  ea_round :: OID

record ElectResponse =
  er_vote :: int
  er_round :: OID

text \<open>The vote alone: \<open>None\<close> for the branch that takes the vote lease.\<close>

definition electRefusal ::
  "TopologyCoordinator \<Rightarrow> ReplSetElectArgs \<Rightarrow> Date \<Rightarrow> MemberConfig option \<Rightarrow> MemberConfig option \<Rightarrow>
   MemberConfig option \<Rightarrow> int option option" where
  "electRefusal t args now primary hopeful highestPriority =
     (if ea_set args \<noteq> c_replSetName (t_rsConfig t) then Some (Some 0)
      else if c_version (t_rsConfig t) < ea_cfgver args then Some (Some 0)
      else if c_version (t_rsConfig t) > ea_cfgver args then Some (Some (-10000))
      else (case hopeful of
              None \<Rightarrow> Some (Some (-10000))
            | Some h \<Rightarrow>
                do { iam \<leftarrow> iAmPrimary t;
                     Some (if iam then Some (-10000)
                           else if primary \<noteq> None then Some (-10000)
                           else if (case highestPriority of None \<Rightarrow> False
                                    | Some hp \<Rightarrow> d_less (mc_priority h) (mc_priority hp)) then Some (-10000)
                           else if vl_when (t_voteLease t) + leaseTime \<ge> now \<and> vl_whoId (t_voteLease t) \<noteq> ea_whoid args
                           then Some 0
                           else None) }))"

definition prepareElectResponse ::
  "ReplSetElectArgs \<Rightarrow> Date \<Rightarrow> OpTime \<Rightarrow> TopologyCoordinator \<Rightarrow> (ElectResponse StatusWith \<times> TopologyCoordinator) option" where
  "prepareElectResponse args now lastOpApplied t =
     (if c_protocolVersion (t_rsConfig t) \<noteq> 0 then Some (Inl BadValue, t)
      else if t_selfIndex t = -1 then Some (Inl ReplicaSetNotFound, t)
      else do {
        highest \<leftarrow> getHighestPriorityElectableIndex t now lastOpApplied;
        primary \<leftarrow> currentPrimaryMember t;
        let hopeful = findMemberByID (t_rsConfig t) (ea_whoid args);
        highestPriority \<leftarrow> (if highest = -1 then Some None
                           else do { m \<leftarrow> getMemberAt (t_rsConfig t) highest; Some (Some m) });
        refusal \<leftarrow> electRefusal t args now primary hopeful highestPriority;
        (case (refusal, hopeful) of
           (Some v, _) \<Rightarrow> Some (Inr \<lparr>er_vote = v, er_round = ea_round args\<rparr>, t)
         | (None, None) \<Rightarrow> None
         | (None, Some h) \<Rightarrow>
             do { me \<leftarrow> selfConfig t;
                  ensure (mc_id h = ea_whoid args);
                  Some (Inr \<lparr>er_vote = getNumVotes me, er_round = ea_round args\<rparr>,
                        t\<lparr>t_voteLease := \<lparr>vl_when = now, vl_whoId = ea_whoid args, vl_whoHostAndPort = mc_host h\<rparr>\<rparr>) }) })"

definition voteForMyself :: "Date \<Rightarrow> TopologyCoordinator \<Rightarrow> (bool \<times> TopologyCoordinator) option" where
  "voteForMyself now t =
     (if t_role t \<noteq> RoleCandidate then Some (False, t)
      else do {
        me \<leftarrow> selfConfig t;
        Some (if vl_when (t_voteLease t) + leaseTime \<ge> now \<and> vl_whoId (t_voteLease t) \<noteq> mc_id me then (False, t)
              else (True, t\<lparr>t_voteLease := \<lparr>vl_when = now, vl_whoId = mc_id me, vl_whoHostAndPort = mc_host me\<rparr>\<rparr>)) })"

subsection \<open>Protocol version 1\<close>

record ReplSetRequestVotesArgs =
  va_setName :: string
  va_term :: Term
  va_candidateIndex :: int
  va_cfgver :: int
  va_lastDurableOpTime :: OpTime
  va_dryRun :: bool

record ReplSetRequestVotesResponse =
  vr_term :: Term
  vr_voteGranted :: bool

definition processReplSetRequestVotes ::
  "ReplSetRequestVotesArgs \<Rightarrow> OpTime \<Rightarrow> TopologyCoordinator \<Rightarrow> (ReplSetRequestVotesResponse \<times> TopologyCoordinator) option" where
  "processReplSetRequestVotes args lastAppliedOpTime t =
     (let refuse = (\<lparr>vr_term = t_term t, vr_voteGranted = False\<rparr>, t) in
      if va_term args < t_term t then Some refuse
      else if va_cfgver args \<noteq> c_version (t_rsConfig t) then Some refuse
      else if va_setName args \<noteq> c_replSetName (t_rsConfig t) then Some refuse
      else if ot_less (va_lastDurableOpTime args) lastAppliedOpTime then Some refuse
      else if \<not> va_dryRun args \<and> lv_term (t_lastVote t) = va_term args
      then do { _ \<leftarrow> getMemberAt (t_rsConfig t) (lv_candidateIndex (t_lastVote t)); Some refuse }
      else do {
        betterPrimary \<leftarrow> findHealthyPrimaryOfEqualOrGreaterPriority t (va_candidateIndex args);
        me \<leftarrow> selfConfig t;
        if isArbiter me \<and> betterPrimary \<ge> 0
        then do { _ \<leftarrow> getMemberAt (t_rsConfig t) betterPrimary; Some refuse }
        else Some (\<lparr>vr_term = t_term t, vr_voteGranted = True\<rparr>,
                   if va_dryRun args then t
                   else t\<lparr>t_lastVote := \<lparr>lv_term = va_term args, lv_candidateIndex = va_candidateIndex args\<rparr>\<rparr>) })"

definition loadLastVote :: "LastVote \<Rightarrow> TopologyCoordinator \<Rightarrow> TopologyCoordinator" where
  "loadLastVote lv t = t\<lparr>t_lastVote := lv\<rparr>"

definition voteForMyselfV1 :: "TopologyCoordinator \<Rightarrow> TopologyCoordinator" where
  "voteForMyselfV1 t = t\<lparr>t_lastVote := \<lparr>lv_term = t_term t, lv_candidateIndex = t_selfIndex t\<rparr>\<rparr>"

datatype UpdateTermResult = kAlreadyUpToDate | kTriggerStepDown | kUpdatedTerm

definition updateTerm :: "Term \<Rightarrow> Date \<Rightarrow> TopologyCoordinator \<Rightarrow> (UpdateTermResult \<times> TopologyCoordinator) option" where
  "updateTerm newTerm now t =
     (if newTerm \<le> t_term t then Some (kAlreadyUpToDate, t)
      else do {
        let t1 = t\<lparr>t_electionSleepUntil := now + c_electionTimeoutPeriod (t_rsConfig t)\<rparr>;
        primary \<leftarrow> iAmPrimary t1;
        Some (if primary then (kTriggerStepDown, t1) else (kUpdatedTerm, t1\<lparr>t_term := newTerm\<rparr>)) })"

subsection \<open>Standing for election\<close>

definition checkShouldStandForElection :: "TopologyCoordinator \<Rightarrow> Date \<Rightarrow> OpTime \<Rightarrow> Status option" where
  "checkShouldStandForElection t now lastOpApplied =
     (if t_currentPrimaryIndex t \<noteq> -1 then Some (Some NodeNotElectable)
      else do {
        ensure (t_role t \<noteq> RoleLeader);
        if t_role t = RoleCandidate then Some (Some NodeNotElectable)
        else do {
          reason \<leftarrow> getMyUnelectableReason t now lastOpApplied False;
          if and NotCloseEnoughToLatestOptime reason \<noteq> 0
          then do { _ \<leftarrow> getUnelectableReasonString t reason; Some (Some NodeNotElectable) }
          else if reason \<noteq> 0
          then do { _ \<leftarrow> getUnelectableReasonString t reason; Some (Some NodeNotElectable) }
          else Some (failIf (t_electionSleepUntil t > now) NodeNotElectable) } })"

definition becomeCandidateIfElectable ::
  "Date \<Rightarrow> OpTime \<Rightarrow> bool \<Rightarrow> TopologyCoordinator \<Rightarrow> (Status \<times> TopologyCoordinator) option" where
  "becomeCandidateIfElectable now lastOpApplied isPriorityTakeover t =
     (if t_role t = RoleLeader then Some (Some NodeNotElectable, t)
      else if t_role t = RoleCandidate then Some (Some NodeNotElectable, t)
      else do {
        reason \<leftarrow> getMyUnelectableReason t now lastOpApplied isPriorityTakeover;
        if reason \<noteq> 0 then do { _ \<leftarrow> getUnelectableReasonString t reason; Some (Some NodeNotElectable, t) }
        else Some (StatusOK, t\<lparr>t_role := RoleCandidate\<rparr>) })"

definition setElectionSleepUntil :: "Date \<Rightarrow> TopologyCoordinator \<Rightarrow> TopologyCoordinator" where
  "setElectionSleepUntil newTime t =
     (if t_electionSleepUntil t < newTime then t\<lparr>t_electionSleepUntil := newTime\<rparr> else t)"

definition setElectionInfo :: "OID \<Rightarrow> Timestamp \<Rightarrow> TopologyCoordinator \<Rightarrow> TopologyCoordinator option" where
  "setElectionInfo electionId electionOpTime t =
     do { ensure (t_role t = RoleLeader);
          Some (t\<lparr>t_electionTime := electionOpTime, t_electionId := electionId\<rparr>) }"

definition processWinElection :: "OID \<Rightarrow> Timestamp \<Rightarrow> TopologyCoordinator \<Rightarrow> TopologyCoordinator option" where
  "processWinElection electionId electionOpTime t =
     do { ensure (t_role t = RoleCandidate);
          t1 \<leftarrow> setElectionInfo electionId electionOpTime (t\<lparr>t_role := RoleLeader\<rparr>);
          Some (t1\<lparr>t_currentPrimaryIndex := t_selfIndex t1, t_syncSource := HostAndPort_empty,
                   t_forceSyncSourceIndex := -1\<rparr>) }"

definition processLoseElection :: "TopologyCoordinator \<Rightarrow> TopologyCoordinator option" where
  "processLoseElection t =
     do { ensure (t_role t = RoleCandidate);
          let t1 = t\<lparr>t_electionTime := Timestamp_null, t_electionId := 0, t_role := RoleFollower\<rparr>;
          me \<leftarrow> selfConfig t1;
          Some (if vl_whoId (t_voteLease t1) = mc_id me
                then t1\<lparr>t_voteLease := (t_voteLease t1)\<lparr>vl_when := 0\<rparr>\<rparr> else t1) }"

end
