(* ===== verification/TopologySync.thy ===== *)
theory TopologySync
  imports TopologyState
begin

text \<open>
  The choice of the member a node replicates from: \<open>chooseNewSyncSource\<close>,
  \<open>shouldChangeSyncSource\<close>, the \<open>replSetSyncFrom\<close> command and the blacklist of sources.
\<close>

definition setForceSyncSourceIndex :: "int \<Rightarrow> TopologyCoordinator \<Rightarrow> TopologyCoordinator option" where
  "setForceSyncSourceIndex i t =
     do { ensure (t_forceSyncSourceIndex t < getNumMembers (t_rsConfig t)); Some (t\<lparr>t_forceSyncSourceIndex := i\<rparr>) }"

definition blacklistSyncSource :: "HostAndPort \<Rightarrow> Date \<Rightarrow> TopologyCoordinator \<Rightarrow> TopologyCoordinator" where
  "blacklistSyncSource host until t =
     t\<lparr>t_syncSourceBlacklist := AList.update (hp_key host) until (t_syncSourceBlacklist t)\<rparr>"

definition unblacklistSyncSource :: "HostAndPort \<Rightarrow> Date \<Rightarrow> TopologyCoordinator \<Rightarrow> TopologyCoordinator" where
  "unblacklistSyncSource host now t =
     (case map_of (t_syncSourceBlacklist t) (hp_key host) of
        None \<Rightarrow> t
      | Some until \<Rightarrow> if now \<ge> until
                      then t\<lparr>t_syncSourceBlacklist := AList.delete (hp_key host) (t_syncSourceBlacklist t)\<rparr> else t)"

definition clearSyncSourceBlacklist :: "TopologyCoordinator \<Rightarrow> TopologyCoordinator" where
  "clearSyncSourceBlacklist t = t\<lparr>t_syncSourceBlacklist := []\<rparr>"

subsection \<open>Choosing a source\<close>

datatype ChainingPreference = kUseConfiguration | kAllowChaining

text \<open>
  The tests one candidate has to pass in one attempt, given the best candidate so far. The first
  attempt has the additional criteria.
\<close>

definition strictCandidate :: "MemberConfig \<Rightarrow> MemberConfig \<Rightarrow> MemberHeartbeatData \<Rightarrow> OpTime \<Rightarrow> bool" where
  "strictCandidate me m h oldestSyncOpTime \<longleftrightarrow>
     \<not> (isVoter me \<and> \<not> isVoter m) \<and> \<not> mc_hidden m \<and> \<not> ot_less (hb_appliedOpTime h) oldestSyncOpTime \<and>
     \<not> mc_slaveDelay me < mc_slaveDelay m"

definition candidateAccepted ::
  "TopologyCoordinator \<Rightarrow> Date \<Rightarrow> OpTime \<Rightarrow> OpTime \<Rightarrow> bool \<Rightarrow> MemberConfig \<Rightarrow> int \<Rightarrow> MemberConfig \<Rightarrow> MemberHeartbeatData \<Rightarrow> bool option" where
  "candidateAccepted t now lastOpTimeFetched oldestSyncOpTime firstAttempt me closestIndex m h =
     (if \<not> up h \<or> \<not> readable (hb_state h) then Some False
      else if firstAttempt \<and> \<not> strictCandidate me m h oldestSyncOpTime then Some False
      else if mc_buildIndexes me \<and> \<not> mc_buildIndexes m then Some False
      else if ot_le (hb_appliedOpTime h) lastOpTimeFetched then Some False
      else do {
        slower \<leftarrow> (if closestIndex \<noteq> -1
                   then do { cm \<leftarrow> getMemberAt (t_rsConfig t) closestIndex;
                             Some (getPing t (mc_host m) > getPing t (mc_host cm)) }
                   else Some False);
        Some (\<not> slower \<and> \<not> memberIsBlacklisted t m now) })"

fun closestLoop ::
  "TopologyCoordinator \<Rightarrow> Date \<Rightarrow> OpTime \<Rightarrow> OpTime \<Rightarrow> bool \<Rightarrow> (int \<times> MemberHeartbeatData) list \<Rightarrow> int \<Rightarrow> int option" where
  "closestLoop t now fetched oldest firstAttempt [] closestIndex = Some closestIndex"
| "closestLoop t now fetched oldest firstAttempt ((i, h) # hs) closestIndex =
     (if i = t_selfIndex t then closestLoop t now fetched oldest firstAttempt hs closestIndex
      else do { m \<leftarrow> getMemberAt (t_rsConfig t) i;
                me \<leftarrow> selfConfig t;
                ok \<leftarrow> candidateAccepted t now fetched oldest firstAttempt me closestIndex m h;
                closestLoop t now fetched oldest firstAttempt hs (if ok then i else closestIndex) })"

definition oldestAcceptable :: "TopologyCoordinator \<Rightarrow> OpTime option" where
  "oldestAcceptable t =
     (if t_currentPrimaryIndex t = -1 then Some OpTime_default
      else do { h \<leftarrow> nth_opt (t_hbdata t) (t_currentPrimaryIndex t);
                let primaryOpTime = hb_appliedOpTime h;
                let maxLag = o_maxSyncSourceLagSecs (t_options t) mod 2 ^ 32;
                Some (if ot_getSecs primaryOpTime \<ge> maxLag
                      then \<lparr>ot_timestamp = \<lparr>ts_secs = word_of_int (ot_getSecs primaryOpTime - maxLag), ts_inc = 0\<rparr>,
                            ot_term = ot_term primaryOpTime\<rparr>
                      else OpTime_default) })"

definition chooseClosest :: "TopologyCoordinator \<Rightarrow> Date \<Rightarrow> OpTime \<Rightarrow> int option" where
  "chooseClosest t now lastOpTimeFetched =
     do { oldest \<leftarrow> oldestAcceptable t;
          c0 \<leftarrow> closestLoop t now lastOpTimeFetched oldest True (indexed (t_hbdata t)) (-1);
          if c0 \<noteq> -1 then Some c0
          else closestLoop t now lastOpTimeFetched oldest False (indexed (t_hbdata t)) (-1) }"

definition needMorePings :: "TopologyCoordinator \<Rightarrow> int" where
  "needMorePings t = int32 ((int (length (t_hbdata t)) - 1) * 2 - getTotalPings t)"

definition syncFrom :: "HostAndPort \<Rightarrow> Date \<Rightarrow> string \<Rightarrow> TopologyCoordinator \<Rightarrow> HostAndPort \<times> TopologyCoordinator" where
  "syncFrom host now msg t = (host, setMyHeartbeatMessage now msg (t\<lparr>t_syncSource := host\<rparr>))"

definition noSource :: "TopologyCoordinator \<Rightarrow> HostAndPort \<times> TopologyCoordinator" where
  "noSource t = (HostAndPort_empty, t\<lparr>t_syncSource := HostAndPort_empty\<rparr>)"

definition choosePrimaryOnly :: "Date \<Rightarrow> TopologyCoordinator \<Rightarrow> (HostAndPort \<times> TopologyCoordinator) option" where
  "choosePrimaryOnly now t =
     do { primary \<leftarrow> currentPrimaryMember t;
          Some (case primary of
                  None \<Rightarrow> noSource t
                | Some m \<Rightarrow>
                    if memberIsBlacklisted t m now then noSource t
                    else if t_currentPrimaryIndex t = t_selfIndex t then noSource t
                    else syncFrom (mc_host m) now (''syncing from primary: '' @ HostAndPort_toString (mc_host m)) t) }"

definition chooseNewSyncSource ::
  "Date \<Rightarrow> OpTime \<Rightarrow> ChainingPreference \<Rightarrow> TopologyCoordinator \<Rightarrow> (HostAndPort \<times> TopologyCoordinator) option" where
  "chooseNewSyncSource now lastOpTimeFetched chaining t =
     (if t_selfIndex t = -1 then Some (HostAndPort_empty, t)
      else if t_forceSyncSourceIndex t \<noteq> -1
      then do { ensure (t_forceSyncSourceIndex t < getNumMembers (t_rsConfig t));
                m \<leftarrow> getMemberAt (t_rsConfig t) (t_forceSyncSourceIndex t);
                Some (syncFrom (mc_host m) now (''syncing from: '' @ HostAndPort_toString (mc_host m) @ '' by request'')
                        (t\<lparr>t_forceSyncSourceIndex := -1\<rparr>)) }
      else if needMorePings t > 0 then Some (noSource t)
      else if chaining = kUseConfiguration \<and> \<not> c_chainingAllowed (t_rsConfig t) then choosePrimaryOnly now t
      else do { closestIndex \<leftarrow> chooseClosest t now lastOpTimeFetched;
                if closestIndex = -1
                then Some (noSource (setMyHeartbeatMessage now ''could not find member to sync from'' t))
                else do { m \<leftarrow> getMemberAt (t_rsConfig t) closestIndex;
                          Some (syncFrom (mc_host m) now (''syncing from: '' @ HostAndPort_toString (mc_host m)) t) } })"

subsection \<open>Requesting a source\<close>

record SyncFromResponse =
  sf_syncFromRequested :: string
  sf_warning :: bool
  sf_prevSyncTarget :: "string option"

definition syncFromCheck :: "TopologyCoordinator \<Rightarrow> HostAndPort \<Rightarrow> (ErrorCode + int) option" where
  "syncFromCheck t target =
     (if t_selfIndex t = -1 then Some (Inl NotSecondary)
      else do {
        me \<leftarrow> selfConfig t;
        if isArbiter me then Some (Inl NotSecondary)
        else if t_selfIndex t = t_currentPrimaryIndex t then Some (Inl NotSecondary)
        else do {
          let targetIndex = findMemberIndexByHostAndPort (t_rsConfig t) target;
          if targetIndex = -1 then Some (Inl NodeNotFound)
          else do {
            m \<leftarrow> getMemberAt (t_rsConfig t) targetIndex;
            if targetIndex = t_selfIndex t then Some (Inl InvalidOptions)
            else if isArbiter m then Some (Inl InvalidOptions)
            else if \<not> mc_buildIndexes m \<and> mc_buildIndexes me then Some (Inl InvalidOptions)
            else if isVoter me \<and> \<not> isVoter m then Some (Inl InvalidOptions)
            else do {
              h \<leftarrow> nth_opt (t_hbdata t) targetIndex;
              Some (if hb_authIssue h then Inl Unauthorized
                    else if hb_health h = 0 then Inl HostUnreachable
                    else Inr targetIndex) } } } })"

definition prepareSyncFromResponse ::
  "HostAndPort \<Rightarrow> OpTime \<Rightarrow> TopologyCoordinator \<Rightarrow> (Status \<times> SyncFromResponse \<times> TopologyCoordinator) option" where
  "prepareSyncFromResponse target lastOpApplied t =
     do { check \<leftarrow> syncFromCheck t target;
          let requested = HostAndPort_toString target;
          (case check of
             Inl e \<Rightarrow> Some (Some e, \<lparr>sf_syncFromRequested = requested, sf_warning = False, sf_prevSyncTarget = None\<rparr>, t)
           | Inr targetIndex \<Rightarrow>
               do { h \<leftarrow> nth_opt (t_hbdata t) targetIndex;
                    t1 \<leftarrow> setForceSyncSourceIndex targetIndex t;
                    Some (StatusOK,
                          \<lparr>sf_syncFromRequested = requested,
                           sf_warning = (ot_getSecs (hb_appliedOpTime h) + 10 < ot_getSecs lastOpApplied),
                           sf_prevSyncTarget = (if hp_empty (t_syncSource t) then None
                                                else Some (HostAndPort_toString (t_syncSource t)))\<rparr>,
                          t1) }) }"

subsection \<open>Leaving a source\<close>

record ReplSetMetadata =
  rm_currentTerm :: Term
  rm_lastOpCommitted :: OpTime
  rm_lastOpVisible :: OpTime
  rm_configVersion :: int
  rm_replicaSetId :: "nat option"
  rm_primaryIndex :: int
  rm_syncSourceIndex :: int

record OplogQueryMetadata =
  oq_lastOpCommitted :: OpTime
  oq_lastOpApplied :: OpTime
  oq_rbid :: int
  oq_primaryIndex :: int
  oq_syncSourceIndex :: int

text \<open>Is there a usable member more than the allowed lag ahead of the source?\<close>

definition laggingBehind ::
  "TopologyCoordinator \<Rightarrow> Date \<Rightarrow> MemberConfig option \<Rightarrow> 32 word \<Rightarrow> MemberConfig \<Rightarrow> MemberHeartbeatData \<Rightarrow> bool option" where
  "laggingBehind t now self goalSecs m h =
     (if \<not> up h then Some False
      else do {
        v \<leftarrow> (if isVoter m then Some True else do { me \<leftarrow> self; Some (\<not> isVoter me) });
        if \<not> v then Some False
        else do {
          b \<leftarrow> (if mc_buildIndexes m then Some True else do { me \<leftarrow> self; Some (\<not> mc_buildIndexes me) });
          Some (b \<and> readable (hb_state h) \<and> \<not> memberIsBlacklisted t m now \<and>
                uint goalSecs < ot_getSecs (hb_appliedOpTime h)) } })"

fun lagLoop :: "TopologyCoordinator \<Rightarrow> Date \<Rightarrow> 32 word \<Rightarrow> (int \<times> MemberHeartbeatData) list \<Rightarrow> bool option" where
  "lagLoop t now goalSecs [] = Some False"
| "lagLoop t now goalSecs ((i, h) # hs) =
     do { m \<leftarrow> getMemberAt (t_rsConfig t) i;
          lag \<leftarrow> laggingBehind t now (selfConfig t) goalSecs m h;
          if lag then do { ensure (i \<noteq> t_selfIndex t); Some True } else lagLoop t now goalSecs hs }"

definition shouldChangeSyncSource ::
  "TopologyCoordinator \<Rightarrow> HostAndPort \<Rightarrow> OpTime \<Rightarrow> ReplSetMetadata \<Rightarrow> OplogQueryMetadata option \<Rightarrow> Date \<Rightarrow> bool option" where
  "shouldChangeSyncSource t currentSource myLastOpTime replMetadata oqMetadata now =
     (if t_forceSyncSourceIndex t \<noteq> -1
      then do { _ \<leftarrow> getMemberAt (t_rsConfig t) (t_forceSyncSourceIndex t); Some True }
      else if c_protocolVersion (t_rsConfig t) = 1 \<and> rm_configVersion replMetadata \<noteq> c_version (t_rsConfig t) then Some True
      else do {
        let currentSourceIndex = findMemberIndexByHostAndPort (t_rsConfig t) currentSource;
        if currentSourceIndex = -1 then Some True
        else do {
          ensure (currentSourceIndex \<noteq> t_selfIndex t);
          h \<leftarrow> nth_opt (t_hbdata t) currentSourceIndex;
          let (sourceOpTime, syncSourceIndex, primaryIndex) =
            (case oqMetadata of
               Some oq \<Rightarrow> (ot_max (oq_lastOpApplied oq) (hb_appliedOpTime h), oq_syncSourceIndex oq, oq_primaryIndex oq)
             | None \<Rightarrow> (ot_max (rm_lastOpVisible replMetadata) (hb_appliedOpTime h),
                        rm_syncSourceIndex replMetadata, rm_primaryIndex replMetadata));
          if ot_isNull sourceOpTime then Some False
          else if c_protocolVersion (t_rsConfig t) = 1 \<and> syncSourceIndex = -1 \<and>
                  ot_le sourceOpTime myLastOpTime \<and> primaryIndex \<noteq> currentSourceIndex
          then do { _ \<leftarrow> (if primaryIndex \<ge> 0 then do { _ \<leftarrow> getMemberAt (t_rsConfig t) primaryIndex; Some () } else Some ());
                    Some True }
          else if o_disableMaxSyncSourceLagSecs (t_options t) then Some False
          else lagLoop t now (word_of_int (ot_getSecs sourceOpTime + o_maxSyncSourceLagSecs (t_options t)))
                 (indexed (t_hbdata t)) } })"

definition prepareReplSetMetadata :: "TopologyCoordinator \<Rightarrow> OpTime \<Rightarrow> OpTime \<Rightarrow> ReplSetMetadata" where
  "prepareReplSetMetadata t lastVisibleOpTime lastCommittedOpTime =
     \<lparr>rm_currentTerm = t_term t, rm_lastOpCommitted = lastCommittedOpTime, rm_lastOpVisible = lastVisibleOpTime,
      rm_configVersion = c_version (t_rsConfig t), rm_replicaSetId = c_replicaSetId (t_rsConfig t),
      rm_primaryIndex = t_currentPrimaryIndex t,
      rm_syncSourceIndex = findMemberIndexByHostAndPort (t_rsConfig t) (t_syncSource t)\<rparr>"

definition prepareOplogQueryMetadata :: "TopologyCoordinator \<Rightarrow> OpTime \<Rightarrow> OpTime \<Rightarrow> int \<Rightarrow> OplogQueryMetadata" where
  "prepareOplogQueryMetadata t lastCommittedOpTime lastAppliedOpTime rbid =
     \<lparr>oq_lastOpCommitted = lastCommittedOpTime, oq_lastOpApplied = lastAppliedOpTime, oq_rbid = rbid,
      oq_primaryIndex = t_currentPrimaryIndex t,
      oq_syncSourceIndex = findMemberIndexByHostAndPort (t_rsConfig t) (t_syncSource t)\<rparr>"

end
