(* ===== verification/TopologyRole.thy ===== *)
theory TopologyRole
  imports TopologyVotes TopologySync
begin

text \<open>
  Configuration changes, step-down, follower modes and maintenance mode of the topology
  coordinator, and the answer to \<open>isMaster\<close>.
\<close>

subsection \<open>Configuration\<close>

text \<open>The data of a member survives a reconfiguration if its id and host do.\<close>

definition carriedHeartbeatData ::
  "ReplSetConfig \<Rightarrow> MemberHeartbeatData list \<Rightarrow> MemberConfig \<Rightarrow> MemberHeartbeatData" where
  "carriedHeartbeatData old oldHeartbeats m =
     (case find (\<lambda>(m', h). mc_id m' = mc_id m \<and> hp_eq (mc_host m') (mc_host m)) (zip (c_members old) oldHeartbeats) of
        Some (m', h) \<Rightarrow> h
      | None \<Rightarrow> MemberHeartbeatData_default)"

definition updateHeartbeatDataForReconfig :: "ReplSetConfig \<Rightarrow> int \<Rightarrow> TopologyCoordinator \<Rightarrow> TopologyCoordinator" where
  "updateHeartbeatDataForReconfig new self t =
     t\<lparr>t_hbdata := map (\<lambda>(i, m). if i = self then MemberHeartbeatData_default
                                  else carriedHeartbeatData (t_rsConfig t) (t_hbdata t) m)
                     (indexed (c_members new))\<rparr>"

definition updateConfig :: "ReplSetConfig \<Rightarrow> int \<Rightarrow> Date \<Rightarrow> TopologyCoordinator \<Rightarrow> TopologyCoordinator option" where
  "updateConfig new self now t =
     do { ensure (t_role t \<noteq> RoleCandidate);
          ensure (self < getNumMembers new);
          newTerm \<leftarrow>
            (if \<not> c_isInitialized (t_rsConfig t) \<or> c_protocolVersion (t_rsConfig t) \<noteq> c_protocolVersion new
             then (if c_protocolVersion new = 1 then Some kInitialTerm
                   else do { ensure (c_protocolVersion new = 0); Some kUninitializedTerm })
             else Some (t_term t));
          let t1 = (updateHeartbeatDataForReconfig new self (t\<lparr>t_term := newTerm\<rparr>))
                     \<lparr>t_stepDownPending := False, t_rsConfig := new, t_selfIndex := self, t_forceSyncSourceIndex := -1\<rparr>;
          stay \<leftarrow> (if t_role t = RoleLeader \<and> self \<noteq> -1
                   then do { me \<leftarrow> selfConfig t1; Some (isElectable me) } else Some False);
          if stay then Some (t1\<lparr>t_currentPrimaryIndex := self\<rparr>)
          else do {
            let t2 = t1\<lparr>t_role := RoleFollower, t_currentPrimaryIndex := -1\<rparr>;
            single \<leftarrow> isElectableNodeInSingleNodeReplicaSet t2;
            Some (if single then t2\<lparr>t_role := RoleCandidate\<rparr> else t2) } }"

definition setStorageEngineSupportsReadCommitted :: "bool \<Rightarrow> TopologyCoordinator \<Rightarrow> TopologyCoordinator" where
  "setStorageEngineSupportsReadCommitted supported t =
     t\<lparr>t_storageEngineSupportsReadCommitted := (if supported then ReadCommittedYes else ReadCommittedNo)\<rparr>"

subsection \<open>Stepping down\<close>

definition prepareForStepDown :: "TopologyCoordinator \<Rightarrow> TopologyCoordinator" where
  "prepareForStepDown t = t\<lparr>t_stepDownPending := True\<rparr>"

definition stepDownSelfAndReplaceWith :: "int \<Rightarrow> TopologyCoordinator \<Rightarrow> TopologyCoordinator option" where
  "stepDownSelfAndReplaceWith newPrimary t =
     do { ensure (t_role t = RoleLeader);
          ensure (t_selfIndex t \<noteq> -1);
          ensure (t_selfIndex t \<noteq> newPrimary);
          ensure (t_selfIndex t = t_currentPrimaryIndex t);
          Some (t\<lparr>t_currentPrimaryIndex := newPrimary, t_role := RoleFollower, t_stepDownPending := False\<rparr>) }"

text \<open>The loop of \<open>stepDown\<close>: is there an electable member that has caught up?\<close>

fun caughtUpLoop :: "TopologyCoordinator \<Rightarrow> OpTime \<Rightarrow> int list \<Rightarrow> bool option" where
  "caughtUpLoop t lastOpApplied [] = Some False"
| "caughtUpLoop t lastOpApplied (i # is) =
     (if i = t_selfIndex t then caughtUpLoop t lastOpApplied is
      else do { reason \<leftarrow> getUnelectableReason t i lastOpApplied;
                ok \<leftarrow> (if reason = 0
                       then do { h \<leftarrow> nth_opt (t_hbdata t) i; Some (ot_ge (hb_appliedOpTime h) lastOpApplied) }
                       else Some False);
                if ok then Some True else caughtUpLoop t lastOpApplied is })"

definition stepDown :: "Date \<Rightarrow> bool \<Rightarrow> OpTime \<Rightarrow> TopologyCoordinator \<Rightarrow> (bool \<times> TopologyCoordinator) option" where
  "stepDown until force lastOpApplied t =
     do { ok \<leftarrow> (if force then Some True
                 else caughtUpLoop t lastOpApplied (map int [0..<length (c_members (t_rsConfig t))]));
          if ok then do { t1 \<leftarrow> stepDownSelfAndReplaceWith (-1) (t\<lparr>t_stepDownUntil := until\<rparr>); Some (True, t1) }
          else Some (False, t) }"

text \<open>
  The members other than this node that report themselves as primary; two of them are treated
  as none by \<open>stepDownIfPending\<close>.
\<close>

definition remotePrimaries :: "TopologyCoordinator \<Rightarrow> int list" where
  "remotePrimaries t = map fst (filter (\<lambda>(i, h). i \<noteq> t_selfIndex t \<and> seenPrimary h) (indexed (t_hbdata t)))"

definition stepDownIfPending :: "TopologyCoordinator \<Rightarrow> (bool \<times> TopologyCoordinator) option" where
  "stepDownIfPending t =
     (if \<not> t_stepDownPending t then Some (False, t)
      else do { t1 \<leftarrow> stepDownSelfAndReplaceWith
                        (case remotePrimaries t of [i] \<Rightarrow> i | _ \<Rightarrow> -1) t;
                Some (True, t1) })"

subsection \<open>Follower modes\<close>

definition setFollowerMode :: "MemberState \<Rightarrow> TopologyCoordinator \<Rightarrow> TopologyCoordinator option" where
  "setFollowerMode newMode t =
     do { ensure (t_role t = RoleFollower);
          ensure (newMode \<in> {RS_RECOVERING, RS_ROLLBACK, RS_SECONDARY, RS_STARTUP2});
          let t1 = t\<lparr>t_followerMode := newMode\<rparr>;
          if newMode \<noteq> RS_SECONDARY then Some t1
          else do { single \<leftarrow> isElectableNodeInSingleNodeReplicaSet t1;
                    Some (if single then t1\<lparr>t_role := RoleCandidate\<rparr> else t1) } }"

definition adjustMaintenanceCountBy :: "int \<Rightarrow> TopologyCoordinator \<Rightarrow> TopologyCoordinator option" where
  "adjustMaintenanceCountBy inc t =
     do { ensure (t_role t = RoleFollower);
          let calls = t_maintenanceModeCalls t + inc;
          ensure (calls \<le> int_max \<and> calls \<ge> 0);
          Some (t\<lparr>t_maintenanceModeCalls := calls\<rparr>) }"

datatype PrepareFreezeResponseResult = kNoAction | kElectSelf

definition prepareFreezeResponse ::
  "Date \<Rightarrow> int \<Rightarrow> TopologyCoordinator \<Rightarrow> (PrepareFreezeResponseResult StatusWith \<times> TopologyCoordinator) option" where
  "prepareFreezeResponse now secs t =
     (if t_role t \<noteq> RoleFollower then Some (Inl NotSecondary, t)
      else if secs = 0
      then do { let t1 = t\<lparr>t_stepDownUntil := now\<rparr>;
                single \<leftarrow> isElectableNodeInSingleNodeReplicaSet t1;
                Some (if single then (Inr kElectSelf, t1\<lparr>t_role := RoleCandidate\<rparr>) else (Inr kNoAction, t1)) }
      else Some (Inr kNoAction, t\<lparr>t_stepDownUntil := max (t_stepDownUntil t) (now + secs * 1000)\<rparr>))"

definition becomeCandidateIfStepdownPeriodOverAndSingleNodeSet ::
  "Date \<Rightarrow> TopologyCoordinator \<Rightarrow> (bool \<times> TopologyCoordinator) option" where
  "becomeCandidateIfStepdownPeriodOverAndSingleNodeSet now t =
     (if t_stepDownUntil t > now then Some (False, t)
      else do { single \<leftarrow> isElectableNodeInSingleNodeReplicaSet t;
                Some (if single then (True, t\<lparr>t_role := RoleCandidate\<rparr>) else (False, t)) })"

subsection \<open>The answer to \<open>isMaster\<close>\<close>

record IsMasterResponse =
  im_noConfig :: bool
  im_hosts :: "HostAndPort list"
  im_arbiters :: "HostAndPort list"
  im_passives :: "HostAndPort list"
  im_setName :: string
  im_version :: "int option"
  im_isMaster :: bool
  im_isSecondary :: bool
  im_primary :: "HostAndPort option"
  im_arbiterOnly :: bool
  im_passive :: bool
  im_slaveDelay :: "int option"
  im_hidden :: bool
  im_buildIndexes :: bool
  im_tags :: "(string \<times> string) list"
  im_me :: "HostAndPort option"
  im_electionId :: "OID option"

definition IsMasterResponse_default :: IsMasterResponse where
  "IsMasterResponse_default =
     \<lparr>im_noConfig = False, im_hosts = [], im_arbiters = [], im_passives = [], im_setName = [], im_version = None,
      im_isMaster = False, im_isSecondary = False, im_primary = None, im_arbiterOnly = False, im_passive = False,
      im_slaveDelay = None, im_hidden = False, im_buildIndexes = True, im_tags = [], im_me = None, im_electionId = None\<rparr>"

definition visibleMembers :: "ReplSetConfig \<Rightarrow> MemberConfig list" where
  "visibleMembers c = filter (\<lambda>m. \<not> (mc_hidden m \<or> mc_slaveDelay m > 0)) (c_members c)"

definition memberTags :: "MemberConfig \<Rightarrow> TagConfig \<Rightarrow> (string \<times> string) list option" where
  "memberTags m tc =
     do { tagged \<leftarrow> hasTags m tc;
          if tagged
          then do { kvs \<leftarrow> mapM (\<lambda>tag. do { k \<leftarrow> getTagKey tag tc;
                                         if internalKey k then Some []
                                         else do { v \<leftarrow> getTagValue tag tc; Some [(k, v)] } }) (mc_tags m);
                    Some (concat kvs) }
          else Some [] }"

definition fillIsMasterForReplSet :: "TopologyCoordinator \<Rightarrow> IsMasterResponse option" where
  "fillIsMasterForReplSet t =
     do { myState \<leftarrow> getMemberState t;
          let c = t_rsConfig t;
          if \<not> c_isInitialized c then Some (IsMasterResponse_default\<lparr>im_noConfig := True\<rparr>)
          else do {
            let r0 = IsMasterResponse_default
                 \<lparr>im_hosts := [mc_host m. m \<leftarrow> visibleMembers c, isElectable m],
                  im_arbiters := [mc_host m. m \<leftarrow> visibleMembers c, \<not> isElectable m \<and> isArbiter m],
                  im_passives := [mc_host m. m \<leftarrow> visibleMembers c, \<not> isElectable m \<and> \<not> isArbiter m],
                  im_setName := c_replSetName c\<rparr>;
            if myState = RS_REMOVED then Some (r0\<lparr>im_noConfig := True\<rparr>)
            else do {
              curPrimary \<leftarrow> currentPrimaryMember t;
              me \<leftarrow> selfConfig t;
              tags \<leftarrow> memberTags me (c_tagConfig c);
              primary \<leftarrow> iAmPrimary t;
              Some (r0\<lparr>im_version := Some (c_version c), im_isMaster := (myState = RS_PRIMARY),
                       im_isSecondary := (myState = RS_SECONDARY), im_primary := map_option mc_host curPrimary,
                       im_arbiterOnly := isArbiter me, im_passive := (\<not> isArbiter me \<and> d_eq (mc_priority me) (Num 0)),
                       im_slaveDelay := (if mc_slaveDelay me > 0 then Some (mc_slaveDelay me) else None),
                       im_hidden := mc_hidden me, im_buildIndexes := mc_buildIndexes me, im_tags := tags,
                       im_me := Some (mc_host me),
                       im_electionId := (if primary then Some (t_electionId t) else None)\<rparr>) } } }"

end
