(* ===== verification/TopologyHeartbeat.thy ===== *)
theory TopologyHeartbeat
  imports TopologyRole
begin

text \<open>
  Heartbeats: the requests a node sends, the answers it gives, and what it does with the answers
  it gets, for both protocol versions. A \<open>ReplSetHeartbeatArgs\<close> and a
  \<open>ReplSetHeartbeatArgsV1\<close> carry the same fields here; the protocol version of the former and
  the term of the latter are separate fields.
\<close>

record ReplSetHeartbeatArgs =
  ha_protocolVersion :: int
  ha_setName :: string
  ha_configVersion :: int
  ha_senderId :: int
  ha_senderHost :: "HostAndPort option"
  ha_term :: Term

definition kDefaultHeartbeatTimeoutPeriod :: Millis where "kDefaultHeartbeatTimeoutPeriod = 10 * 1000"

definition kMaxHeartbeatRetries :: int where "kMaxHeartbeatRetries = 2"

subsection \<open>Requests\<close>

text \<open>The bookkeeping both request builders share: a new round of attempts, or one more retry.\<close>

definition heartbeatRound :: "Date \<Rightarrow> HostAndPort \<Rightarrow> TopologyCoordinator \<Rightarrow> Millis \<times> TopologyCoordinator" where
  "heartbeatRound now target t =
     (let p = getPingStats t target; elapsed = now - ps_lastHeartbeatStartDate p in
      if \<not> c_isInitialized (t_rsConfig t) \<or> ps_numFailuresSinceLastStart p > kMaxHeartbeatRetries \<or>
         elapsed \<ge> getHeartbeatTimeoutPeriodMillis (t_rsConfig t)
      then (0, putPingStats target (ps_start now p) t)
      else (elapsed, putPingStats target p t))"

definition heartbeatTimeout :: "TopologyCoordinator \<Rightarrow> Millis" where
  "heartbeatTimeout t =
     (if c_isInitialized (t_rsConfig t) then getHeartbeatTimeoutPeriodMillis (t_rsConfig t)
      else kDefaultHeartbeatTimeoutPeriod)"

definition heartbeatSender :: "TopologyCoordinator \<Rightarrow> (int \<times> HostAndPort option) option" where
  "heartbeatSender t =
     (if t_selfIndex t \<ge> 0 then do { me \<leftarrow> selfConfig t; Some (mc_id me, Some (mc_host me)) } else Some (-1, None))"

definition prepareHeartbeatRequest ::
  "Date \<Rightarrow> string \<Rightarrow> HostAndPort \<Rightarrow> TopologyCoordinator \<Rightarrow> (ReplSetHeartbeatArgs \<times> Millis \<times> TopologyCoordinator) option" where
  "prepareHeartbeatRequest now ourSetName target t =
     do { let (alreadyElapsed, t1) = heartbeatRound now target t;
          args \<leftarrow>
            (if c_isInitialized (t_rsConfig t1)
             then do { (senderId, host) \<leftarrow> heartbeatSender t1;
                       Some \<lparr>ha_protocolVersion = 1, ha_setName = c_replSetName (t_rsConfig t1),
                             ha_configVersion = c_version (t_rsConfig t1), ha_senderId = senderId,
                             ha_senderHost = host, ha_term = -1\<rparr> }
             else Some \<lparr>ha_protocolVersion = 1, ha_setName = ourSetName, ha_configVersion = -2, ha_senderId = -1,
                        ha_senderHost = None, ha_term = -1\<rparr>);
          Some (args, heartbeatTimeout t1 - alreadyElapsed, t1) }"

definition prepareHeartbeatRequestV1 ::
  "Date \<Rightarrow> string \<Rightarrow> HostAndPort \<Rightarrow> TopologyCoordinator \<Rightarrow> (ReplSetHeartbeatArgs \<times> Millis \<times> TopologyCoordinator) option" where
  "prepareHeartbeatRequestV1 now ourSetName target t =
     do { let (alreadyElapsed, t1) = heartbeatRound now target t;
          args \<leftarrow>
            (if c_isInitialized (t_rsConfig t1)
             then do { (senderId, host) \<leftarrow> heartbeatSender t1;
                       Some \<lparr>ha_protocolVersion = 1, ha_setName = c_replSetName (t_rsConfig t1),
                             ha_configVersion = c_version (t_rsConfig t1), ha_senderId = senderId,
                             ha_senderHost = host, ha_term = t_term t1\<rparr> }
             else Some \<lparr>ha_protocolVersion = 1, ha_setName = ourSetName, ha_configVersion = -2, ha_senderId = -1,
                        ha_senderHost = None, ha_term = kInitialTerm\<rparr>);
          Some (args, heartbeatTimeout t1 - alreadyElapsed, t1) }"

subsection \<open>Answers\<close>

text \<open>The last part of both answers: deliver a newer configuration, note who asked.\<close>

definition noteHeartbeatRecv :: "Date \<Rightarrow> int \<Rightarrow> TopologyCoordinator \<Rightarrow> (MemberHeartbeatData \<times> TopologyCoordinator) option" where
  "noteHeartbeatRecv now from t =
     do { ensure (from \<noteq> t_selfIndex t);
          h \<leftarrow> nth_opt (t_hbdata t) from;
          Some (h, t\<lparr>t_hbdata := (t_hbdata t)[nat from := h\<lparr>hb_lastHeartbeatRecv := now\<rparr>]\<rparr>) }"

definition answerConfig ::
  "Date \<Rightarrow> ReplSetHeartbeatArgs \<Rightarrow> bool \<Rightarrow> ReplSetHeartbeatResponse \<Rightarrow> TopologyCoordinator \<Rightarrow>
   (Status \<times> ReplSetHeartbeatResponse \<times> TopologyCoordinator) option" where
  "answerConfig now args reportDisagreement r t =
     (if \<not> c_isInitialized (t_rsConfig t) then Some (StatusOK, r\<lparr>r_configVersion := -2\<rparr>, t)
      else do {
        let v = c_version (t_rsConfig t);
        let r1 = r\<lparr>r_configVersion := v, r_config := (if v > ha_configVersion args then Some (t_rsConfig t) else r_config r)\<rparr>;
        let from = (if v = ha_configVersion args \<and> ha_senderId args \<noteq> -1 then getMemberIndex t (ha_senderId args) else -1);
        if from = -1 then Some (StatusOK, r1, t)
        else do { (h, t1) \<leftarrow> noteHeartbeatRecv now from t;
                  Some (StatusOK, if reportDisagreement \<and> \<not> up h then r1\<lparr>r_stateDisagreement := True\<rparr> else r1, t1) } })"

definition sameIdCheck :: "ReplSetHeartbeatArgs \<Rightarrow> bool \<Rightarrow> TopologyCoordinator \<Rightarrow> MemberState \<Rightarrow> Status option" where
  "sameIdCheck args checkName t myState =
     (if t_selfIndex t = -1 then Some (failIf (myState = RS_REMOVED) InvalidReplicaSetConfig)
      else do { ensure (\<not> checkName \<or> c_replSetName (t_rsConfig t) = ha_setName args);
                me \<leftarrow> selfConfig t;
                Some (failIf (ha_senderId args = mc_id me) BadValue) })"

definition prepareHeartbeatResponse ::
  "Date \<Rightarrow> ReplSetHeartbeatArgs \<Rightarrow> string \<Rightarrow> OpTime \<Rightarrow> OpTime \<Rightarrow> TopologyCoordinator \<Rightarrow>
   (Status \<times> ReplSetHeartbeatResponse \<times> TopologyCoordinator) option" where
  "prepareHeartbeatResponse now args ourSetName lastOpApplied lastOpDurable t =
     (let r0 = ReplSetHeartbeatResponse_default in
      if ha_protocolVersion args \<noteq> 1 then Some (Some BadValue, r0, t)
      else if ourSetName \<noteq> ha_setName args then Some (Some InconsistentReplicaSetNames, r0\<lparr>r_mismatch := True\<rparr>, t)
      else do {
        myState \<leftarrow> getMemberState t;
        st \<leftarrow> sameIdCheck args True t myState;
        if st \<noteq> StatusOK then Some (st, r0, t)
        else do {
          reason \<leftarrow> getMyUnelectableReason t now lastOpApplied False;
          answerConfig now args True
            (r0\<lparr>r_isReplSet := True, r_setName := ourSetName, r_state := Some myState,
                r_electionTime := (if myState = RS_PRIMARY then Some (t_electionTime t) else None),
                r_electable := Some (reason = 0), r_hbmsg := getHbmsg t now, r_time := Some (trunc_div now 1000),
                r_appliedOpTime := Some lastOpApplied, r_durableOpTime := Some lastOpDurable,
                r_syncingTo := (if hp_empty (t_syncSource t) then HostAndPort_empty else t_syncSource t)\<rparr>) t } })"

definition prepareHeartbeatResponseV1 ::
  "Date \<Rightarrow> ReplSetHeartbeatArgs \<Rightarrow> string \<Rightarrow> OpTime \<Rightarrow> OpTime \<Rightarrow> TopologyCoordinator \<Rightarrow>
   (Status \<times> ReplSetHeartbeatResponse \<times> TopologyCoordinator) option" where
  "prepareHeartbeatResponseV1 now args ourSetName lastOpApplied lastOpDurable t =
     (let r0 = ReplSetHeartbeatResponse_default in
      if ourSetName \<noteq> ha_setName args then Some (Some InconsistentReplicaSetNames, r0, t)
      else do {
        myState \<leftarrow> getMemberState t;
        st \<leftarrow> sameIdCheck args False t myState;
        if st \<noteq> StatusOK then Some (st, r0, t)
        else do {
          primary \<leftarrow> currentPrimaryMember t;
          answerConfig now args False
            (r0\<lparr>r_setName := ourSetName, r_state := Some myState,
                r_electionTime := (if myState = RS_PRIMARY then Some (t_electionTime t) else None),
                r_appliedOpTime := Some lastOpApplied, r_durableOpTime := Some lastOpDurable,
                r_primaryId := map_option mc_id primary, r_term := t_term t,
                r_syncingTo := (if hp_empty (t_syncSource t) then HostAndPort_empty else t_syncSource t)\<rparr>) t } })"

subsection \<open>Who is primary: protocol version 1\<close>

text \<open>The reported primary with the highest term; the first of them if terms are equal.\<close>

fun primaryScan :: "(int \<times> MemberHeartbeatData) list \<Rightarrow> (int \<times> MemberHeartbeatData) option \<Rightarrow> (int \<times> MemberHeartbeatData) option" where
  "primaryScan [] best = best"
| "primaryScan ((i, h) # hs) best =
     primaryScan hs
       (if seenPrimary h \<and> (case best of None \<Rightarrow> True | Some (j, h') \<Rightarrow> hb_term h' < hb_term h) then Some (i, h) else best)"

definition updatePrimaryFromHBDataV1 ::
  "int \<Rightarrow> Date \<Rightarrow> TopologyCoordinator \<Rightarrow> (HeartbeatResponseAction \<times> TopologyCoordinator) option" where
  "updatePrimaryFromHBDataV1 updatedConfigIndex now t =
     do { ensure (updatedConfigIndex \<noteq> t_selfIndex t);
          if t_selfIndex t = -1 then Some (makeNoAction, t)
          else if t_currentPrimaryIndex t = t_selfIndex t then Some (makeNoAction, t)
          else (case primaryScan (indexed (t_hbdata t)) None of
                  None \<Rightarrow> Some (makeNoAction, t\<lparr>t_currentPrimaryIndex := -1\<rparr>)
                | Some (primaryIndex, h) \<Rightarrow>
                    do { let t1 = setMyHeartbeatMessage now [] (t\<lparr>t_currentPrimaryIndex := primaryIndex\<rparr>);
                         takeover \<leftarrow>
                           (if hb_term h = t_term t1 \<and> updatedConfigIndex = primaryIndex
                            then do { pm \<leftarrow> getMemberAt (t_rsConfig t1) primaryIndex;
                                      me \<leftarrow> getMemberAt (t_rsConfig t1) (t_selfIndex t1);
                                      Some (d_less (mc_priority pm) (mc_priority me)) }
                            else Some False);
                         Some (if takeover then makePriorityTakeoverAction else makeNoAction, t1) }) }"

subsection \<open>Who is primary: protocol version 0\<close>

type_synonym PrimaryUpdate = "(HeartbeatResponseAction \<times> TopologyCoordinator) option"

text \<open>Asking this node to step down, once.\<close>

definition stepDownSelfOnce :: "TopologyCoordinator \<Rightarrow> HeartbeatResponseAction \<times> TopologyCoordinator" where
  "stepDownSelfOnce t =
     (if t_stepDownPending t then (makeNoAction, t)
      else (makeStepDownSelfAction (t_selfIndex t), t\<lparr>t_stepDownPending := True\<rparr>))"

text \<open>
  The highest priority check: \<open>Some (Some r)\<close> if the function returns \<open>r\<close> from it,
  \<open>Some None\<close> if it goes on.
\<close>

definition highestPriorityCheck ::
  "Date \<Rightarrow> OpTime \<Rightarrow> TopologyCoordinator \<Rightarrow> (HeartbeatResponseAction \<times> TopologyCoordinator) option option" where
  "highestPriorityCheck now lastOpApplied t =
     (if t_currentPrimaryIndex t = -1 then Some None
      else do {
        highest \<leftarrow> getHighestPriorityElectableIndex t now lastOpApplied;
        if highest = -1 then Some None
        else do {
          pm \<leftarrow> getMemberAt (t_rsConfig t) (t_currentPrimaryIndex t);
          hm \<leftarrow> getMemberAt (t_rsConfig t) highest;
          hOpTime \<leftarrow> (if highest = t_selfIndex t then Some lastOpApplied
                      else do { h \<leftarrow> nth_opt (t_hbdata t) highest; Some (hb_appliedOpTime h) });
          if \<not> (d_less (mc_priority pm) (mc_priority hm) \<and> isOpTimeCloseEnoughToLatestToElect t hOpTime lastOpApplied)
          then Some None
          else do {
            primary \<leftarrow> iAmPrimary t;
            Some (if primary
                  then Some (if t_stepDownPending t then (makeNoAction, t)
                             else let t1 = t\<lparr>t_stepDownPending := True\<rparr>;
                                      until = now + leaseTime + c_heartbeatInterval (t_rsConfig t) in
                                  (makeStepDownSelfAction (t_selfIndex t1),
                                   if t_electionSleepUntil t1 < until then t1\<lparr>t_electionSleepUntil := until\<rparr> else t1))
                  else if highest = t_selfIndex t \<and> t_electionSleepUntil t \<le> now
                  then Some (makeStepDownRemoteAction (t_currentPrimaryIndex t), t\<lparr>t_currentPrimaryIndex := -1\<rparr>)
                  else None) } } })"

text \<open>The scan for remote primaries.\<close>

definition remotePrimaryCheck :: "Date \<Rightarrow> TopologyCoordinator \<Rightarrow> (HeartbeatResponseAction \<times> TopologyCoordinator) option option" where
  "remotePrimaryCheck now t =
     (case remotePrimaries t of
        [] \<Rightarrow> Some None
      | [remote] \<Rightarrow>
          if t_currentPrimaryIndex t = remote then Some (Some (makeNoAction, t))
          else do {
            let t1 = setMyHeartbeatMessage now [] t;
            primary \<leftarrow> iAmPrimary t1;
            if primary
            then do { h \<leftarrow> nth_opt (t_hbdata t1) remote;
                      Some (Some (if ts_less (t_electionTime t1) (hb_electionTime h) then stepDownSelfOnce t1
                                  else (makeStepDownRemoteAction remote, t1))) }
            else Some (Some (makeNoAction, t1\<lparr>t_currentPrimaryIndex := remote\<rparr>)) }
      | _ \<Rightarrow> Some (Some (makeNoAction, t)))"

text \<open>Phase 2: nobody else is primary.\<close>

definition standOrRelinquish :: "MemberState \<Rightarrow> Date \<Rightarrow> OpTime \<Rightarrow> TopologyCoordinator \<Rightarrow> PrimaryUpdate" where
  "standOrRelinquish originalState now lastOpApplied t =
     do { primary \<leftarrow> iAmPrimary t;
          if primary
          then do { reason \<leftarrow> getMyUnelectableReason t now lastOpApplied False;
                    Some (if and CannotSeeMajority reason \<noteq> 0 then stepDownSelfOnce t else (makeNoAction, t)) }
          else do {
            ensure (t_currentPrimaryIndex t = -1);
            currentState \<leftarrow> getMemberState t;
            if originalState = RS_RECOVERING \<and> currentState = RS_SECONDARY then Some (makeNoAction, t)
            else do {
              st \<leftarrow> checkShouldStandForElection t now lastOpApplied;
              if st \<noteq> StatusOK then Some (makeNoAction, t)
              else do { (st1, t1) \<leftarrow> becomeCandidateIfElectable now lastOpApplied False t;
                        ensure (st1 = StatusOK);
                        Some (makeElectAction, t1) } } } }"

definition updatePrimaryFromHBData :: "int \<Rightarrow> MemberState \<Rightarrow> Date \<Rightarrow> OpTime \<Rightarrow> TopologyCoordinator \<Rightarrow> PrimaryUpdate" where
  "updatePrimaryFromHBData updatedConfigIndex originalState now lastOpApplied t =
     do { ensure (updatedConfigIndex \<noteq> t_selfIndex t);
          if t_selfIndex t = -1 then Some (makeNoAction, t)
          else do {
            t1 \<leftarrow> (if updatedConfigIndex = t_currentPrimaryIndex t
                   then do { h \<leftarrow> nth_opt (t_hbdata t) updatedConfigIndex;
                             Some (if seenPrimary h then t else t\<lparr>t_currentPrimaryIndex := -1\<rparr>) }
                   else Some t);
            r1 \<leftarrow> highestPriorityCheck now lastOpApplied t1;
            (case r1 of
               Some r \<Rightarrow> Some r
             | None \<Rightarrow>
                 do { r2 \<leftarrow> remotePrimaryCheck now t1;
                      (case r2 of Some r \<Rightarrow> Some r
                       | None \<Rightarrow> standOrRelinquish originalState now lastOpApplied t1) }) } }"

subsection \<open>Processing an answer\<close>

definition isAuthError :: "ErrorCode \<Rightarrow> bool" where
  "isAuthError e \<longleftrightarrow> e = Unauthorized \<or> e = AuthenticationFailed"

definition recordPing :: "Millis \<Rightarrow> ReplSetHeartbeatResponse StatusWith \<Rightarrow> PingStats \<Rightarrow> PingStats option" where
  "recordPing rtt resp p =
     (case resp of Inl e \<Rightarrow> if isAuthError e then Some (ps_hit rtt p) else ps_miss p
      | Inr r \<Rightarrow> Some (ps_hit rtt p))"

definition nextHeartbeatInterval :: "TopologyCoordinator \<Rightarrow> Millis option" where
  "nextHeartbeatInterval t =
     (if c_protocolVersion (t_rsConfig t) \<noteq> 1 then Some (c_heartbeatInterval (t_rsConfig t))
      else do {
        state \<leftarrow> getMemberState t;
        fast \<leftarrow> (if state = RS_ARBITER then Some True
                 else if \<not> hp_empty (t_syncSource t) then Some False
                 else do { primary \<leftarrow> iAmPrimary t; Some (\<not> primary) });
        Some (if fast then trunc_div (c_electionTimeoutPeriod (t_rsConfig t)) 2 else c_heartbeatInterval (t_rsConfig t)) })"

definition newerConfig :: "TopologyCoordinator \<Rightarrow> ReplSetHeartbeatResponse StatusWith \<Rightarrow> bool" where
  "newerConfig t resp =
     (case resp of Inl e \<Rightarrow> False
      | Inr r \<Rightarrow> (case r_config r of None \<Rightarrow> False
                 | Some c \<Rightarrow> c_version c > (if c_isInitialized (t_rsConfig t) then c_version (t_rsConfig t) else -2)))"

text \<open>The reason of a failed heartbeat is kept as the member's message; it is a parameter here.\<close>

definition recordHeartbeat ::
  "Date \<Rightarrow> string \<Rightarrow> ReplSetHeartbeatResponse StatusWith \<Rightarrow> bool \<Rightarrow> MemberHeartbeatData \<Rightarrow> MemberHeartbeatData" where
  "recordHeartbeat now failure resp lastAttempt h =
     (case resp of
        Inl e \<Rightarrow> if isAuthError e then setAuthIssue now h
                 else if lastAttempt then setDownValues now failure h else h
      | Inr r \<Rightarrow> setUpValues now r h)"

definition processHeartbeatResponse ::
  "Date \<Rightarrow> Millis \<Rightarrow> HostAndPort \<Rightarrow> string \<Rightarrow> ReplSetHeartbeatResponse StatusWith \<Rightarrow> OpTime \<Rightarrow> TopologyCoordinator \<Rightarrow> PrimaryUpdate" where
  "processHeartbeatResponse now rtt target failure resp myLastOpApplied t0 =
     do { originalState \<leftarrow> getMemberState t0;
          ensure (ps_lastHeartbeatStartDate (getPingStats t0 target) \<noteq> 0);
          p \<leftarrow> recordPing rtt resp (getPingStats t0 target);
          let t = putPingStats target p t0;
          interval \<leftarrow> nextHeartbeatInterval t;
          let alreadyElapsed = now - ps_lastHeartbeatStartDate p;
          let retry = (ps_numFailuresSinceLastStart p \<le> kMaxHeartbeatRetries \<and>
                       alreadyElapsed < getHeartbeatTimeoutPeriodMillis (t_rsConfig t));
          let next = (if retry then now else now + interval);
          if newerConfig t resp then Some (setNextHeartbeatStartDate next makeReconfigAction, t)
          else if \<not> c_isInitialized (t_rsConfig t) then Some (setNextHeartbeatStartDate next makeNoAction, t)
          else do {
            let memberIndex = findMemberIndexByHostAndPort (t_rsConfig t) target;
            if memberIndex = -1 then Some (setNextHeartbeatStartDate next makeNoAction, t)
            else do {
              ensure (memberIndex \<noteq> t_selfIndex t);
              h \<leftarrow> nth_opt (t_hbdata t) memberIndex;
              _ \<leftarrow> getMemberAt (t_rsConfig t) memberIndex;
              let t1 = t\<lparr>t_hbdata := (t_hbdata t)[nat memberIndex := recordHeartbeat now failure resp (\<not> retry) h]\<rparr>;
              (action, t2) \<leftarrow>
                (if c_protocolVersion (t_rsConfig t1) = 0
                 then updatePrimaryFromHBData memberIndex originalState now myLastOpApplied t1
                 else updatePrimaryFromHBDataV1 memberIndex now t1);
              Some (setNextHeartbeatStartDate next action, t2) } } }"

definition setMemberAsDown :: "Date \<Rightarrow> int \<Rightarrow> OpTime \<Rightarrow> TopologyCoordinator \<Rightarrow> PrimaryUpdate" where
  "setMemberAsDown now memberIndex myLastOpApplied t =
     do { ensure (memberIndex \<noteq> t_selfIndex t);
          ensure (memberIndex \<noteq> -1);
          ensure (t_currentPrimaryIndex t = t_selfIndex t);
          h \<leftarrow> nth_opt (t_hbdata t) memberIndex;
          let t1 = t\<lparr>t_hbdata := (t_hbdata t)[nat memberIndex := setDownValues now ''no response within election timeout period'' h]\<rparr>;
          reason \<leftarrow> getMyUnelectableReason t1 now myLastOpApplied False;
          Some (if and CannotSeeMajority reason \<noteq> 0 then stepDownSelfOnce t1 else (makeNoAction, t1)) }"

definition restartHeartbeats :: "TopologyCoordinator \<Rightarrow> TopologyCoordinator" where
  "restartHeartbeats t = t\<lparr>t_hbdata := map hb_restart (t_hbdata t)\<rparr>"

end
