(* ===== verification/TopologyInv.thy ===== *)
theory TopologyInv
  imports TopologyHeartbeat
begin

text \<open>
  The invariant of the topology coordinator and the fact that the functions that read the state
  never abort under it. A configuration is well formed if it passed validation and no priority
  is NaN (validation does not exclude NaN).
\<close>

section \<open>Masks\<close>

text \<open>The masks that only use the bits of the enumeration.\<close>

definition known_mask :: "UnelectableReasonMask \<Rightarrow> bool" where
  "known_mask r \<longleftrightarrow> and r 2047 = r"

lemma known_mask_zero [simp]: "known_mask 0"
  by (simp add: known_mask_def)

lemma known_mask_orIf [simp]: "known_mask x \<Longrightarrow> known_mask r \<Longrightarrow> known_mask (orIf b x r)"
  by (simp add: known_mask_def orIf_def bit.conj_disj_distrib2)

lemma known_mask_and: "known_mask r \<Longrightarrow> known_mask (and r x)"
  unfolding known_mask_def by (metis and.assoc and.commute)

lemma known_mask_bits [simp]:
  "known_mask CannotSeeMajority" "known_mask NotCloseEnoughToLatestOptime" "known_mask ArbiterIAm"
  "known_mask NotSecondaryBit" "known_mask NoPriority" "known_mask StepDownPeriodActive" "known_mask NoData"
  "known_mask NotInitialized" "known_mask VotedTooRecently" "known_mask RefusesToStand"
  "known_mask NotCloseEnoughToLatestForPriorityTakeover"
  by (simp_all add: known_mask_def mask_defs)

lemma orIf_zero [simp]: "orIf b x r = 0 \<longleftrightarrow> (b \<longrightarrow> x = 0) \<and> r = 0"
  by (auto simp: orIf_def or_eq_0_iff)

lemma orIf_bit: "and y (orIf b x r) = 0 \<longleftrightarrow> (b \<longrightarrow> and y x = 0) \<and> and y r = 0"
  by (auto simp: orIf_def bit.conj_disj_distrib or_eq_0_iff)

lemma bits_nonzero [simp]:
  "CannotSeeMajority \<noteq> 0" "NotCloseEnoughToLatestOptime \<noteq> 0" "ArbiterIAm \<noteq> 0" "NotSecondaryBit \<noteq> 0"
  "NoPriority \<noteq> 0" "StepDownPeriodActive \<noteq> 0" "NoData \<noteq> 0" "NotInitialized \<noteq> 0" "VotedTooRecently \<noteq> 0"
  "RefusesToStand \<noteq> 0" "NotCloseEnoughToLatestForPriorityTakeover \<noteq> 0"
  by (simp_all add: mask_defs)

lemma majority_bit [simp]:
  "and CannotSeeMajority CannotSeeMajority \<noteq> 0" "and CannotSeeMajority NotCloseEnoughToLatestOptime = 0"
  "and CannotSeeMajority ArbiterIAm = 0" "and CannotSeeMajority NotSecondaryBit = 0"
  "and CannotSeeMajority NoPriority = 0" "and CannotSeeMajority StepDownPeriodActive = 0"
  "and CannotSeeMajority NoData = 0" "and CannotSeeMajority NotInitialized = 0"
  "and CannotSeeMajority VotedTooRecently = 0" "and CannotSeeMajority RefusesToStand = 0"
  "and CannotSeeMajority NotCloseEnoughToLatestForPriorityTakeover = 0"
  by (simp_all add: mask_defs)

lemma known_mask_split:
  assumes "known_mask r" "r \<noteq> 0"
  shows "\<exists>x\<in>{NoData, VotedTooRecently, CannotSeeMajority, ArbiterIAm, NoPriority, StepDownPeriodActive, NotSecondaryBit,
     NotCloseEnoughToLatestOptime, NotCloseEnoughToLatestForPriorityTakeover, NotInitialized, RefusesToStand}. and r x \<noteq> 0"
proof (rule ccontr)
  assume "\<not> ?thesis"
  then have z: "and r 1 = 0" "and r 2 = 0" "and r 4 = 0" "and r 8 = 0" "and r 16 = 0" "and r 32 = 0" "and r 64 = 0"
    "and r 128 = 0" "and r 256 = 0" "and r 512 = 0" "and r 1024 = 0"
    by (simp_all add: mask_defs)
  have "(2047 :: 32 word) = or 1 (or 2 (or 4 (or 8 (or 16 (or 32 (or 64 (or 128 (or 256 (or 512 1024)))))))))"
    by simp
  then have "and r 2047 = 0" by (simp only: bit.conj_disj_distrib z or.left_neutral)
  then show False using assms by (simp add: known_mask_def)
qed

lemma getUnelectableReasonString_total:
  assumes "known_mask r" "r \<noteq> 0"
  shows "\<exists>s. getUnelectableReasonString t r = Some s"
  using known_mask_split [OF assms] assms(2) by (auto simp: getUnelectableReasonString_def)

section \<open>The invariant\<close>

definition cfg_ok :: "ReplSetConfig \<Rightarrow> bool" where
  "cfg_ok c \<longleftrightarrow>
     (if c_isInitialized c
      then (c_protocolVersion c = 0 \<or> c_protocolVersion c = 1) \<and>
           (\<forall>i<length (c_members c). \<forall>j<length (c_members c). i \<noteq> j \<longrightarrow>
              mc_id (c_members c ! i) \<noteq> mc_id (c_members c ! j) \<and>
              \<not> hp_eq (mc_host (c_members c ! i)) (mc_host (c_members c ! j))) \<and>
           (\<forall>m\<in>set (c_members c). mc_priority m \<noteq> NaN)
      else c_members c = [])"

text \<open>An index into the member list, or -1.\<close>

definition index_ok :: "ReplSetConfig \<Rightarrow> int \<Rightarrow> bool" where
  "index_ok c i \<longleftrightarrow> -1 \<le> i \<and> i < getNumMembers c"

definition roles_ok :: "Role \<Rightarrow> int \<Rightarrow> int \<Rightarrow> bool" where
  "roles_ok role self primary \<longleftrightarrow>
     (role = RoleLeader \<longrightarrow> self \<noteq> -1 \<and> primary = self) \<and>
     (role \<noteq> RoleLeader \<and> self \<noteq> -1 \<longrightarrow> primary \<noteq> self) \<and>
     (role = RoleCandidate \<longrightarrow> self \<noteq> -1) \<and> (self = -1 \<longrightarrow> primary = -1)"

definition tc_ok :: "TopologyCoordinator \<Rightarrow> bool" where
  "tc_ok t \<longleftrightarrow>
     cfg_ok (t_rsConfig t) \<and> length (t_hbdata t) = length (c_members (t_rsConfig t)) \<and>
     index_ok (t_rsConfig t) (t_selfIndex t) \<and> index_ok (t_rsConfig t) (t_currentPrimaryIndex t) \<and>
     index_ok (t_rsConfig t) (t_forceSyncSourceIndex t) \<and>
     roles_ok (t_role t) (t_selfIndex t) (t_currentPrimaryIndex t) \<and>
     (t_selfIndex t \<noteq> -1 \<longrightarrow> \<not> up (t_hbdata t ! nat (t_selfIndex t))) \<and>
     (c_configServer (t_rsConfig t) \<longrightarrow> t_storageEngineSupportsReadCommitted t \<noteq> ReadCommittedUnknown) \<and>
     (t_forceSyncSourceIndex t \<noteq> -1 \<longrightarrow> t_forceSyncSourceIndex t \<noteq> t_selfIndex t) \<and>
     0 \<le> t_maintenanceModeCalls t \<and> (t_stepDownPending t \<longrightarrow> t_role t = RoleLeader) \<and>
     (c_protocolVersion (t_rsConfig t) = 0 \<and> t_currentPrimaryIndex t \<noteq> -1 \<and> t_currentPrimaryIndex t \<noteq> t_selfIndex t
        \<longrightarrow> seenPrimary (t_hbdata t ! nat (t_currentPrimaryIndex t)))"

lemma cfg_ok_validate:
  assumes "ReplSetConfig_validate sp c = None" "c_isInitialized c" "\<forall>m\<in>set (c_members c). mc_priority m \<noteq> NaN"
  shows "cfg_ok c"
proof -
  have "c_protocolVersion c = 0 \<or> c_protocolVersion c = 1"
    using assms(1) by (auto simp: ReplSetConfig_validate_def split: if_splits)
  then show ?thesis
    using validate_members [OF assms(1)] assms(2,3) by (auto simp: cfg_ok_def valid_members_def)
qed

lemma index_ok_none [simp]: "index_ok c (-1)"
  by (simp add: index_ok_def getNumMembers_def)

lemma index_okD: "index_ok c i \<Longrightarrow> i \<noteq> -1 \<Longrightarrow> 0 \<le> i \<and> nat i < length (c_members c)"
  by (auto simp: index_ok_def getNumMembers_def)

lemma getMemberAt_Some: "0 \<le> i \<Longrightarrow> nat i < length (c_members c) \<Longrightarrow> getMemberAt c i = Some (c_members c ! nat i)"
  by (simp add: getMemberAt_def nth_opt_def)

lemma tc_ok_D:
  assumes "tc_ok t"
  shows "cfg_ok (t_rsConfig t)" "length (t_hbdata t) = length (c_members (t_rsConfig t))"
    "index_ok (t_rsConfig t) (t_selfIndex t)" "index_ok (t_rsConfig t) (t_currentPrimaryIndex t)"
    "index_ok (t_rsConfig t) (t_forceSyncSourceIndex t)" "roles_ok (t_role t) (t_selfIndex t) (t_currentPrimaryIndex t)"
    "t_selfIndex t \<noteq> -1 \<Longrightarrow> \<not> up (t_hbdata t ! nat (t_selfIndex t))"
    "c_configServer (t_rsConfig t) \<Longrightarrow> t_storageEngineSupportsReadCommitted t \<noteq> ReadCommittedUnknown"
    "0 \<le> t_maintenanceModeCalls t"
    "c_protocolVersion (t_rsConfig t) = 0 \<Longrightarrow> t_currentPrimaryIndex t \<noteq> -1 \<Longrightarrow> t_currentPrimaryIndex t \<noteq> t_selfIndex t
        \<Longrightarrow> seenPrimary (t_hbdata t ! nat (t_currentPrimaryIndex t))"
    "t_stepDownPending t \<Longrightarrow> t_role t = RoleLeader"
    "t_forceSyncSourceIndex t \<noteq> -1 \<Longrightarrow> t_forceSyncSourceIndex t \<noteq> t_selfIndex t"
  using assms by (auto simp: tc_ok_def)

lemma iAmPrimary_ok: "tc_ok t \<Longrightarrow> iAmPrimary t = Some (t_role t = RoleLeader)"
  by (auto simp: tc_ok_def roles_ok_def iAmPrimary_def)

lemma selfConfig_ok:
  "tc_ok t \<Longrightarrow> t_selfIndex t \<noteq> -1 \<Longrightarrow> selfConfig t = Some (c_members (t_rsConfig t) ! nat (t_selfIndex t))"
  using index_okD getMemberAt_Some unfolding selfConfig_def tc_ok_def by blast

lemma self_initialized:
  assumes "tc_ok t" "t_selfIndex t \<noteq> -1"
  shows "c_isInitialized (t_rsConfig t)"
proof (rule ccontr)
  assume "\<not> ?thesis"
  then have "c_members (t_rsConfig t) = []" using tc_ok_D(1) [OF assms(1)] by (simp add: cfg_ok_def)
  then show False using index_okD [OF tc_ok_D(3) [OF assms(1)] assms(2)] by simp
qed

lemma protocol_ok:
  "tc_ok t \<Longrightarrow> t_selfIndex t \<noteq> -1 \<Longrightarrow> c_protocolVersion (t_rsConfig t) = 0 \<or> c_protocolVersion (t_rsConfig t) = 1"
  using self_initialized [of t] tc_ok_D(1) [of t] by (simp add: cfg_ok_def)

lemma currentPrimaryMember_ok:
  assumes "tc_ok t"
  shows "currentPrimaryMember t = Some (if t_currentPrimaryIndex t = -1 then None
     else Some (c_members (t_rsConfig t) ! nat (t_currentPrimaryIndex t)))"
  using index_okD [OF tc_ok_D(4) [OF assms]] by (auto simp: currentPrimaryMember_def getMemberAt_Some)

lemma roleState_total: "tc_ok t \<Longrightarrow> t_selfIndex t \<noteq> -1 \<Longrightarrow> \<exists>s. roleState t = Some s"
  by (auto simp: roleState_def selfConfig_ok tc_ok_def roles_ok_def)

lemma getMemberState_total: "tc_ok t \<Longrightarrow> \<exists>s. getMemberState t = Some s"
  using roleState_total tc_ok_D(8) by (cases "t_selfIndex t = -1") (auto simp: getMemberState_def)

section \<open>Reading the state never aborts\<close>

lemma indexed_member:
  assumes "tc_ok t" "(i, h) \<in> set (indexed (t_hbdata t))"
  shows "getMemberAt (t_rsConfig t) i = Some (c_members (t_rsConfig t) ! nat i)" "h = t_hbdata t ! nat i"
    "0 \<le> i" "nat i < length (c_members (t_rsConfig t))"
  using assms tc_ok_D(2) [OF assms(1)] by (auto simp: set_indexed getMemberAt_Some)

lemma votesUp_total:
  assumes "tc_ok t" "set hs \<subseteq> set (indexed (t_hbdata t))"
  shows "votesUp t hs = Some (sum_list (map (\<lambda>(i, h). if i = t_selfIndex t \<or> up h
            then getNumVotes (c_members (t_rsConfig t) ! nat i) else 0) hs))"
  using assms(2)
proof (induction hs)
  case (Cons x hs)
  obtain i h where x: "x = (i, h)" by (cases x)
  have "getMemberAt (t_rsConfig t) i = Some (c_members (t_rsConfig t) ! nat i)"
    using Cons.prems by (intro indexed_member(1) [OF assms(1), of i h]) (auto simp: x)
  then show ?case using Cons by (auto simp: x)
qed simp

lemma aMajoritySeemsToBeUp_total: "tc_ok t \<Longrightarrow> \<exists>b. aMajoritySeemsToBeUp t = Some b"
  by (simp add: aMajoritySeemsToBeUp_def votesUp_total)

lemma getUnelectableReason_total:
  assumes "tc_ok t" "i \<noteq> t_selfIndex t" "0 \<le> i" "nat i < length (c_members (t_rsConfig t))"
  shows "\<exists>r. getUnelectableReason t i lastOpApplied = Some r \<and> known_mask r \<and>
     (r = 0 \<longrightarrow> isElectable (c_members (t_rsConfig t) ! nat i) \<and> hb_state (t_hbdata t ! nat i) = RS_SECONDARY)"
proof -
  let ?m = "c_members (t_rsConfig t) ! nat i"
  have ini: "c_isInitialized (t_rsConfig t)"
    using assms(4) tc_ok_D(1) [OF assms(1)] by (auto simp: cfg_ok_def split: if_splits)
  have p: "mc_priority ?m \<noteq> NaN" using assms(4) ini tc_ok_D(1) [OF assms(1)] by (auto simp: cfg_ok_def)
  have e: "isElectable ?m \<longleftrightarrow> \<not> isArbiter ?m \<and> \<not> d_le (mc_priority ?m) (Num 0)"
    using p d_not_less [of "Num 0" "mc_priority ?m"] by (auto simp: isElectable_def)
  show ?thesis
    using assms(2-4) tc_ok_D(2) [OF assms(1)] e
    by (auto simp: getUnelectableReason_def getMemberAt_Some nth_opt_def)
qed

lemma getMyUnelectableReason_total:
  assumes "tc_ok t"
  shows "\<exists>r. getMyUnelectableReason t now lastApplied tk = Some r \<and> known_mask r \<and>
     (and CannotSeeMajority r \<noteq> 0 \<longleftrightarrow> aMajoritySeemsToBeUp t = Some False) \<and>
     (r = 0 \<longrightarrow> t_selfIndex t \<noteq> -1 \<and> aMajoritySeemsToBeUp t = Some True \<and> \<not> ot_isNull lastApplied \<and>
        t_stepDownUntil t \<le> now \<and> \<not> isArbiter (c_members (t_rsConfig t) ! nat (t_selfIndex t)) \<and>
        \<not> d_le (mc_priority (c_members (t_rsConfig t) ! nat (t_selfIndex t))) (Num 0) \<and>
        (getMemberState t = Some RS_SECONDARY \<or> t_role t = RoleLeader))"
proof -
  obtain b where b: "aMajoritySeemsToBeUp t = Some b" using aMajoritySeemsToBeUp_total [OF assms] by blast
  obtain s where s: "getMemberState t = Some s" using getMemberState_total [OF assms] by blast
  show ?thesis
  proof (cases "t_selfIndex t = -1")
    case True
    then show ?thesis using b by (auto simp: getMyUnelectableReason_def orIf_bit)
  next
    case False
    then show ?thesis
      using b s selfConfig_ok [OF assms False] protocol_ok [OF assms False] iAmPrimary_ok [OF assms]
      by (cases "s = RS_SECONDARY"; cases "c_protocolVersion (t_rsConfig t) = 0")
         (auto simp: getMyUnelectableReason_def orIf_bit)
  qed
qed

lemma isMemberHigherPriority_total:
  "index_ok (t_rsConfig t) i \<Longrightarrow> index_ok (t_rsConfig t) j \<Longrightarrow> \<exists>b. isMemberHigherPriority t i j = Some b"
  using index_okD [of "t_rsConfig t" i] index_okD [of "t_rsConfig t" j]
  by (cases "i = -1"; cases "j = -1") (auto simp: isMemberHigherPriority_def getMemberAt_Some)

lemma d_not_less_trans: "\<not> d_less a b \<Longrightarrow> \<not> d_less b c \<Longrightarrow> b \<noteq> NaN \<Longrightarrow> \<not> d_less a c"
  by (cases a; cases b; cases c) auto

lemma prio_not_NaN:
  assumes "tc_ok t" "nat i < length (c_members (t_rsConfig t))"
  shows "mc_priority (c_members (t_rsConfig t) ! nat i) \<noteq> NaN"
  using assms tc_ok_D(1) [OF assms(1)] by (auto simp: cfg_ok_def split: if_splits)

lemma reason_of_member_total:
  assumes "tc_ok t" "0 \<le> i" "nat i < length (c_members (t_rsConfig t))"
  shows "\<exists>r. (if i = t_selfIndex t then getMyUnelectableReason t now lastOpApplied False
              else getUnelectableReason t i lastOpApplied) = Some r"
  using getUnelectableReason_total [OF assms(1) _ assms(2,3)] getMyUnelectableReason_total [OF assms(1)]
  by (cases "i = t_selfIndex t") (metis (full_types))+

text \<open>
  The index found is that of an electable member, and no electable member of the scanned range
  has a higher priority.
\<close>

definition electable_now :: "TopologyCoordinator \<Rightarrow> Date \<Rightarrow> OpTime \<Rightarrow> int \<Rightarrow> bool" where
  "electable_now t now lastOpApplied i \<longleftrightarrow>
     (if i = t_selfIndex t then getMyUnelectableReason t now lastOpApplied False
      else getUnelectableReason t i lastOpApplied) = Some 0"

abbreviation prio_at :: "TopologyCoordinator \<Rightarrow> int \<Rightarrow> Double" where
  "prio_at t i \<equiv> mc_priority (c_members (t_rsConfig t) ! nat i)"

lemma highestPriorityLoop_total:
  assumes "tc_ok t" "\<forall>i\<in>set is. 0 \<le> i \<and> nat i < length (c_members (t_rsConfig t))" "index_ok (t_rsConfig t) k"
    and "k \<noteq> -1 \<Longrightarrow> electable_now t now lastOpApplied k"
  shows "\<exists>r. highestPriorityLoop t now lastOpApplied is k = Some r \<and> index_ok (t_rsConfig t) r \<and>
     (r \<noteq> -1 \<longrightarrow> electable_now t now lastOpApplied r) \<and>
     (r = -1 \<longleftrightarrow> k = -1 \<and> (\<forall>i\<in>set is. \<not> electable_now t now lastOpApplied i)) \<and>
     (k \<noteq> -1 \<longrightarrow> \<not> d_less (prio_at t r) (prio_at t k)) \<and>
     (\<forall>i\<in>set is. electable_now t now lastOpApplied i \<longrightarrow> \<not> d_less (prio_at t r) (prio_at t i))"
  using assms(2-4)
proof (induction "is" arbitrary: k)
  case (Cons i "is")
  have i: "0 \<le> i" "nat i < length (c_members (t_rsConfig t))" using Cons.prems(1) by auto
  then have ii: "index_ok (t_rsConfig t) i" "i \<noteq> -1" by (auto simp: index_ok_def getNumMembers_def)
  obtain m where m: "(if i = t_selfIndex t then getMyUnelectableReason t now lastOpApplied False
              else getUnelectableReason t i lastOpApplied) = Some m"
    using reason_of_member_total [OF assms(1) i] by blast
  obtain b where b: "isMemberHigherPriority t i k = Some b"
    using isMemberHigherPriority_total [OF ii(1) Cons.prems(2)] by blast
  have e: "electable_now t now lastOpApplied i \<longleftrightarrow> m = 0" by (simp add: electable_now_def m)
  have bb: "b \<longleftrightarrow> k = -1 \<or> d_less (prio_at t k) (prio_at t i)"
    using b ii index_okD [OF Cons.prems(2)] i
    by (auto simp: isMemberHigherPriority_def getMemberAt_Some split: if_splits)
  let ?k = "if m = 0 \<and> b then i else k"
  obtain r where r: "highestPriorityLoop t now lastOpApplied is ?k = Some r" "index_ok (t_rsConfig t) r"
     "r \<noteq> -1 \<longrightarrow> electable_now t now lastOpApplied r"
     "r = -1 \<longleftrightarrow> ?k = -1 \<and> (\<forall>i\<in>set is. \<not> electable_now t now lastOpApplied i)"
     "?k \<noteq> -1 \<longrightarrow> \<not> d_less (prio_at t r) (prio_at t ?k)"
     "\<forall>i\<in>set is. electable_now t now lastOpApplied i \<longrightarrow> \<not> d_less (prio_at t r) (prio_at t i)"
  proof -
    have "\<forall>i\<in>set is. 0 \<le> i \<and> nat i < length (c_members (t_rsConfig t))" "index_ok (t_rsConfig t) ?k"
      "?k \<noteq> -1 \<Longrightarrow> electable_now t now lastOpApplied ?k"
      using Cons.prems ii e by (auto split: if_splits)
    then show ?thesis using Cons.IH [of ?k] that by (auto simp del: not_all)
  qed
  have step: "highestPriorityLoop t now lastOpApplied (i # is) k = Some r"
    using m b r(1) by (cases "m = 0") auto
  have ri: "electable_now t now lastOpApplied i \<longrightarrow> \<not> d_less (prio_at t r) (prio_at t i)"
  proof
    assume "electable_now t now lastOpApplied i"
    then have "m = 0" using e by simp
    show "\<not> d_less (prio_at t r) (prio_at t i)"
    proof (cases b)
      case True
      then show ?thesis using r(5) \<open>m = 0\<close> ii(2) by simp
    next
      case False
      then have "k \<noteq> -1" "\<not> d_less (prio_at t k) (prio_at t i)" using bb by auto
      moreover have "prio_at t k \<noteq> NaN"
        using index_okD [OF Cons.prems(2) \<open>k \<noteq> -1\<close>] by (intro prio_not_NaN [OF assms(1)]) simp
      ultimately show ?thesis using r(5) False d_not_less_trans by simp
    qed
  qed
  have rk: "k \<noteq> -1 \<longrightarrow> \<not> d_less (prio_at t r) (prio_at t k)"
    using r(5) bb ii(2) d_less_trans by (auto split: if_splits)
  have r1: "r = -1 \<longleftrightarrow> k = -1 \<and> (\<forall>i\<in>set (i # is). \<not> electable_now t now lastOpApplied i)"
    using r(4) e bb ii(2) by (cases "m = 0") auto
  show ?case
    using step r(2,3,6) ri rk r1 by (intro exI [of _ r]) simp
qed auto

lemma getHighestPriorityElectableIndex_total:
  assumes "tc_ok t"
  shows "\<exists>r. getHighestPriorityElectableIndex t now lastOpApplied = Some r \<and> index_ok (t_rsConfig t) r \<and>
     (r \<noteq> -1 \<longrightarrow> electable_now t now lastOpApplied r) \<and>
     (\<forall>i. 0 \<le> i \<and> i < getNumMembers (t_rsConfig t) \<and> electable_now t now lastOpApplied i \<longrightarrow>
        r \<noteq> -1 \<and> \<not> d_less (prio_at t r) (prio_at t i))"
proof -
  let ?n = "length (c_members (t_rsConfig t))"
  have s: "i \<in> set (map int [0..<?n]) \<longleftrightarrow> 0 \<le> i \<and> i < getNumMembers (t_rsConfig t)" for i
    unfolding getNumMembers_def set_map image_iff by (auto intro: bexI [of _ "nat i"])
  have "\<forall>i\<in>set (map int [0..<?n]). 0 \<le> i \<and> nat i < ?n" by auto
  from highestPriorityLoop_total [OF assms this, of "-1" now lastOpApplied]
  obtain r where r: "highestPriorityLoop t now lastOpApplied (map int [0..<?n]) (-1) = Some r" "index_ok (t_rsConfig t) r"
     "r \<noteq> -1 \<longrightarrow> electable_now t now lastOpApplied r"
     "r = -1 \<longrightarrow> (\<forall>i\<in>set (map int [0..<?n]). \<not> electable_now t now lastOpApplied i)"
     "\<forall>i\<in>set (map int [0..<?n]). electable_now t now lastOpApplied i \<longrightarrow> \<not> d_less (prio_at t r) (prio_at t i)"
    by (metis (no_types, lifting) index_ok_none)
  show ?thesis
    using r s unfolding getHighestPriorityElectableIndex_def by (intro exI [of _ r]) blast
qed

text \<open>Fields the invariant does not read.\<close>

lemma tc_ok_frame [simp]:
  "tc_ok (t\<lparr>t_voteLease := vl\<rparr>) = tc_ok t" "tc_ok (t\<lparr>t_lastVote := lv\<rparr>) = tc_ok t"
  "tc_ok (t\<lparr>t_term := trm\<rparr>) = tc_ok t" "tc_ok (t\<lparr>t_electionSleepUntil := d\<rparr>) = tc_ok t"
  "tc_ok (t\<lparr>t_electionTime := ts\<rparr>) = tc_ok t" "tc_ok (t\<lparr>t_electionId := oid\<rparr>) = tc_ok t"
  "tc_ok (t\<lparr>t_stepDownUntil := d\<rparr>) = tc_ok t"
  "tc_ok (t\<lparr>t_syncSource := h\<rparr>) = tc_ok t" "tc_ok (t\<lparr>t_syncSourceBlacklist := bl\<rparr>) = tc_ok t"
  "tc_ok (t\<lparr>t_hbmsg := msg\<rparr>) = tc_ok t" "tc_ok (t\<lparr>t_hbmsgTime := d\<rparr>) = tc_ok t"
  "tc_ok (t\<lparr>t_pings := ps\<rparr>) = tc_ok t" "tc_ok (t\<lparr>t_followerMode := fm\<rparr>) = tc_ok t"
  by (simp_all add: tc_ok_def)

lemma tc_ok_helpers [simp]:
  "tc_ok (setMyHeartbeatMessage now msg t) = tc_ok t" "tc_ok (putPingStats host p t) = tc_ok t"
  by (simp_all add: setMyHeartbeatMessage_def putPingStats_def)

lemma tc_ok_pending: "tc_ok t \<Longrightarrow> (b \<Longrightarrow> t_role t = RoleLeader) \<Longrightarrow> tc_ok (t\<lparr>t_stepDownPending := b\<rparr>)"
  by (auto simp: tc_ok_def)

lemma tc_ok_force: "tc_ok t \<Longrightarrow> index_ok (t_rsConfig t) i \<Longrightarrow> (i \<noteq> -1 \<Longrightarrow> i \<noteq> t_selfIndex t) \<Longrightarrow> tc_ok (t\<lparr>t_forceSyncSourceIndex := i\<rparr>)"
  by (simp add: tc_ok_def)

lemma tc_ok_candidate: "tc_ok t \<Longrightarrow> t_role t = RoleFollower \<Longrightarrow> t_selfIndex t \<noteq> -1 \<Longrightarrow> tc_ok (t\<lparr>t_role := RoleCandidate\<rparr>)"
  by (auto simp: tc_ok_def roles_ok_def)

lemma tc_ok_follower: "tc_ok t \<Longrightarrow> t_role t \<noteq> RoleLeader \<Longrightarrow> tc_ok (t\<lparr>t_role := RoleFollower\<rparr>)"
  by (auto simp: tc_ok_def roles_ok_def)

lemma tc_ok_no_primary: "tc_ok t \<Longrightarrow> t_role t \<noteq> RoleLeader \<Longrightarrow> tc_ok (t\<lparr>t_currentPrimaryIndex := -1\<rparr>)"
  by (auto simp: tc_ok_def roles_ok_def)

lemma tc_ok_primary:
  assumes "tc_ok t" "t_role t \<noteq> RoleLeader" "t_selfIndex t \<noteq> -1" "i \<noteq> t_selfIndex t" "index_ok (t_rsConfig t) i"
    "seenPrimary (t_hbdata t ! nat i)"
  shows "tc_ok (t\<lparr>t_currentPrimaryIndex := i\<rparr>)"
  using assms by (auto simp: tc_ok_def roles_ok_def)

lemma tc_ok_lead:
  assumes "tc_ok t" "t_role t = RoleCandidate"
  shows "tc_ok (t\<lparr>t_role := RoleLeader, t_currentPrimaryIndex := t_selfIndex t\<rparr>)"
  using assms by (auto simp: tc_ok_def roles_ok_def)

lemma indexOf_cases:
  "indexOf P n xs = -1 \<or> (\<exists>j<length xs. indexOf P n xs = n + int j \<and> P (xs ! j))"
proof (induction xs arbitrary: n)
  case (Cons x xs)
  show ?case
  proof (cases "P x")
    case True
    then show ?thesis by (intro disjI2 exI [of _ 0]) simp
  next
    case False
    show ?thesis
    proof (cases "indexOf P (n + 1) xs = -1")
      case False
      then obtain j where "j < length xs" "indexOf P (n + 1) xs = (n + 1) + int j" "P (xs ! j)"
        using Cons.IH [of "n + 1"] by blast
      then show ?thesis using \<open>\<not> P x\<close> by (intro disjI2 exI [of _ "Suc j"]) simp
    qed (use False in simp)
  qed
qed simp

lemma indexOf_members:
  assumes "indexOf P 0 (c_members c) = k"
  shows "index_ok c k \<and> (k \<noteq> -1 \<longrightarrow> P (c_members c ! nat k))"
proof (cases "k = -1")
  case False
  then obtain j where "j < length (c_members c)" "k = int j" "P (c_members c ! j)"
    using indexOf_cases [of P 0 "c_members c"] assms by auto
  then show ?thesis by (simp add: index_ok_def getNumMembers_def)
qed simp

lemmas index_by_id = indexOf_members [of "\<lambda>m. mc_id m = i" c, folded findMemberIndexByConfigId_def] for i c

lemmas index_by_host = indexOf_members [of "\<lambda>m. hp_eq (mc_host m) h" c, folded findMemberIndexByHostAndPort_def] for h c

end
