(* ===== verification/TopologySteps.thy ===== *)
theory TopologySteps
  imports TopologyInv
begin

text \<open>
  Every operation of the topology coordinator returns normally and keeps the invariant, under the
  preconditions its callers establish.
\<close>

section \<open>Elections\<close>

lemma hbdata_nth:
  "tc_ok t \<Longrightarrow> index_ok (t_rsConfig t) i \<Longrightarrow> i \<noteq> -1 \<Longrightarrow> nth_opt (t_hbdata t) i = Some (t_hbdata t ! nat i)"
  using index_okD tc_ok_D(2) by (fastforce simp: nth_opt_def)

lemma member_nth:
  "index_ok c i \<Longrightarrow> i \<noteq> -1 \<Longrightarrow> getMemberAt c i = Some (c_members c ! nat i)"
  using index_okD getMemberAt_Some by blast

lemma shouldVetoMember_total:
  assumes ok: "tc_ok t" and self: "getMemberIndex t (sint (fa_id args)) \<noteq> t_selfIndex t"
  shows "\<exists>b. shouldVetoMember t args now lastOpApplied = Some b"
proof -
  let ?k = "getMemberIndex t (sint (fa_id args))"
  obtain r where r: "getHighestPriorityElectableIndex t now lastOpApplied = Some r" "index_ok (t_rsConfig t) r"
    using getHighestPriorityElectableIndex_total [OF ok] by blast
  show ?thesis
  proof (cases "?k = -1")
    case True
    then show ?thesis using r self by (auto simp: shouldVetoMember_def)
  next
    case k: False
    have ki: "index_ok (t_rsConfig t) ?k" using index_by_id by (simp add: getMemberIndex_def)
    obtain m where m: "getUnelectableReason t ?k lastOpApplied = Some m" "known_mask m"
      using getUnelectableReason_total [OF ok self] index_okD [OF ki k] by blast
    have "and m (not RefusesToStand) \<noteq> 0 \<Longrightarrow> \<exists>s. getUnelectableReasonString t (and m (not RefusesToStand)) = Some s"
      by (rule getUnelectableReasonString_total) (use m(2) known_mask_and in auto)
    then have str: "and m (not RefusesToStand) \<noteq> 0 \<Longrightarrow>
        returns (getUnelectableReasonString t (and m (not RefusesToStand))) (\<lambda>_. True)"
      by (simp add: returns_True)
    have "returns (shouldVetoMember t args now lastOpApplied) (\<lambda>_. True)"
      using r(1) self k m(1) hbdata_nth [OF ok ki k] member_nth [OF ki k] iAmPrimary_ok [OF ok]
        hbdata_nth [OF ok tc_ok_D(4) [OF ok]] member_nth [OF r(2)] str
      by (simp add: shouldVetoMember_def cong: if_cong split del: if_split)
    then show ?thesis by (simp add: returns_True)
  qed
qed

lemma prepareFreshResponse_total:
  assumes "tc_ok t"
  shows "\<exists>r. prepareFreshResponse t args now lastOpApplied = Some r"
proof (cases "t_selfIndex t = -1")
  case False
  let ?me = "c_members (t_rsConfig t) ! nat (t_selfIndex t)"
  have veto: "returns (shouldVetoMember t args now lastOpApplied) (\<lambda>_. True)" if "fa_id args \<noteq> word_of_int (mc_id ?me)"
  proof -
    have "getMemberIndex t (sint (fa_id args)) \<noteq> t_selfIndex t"
    proof
      assume "getMemberIndex t (sint (fa_id args)) = t_selfIndex t"
      then have "mc_id ?me = sint (fa_id args)" using False index_by_id unfolding getMemberIndex_def by blast
      then show False using that by simp
    qed
    from shouldVetoMember_total [OF assms this] show ?thesis by (simp add: returns_True)
  qed
  have "returns (prepareFreshResponse t args now lastOpApplied) (\<lambda>_. True)"
    using selfConfig_ok [OF assms False] veto
    by (simp add: prepareFreshResponse_def cong: if_cong split del: if_split)
  then show ?thesis by (simp add: returns_True)
qed (simp add: prepareFreshResponse_def)

lemma electRefusal_total:
  "tc_ok t \<Longrightarrow> \<exists>r. electRefusal t args now primary hopeful hp = Some r \<and> (hopeful = None \<longrightarrow> r \<noteq> None)"
  by (cases hopeful) (simp_all add: electRefusal_def iAmPrimary_ok)

lemma prepareElectResponse_ok:
  assumes ok: "tc_ok t"
  shows "\<exists>r t'. prepareElectResponse args now lastOpApplied t = Some (r, t') \<and> tc_ok t'"
proof (cases "c_protocolVersion (t_rsConfig t) = 0 \<and> t_selfIndex t \<noteq> -1")
  case True
  obtain r where r: "getHighestPriorityElectableIndex t now lastOpApplied = Some r" "index_ok (t_rsConfig t) r"
    using getHighestPriorityElectableIndex_total [OF ok] by blast
  obtain p where p: "currentPrimaryMember t = Some p" using currentPrimaryMember_ok [OF ok] by blast
  let ?hp = "if r = -1 then None else Some (c_members (t_rsConfig t) ! nat r)"
  have hp: "(if r = -1 then Some None else do { m \<leftarrow> getMemberAt (t_rsConfig t) r; Some (Some m) }) = Some ?hp"
    using member_nth [OF r(2)] by simp
  let ?h = "findMemberByID (t_rsConfig t) (ea_whoid args)"
  obtain ref where ref: "electRefusal t args now p ?h ?hp = Some ref" "?h = None \<longrightarrow> ref \<noteq> None"
    using electRefusal_total [OF ok, of args now p ?h ?hp] by (elim exE conjE)
  have who: "mc_id m = ea_whoid args" if "?h = Some m" for m
    using that by (auto simp: findMemberByID_def find_Some_iff)
  have eq: "prepareElectResponse args now lastOpApplied t =
      (case (ref, ?h) of
         (Some v, _) \<Rightarrow> Some (Inr \<lparr>er_vote = v, er_round = ea_round args\<rparr>, t)
       | (None, None) \<Rightarrow> None
       | (None, Some h) \<Rightarrow>
           do { me \<leftarrow> selfConfig t;
                ensure (mc_id h = ea_whoid args);
                Some (Inr \<lparr>er_vote = getNumVotes me, er_round = ea_round args\<rparr>,
                      t\<lparr>t_voteLease := \<lparr>vl_when = now, vl_whoId = ea_whoid args, vl_whoHostAndPort = mc_host h\<rparr>\<rparr>) })"
    unfolding prepareElectResponse_def Let_def using True r(1) p hp ref(1) by (simp split del: if_split)
  show ?thesis
    unfolding eq using ref(2) who selfConfig_ok [OF ok] True ok by (cases ref; cases ?h) simp_all
qed (use ok in \<open>auto simp: prepareElectResponse_def\<close>)

lemma voteForMyself_ok:
  "tc_ok t \<Longrightarrow> \<exists>b t'. voteForMyself now t = Some (b, t') \<and> tc_ok t'"
  using tc_ok_D(6) [of t] by (auto simp: voteForMyself_def roles_ok_def selfConfig_ok)

lemma findHealthyPrimary_total:
  assumes "tc_ok t" "set hs \<subseteq> set (indexed (t_hbdata t))"
  shows "\<exists>i. findHealthyPrimary (t_rsConfig t) cand prio hs = Some i \<and> index_ok (t_rsConfig t) i"
  using assms(2)
proof (induction hs)
  case (Cons x hs)
  obtain i h where x: "x = (i, h)" by (cases x)
  note m = indexed_member [OF assms(1), of i h]
  have "(i, h) \<in> set (indexed (t_hbdata t))" using Cons.prems by (simp add: x)
  then show ?case using Cons m by (auto simp: x index_ok_def getNumMembers_def)
qed simp

lemma processReplSetRequestVotes_ok:
  assumes ok: "tc_ok t" and self: "t_selfIndex t \<noteq> -1"
    and cand: "va_cfgver args = c_version (t_rsConfig t) \<Longrightarrow> va_setName args = c_replSetName (t_rsConfig t) \<Longrightarrow>
                 0 \<le> va_candidateIndex args \<and> va_candidateIndex args < getNumMembers (t_rsConfig t)"
    and lv: "lv_term (t_lastVote t) = va_term args \<Longrightarrow> \<not> va_dryRun args \<Longrightarrow>
                 0 \<le> lv_candidateIndex (t_lastVote t) \<and> lv_candidateIndex (t_lastVote t) < getNumMembers (t_rsConfig t)"
  shows "\<exists>r t'. processReplSetRequestVotes args lastApplied t = Some (r, t') \<and> tc_ok t'"
proof (cases "va_cfgver args = c_version (t_rsConfig t) \<and> va_setName args = c_replSetName (t_rsConfig t)")
  case True
  have c: "index_ok (t_rsConfig t) (va_candidateIndex args)" "va_candidateIndex args \<noteq> -1"
    using cand True by (auto simp: index_ok_def)
  obtain b where b: "findHealthyPrimaryOfEqualOrGreaterPriority t (va_candidateIndex args) = Some b" "index_ok (t_rsConfig t) b"
    using findHealthyPrimary_total [OF ok subset_refl] member_nth [OF c]
    by (force simp: findHealthyPrimaryOfEqualOrGreaterPriority_def)
  have bm: "b \<ge> 0 \<Longrightarrow> getMemberAt (t_rsConfig t) b = Some (c_members (t_rsConfig t) ! nat b)"
    using b(2) member_nth by auto
  have lm: "lv_term (t_lastVote t) = va_term args \<Longrightarrow> \<not> va_dryRun args \<Longrightarrow> \<exists>m. getMemberAt (t_rsConfig t) (lv_candidateIndex (t_lastVote t)) = Some m"
    using lv by (auto simp: getMemberAt_def nth_opt_def getNumMembers_def)
  show ?thesis
    using True b(1) bm lm selfConfig_ok [OF ok self] ok
    by (auto simp: processReplSetRequestVotes_def)
qed (use ok in \<open>auto simp: processReplSetRequestVotes_def\<close>)

lemma updateTerm_ok: "tc_ok t \<Longrightarrow> \<exists>r t'. updateTerm newTerm now t = Some (r, t') \<and> tc_ok t'"
  by (auto simp: updateTerm_def iAmPrimary_ok)

text \<open>A node stands for election only if it is an electable follower outside its sleep period.\<close>

lemma checkShouldStandForElection_total:
  assumes "tc_ok t"
  shows "\<exists>s. checkShouldStandForElection t now lastOpApplied = Some s \<and>
     (s = StatusOK \<longleftrightarrow> t_currentPrimaryIndex t = -1 \<and> t_role t = RoleFollower \<and> t_electionSleepUntil t \<le> now \<and>
        getMyUnelectableReason t now lastOpApplied False = Some 0)"
proof -
  obtain r where r: "getMyUnelectableReason t now lastOpApplied False = Some r" "known_mask r"
    using getMyUnelectableReason_total [OF assms] by blast
  have lead: "t_currentPrimaryIndex t = -1 \<Longrightarrow> t_role t \<noteq> RoleLeader"
    using tc_ok_D(6) [OF assms] by (auto simp: roles_ok_def)
  show ?thesis
  proof (cases "r = 0")
    case True
    then show ?thesis using r(1) lead by (cases "t_role t") (auto simp: checkShouldStandForElection_def)
  next
    case False
    then obtain x where "getUnelectableReasonString t r = Some x" using getUnelectableReasonString_total [OF r(2)] by blast
    then show ?thesis using False r(1) lead by (cases "t_role t") (auto simp: checkShouldStandForElection_def)
  qed
qed

lemma becomeCandidateIfElectable_ok:
  assumes "tc_ok t"
  shows "\<exists>s t'. becomeCandidateIfElectable now lastOpApplied tk t = Some (s, t') \<and> tc_ok t' \<and>
     (s = StatusOK \<longleftrightarrow> t_role t = RoleFollower \<and> getMyUnelectableReason t now lastOpApplied tk = Some 0) \<and>
     t' = (if s = StatusOK then t\<lparr>t_role := RoleCandidate\<rparr> else t)"
proof -
  obtain r where r: "getMyUnelectableReason t now lastOpApplied tk = Some r" "known_mask r" "r = 0 \<longrightarrow> t_selfIndex t \<noteq> -1"
    using getMyUnelectableReason_total [OF assms] by blast
  show ?thesis
  proof (cases "r = 0")
    case True
    then show ?thesis using r tc_ok_candidate [OF assms] assms
      by (cases "t_role t") (auto simp: becomeCandidateIfElectable_def)
  next
    case False
    then obtain x where "getUnelectableReasonString t r = Some x" using getUnelectableReasonString_total [OF r(2)] by blast
    then show ?thesis using False r(1) assms by (cases "t_role t") (auto simp: becomeCandidateIfElectable_def)
  qed
qed

lemma processWinElection_ok:
  "tc_ok t \<Longrightarrow> t_role t = RoleCandidate \<Longrightarrow> \<exists>t'. processWinElection eid et t = Some t' \<and> tc_ok t' \<and>
     t_role t' = RoleLeader \<and> t_currentPrimaryIndex t' = t_selfIndex t \<and> hp_empty (t_syncSource t')"
  by (auto simp: processWinElection_def setElectionInfo_def tc_ok_def roles_ok_def HostAndPort_empty_def hp_empty_def)

lemma processLoseElection_ok:
  assumes "tc_ok t" "t_role t = RoleCandidate"
  shows "\<exists>t'. processLoseElection t = Some t' \<and> tc_ok t' \<and> t_role t' = RoleFollower"
proof -
  let ?t = "t\<lparr>t_electionTime := Timestamp_null, t_electionId := 0, t_role := RoleFollower\<rparr>"
  have s: "t_selfIndex t \<noteq> -1" using tc_ok_D(6) [OF assms(1)] assms(2) by (auto simp: roles_ok_def)
  have ok: "tc_ok ?t" using assms by (auto simp: tc_ok_def roles_ok_def)
  show ?thesis using selfConfig_ok [OF ok] s assms(2) ok by (auto simp: processLoseElection_def)
qed

section \<open>Configuration and roles\<close>

lemma single_node_total:
  assumes "tc_ok t"
  shows "\<exists>b. isElectableNodeInSingleNodeReplicaSet t = Some b \<and> (b \<longrightarrow> t_selfIndex t = 0)"
  using selfConfig_ok [OF assms] by (auto simp: isElectableNodeInSingleNodeReplicaSet_def selfConfig_def)

lemma becomeCandidateSingle_ok:
  assumes "tc_ok t" "t_role t \<noteq> RoleLeader"
  shows "\<exists>b t'. becomeCandidateIfStepdownPeriodOverAndSingleNodeSet now t = Some (b, t') \<and> tc_ok t'"
proof -
  obtain b where b: "isElectableNodeInSingleNodeReplicaSet t = Some b" "b \<longrightarrow> t_selfIndex t = 0"
    using single_node_total [OF assms(1)] by blast
  have "b \<Longrightarrow> tc_ok (t\<lparr>t_role := RoleCandidate\<rparr>)" using assms b(2) by (auto simp: tc_ok_def roles_ok_def)
  then show ?thesis using b(1) assms(1) by (auto simp: becomeCandidateIfStepdownPeriodOverAndSingleNodeSet_def)
qed

lemma prepareFreezeResponse_ok:
  assumes "tc_ok t"
  shows "\<exists>r t'. prepareFreezeResponse now secs t = Some (r, t') \<and> tc_ok t'"
proof -
  let ?t = "t\<lparr>t_stepDownUntil := now\<rparr>"
  obtain b where b: "isElectableNodeInSingleNodeReplicaSet ?t = Some b" "b \<longrightarrow> t_selfIndex ?t = 0"
    using single_node_total [of ?t] assms by auto
  have "b \<Longrightarrow> t_role t = RoleFollower \<Longrightarrow> tc_ok (?t\<lparr>t_role := RoleCandidate\<rparr>)"
    using tc_ok_candidate [of ?t] assms b(2) by simp
  then show ?thesis using b(1) assms by (auto simp: prepareFreezeResponse_def)
qed

lemma setFollowerMode_ok:
  assumes "tc_ok t" "t_role t = RoleFollower" "m \<in> {RS_RECOVERING, RS_ROLLBACK, RS_SECONDARY, RS_STARTUP2}"
  shows "\<exists>t'. setFollowerMode m t = Some t' \<and> tc_ok t' \<and> t_followerMode t' = m"
proof -
  let ?t = "t\<lparr>t_followerMode := m\<rparr>"
  obtain b where b: "isElectableNodeInSingleNodeReplicaSet ?t = Some b" "b \<longrightarrow> t_selfIndex ?t = 0"
    using single_node_total [of ?t] assms(1) by auto
  have "b \<Longrightarrow> tc_ok (?t\<lparr>t_role := RoleCandidate\<rparr>)"
    using tc_ok_candidate [of ?t] assms(1,2) b(2) by simp
  then show ?thesis using b(1) assms by (auto simp: setFollowerMode_def)
qed

lemma adjustMaintenanceCountBy_ok:
  assumes "tc_ok t" "t_role t = RoleFollower" "0 \<le> t_maintenanceModeCalls t + inc" "t_maintenanceModeCalls t + inc \<le> int_max"
  shows "\<exists>t'. adjustMaintenanceCountBy inc t = Some t' \<and> tc_ok t'"
  using assms by (auto simp: adjustMaintenanceCountBy_def tc_ok_def)

lemma carried_length [simp]: "length (t_hbdata (updateHeartbeatDataForReconfig new self t)) = length (c_members new)"
  by (simp add: updateHeartbeatDataForReconfig_def)

lemma carried_self:
  assumes "0 \<le> self" "nat self < length (c_members new)"
  shows "t_hbdata (updateHeartbeatDataForReconfig new self t) ! nat self = MemberHeartbeatData_default"
  using assms by (simp add: updateHeartbeatDataForReconfig_def indexed_def)

text \<open>
  A new configuration: the node stays leader exactly if it was leader and is an electable member
  of the new configuration; otherwise it forgets who is primary.
\<close>

lemma updateConfig_ok:
  assumes ok: "tc_ok t" and role: "t_role t \<noteq> RoleCandidate" and new: "cfg_ok new" "index_ok new self"
    and pv: "c_protocolVersion new = 0 \<or> c_protocolVersion new = 1"
    and rc: "c_configServer new \<Longrightarrow> t_storageEngineSupportsReadCommitted t \<noteq> ReadCommittedUnknown"
  shows "\<exists>t'. updateConfig new self now t = Some t' \<and> tc_ok t' \<and> t_rsConfig t' = new \<and> t_selfIndex t' = self \<and>
     (t_role t' = RoleLeader \<longleftrightarrow> t_role t = RoleLeader \<and> self \<noteq> -1 \<and> isElectable (c_members new ! nat self)) \<and>
     t_lastVote t' = t_lastVote t \<and>
     (t_term t' = t_term t \<or> \<not> c_isInitialized (t_rsConfig t) \<or> c_protocolVersion (t_rsConfig t) \<noteq> c_protocolVersion new)"
proof -
  obtain trm where trm: "(if \<not> c_isInitialized (t_rsConfig t) \<or> c_protocolVersion (t_rsConfig t) \<noteq> c_protocolVersion new
             then (if c_protocolVersion new = 1 then Some kInitialTerm
                   else do { ensure (c_protocolVersion new = 0); Some kUninitializedTerm })
             else Some (t_term t)) = Some trm"
    and trm2: "trm = t_term t \<or> \<not> c_isInitialized (t_rsConfig t) \<or> c_protocolVersion (t_rsConfig t) \<noteq> c_protocolVersion new"
    using pv by (cases "\<not> c_isInitialized (t_rsConfig t) \<or> c_protocolVersion (t_rsConfig t) \<noteq> c_protocolVersion new") auto
  define t1 where "t1 = (updateHeartbeatDataForReconfig new self (t\<lparr>t_term := trm\<rparr>))
                     \<lparr>t_stepDownPending := False, t_rsConfig := new, t_selfIndex := self, t_forceSyncSourceIndex := -1\<rparr>"
  have t1: "t_hbdata t1 = t_hbdata (updateHeartbeatDataForReconfig new self (t\<lparr>t_term := trm\<rparr>))"
    "t_rsConfig t1 = new" "t_selfIndex t1 = self" "t_forceSyncSourceIndex t1 = -1" "t_lastVote t1 = t_lastVote t"
    "t_term t1 = trm" "t_role t1 = t_role t" "t_maintenanceModeCalls t1 = t_maintenanceModeCalls t"
    "t_storageEngineSupportsReadCommitted t1 = t_storageEngineSupportsReadCommitted t" "\<not> t_stepDownPending t1"
    by (simp_all add: t1_def updateHeartbeatDataForReconfig_def)
  have self_down: "self \<noteq> -1 \<Longrightarrow> \<not> up (t_hbdata t1 ! nat self)"
    using index_okD [OF new(2)] carried_self by (simp add: t1)
  have base: "tc_ok (t1\<lparr>t_role := r, t_currentPrimaryIndex := p\<rparr>)"
    if "roles_ok r self p" "p = -1 \<or> p = self" for r p
    using that new self_down rc tc_ok_D(9) [OF ok] by (auto simp: tc_ok_def t1)
  show ?thesis
  proof (cases "t_role t = RoleLeader \<and> self \<noteq> -1 \<and> isElectable (c_members new ! nat self)")
    case True
    have sc: "selfConfig t1 = Some (c_members new ! nat self)"
      using True index_okD [OF new(2)] by (simp add: selfConfig_def t1 getMemberAt_Some)
    have "updateConfig new self now t = Some (t1\<lparr>t_currentPrimaryIndex := self\<rparr>)"
      using True trm sc role new(2) unfolding updateConfig_def t1_def [symmetric] Let_def
      by (simp add: t1_def index_ok_def)
    moreover have "tc_ok (t1\<lparr>t_currentPrimaryIndex := self\<rparr>)"
    proof -
      have "t1\<lparr>t_role := RoleLeader\<rparr> = t1" using True t1(7) by (cases t1) simp
      then show ?thesis using base [of RoleLeader self] True by (simp add: roles_ok_def)
    qed
    ultimately show ?thesis using True trm2 t1 by simp
  next
    case False
    let ?t2 = "t1\<lparr>t_role := RoleFollower, t_currentPrimaryIndex := -1\<rparr>"
    have ok2: "tc_ok ?t2" by (rule base) (auto simp: roles_ok_def)
    obtain b where b: "isElectableNodeInSingleNodeReplicaSet ?t2 = Some b" "b \<longrightarrow> t_selfIndex ?t2 = 0"
      using single_node_total [OF ok2] by blast
    have stay: "(if t_role t = RoleLeader \<and> self \<noteq> -1 then do { me \<leftarrow> selfConfig t1; Some (isElectable me) } else Some False) = Some False"
      using False index_okD [OF new(2)] by (auto simp: selfConfig_def t1 getMemberAt_Some)
    have "updateConfig new self now t = Some (if b then ?t2\<lparr>t_role := RoleCandidate\<rparr> else ?t2)"
      using trm stay role new(2) b(1) unfolding updateConfig_def Let_def t1_def
      by (simp add: index_ok_def split del: if_split)
    moreover have "b \<Longrightarrow> tc_ok (?t2\<lparr>t_role := RoleCandidate\<rparr>)" using tc_ok_candidate [OF ok2] b(2) by simp
    ultimately show ?thesis using False ok2 trm2 t1 by auto
  qed
qed

section \<open>Stepping down\<close>

lemma stepDownSelf_ok:
  assumes "tc_ok t" "t_role t = RoleLeader" "p \<noteq> t_selfIndex t" "index_ok (t_rsConfig t) p"
    "p \<noteq> -1 \<Longrightarrow> seenPrimary (t_hbdata t ! nat p)"
  shows "\<exists>t'. stepDownSelfAndReplaceWith p t = Some t' \<and> tc_ok t' \<and> t_role t' = RoleFollower \<and>
     t_currentPrimaryIndex t' = p \<and> t_term t' = t_term t"
  using assms by (auto simp: stepDownSelfAndReplaceWith_def tc_ok_def roles_ok_def)

lemma caughtUpLoop_total:
  assumes "tc_ok t" "\<forall>i\<in>set is. 0 \<le> i \<and> nat i < length (c_members (t_rsConfig t))"
  shows "\<exists>b. caughtUpLoop t lastOp is = Some b \<and>
     (b \<longleftrightarrow> (\<exists>i\<in>set is. i \<noteq> t_selfIndex t \<and> getUnelectableReason t i lastOp = Some 0 \<and>
                   ot_ge (hb_appliedOpTime (t_hbdata t ! nat i)) lastOp))"
  using assms(2)
proof (induction "is")
  case (Cons i "is")
  obtain b where b: "caughtUpLoop t lastOp is = Some b"
     "b \<longleftrightarrow> (\<exists>i\<in>set is. i \<noteq> t_selfIndex t \<and> getUnelectableReason t i lastOp = Some 0 \<and>
                   ot_ge (hb_appliedOpTime (t_hbdata t ! nat i)) lastOp)"
    using Cons by auto
  show ?case
  proof (cases "i = t_selfIndex t")
    case False
    have i: "0 \<le> i" "nat i < length (c_members (t_rsConfig t))" using Cons.prems by auto
    obtain r where r: "getUnelectableReason t i lastOp = Some r"
      using getUnelectableReason_total [OF assms(1) False i] by blast
    have h: "nth_opt (t_hbdata t) i = Some (t_hbdata t ! nat i)"
      using i tc_ok_D(2) [OF assms(1)] by (simp add: nth_opt_def)
    show ?thesis using b False r h by auto
  qed (use b in auto)
qed auto

lemma stepDown_ok:
  assumes "tc_ok t" "t_role t = RoleLeader"
  shows "\<exists>b t'. stepDown until force lastOp t = Some (b, t') \<and> tc_ok t' \<and>
     (b \<longleftrightarrow> force \<or> (\<exists>i. 0 \<le> i \<and> i < getNumMembers (t_rsConfig t) \<and> i \<noteq> t_selfIndex t \<and>
         getUnelectableReason t i lastOp = Some 0 \<and> ot_ge (hb_appliedOpTime (t_hbdata t ! nat i)) lastOp)) \<and>
     (b \<longrightarrow> t_role t' = RoleFollower \<and> t_stepDownUntil t' = until \<and> t_currentPrimaryIndex t' = -1) \<and> (\<not> b \<longrightarrow> t' = t)"
proof -
  let ?n = "length (c_members (t_rsConfig t))" and ?t = "t\<lparr>t_stepDownUntil := until\<rparr>"
  have s: "i \<in> set (map int [0..<?n]) \<longleftrightarrow> 0 \<le> i \<and> i < getNumMembers (t_rsConfig t)" for i
    unfolding getNumMembers_def set_map image_iff by (auto intro: bexI [of _ "nat i"])
  have rng: "\<forall>i\<in>set (map int [0..<?n]). 0 \<le> i \<and> nat i < ?n" by auto
  obtain b where b: "caughtUpLoop t lastOp (map int [0..<?n]) = Some b"
     "b \<longleftrightarrow> (\<exists>i\<in>set (map int [0..<?n]). i \<noteq> t_selfIndex t \<and> getUnelectableReason t i lastOp = Some 0 \<and>
                   ot_ge (hb_appliedOpTime (t_hbdata t ! nat i)) lastOp)"
    using caughtUpLoop_total [OF assms(1) rng] by blast
  have self: "t_selfIndex t \<noteq> -1" using tc_ok_D(6) [OF assms(1)] assms(2) by (auto simp: roles_ok_def)
  obtain t' where t': "stepDownSelfAndReplaceWith (-1) ?t = Some t'" "tc_ok t'" "t_role t' = RoleFollower"
      "t_currentPrimaryIndex t' = -1"
    using stepDownSelf_ok [of ?t "-1"] assms self by auto
  have until: "t_stepDownUntil t' = until"
    using t'(1) by (auto simp: stepDownSelfAndReplaceWith_def split: if_splits)
  have eq: "(\<exists>i\<in>set (map int [0..<?n]). Q i) \<longleftrightarrow> (\<exists>i. 0 \<le> i \<and> i < getNumMembers (t_rsConfig t) \<and> Q i)" for Q
    using s by blast
  show ?thesis
  proof (cases "force \<or> b")
    case True
    then have "stepDown until force lastOp t = Some (True, t')" using b(1) t'(1) by (auto simp: stepDown_def)
    then show ?thesis using t' until True b(2) unfolding eq by auto
  next
    case False
    then have "stepDown until force lastOp t = Some (False, t)" using b(1) by (auto simp: stepDown_def)
    then show ?thesis using False assms(1) b(2) unfolding eq by auto
  qed
qed

lemma remotePrimaries_mem:
  "i \<in> set (remotePrimaries t) \<longleftrightarrow>
     0 \<le> i \<and> i < int (length (t_hbdata t)) \<and> i \<noteq> t_selfIndex t \<and> seenPrimary (t_hbdata t ! nat i)"
  by (force simp: remotePrimaries_def set_indexed image_iff)

lemma remotePrimaries_single:
  assumes "tc_ok t" "remotePrimaries t = [i]"
  shows "index_ok (t_rsConfig t) i" "i \<noteq> -1" "i \<noteq> t_selfIndex t" "seenPrimary (t_hbdata t ! nat i)"
  using remotePrimaries_mem [of i t] assms(2) tc_ok_D(2) [OF assms(1)]
  by (auto simp: index_ok_def getNumMembers_def)

lemma stepDownIfPending_ok:
  assumes "tc_ok t"
  shows "\<exists>t'. stepDownIfPending t = Some (t_stepDownPending t, t') \<and> tc_ok t' \<and> \<not> t_stepDownPending t' \<and>
     (t_stepDownPending t \<longrightarrow> t_role t' = RoleFollower)"
proof (cases "t_stepDownPending t")
  case True
  have lead: "t_role t = RoleLeader" "t_selfIndex t \<noteq> -1"
    using tc_ok_D(11) [OF assms True] tc_ok_D(6) [OF assms] by (auto simp: roles_ok_def)
  let ?p = "case remotePrimaries t of [i] \<Rightarrow> i | _ \<Rightarrow> -1"
  have p: "?p = -1 \<or> remotePrimaries t = [?p]" by (auto split: list.splits)
  have "\<exists>t'. stepDownSelfAndReplaceWith ?p t = Some t' \<and> tc_ok t' \<and> t_role t' = RoleFollower"
    using stepDownSelf_ok [OF assms lead(1), of ?p] remotePrimaries_single [OF assms, of ?p] p lead(2) by (metis index_ok_none)
  then obtain t' where t': "stepDownSelfAndReplaceWith ?p t = Some t'" "tc_ok t'" "t_role t' = RoleFollower" by blast
  moreover have "\<not> t_stepDownPending t'" using tc_ok_D(11) [OF t'(2)] t'(3) by auto
  ultimately show ?thesis using True by (simp add: stepDownIfPending_def)
qed (use assms in \<open>simp add: stepDownIfPending_def\<close>)

section \<open>Heartbeats\<close>

lemma record_ok:
  fixes h :: MemberHeartbeatData
  assumes "tc_ok t" "0 \<le> i" "nat i < length (c_members (t_rsConfig t))" "i \<noteq> t_selfIndex t"
  defines "t1 \<equiv> t\<lparr>t_hbdata := (t_hbdata t)[nat i := h]\<rparr>"
  shows "tc_ok (if i = t_currentPrimaryIndex t \<and> \<not> seenPrimary h then t1\<lparr>t_currentPrimaryIndex := -1\<rparr> else t1)"
    "c_protocolVersion (t_rsConfig t) \<noteq> 0 \<Longrightarrow> tc_ok t1"
    "seenPrimary h \<Longrightarrow> tc_ok t1" "i \<noteq> t_currentPrimaryIndex t \<Longrightarrow> tc_ok t1"
proof -
  have n: "length (t_hbdata t) = length (c_members (t_rsConfig t))" by (rule tc_ok_D(2) [OF assms(1)])
  have self: "t_selfIndex t \<noteq> -1 \<Longrightarrow> (t_hbdata t)[nat i := h] ! nat (t_selfIndex t) = t_hbdata t ! nat (t_selfIndex t)"
    using assms(2-4) index_okD [OF tc_ok_D(3) [OF assms(1)]] by (auto simp: nth_list_update)
  have cp: "t_currentPrimaryIndex t \<noteq> -1 \<Longrightarrow> (t_hbdata t)[nat i := h] ! nat (t_currentPrimaryIndex t) =
      (if i = t_currentPrimaryIndex t then h else t_hbdata t ! nat (t_currentPrimaryIndex t))"
    using assms(2-4) index_okD [OF tc_ok_D(4) [OF assms(1)]] n by (auto simp: nth_list_update)
  show "tc_ok (if i = t_currentPrimaryIndex t \<and> \<not> seenPrimary h then t1\<lparr>t_currentPrimaryIndex := -1\<rparr> else t1)"
    "c_protocolVersion (t_rsConfig t) \<noteq> 0 \<Longrightarrow> tc_ok t1" "seenPrimary h \<Longrightarrow> tc_ok t1" "i \<noteq> t_currentPrimaryIndex t \<Longrightarrow> tc_ok t1"
    using assms(1,4) self cp unfolding tc_ok_def t1_def roles_ok_def by (auto split: if_splits)
qed

lemma primaryScan_None: "primaryScan hs best = None \<longleftrightarrow> best = None \<and> (\<forall>(i, h)\<in>set hs. \<not> seenPrimary h)"
  by (induction hs best rule: primaryScan.induct) auto

lemma primaryScan_mem:
  "primaryScan hs best = Some (i, h) \<Longrightarrow> (i, h) \<in> set hs \<and> seenPrimary h \<or> best = Some (i, h)"
proof (induction hs best rule: primaryScan.induct)
  case (2 j h' hs best)
  then show ?case by (cases "seenPrimary h' \<and> (case best of None \<Rightarrow> True | Some (j, h'') \<Rightarrow> hb_term h'' < hb_term h')") auto
qed simp

lemma primaryScan_max:
  "primaryScan hs best = Some (i, h) \<Longrightarrow>
     (\<forall>j h'. (j, h') \<in> set hs \<longrightarrow> seenPrimary h' \<longrightarrow> hb_term h' \<le> hb_term h) \<and>
     (\<forall>j h'. best = Some (j, h') \<longrightarrow> hb_term h' \<le> hb_term h)"
proof (induction hs best rule: primaryScan.induct)
  case (2 j h' hs best)
  show ?case
  proof (cases "seenPrimary h' \<and> (case best of None \<Rightarrow> True | Some (j, h'') \<Rightarrow> hb_term h'' < hb_term h')")
    case True
    then have "primaryScan hs (Some (j, h')) = Some (i, h)" using 2(2) by simp
    then have "(\<forall>j h'. (j, h') \<in> set hs \<longrightarrow> seenPrimary h' \<longrightarrow> hb_term h' \<le> hb_term h)" "hb_term h' \<le> hb_term h"
      using 2(1) True by auto
    then show ?thesis using True by (cases best) auto
  next
    case False
    then have "primaryScan hs best = Some (i, h)" using 2(2) by (simp only: primaryScan.simps if_False)
    then have "(\<forall>j h'. (j, h') \<in> set hs \<longrightarrow> seenPrimary h' \<longrightarrow> hb_term h' \<le> hb_term h)"
      "\<forall>j h'. best = Some (j, h') \<longrightarrow> hb_term h' \<le> hb_term h"
      using 2(1) False by auto
    then show ?thesis using False by (cases best) auto
  qed
qed simp

lemma updatePrimaryFromHBDataV1_ok:
  assumes ok: "tc_ok t" and i: "i \<noteq> t_selfIndex t"
  shows "\<exists>a t'. updatePrimaryFromHBDataV1 i now t = Some (a, t') \<and> tc_ok t' \<and>
     (t_selfIndex t \<noteq> -1 \<and> t_role t \<noteq> RoleLeader \<longrightarrow>
        (if t_currentPrimaryIndex t' = -1 then remotePrimaries t = []
         else t_currentPrimaryIndex t' \<in> set (remotePrimaries t) \<and>
              (\<forall>j\<in>set (remotePrimaries t). hb_term (t_hbdata t ! nat j) \<le> hb_term (t_hbdata t ! nat (t_currentPrimaryIndex t'))))) \<and>
     (a_action a = NoAction \<or> a_action a = PriorityTakeover)"
proof (cases "t_selfIndex t = -1 \<or> t_role t = RoleLeader")
  case True
  then have "updatePrimaryFromHBDataV1 i now t = Some (makeNoAction, t)"
    using i tc_ok_D(6) [OF ok] by (auto simp: updatePrimaryFromHBDataV1_def roles_ok_def)
  then show ?thesis using True ok by (auto simp: action_defs)
next
  case False
  then have self: "t_selfIndex t \<noteq> -1" "t_role t \<noteq> RoleLeader" by auto
  then have cps: "t_currentPrimaryIndex t \<noteq> t_selfIndex t" using tc_ok_D(6) [OF ok] by (auto simp: roles_ok_def)
  let ?hs = "indexed (t_hbdata t)"
  have rem: "j \<in> set (remotePrimaries t) \<longleftrightarrow> (j, t_hbdata t ! nat j) \<in> set ?hs \<and> seenPrimary (t_hbdata t ! nat j)" for j
    using tc_ok_D(7) [OF ok self(1)] by (auto simp: remotePrimaries_mem set_indexed seenPrimary_def)
  show ?thesis
  proof (cases "primaryScan ?hs None")
    case None
    then have no: "\<forall>(i, h)\<in>set ?hs. \<not> seenPrimary h" using primaryScan_None [of ?hs None] by simp
    have "remotePrimaries t = []"
    proof (rule ccontr)
      assume "remotePrimaries t \<noteq> []"
      then obtain j where "j \<in> set (remotePrimaries t)" by (meson last_in_set)
      then show False using no rem [of j] by auto
    qed
    then show ?thesis
      using None self cps i tc_ok_no_primary [OF ok self(2)]
      by (simp add: updatePrimaryFromHBDataV1_def action_defs)
  next
    case (Some ph)
    obtain p h where ph: "ph = (p, h)" by (cases ph)
    have p: "(p, h) \<in> set ?hs" "seenPrimary h" "\<And>j h'. (j, h') \<in> set ?hs \<Longrightarrow> seenPrimary h' \<Longrightarrow> hb_term h' \<le> hb_term h"
      using primaryScan_mem [of ?hs None p h] primaryScan_max [of ?hs None p h] Some ph by auto
    note pm = indexed_member [OF ok p(1)]
    have pi: "index_ok (t_rsConfig t) p" "p \<noteq> -1" using pm(3,4) by (auto simp: index_ok_def getNumMembers_def)
    have "p \<noteq> t_selfIndex t" using p(2) tc_ok_D(7) [OF ok self(1)] pm(2) by (auto simp: seenPrimary_def)
    then have ok1: "tc_ok (t\<lparr>t_currentPrimaryIndex := p\<rparr>)"
      using tc_ok_primary [OF ok self(2,1) _ pi(1)] p(2) pm(2) by simp
    have me: "getMemberAt (t_rsConfig t) (t_selfIndex t) = Some (c_members (t_rsConfig t) ! nat (t_selfIndex t))"
      using selfConfig_ok [OF ok self(1)] by (simp add: selfConfig_def)
    let ?t1 = "setMyHeartbeatMessage now [] (t\<lparr>t_currentPrimaryIndex := p\<rparr>)"
    have t1: "tc_ok ?t1" "t_rsConfig ?t1 = t_rsConfig t" "t_selfIndex ?t1 = t_selfIndex t" "t_term ?t1 = t_term t"
      "t_currentPrimaryIndex ?t1 = p"
      using ok1 by (simp_all add: setMyHeartbeatMessage_def)
    have "\<exists>a. updatePrimaryFromHBDataV1 i now t = Some (a, ?t1) \<and> (a_action a = NoAction \<or> a_action a = PriorityTakeover)"
      using Some ph self cps i pm(1) me t1
      by (auto simp: updatePrimaryFromHBDataV1_def action_defs)
    then obtain a where a: "updatePrimaryFromHBDataV1 i now t = Some (a, ?t1)" "a_action a = NoAction \<or> a_action a = PriorityTakeover"
      by blast
    have "p \<in> set (remotePrimaries t)" using p pm(2) rem by simp
    moreover have "\<forall>j\<in>set (remotePrimaries t). hb_term (t_hbdata t ! nat j) \<le> hb_term (t_hbdata t ! nat p)"
      using p(3) pm(2) rem by blast
    ultimately show ?thesis using a t1 pi(2) by (intro exI [of _ a] exI [of _ ?t1]) auto
  qed
qed

lemma stepDownSelfOnce_ok:
  "tc_ok t \<Longrightarrow> t_role t = RoleLeader \<Longrightarrow> stepDownSelfOnce t = (a, t') \<Longrightarrow> tc_ok t'"
  by (auto simp: stepDownSelfOnce_def intro: tc_ok_pending split: if_splits)

lemma highestPriorityCheck_ok:
  assumes ok: "tc_ok t"
  shows "\<exists>r. highestPriorityCheck now lastOp t = Some r \<and> (\<forall>a t'. r = Some (a, t') \<longrightarrow> tc_ok t')"
proof (cases "t_currentPrimaryIndex t = -1")
  case False
  obtain r where r: "getHighestPriorityElectableIndex t now lastOp = Some r" "index_ok (t_rsConfig t) r"
    using getHighestPriorityElectableIndex_total [OF ok] by blast
  note cp = tc_ok_D(4) [OF ok]
  show ?thesis
  proof (cases "r = -1")
    case True
    then show ?thesis using r(1) False by (simp add: highestPriorityCheck_def)
  next
    case rn: False
    let ?ot = "if r = t_selfIndex t then lastOp else hb_appliedOpTime (t_hbdata t ! nat r)"
    let ?go = "d_less (prio_at t (t_currentPrimaryIndex t)) (prio_at t r) \<and> isOpTimeCloseEnoughToLatestToElect t ?ot lastOp"
    let ?until = "now + leaseTime + c_heartbeatInterval (t_rsConfig t)"
    let ?t1 = "t\<lparr>t_stepDownPending := True\<rparr>"
    let ?self = "if t_stepDownPending t then (makeNoAction, t)
                 else (makeStepDownSelfAction (t_selfIndex ?t1), if t_electionSleepUntil ?t1 < ?until then ?t1\<lparr>t_electionSleepUntil := ?until\<rparr> else ?t1)"
    have eq: "highestPriorityCheck now lastOp t =
      (if \<not> ?go then Some None
       else Some (if t_role t = RoleLeader then Some ?self
                  else if r = t_selfIndex t \<and> t_electionSleepUntil t \<le> now
                  then Some (makeStepDownRemoteAction (t_currentPrimaryIndex t), t\<lparr>t_currentPrimaryIndex := -1\<rparr>)
                  else None))"
      using False rn r(1) member_nth [OF cp False] member_nth [OF r(2) rn] hbdata_nth [OF ok r(2) rn] iAmPrimary_ok [OF ok]
      unfolding highestPriorityCheck_def Let_def by (cases "r = t_selfIndex t") (simp_all split del: if_split cong: if_cong)
    have self_ok: "t_role t = RoleLeader \<Longrightarrow> tc_ok (snd ?self)"
      using ok tc_ok_pending [OF ok, of True] by simp
    consider "\<not> ?go" | "?go" "t_role t = RoleLeader" | "?go" "t_role t \<noteq> RoleLeader" by blast
    then show ?thesis
    proof cases
      case 1
      then have "highestPriorityCheck now lastOp t = Some None" unfolding eq by (rule if_P)
      then show ?thesis by simp
    next
      case 2
      then have "highestPriorityCheck now lastOp t = Some (Some ?self)" unfolding eq by (simp only: simp_thms if_True if_False)
      then show ?thesis using self_ok [OF 2(2)] by (metis option.inject snd_conv)
    next
      case 3
      then have "highestPriorityCheck now lastOp t = Some (if r = t_selfIndex t \<and> t_electionSleepUntil t \<le> now
                  then Some (makeStepDownRemoteAction (t_currentPrimaryIndex t), t\<lparr>t_currentPrimaryIndex := -1\<rparr>)
                  else None)"
        unfolding eq by (simp only: simp_thms if_True if_False)
      then show ?thesis using tc_ok_no_primary [OF ok 3(2)] by simp
    qed
  qed
qed (simp add: highestPriorityCheck_def)

lemma remotePrimaryCheck_ok:
  assumes ok: "tc_ok t" and self: "t_selfIndex t \<noteq> -1"
  shows "\<exists>r. remotePrimaryCheck now t = Some r \<and> (r = None \<longleftrightarrow> remotePrimaries t = []) \<and> (\<forall>a t'. r = Some (a, t') \<longrightarrow> tc_ok t')"
proof -
  consider "remotePrimaries t = []" | i where "remotePrimaries t = [i]" | i j js where "remotePrimaries t = i # j # js"
    by (metis list.exhaust)
  then show ?thesis
  proof cases
    case 2
    note i = remotePrimaries_single [OF ok 2]
    let ?t1 = "setMyHeartbeatMessage now [] t"
    have t1: "tc_ok ?t1" "t_role ?t1 = t_role t" "t_hbdata ?t1 = t_hbdata t" "t_selfIndex ?t1 = t_selfIndex t" "t_rsConfig ?t1 = t_rsConfig t"
      using ok by (simp_all add: setMyHeartbeatMessage_def)
    have prim: "iAmPrimary ?t1 = Some (t_role t = RoleLeader)" using iAmPrimary_ok [OF t1(1)] t1(2) by simp
    show ?thesis
    proof (cases "t_role t = RoleLeader")
      case True
      have h: "nth_opt (t_hbdata ?t1) i = Some (t_hbdata t ! nat i)" using hbdata_nth [OF ok i(1,2)] t1(3) by simp
      have "t_currentPrimaryIndex t \<noteq> i" using True tc_ok_D(6) [OF ok] i(3) by (auto simp: roles_ok_def)
      then show ?thesis
        using 2 True prim h stepDownSelfOnce_ok [OF t1(1)] t1 by (auto simp: remotePrimaryCheck_def)
    next
      case False
      have "tc_ok (?t1\<lparr>t_currentPrimaryIndex := i\<rparr>)"
        by (rule tc_ok_primary) (use t1 False self i in simp_all)
      then show ?thesis using 2 False prim ok by (auto simp: remotePrimaryCheck_def)
    qed
  qed (use ok in \<open>auto simp: remotePrimaryCheck_def\<close>)
qed

lemma standOrRelinquish_ok:
  assumes ok: "tc_ok t" and pv: "c_protocolVersion (t_rsConfig t) = 0" and none: "remotePrimaries t = []"
    and self: "t_selfIndex t \<noteq> -1"
  shows "\<exists>a t'. standOrRelinquish orig now lastOp t = Some (a, t') \<and> tc_ok t' \<and>
     (a_action a = StartElection \<longrightarrow> t_role t = RoleFollower \<and> t_role t' = RoleCandidate \<and> aMajoritySeemsToBeUp t = Some True)"
proof (cases "t_role t = RoleLeader")
  case True
  obtain r where r: "getMyUnelectableReason t now lastOp False = Some r"
    using getMyUnelectableReason_total [OF ok] by blast
  obtain a t' where a: "stepDownSelfOnce t = (a, t')" by fastforce
  have "tc_ok t'" "a_action a \<noteq> StartElection"
    using stepDownSelfOnce_ok [OF ok True a] a by (auto simp: stepDownSelfOnce_def action_defs split: if_splits)
  then show ?thesis using True iAmPrimary_ok [OF ok] r a ok
    by (auto simp: standOrRelinquish_def action_defs)
next
  case False
  have cp: "t_currentPrimaryIndex t = -1"
  proof (rule ccontr)
    assume cp: "t_currentPrimaryIndex t \<noteq> -1"
    have "t_currentPrimaryIndex t \<noteq> t_selfIndex t" using False self tc_ok_D(6) [OF ok] by (auto simp: roles_ok_def)
    then have "t_currentPrimaryIndex t \<in> set (remotePrimaries t)"
      using cp tc_ok_D(10) [OF ok pv cp] index_okD [OF tc_ok_D(4) [OF ok] cp] tc_ok_D(2) [OF ok]
      by (auto simp: remotePrimaries_mem)
    then show False using none by simp
  qed
  obtain s where s: "getMemberState t = Some s" using getMemberState_total [OF ok] by blast
  obtain st where st: "checkShouldStandForElection t now lastOp = Some st"
    "st = StatusOK \<longleftrightarrow> t_currentPrimaryIndex t = -1 \<and> t_role t = RoleFollower \<and> t_electionSleepUntil t \<le> now \<and>
        getMyUnelectableReason t now lastOp False = Some 0"
    using checkShouldStandForElection_total [OF ok] by blast
  show ?thesis
  proof (cases "orig = RS_RECOVERING \<and> s = RS_SECONDARY \<or> st \<noteq> StatusOK")
    case True
    then show ?thesis using False cp s st(1) ok iAmPrimary_ok [OF ok]
      by (auto simp: standOrRelinquish_def action_defs)
  next
    case go: False
    have c: "becomeCandidateIfElectable now lastOp False t = Some (StatusOK, t\<lparr>t_role := RoleCandidate\<rparr>)" "tc_ok (t\<lparr>t_role := RoleCandidate\<rparr>)"
      using becomeCandidateIfElectable_ok [OF ok, of now lastOp False] go st(2) by auto
    have maj: "aMajoritySeemsToBeUp t = Some True"
      using getMyUnelectableReason_total [OF ok, of now lastOp False] go st(2) by auto
    show ?thesis using go False cp s st c maj iAmPrimary_ok [OF ok]
      by (auto simp: standOrRelinquish_def action_defs)
  qed
qed

lemma updatePrimaryFromHBData_ok:
  assumes ok: "tc_ok (if i = t_currentPrimaryIndex t \<and> \<not> seenPrimary (t_hbdata t ! nat i) then t\<lparr>t_currentPrimaryIndex := -1\<rparr> else t)"
    and none: "t_selfIndex t = -1 \<Longrightarrow> tc_ok t"
    and i: "i \<noteq> t_selfIndex t" "0 \<le> i" "nat i < length (c_members (t_rsConfig t))" and pv: "c_protocolVersion (t_rsConfig t) = 0"
  shows "\<exists>a t'. updatePrimaryFromHBData i orig now lastOp t = Some (a, t') \<and> tc_ok t'"
proof (cases "t_selfIndex t = -1")
  case True
  then show ?thesis using none i(1) by (simp add: updatePrimaryFromHBData_def)
next
  case self: False
  define t1 where "t1 = (if i = t_currentPrimaryIndex t \<and> \<not> seenPrimary (t_hbdata t ! nat i) then t\<lparr>t_currentPrimaryIndex := -1\<rparr> else t)"
  have ok1: "tc_ok t1" and t1: "t_selfIndex t1 = t_selfIndex t" "t_rsConfig t1 = t_rsConfig t" "t_hbdata t1 = t_hbdata t"
    using ok by (auto simp: t1_def)
  have len: "length (t_hbdata t) = length (c_members (t_rsConfig t))" using tc_ok_D(2) [OF ok1] t1 by simp
  have s1: "(if i = t_currentPrimaryIndex t
             then do { h \<leftarrow> nth_opt (t_hbdata t) i; Some (if seenPrimary h then t else t\<lparr>t_currentPrimaryIndex := -1\<rparr>) }
             else Some t) = Some t1"
    using i len by (auto simp: t1_def nth_opt_def)
  obtain r1 where r1: "highestPriorityCheck now lastOp t1 = Some r1" "\<forall>a t'. r1 = Some (a, t') \<longrightarrow> tc_ok t'"
    using highestPriorityCheck_ok [OF ok1] by blast
  obtain r2 where r2: "remotePrimaryCheck now t1 = Some r2" "r2 = None \<longleftrightarrow> remotePrimaries t1 = []"
     "\<forall>a t'. r2 = Some (a, t') \<longrightarrow> tc_ok t'"
    using remotePrimaryCheck_ok [OF ok1] self t1(1) by metis
  have eq: "updatePrimaryFromHBData i orig now lastOp t =
    (case r1 of Some r \<Rightarrow> Some r | None \<Rightarrow> (case r2 of Some r \<Rightarrow> Some r | None \<Rightarrow> standOrRelinquish orig now lastOp t1))"
    using self i(1) r1(1) r2(1) s1 unfolding updatePrimaryFromHBData_def by (simp split: option.split)
  show ?thesis
  proof (cases r1)
    case (Some x)
    then show ?thesis using eq r1(2) by (cases x) auto
  next
    case n1: None
    show ?thesis
    proof (cases r2)
      case (Some x)
      then show ?thesis using eq n1 r2(3) by (cases x) auto
    next
      case None
      then have "remotePrimaries t1 = []" using r2(2) by simp
      from standOrRelinquish_ok [OF ok1 _ this, of orig now lastOp] show ?thesis
        using eq n1 None pv self t1 by auto
    qed
  qed
qed

lemma putPing_fields [simp]:
  "t_rsConfig (putPingStats h p t) = t_rsConfig t" "t_selfIndex (putPingStats h p t) = t_selfIndex t"
  "t_hbdata (putPingStats h p t) = t_hbdata t" "t_currentPrimaryIndex (putPingStats h p t) = t_currentPrimaryIndex t"
  "t_role (putPingStats h p t) = t_role t" "t_term (putPingStats h p t) = t_term t"
  "t_lastVote (putPingStats h p t) = t_lastVote t"
  by (simp_all add: putPingStats_def)

lemma nextHeartbeatInterval_total: "tc_ok t \<Longrightarrow> \<exists>d. nextHeartbeatInterval t = Some d"
  using getMemberState_total [of t] iAmPrimary_ok [of t] by (auto simp: nextHeartbeatInterval_def)

text \<open>
  An answer is processed for a heartbeat that was started; a failure that is not an
  authentication error counts against the retries of that round.
\<close>

definition round_started :: "TopologyCoordinator \<Rightarrow> HostAndPort \<Rightarrow> ReplSetHeartbeatResponse StatusWith \<Rightarrow> bool" where
  "round_started t target resp \<longleftrightarrow>
     ps_lastHeartbeatStartDate (getPingStats t target) \<noteq> 0 \<and>
     (\<forall>e. resp = Inl e \<longrightarrow> isAuthError e \<or> ps_numFailuresSinceLastStart (getPingStats t target) < int_max)"

lemma recordPing_total: "round_started t target resp \<Longrightarrow> \<exists>p. recordPing rtt resp (getPingStats t target) = Some p"
  by (auto simp: recordPing_def round_started_def ps_miss_def split: sum.splits)

lemma processHeartbeatResponse_ok:
  assumes ok: "tc_ok t0" and started: "round_started t0 target resp"
    and notself: "t_selfIndex t0 \<noteq> -1 \<Longrightarrow> findMemberIndexByHostAndPort (t_rsConfig t0) target \<noteq> t_selfIndex t0"
  shows "\<exists>a t'. processHeartbeatResponse now rtt target failure resp lastOp t0 = Some (a, t') \<and> tc_ok t'"
proof -
  obtain s where s: "getMemberState t0 = Some s" using getMemberState_total [OF ok] by blast
  obtain p where p: "recordPing rtt resp (getPingStats t0 target) = Some p" using recordPing_total [OF started] by blast
  define t where "t = putPingStats target p t0"
  have okt: "tc_ok t" and tf: "t_rsConfig t = t_rsConfig t0" "t_selfIndex t = t_selfIndex t0" using ok by (simp_all add: t_def)
  obtain d where d: "nextHeartbeatInterval t = Some d" using nextHeartbeatInterval_total [OF okt] by blast
  let ?i = "findMemberIndexByHostAndPort (t_rsConfig t) target"
  define retry where "retry = (ps_numFailuresSinceLastStart p \<le> kMaxHeartbeatRetries \<and>
                       now - ps_lastHeartbeatStartDate p < getHeartbeatTimeoutPeriodMillis (t_rsConfig t))"
  define nxt where "nxt = (if retry then now else now + d)"
  let ?h = "recordHeartbeat now failure resp (\<not> retry) (t_hbdata t ! nat ?i)"
  let ?t1 = "t\<lparr>t_hbdata := (t_hbdata t)[nat ?i := ?h]\<rparr>"
  let ?upd = "if c_protocolVersion (t_rsConfig t) = 0 then updatePrimaryFromHBData ?i s now lastOp ?t1
              else updatePrimaryFromHBDataV1 ?i now ?t1"
  have start: "ps_lastHeartbeatStartDate (getPingStats t0 target) \<noteq> 0" using started by (simp add: round_started_def)
  have eq: "processHeartbeatResponse now rtt target failure resp lastOp t0 =
    (if newerConfig t resp then Some (setNextHeartbeatStartDate nxt makeReconfigAction, t)
     else if \<not> c_isInitialized (t_rsConfig t) then Some (setNextHeartbeatStartDate nxt makeNoAction, t)
     else if ?i = -1 then Some (setNextHeartbeatStartDate nxt makeNoAction, t)
     else do { ensure (?i \<noteq> t_selfIndex t); h \<leftarrow> nth_opt (t_hbdata t) ?i; _ \<leftarrow> getMemberAt (t_rsConfig t) ?i;
               (action, t2) \<leftarrow>
                 (let t1 = t\<lparr>t_hbdata := (t_hbdata t)[nat ?i := recordHeartbeat now failure resp (\<not> retry) h]\<rparr> in
                  if c_protocolVersion (t_rsConfig t) = 0 then updatePrimaryFromHBData ?i s now lastOp t1
                  else updatePrimaryFromHBDataV1 ?i now t1);
               Some (setNextHeartbeatStartDate nxt action, t2) })"
    using s p d start unfolding processHeartbeatResponse_def Let_def nxt_def retry_def t_def
    by (simp split del: if_split cong: if_cong)
  show ?thesis
  proof (cases "newerConfig t resp \<or> \<not> c_isInitialized (t_rsConfig t) \<or> ?i = -1")
    case True
    then show ?thesis using eq okt by auto
  next
    case False
    have ii: "index_ok (t_rsConfig t) ?i" using index_by_host by blast
    note r = index_okD [OF ii]
    have ns: "?i \<noteq> t_selfIndex t" using notself False tf by metis
    have upd: "\<exists>a t'. ?upd = Some (a, t') \<and> tc_ok t'"
    proof (cases "c_protocolVersion (t_rsConfig t) = 0")
      case True
      have 1: "tc_ok (if ?i = t_currentPrimaryIndex t \<and> \<not> seenPrimary ?h then ?t1\<lparr>t_currentPrimaryIndex := -1\<rparr> else ?t1)"
        using record_ok(1) [OF okt] r False ns by blast
      have h: "(t_hbdata t)[nat ?i := ?h] ! nat ?i = ?h" using r False tc_ok_D(2) [OF okt] by simp
      have "t_selfIndex t = -1 \<Longrightarrow> tc_ok ?t1"
        using record_ok(4) [OF okt _ _ ns] r False tc_ok_D(6) [OF okt] by (auto simp: roles_ok_def)
      then show ?thesis
        using updatePrimaryFromHBData_ok [of ?i ?t1 s now lastOp] 1 h ns r False True by simp
    next
      case pv: False
      have "tc_ok ?t1" using record_ok(2) [OF okt _ _ ns pv] r False by blast
      from updatePrimaryFromHBDataV1_ok [OF this, of ?i now] ns pv show ?thesis by auto
    qed
    then obtain a t' where a: "?upd = Some (a, t')" "tc_ok t'" by blast
    have "processHeartbeatResponse now rtt target failure resp lastOp t0 = Some (setNextHeartbeatStartDate nxt a, t')"
      unfolding eq using False ns hbdata_nth [OF okt ii] member_nth [OF ii] a(1) by (simp split del: if_split)
    then show ?thesis using a(2) by blast
  qed
qed

lemma setMemberAsDown_ok:
  assumes ok: "tc_ok t" and i: "0 \<le> i" "nat i < length (c_members (t_rsConfig t))" "i \<noteq> t_selfIndex t"
    and lead: "t_role t = RoleLeader"
  shows "\<exists>a t'. setMemberAsDown now i lastOp t = Some (a, t') \<and> tc_ok t' \<and>
     (a_action a = StepDownSelf \<longleftrightarrow>
        \<not> t_stepDownPending t \<and> aMajoritySeemsToBeUp (t\<lparr>t_hbdata := t_hbdata t'\<rparr>) = Some False) \<and>
     \<not> up (t_hbdata t' ! nat i)"
proof -
  have cp: "t_currentPrimaryIndex t = t_selfIndex t" using tc_ok_D(6) [OF ok] lead by (auto simp: roles_ok_def)
  let ?h = "setDownValues now ''no response within election timeout period'' (t_hbdata t ! nat i)"
  let ?t1 = "t\<lparr>t_hbdata := (t_hbdata t)[nat i := ?h]\<rparr>"
  have ok1: "tc_ok ?t1" using record_ok(4) [OF ok i] i(3) cp by simp
  obtain r where r: "getMyUnelectableReason ?t1 now lastOp False = Some r"
      "and CannotSeeMajority r \<noteq> 0 \<longleftrightarrow> aMajoritySeemsToBeUp ?t1 = Some False"
    using getMyUnelectableReason_total [OF ok1] by blast
  have h: "nth_opt (t_hbdata t) i = Some (t_hbdata t ! nat i)" using i tc_ok_D(2) [OF ok] by (simp add: nth_opt_def)
  obtain a t' where a: "stepDownSelfOnce ?t1 = (a, t')" by fastforce
  have ok2: "tc_ok t'" using stepDownSelfOnce_ok [OF ok1 _ a] lead by simp
  have hb: "t_hbdata t' = t_hbdata ?t1" using a by (auto simp: stepDownSelfOnce_def split: if_splits)
  have "setMemberAsDown now i lastOp t = Some (if and CannotSeeMajority r \<noteq> 0 then (a, t') else (makeNoAction, ?t1))"
    using i(1,3) cp h r(1) a by (simp add: setMemberAsDown_def split del: if_split cong: if_cong)
  moreover have "\<not> up (t_hbdata ?t1 ! nat i)" using i(2) tc_ok_D(2) [OF ok] by simp
  moreover have "a_action a = StepDownSelf \<longleftrightarrow> \<not> t_stepDownPending t"
    using a by (auto simp: stepDownSelfOnce_def action_defs split: if_splits)
  ultimately show ?thesis
    using ok1 ok2 hb r(2) by (cases "and CannotSeeMajority r = 0") (auto simp: makeNoAction_def)
qed

subsection \<open>Requests and answers\<close>

lemma heartbeatRound_ok: "tc_ok t \<Longrightarrow> heartbeatRound now target t = (e, t') \<Longrightarrow> tc_ok t' \<and> t_selfIndex t' = t_selfIndex t"
  by (auto simp: heartbeatRound_def split: if_splits)

lemma heartbeatSender_total: "tc_ok t \<Longrightarrow> \<exists>x. heartbeatSender t = Some x"
  using selfConfig_ok [of t] by (cases "t_selfIndex t \<ge> 0") (auto simp: heartbeatSender_def)

lemma prepareHeartbeatRequest_ok:
  assumes "tc_ok t"
  shows "\<exists>a d t'. prepareHeartbeatRequest now name target t = Some (a, d, t') \<and> tc_ok t'"
    "\<exists>a d t'. prepareHeartbeatRequestV1 now name target t = Some (a, d, t') \<and> tc_ok t'"
proof -
  obtain e t1 where e: "heartbeatRound now target t = (e, t1)" by fastforce
  have ok: "tc_ok t1" using heartbeatRound_ok [OF assms e] by simp
  obtain i h where "heartbeatSender t1 = Some (i, h)" using heartbeatSender_total [OF ok] by fastforce
  then show "\<exists>a d t'. prepareHeartbeatRequest now name target t = Some (a, d, t') \<and> tc_ok t'"
    "\<exists>a d t'. prepareHeartbeatRequestV1 now name target t = Some (a, d, t') \<and> tc_ok t'"
    using e ok by (auto simp: prepareHeartbeatRequest_def prepareHeartbeatRequestV1_def)
qed

text \<open>
  After a request the round of the target is open: it has a start date, and retries are left.
\<close>

lemma heartbeatRound_started:
  assumes "now \<noteq> 0" "heartbeatRound now target t = (e, t')"
    and "ps_lastHeartbeatStartDate (getPingStats t target) \<noteq> 0 \<or> ps_numFailuresSinceLastStart (getPingStats t target) = int_max"
  shows "round_started t' target resp"
proof -
  have g: "getPingStats (putPingStats target p t) target = p" for p
    by (simp add: getPingStats_def putPingStats_def update_conv')
  show ?thesis
    using assms
    by (auto simp: heartbeatRound_def round_started_def g ps_start_def kMaxHeartbeatRetries_def int_max_def split: if_splits)
qed

lemma member_unique_id:
  assumes "tc_ok t" "index_ok (t_rsConfig t) i" "i \<noteq> -1" "index_ok (t_rsConfig t) j" "j \<noteq> -1"
    "mc_id (c_members (t_rsConfig t) ! nat i) = mc_id (c_members (t_rsConfig t) ! nat j)"
  shows "i = j"
proof -
  have r: "0 \<le> i" "nat i < length (c_members (t_rsConfig t))" "0 \<le> j" "nat j < length (c_members (t_rsConfig t))"
    using index_okD [OF assms(2,3)] index_okD [OF assms(4,5)] by auto
  have "nat i = nat j"
    using r assms(6) tc_ok_D(1) [OF assms(1)] by (auto simp: cfg_ok_def split: if_splits)
  then show ?thesis using r by simp
qed

lemma answerConfig_ok:
  assumes ok: "tc_ok t" and other: "t_selfIndex t \<noteq> -1 \<Longrightarrow> ha_senderId args \<noteq> mc_id (c_members (t_rsConfig t) ! nat (t_selfIndex t))"
  shows "\<exists>r' t'. answerConfig now args b r t = Some (StatusOK, r', t') \<and> tc_ok t'"
proof (cases "c_isInitialized (t_rsConfig t) \<and> c_version (t_rsConfig t) = ha_configVersion args \<and> ha_senderId args \<noteq> -1 \<and>
   getMemberIndex t (ha_senderId args) \<noteq> -1")
  case True
  let ?i = "getMemberIndex t (ha_senderId args)"
  have i: "index_ok (t_rsConfig t) ?i" "mc_id (c_members (t_rsConfig t) ! nat ?i) = ha_senderId args"
    using index_by_id [OF refl] True unfolding getMemberIndex_def by auto
  note r = index_okD [OF i(1)]
  have ns: "?i \<noteq> t_selfIndex t" using i(2) other True by auto
  let ?h = "t_hbdata t ! nat ?i"
  have "seenPrimary (?h\<lparr>hb_lastHeartbeatRecv := now\<rparr>) = seenPrimary ?h" by (simp add: seenPrimary_def up_def)
  then have "tc_ok (t\<lparr>t_hbdata := (t_hbdata t)[nat ?i := ?h\<lparr>hb_lastHeartbeatRecv := now\<rparr>]\<rparr>)"
    using record_ok(2-4) [OF ok _ _ ns, of "?h\<lparr>hb_lastHeartbeatRecv := now\<rparr>"] r True tc_ok_D(10) [OF ok] ns by metis
  then show ?thesis
    using True ns hbdata_nth [OF ok i(1)] by (simp add: answerConfig_def noteHeartbeatRecv_def)
next
  case False
  then show ?thesis using ok by (auto simp: answerConfig_def)
qed

lemma sameIdCheck_total:
  assumes "tc_ok t" "checkName \<Longrightarrow> t_selfIndex t \<noteq> -1 \<Longrightarrow> c_replSetName (t_rsConfig t) = ha_setName args"
  shows "\<exists>st. sameIdCheck args checkName t s = Some st \<and>
    (st = StatusOK \<longrightarrow> t_selfIndex t \<noteq> -1 \<longrightarrow> ha_senderId args \<noteq> mc_id (c_members (t_rsConfig t) ! nat (t_selfIndex t)))"
  using assms selfConfig_ok [OF assms(1)] by (cases "t_selfIndex t = -1") (auto simp: sameIdCheck_def)

lemma prepareHeartbeatResponse_ok:
  assumes ok: "tc_ok t" and name: "t_selfIndex t \<noteq> -1 \<Longrightarrow> c_replSetName (t_rsConfig t) = ourSetName"
  shows "\<exists>s r t'. prepareHeartbeatResponse now args ourSetName lastOp lastDur t = Some (s, r, t') \<and> tc_ok t'"
proof (cases "ha_protocolVersion args = 1 \<and> ourSetName = ha_setName args")
  case True
  obtain s where s: "getMemberState t = Some s" using getMemberState_total [OF ok] by blast
  obtain m where m: "getMyUnelectableReason t now lastOp False = Some m" using getMyUnelectableReason_total [OF ok] by blast
  obtain st where st: "sameIdCheck args True t s = Some st"
    "st = StatusOK \<longrightarrow> t_selfIndex t \<noteq> -1 \<longrightarrow> ha_senderId args \<noteq> mc_id (c_members (t_rsConfig t) ! nat (t_selfIndex t))"
    using sameIdCheck_total [OF ok, of True args s] name True by auto
  show ?thesis
  proof (cases st)
    case None
    with st(2) have a: "\<exists>s r' t'. answerConfig now args True r t = Some (s, r', t') \<and> tc_ok t'" for r
      using answerConfig_ok [OF ok, of args now True r] by auto
    show ?thesis using True s m st(1) None by (simp add: prepareHeartbeatResponse_def a split del: if_split)
  qed (use True s st(1) ok in \<open>auto simp: prepareHeartbeatResponse_def\<close>)
qed (use ok in \<open>auto simp: prepareHeartbeatResponse_def\<close>)

lemma prepareHeartbeatResponseV1_ok:
  assumes ok: "tc_ok t"
  shows "\<exists>s r t'. prepareHeartbeatResponseV1 now args ourSetName lastOp lastDur t = Some (s, r, t') \<and> tc_ok t'"
proof (cases "ourSetName = ha_setName args")
  case True
  obtain s where s: "getMemberState t = Some s" using getMemberState_total [OF ok] by blast
  obtain p where p: "currentPrimaryMember t = Some p" using currentPrimaryMember_ok [OF ok] by blast
  obtain st where st: "sameIdCheck args False t s = Some st"
    "st = StatusOK \<longrightarrow> t_selfIndex t \<noteq> -1 \<longrightarrow> ha_senderId args \<noteq> mc_id (c_members (t_rsConfig t) ! nat (t_selfIndex t))"
    using sameIdCheck_total [OF ok, of False args s] by auto
  show ?thesis
  proof (cases st)
    case None
    with st(2) have a: "\<exists>s r' t'. answerConfig now args False r t = Some (s, r', t') \<and> tc_ok t'" for r
      using answerConfig_ok [OF ok, of args now False r] by auto
    show ?thesis using True s p st(1) None by (simp add: prepareHeartbeatResponseV1_def a split del: if_split)
  qed (use True s st(1) ok in \<open>auto simp: prepareHeartbeatResponseV1_def\<close>)
qed (use ok in \<open>auto simp: prepareHeartbeatResponseV1_def\<close>)

lemma restartHeartbeats_ok: "tc_ok t \<Longrightarrow> tc_ok (restartHeartbeats t)"
  using index_okD [of "t_rsConfig t" "t_selfIndex t"] index_okD [of "t_rsConfig t" "t_currentPrimaryIndex t"]
  by (auto simp: tc_ok_def restartHeartbeats_def hb_restart_def up_def seenPrimary_def)

section \<open>Sync sources\<close>

text \<open>What every accepted candidate satisfies, whichever attempt accepted it.\<close>

definition usable_source :: "TopologyCoordinator \<Rightarrow> Date \<Rightarrow> OpTime \<Rightarrow> int \<Rightarrow> bool" where
  "usable_source t now fetched i \<longleftrightarrow>
     index_ok (t_rsConfig t) i \<and> i \<noteq> -1 \<and> i \<noteq> t_selfIndex t \<and>
     (let m = c_members (t_rsConfig t) ! nat i; h = t_hbdata t ! nat i; me = c_members (t_rsConfig t) ! nat (t_selfIndex t) in
      up h \<and> readable (hb_state h) \<and> ot_gt (hb_appliedOpTime h) fetched \<and> \<not> memberIsBlacklisted t m now \<and>
      (mc_buildIndexes me \<longrightarrow> mc_buildIndexes m))"

lemma candidateAccepted_total:
  assumes "index_ok (t_rsConfig t) k"
  shows "\<exists>b. candidateAccepted t now fetched oldest first me k m h = Some b \<and>
    (b \<longrightarrow> up h \<and> readable (hb_state h) \<and> ot_gt (hb_appliedOpTime h) fetched \<and> \<not> memberIsBlacklisted t m now \<and>
       (mc_buildIndexes me \<longrightarrow> mc_buildIndexes m) \<and> (first \<longrightarrow> strictCandidate me m h oldest) \<and>
       (k \<noteq> -1 \<longrightarrow> getPing t (mc_host m) \<le> getPing t (mc_host (c_members (t_rsConfig t) ! nat k))))"
  using member_nth [OF assms]
  by (cases "k = -1") (auto simp: candidateAccepted_def ot_gt_def simp del: readable.simps)

lemma closestLoop_total:
  assumes ok: "tc_ok t" and self: "t_selfIndex t \<noteq> -1" and hs: "set hs \<subseteq> set (indexed (t_hbdata t))"
    and k: "index_ok (t_rsConfig t) k" "k \<noteq> -1 \<Longrightarrow> usable_source t now fetched k"
  shows "\<exists>r. closestLoop t now fetched oldest first hs k = Some r \<and> index_ok (t_rsConfig t) r \<and>
     (r \<noteq> -1 \<longrightarrow> usable_source t now fetched r)"
  using hs k
proof (induction hs arbitrary: k)
  case (Cons x hs)
  obtain i h where x: "x = (i, h)" by (cases x)
  note m = indexed_member [OF ok, of i h]
  have ih: "(i, h) \<in> set (indexed (t_hbdata t))" using Cons.prems by (simp add: x)
  let ?m = "c_members (t_rsConfig t) ! nat i" and ?me = "c_members (t_rsConfig t) ! nat (t_selfIndex t)"
  obtain b where b: "candidateAccepted t now fetched oldest first ?me k ?m h = Some b"
    "b \<longrightarrow> up h \<and> readable (hb_state h) \<and> ot_gt (hb_appliedOpTime h) fetched \<and> \<not> memberIsBlacklisted t ?m now \<and>
       (mc_buildIndexes ?me \<longrightarrow> mc_buildIndexes ?m)"
    using candidateAccepted_total [OF Cons.prems(2), of now fetched oldest first ?me ?m h] by metis
  show ?case
  proof (cases "i = t_selfIndex t")
    case True
    then show ?thesis using Cons by (simp add: x)
  next
    case False
    have ii: "index_ok (t_rsConfig t) i" "i \<noteq> -1" using m(3,4) [OF ih] by (auto simp: index_ok_def getNumMembers_def)
    have "b \<Longrightarrow> usable_source t now fetched i"
      using b(2) ii False m(2) [OF ih] by (simp add: usable_source_def del: readable.simps)
    then have "\<exists>r. closestLoop t now fetched oldest first hs (if b then i else k) = Some r \<and> index_ok (t_rsConfig t) r \<and>
        (r \<noteq> -1 \<longrightarrow> usable_source t now fetched r)"
      using Cons.prems ii by (intro Cons.IH) auto
    then show ?thesis using False m(1) [OF ih] selfConfig_ok [OF ok self] b(1) by (simp add: x)
  qed
qed simp

lemma oldestAcceptable_total: "tc_ok t \<Longrightarrow> \<exists>x. oldestAcceptable t = Some x"
  using hbdata_nth [of t "t_currentPrimaryIndex t"] tc_ok_D(4) [of t]
  by (cases "t_currentPrimaryIndex t = -1") (auto simp: oldestAcceptable_def)

lemma chooseClosest_total:
  assumes ok: "tc_ok t" and self: "t_selfIndex t \<noteq> -1"
  shows "\<exists>r. chooseClosest t now fetched = Some r \<and> index_ok (t_rsConfig t) r \<and> (r \<noteq> -1 \<longrightarrow> usable_source t now fetched r)"
proof -
  obtain x where x: "oldestAcceptable t = Some x" using oldestAcceptable_total [OF ok] by blast
  note l = closestLoop_total [OF ok self subset_refl index_ok_none]
  obtain r where r: "closestLoop t now fetched x True (indexed (t_hbdata t)) (-1) = Some r" "index_ok (t_rsConfig t) r"
     "r \<noteq> -1 \<longrightarrow> usable_source t now fetched r"
    using l [of now fetched x True] by auto
  show ?thesis
  proof (cases "r = -1")
    case True
    then show ?thesis using l [of now fetched x False] x r(1) by (simp add: chooseClosest_def)
  next
    case False
    then show ?thesis using x r by (simp add: chooseClosest_def)
  qed
qed

lemma closestLoop_finds:
  assumes ok: "tc_ok t" and self: "t_selfIndex t \<noteq> -1" and hs: "set hs \<subseteq> set (indexed (t_hbdata t))"
    and none: "closestLoop t now fetched oldest False hs k = Some (-1)"
  shows "k = -1 \<and> (\<forall>(i, h)\<in>set hs. \<not> usable_source t now fetched i)"
  using hs none
proof (induction hs arbitrary: k)
  case (Cons x hs)
  obtain i h where x: "x = (i, h)" by (cases x)
  have ih: "(i, h) \<in> set (indexed (t_hbdata t))" using Cons.prems by (simp add: x)
  note m = indexed_member [OF ok ih]
  let ?m = "c_members (t_rsConfig t) ! nat i" and ?me = "c_members (t_rsConfig t) ! nat (t_selfIndex t)"
  show ?case
  proof (cases "i = t_selfIndex t")
    case True
    then show ?thesis using Cons by (auto simp: x usable_source_def)
  next
    case False
    then obtain b where b: "candidateAccepted t now fetched oldest False ?me k ?m h = Some b"
      "closestLoop t now fetched oldest False hs (if b then i else k) = Some (-1)"
      using Cons.prems(2) m(1) selfConfig_ok [OF ok self] by (auto simp: x bind_eq_Some_conv)
    have n: "(if b then i else k) = -1 \<and> (\<forall>(i, h)\<in>set hs. \<not> usable_source t now fetched i)"
      using Cons.IH [OF _ b(2)] Cons.prems(1) by auto
    then have k: "\<not> b" "k = -1" using m(3,4) by (auto split: if_splits)
    then have "\<not> usable_source t now fetched i"
      using b(1) m(2) by (auto simp: candidateAccepted_def usable_source_def ot_gt_def Let_def simp del: readable.simps split: if_splits)
    then show ?thesis using n k by (simp add: x)
  qed
qed simp

lemma chooseClosest_finds:
  assumes ok: "tc_ok t" and self: "t_selfIndex t \<noteq> -1" and none: "chooseClosest t now fetched = Some (-1)"
  shows "\<not> usable_source t now fetched i"
proof
  assume u: "usable_source t now fetched i"
  obtain x where "closestLoop t now fetched x False (indexed (t_hbdata t)) (-1) = Some (-1)"
    using none by (auto simp: chooseClosest_def bind_eq_Some_conv split: if_splits)
  from closestLoop_finds [OF ok self subset_refl this] have "\<forall>(i, h)\<in>set (indexed (t_hbdata t)). \<not> usable_source t now fetched i" by simp
  moreover have "(i, t_hbdata t ! nat i) \<in> set (indexed (t_hbdata t))"
    using u tc_ok_D(2) [OF ok] by (auto simp: usable_source_def index_ok_def getNumMembers_def set_indexed)
  ultimately show False using u by blast
qed

lemma syncFrom_ok [simp]: "tc_ok (snd (syncFrom host now msg t)) = tc_ok t" "tc_ok (snd (noSource t)) = tc_ok t"
  "fst (syncFrom host now msg t) = host" "fst (noSource t) = HostAndPort_empty"
  "t_syncSource (snd (syncFrom host now msg t)) = host" "t_syncSource (snd (noSource t)) = HostAndPort_empty"
  by (simp_all add: syncFrom_def noSource_def setMyHeartbeatMessage_def)

lemma choosePrimaryOnly_ok:
  assumes ok: "tc_ok t"
  shows "\<exists>r. choosePrimaryOnly now t = Some r \<and> tc_ok (snd r) \<and> t_syncSource (snd r) = fst r \<and>
    (fst r = HostAndPort_empty \<or>
     t_currentPrimaryIndex t \<notin> {-1, t_selfIndex t} \<and> fst r = mc_host (c_members (t_rsConfig t) ! nat (t_currentPrimaryIndex t)))"
  using ok currentPrimaryMember_ok [OF ok] by (auto simp: choosePrimaryOnly_def)

lemma chooseNewSyncSource_ok:
  assumes ok: "tc_ok t"
  shows "\<exists>h t'. chooseNewSyncSource now fetched pref t = Some (h, t') \<and> tc_ok t' \<and>
     (t_selfIndex t \<noteq> -1 \<longrightarrow> t_syncSource t' = h) \<and>
     (h = HostAndPort_empty \<or>
      (\<exists>i. index_ok (t_rsConfig t) i \<and> i \<noteq> -1 \<and> i \<noteq> t_selfIndex t \<and> h = mc_host (c_members (t_rsConfig t) ! nat i) \<and>
         (i = t_forceSyncSourceIndex t \<or> usable_source t now fetched i \<or>
          pref = kUseConfiguration \<and> \<not> c_chainingAllowed (t_rsConfig t) \<and> i = t_currentPrimaryIndex t)))"
proof (cases "t_selfIndex t = -1")
  case True
  then show ?thesis using ok by (simp add: chooseNewSyncSource_def)
next
  case self: False
  show ?thesis
  proof (cases "t_forceSyncSourceIndex t = -1")
    case f: False
    note fi = tc_ok_D(5) [OF ok]
    let ?m = "c_members (t_rsConfig t) ! nat (t_forceSyncSourceIndex t)"
    let ?t = "t\<lparr>t_forceSyncSourceIndex := -1\<rparr>"
    define msg where "msg = ''syncing from: '' @ HostAndPort_toString (mc_host ?m) @ '' by request''"
    have "chooseNewSyncSource now fetched pref t = Some (mc_host ?m, snd (syncFrom (mc_host ?m) now msg ?t))"
      using self f member_nth [OF fi f] fi
      by (simp add: chooseNewSyncSource_def index_ok_def msg_def syncFrom_def)
    moreover have "tc_ok (snd (syncFrom (mc_host ?m) now msg ?t))" using tc_ok_force [OF ok index_ok_none] by simp
    ultimately show ?thesis
      using f fi tc_ok_D(12) [OF ok f]
      by (intro exI [of _ "mc_host ?m"] exI [of _ "snd (syncFrom (mc_host ?m) now msg ?t)"]) auto
  next
    case f: True
    consider "needMorePings t > 0" | "\<not> needMorePings t > 0" "pref = kUseConfiguration \<and> \<not> c_chainingAllowed (t_rsConfig t)"
      | "\<not> needMorePings t > 0" "\<not> (pref = kUseConfiguration \<and> \<not> c_chainingAllowed (t_rsConfig t))" by blast
    then show ?thesis
    proof cases
      case 1
      then have "chooseNewSyncSource now fetched pref t = Some (fst (noSource t), snd (noSource t))"
        using self f by (simp add: chooseNewSyncSource_def noSource_def)
      then show ?thesis using ok by (auto simp del: prod.collapse)
    next
      case 2
      obtain r where r: "choosePrimaryOnly now t = Some r" "tc_ok (snd r)" "t_syncSource (snd r) = fst r"
        "fst r = HostAndPort_empty \<or>
         t_currentPrimaryIndex t \<notin> {-1, t_selfIndex t} \<and> fst r = mc_host (c_members (t_rsConfig t) ! nat (t_currentPrimaryIndex t))"
        using choosePrimaryOnly_ok [OF ok] by blast
      have "chooseNewSyncSource now fetched pref t = Some (fst r, snd r)"
        using self f 2 r(1) by (simp add: chooseNewSyncSource_def)
      then show ?thesis using r 2 tc_ok_D(4) [OF ok] by blast
    next
      case 3
      obtain c where c: "chooseClosest t now fetched = Some c" "index_ok (t_rsConfig t) c" "c \<noteq> -1 \<longrightarrow> usable_source t now fetched c"
        using chooseClosest_total [OF ok self] by blast
      show ?thesis
      proof (cases "c = -1")
        case True
        let ?r = "noSource (setMyHeartbeatMessage now ''could not find member to sync from'' t)"
        have "chooseNewSyncSource now fetched pref t = Some (fst ?r, snd ?r)"
          using self f 3 c(1) True by (auto simp: chooseNewSyncSource_def noSource_def)
        then show ?thesis using ok by (auto simp del: prod.collapse)
      next
        case False
        let ?m = "c_members (t_rsConfig t) ! nat c"
        let ?r = "syncFrom (mc_host ?m) now (''syncing from: '' @ HostAndPort_toString (mc_host ?m)) t"
        have "chooseNewSyncSource now fetched pref t = Some (fst ?r, snd ?r)"
          using self f 3 c(1) False member_nth [OF c(2) False] by (auto simp: chooseNewSyncSource_def syncFrom_def)
        then show ?thesis using ok c False by (auto simp: usable_source_def simp del: prod.collapse readable.simps)
      qed
    qed
  qed
qed

lemma syncFromCheck_total:
  assumes ok: "tc_ok t"
  shows "\<exists>r. syncFromCheck t target = Some r \<and>
     (\<forall>i. r = Inr i \<longrightarrow> index_ok (t_rsConfig t) i \<and> i \<noteq> -1 \<and> i \<noteq> t_selfIndex t \<and> t_selfIndex t \<noteq> -1)"
proof -
  let ?i = "findMemberIndexByHostAndPort (t_rsConfig t) target"
  consider "t_selfIndex t = -1" | "t_selfIndex t \<noteq> -1" "?i = -1" | "t_selfIndex t \<noteq> -1" "?i \<noteq> -1" by blast
  then show ?thesis
  proof cases
    case 3
    note i = index_by_host [OF refl, THEN conjunct1, of "t_rsConfig t" target]
    show ?thesis
      using 3 selfConfig_ok [OF ok] member_nth [OF i 3(2)] hbdata_nth [OF ok i 3(2)] i
      by (auto simp: syncFromCheck_def)
  qed (auto simp: syncFromCheck_def selfConfig_ok [OF ok])
qed

lemma prepareSyncFromResponse_ok:
  assumes ok: "tc_ok t"
  shows "\<exists>st r t'. prepareSyncFromResponse target applied t = Some (st, r, t') \<and> tc_ok t'"
proof -
  obtain r where r: "syncFromCheck t target = Some r"
    "\<forall>i. r = Inr i \<longrightarrow> index_ok (t_rsConfig t) i \<and> i \<noteq> -1 \<and> i \<noteq> t_selfIndex t \<and> t_selfIndex t \<noteq> -1"
    using syncFromCheck_total [OF ok] by blast
  show ?thesis
  proof (cases r)
    case (Inr i)
    then have i: "index_ok (t_rsConfig t) i" "i \<noteq> -1" "i \<noteq> t_selfIndex t" using r(2) by auto
    then have "tc_ok (t\<lparr>t_forceSyncSourceIndex := i\<rparr>)" using tc_ok_force [OF ok i(1)] by simp
    then show ?thesis
      using r(1) Inr hbdata_nth [OF ok i(1,2)] tc_ok_D(5) [OF ok]
      by (simp add: prepareSyncFromResponse_def setForceSyncSourceIndex_def index_ok_def)
  qed (use ok r in \<open>simp add: prepareSyncFromResponse_def\<close>)
qed

text \<open>The source that is expected, as an index, or -1 for none; any usable member may be the one.\<close>

definition expected_source :: "TopologyCoordinator \<Rightarrow> Date \<Rightarrow> OpTime \<Rightarrow> ChainingPreference \<Rightarrow> int \<Rightarrow> bool" where
  "expected_source t now fetched pref i \<longleftrightarrow>
     (if t_selfIndex t = -1 then i = -1
      else if t_forceSyncSourceIndex t \<noteq> -1 then i = t_forceSyncSourceIndex t
      else if needMorePings t > 0 then i = -1
      else if pref = kUseConfiguration \<and> \<not> c_chainingAllowed (t_rsConfig t)
      then i = (if t_currentPrimaryIndex t \<in> {-1, t_selfIndex t} \<or>
                   memberIsBlacklisted t (c_members (t_rsConfig t) ! nat (t_currentPrimaryIndex t)) now
                then -1 else t_currentPrimaryIndex t)
      else if \<exists>j. usable_source t now fetched j then usable_source t now fetched i else i = -1)"

lemma chooseNewSyncSource_expected:
  assumes ok: "tc_ok t"
  shows "\<exists>i h t'. chooseNewSyncSource now fetched pref t = Some (h, t') \<and> expected_source t now fetched pref i \<and>
     index_ok (t_rsConfig t) i \<and> (i \<noteq> -1 \<longrightarrow> i \<noteq> t_selfIndex t) \<and>
     h = (if i = -1 then HostAndPort_empty else mc_host (c_members (t_rsConfig t) ! nat i)) \<and> (t_selfIndex t \<noteq> -1 \<longrightarrow> t_syncSource t' = h)"
proof (cases "t_selfIndex t = -1")
  case True
  then show ?thesis by (auto simp: chooseNewSyncSource_def expected_source_def index_ok_none intro!: exI [of _ "-1"])
next
  case self: False
  show ?thesis
  proof (cases "t_forceSyncSourceIndex t = -1")
    case f: False
    note fi = tc_ok_D(5) [OF ok]
    show ?thesis
      using self f member_nth [OF fi f] fi tc_ok_D(12) [OF ok f]
      by (auto simp: chooseNewSyncSource_def index_ok_def expected_source_def syncFrom_def setMyHeartbeatMessage_def
          intro!: exI [of _ "t_forceSyncSourceIndex t"])
  next
    case f: True
    consider "needMorePings t > 0" | "\<not> needMorePings t > 0" "pref = kUseConfiguration \<and> \<not> c_chainingAllowed (t_rsConfig t)"
      | "\<not> needMorePings t > 0" "\<not> (pref = kUseConfiguration \<and> \<not> c_chainingAllowed (t_rsConfig t))" by blast
    then show ?thesis
    proof cases
      case 1
      then show ?thesis using self f
        by (auto simp: chooseNewSyncSource_def noSource_def expected_source_def index_ok_none intro!: exI [of _ "-1"])
    next
      case 2
      let ?p = "t_currentPrimaryIndex t"
      let ?i = "if ?p \<in> {-1, t_selfIndex t} \<or> memberIsBlacklisted t (c_members (t_rsConfig t) ! nat ?p) now then -1 else ?p"
      have e: "expected_source t now fetched pref ?i" unfolding expected_source_def using self f 2 by simp
      have ix: "index_ok (t_rsConfig t) ?i" "?i \<noteq> -1 \<longrightarrow> ?i \<noteq> t_selfIndex t" using tc_ok_D(4) [OF ok] by simp_all
      have "choosePrimaryOnly now t = Some (if ?i = -1 then noSource t else syncFrom (mc_host (c_members (t_rsConfig t) ! nat ?p)) now
          (''syncing from primary: '' @ HostAndPort_toString (mc_host (c_members (t_rsConfig t) ! nat ?p))) t)"
        using currentPrimaryMember_ok [OF ok] by (auto simp: choosePrimaryOnly_def)
      then show ?thesis using self f 2 e ix
        by (intro exI [of _ ?i]) (auto simp: chooseNewSyncSource_def noSource_def syncFrom_def setMyHeartbeatMessage_def)
    next
      case 3
      obtain c where c: "chooseClosest t now fetched = Some c" "index_ok (t_rsConfig t) c" "c \<noteq> -1 \<longrightarrow> usable_source t now fetched c"
        using chooseClosest_total [OF ok self] by blast
      have e: "expected_source t now fetched pref c"
        unfolding expected_source_def using self f 3 c chooseClosest_finds [OF ok self, of now fetched] by auto
      have n: "c \<noteq> -1 \<longrightarrow> c \<noteq> t_selfIndex t" using c(3) by (auto simp: usable_source_def)
      show ?thesis using self f 3 e c n member_nth [OF c(2)]
        by (intro exI [of _ c]) (auto simp: chooseNewSyncSource_def noSource_def syncFrom_def setMyHeartbeatMessage_def)
    qed
  qed
qed

text \<open>The votes of this node and of the members that are up.\<close>

definition votes_seen :: "TopologyCoordinator \<Rightarrow> int" where
  "votes_seen t = (\<Sum>i\<leftarrow>[0..<length (c_members (t_rsConfig t))].
     if int i = t_selfIndex t \<or> up (t_hbdata t ! i) then getNumVotes (c_members (t_rsConfig t) ! i) else 0)"

lemma map_indexed: "map f (indexed xs) = map (\<lambda>i. f (int i, xs ! i)) [0..<length xs]"
  by (rule nth_equalityI) (simp_all add: indexed_def)

lemma majority_votes_seen:
  assumes "tc_ok t"
  shows "aMajoritySeemsToBeUp t = Some (c_totalVotingMembers (t_rsConfig t) < 2 * votes_seen t)"
  using votesUp_total [OF assms subset_refl] tc_ok_D(2) [OF assms]
  by (simp add: aMajoritySeemsToBeUp_def votes_seen_def map_indexed mult.commute cong: if_cong)

lemma setMemberAsDown_result:
  assumes ok: "tc_ok t" and i: "0 \<le> i" "nat i < length (c_members (t_rsConfig t))" "i \<noteq> t_selfIndex t"
    and lead: "t_role t = RoleLeader"
    and t1_def: "t1 = t\<lparr>t_hbdata := (t_hbdata t)[nat i := setDownValues now ''no response within election timeout period'' (t_hbdata t ! nat i)]\<rparr>"
  shows "setMemberAsDown now i lastOp t = Some (if 2 * votes_seen t1 \<le> c_totalVotingMembers (t_rsConfig t) then stepDownSelfOnce t1 else (makeNoAction, t1))"
proof -
  have cp: "t_currentPrimaryIndex t = t_selfIndex t" using tc_ok_D(6) [OF ok] lead by (auto simp: roles_ok_def)
  have ok1: "tc_ok t1" using record_ok(4) [OF ok i] i(3) cp by (simp add: t1_def)
  obtain r where r: "getMyUnelectableReason t1 now lastOp False = Some r"
      "and CannotSeeMajority r \<noteq> 0 \<longleftrightarrow> aMajoritySeemsToBeUp t1 = Some False"
    using getMyUnelectableReason_total [OF ok1] by blast
  have m: "and CannotSeeMajority r \<noteq> 0 \<longleftrightarrow> 2 * votes_seen t1 \<le> c_totalVotingMembers (t_rsConfig t)"
    unfolding r(2) majority_votes_seen [OF ok1] by (simp add: t1_def not_less)
  have h: "nth_opt (t_hbdata t) i = Some (t_hbdata t ! nat i)" using i tc_ok_D(2) [OF ok] by (simp add: nth_opt_def)
  have "setMemberAsDown now i lastOp t = Some (if and CannotSeeMajority r \<noteq> 0 then stepDownSelfOnce t1 else (makeNoAction, t1))"
    using i(1,3) cp h r(1) unfolding t1_def by (simp add: setMemberAsDown_def split del: if_split cong: if_cong)
  then show ?thesis unfolding m .
qed

end
