(* ===== verification/TopologyMachine.thy ===== *)
theory TopologyMachine
  imports TopologySteps
begin

text \<open>
  The topology coordinator as a state machine. An operation is one call by the replication
  coordinator, which serialises them with \<open>_topoMutex\<close>; \<open>tc_run\<close> executes one,
  \<open>tc_allowed\<close> is the caller's side of the contract. The machine never aborts: every allowed
  operation returns, and returns a state that satisfies the invariant.
\<close>

datatype TopologyOp =
    OpSetReadCommitted bool
  | OpUpdateConfig ServerParams ReplSetConfig int Date
  | OpPrepareForStepDown
  | OpStepDown Date bool OpTime
  | OpStepDownIfPending
  | OpSetFollowerMode MemberState
  | OpAdjustMaintenance int
  | OpFreeze Date int
  | OpSingleNodeCandidate Date
  | OpHeartbeatRequest Date string HostAndPort
  | OpHeartbeatRequestV1 Date string HostAndPort
  | OpHeartbeatAnswer Date ReplSetHeartbeatArgs string OpTime OpTime
  | OpHeartbeatAnswerV1 Date ReplSetHeartbeatArgs string OpTime OpTime
  | OpHeartbeatResponse Date Millis HostAndPort string "ReplSetHeartbeatResponse StatusWith" OpTime
  | OpMemberDown Date int OpTime
  | OpRestartHeartbeats
  | OpElect ReplSetElectArgs Date OpTime
  | OpVoteForMyself Date
  | OpRequestVotes ReplSetRequestVotesArgs OpTime
  | OpLoadLastVote LastVote
  | OpVoteForMyselfV1
  | OpUpdateTerm Term Date
  | OpBecomeCandidate Date OpTime bool
  | OpElectionSleep Date
  | OpWinElection OID Timestamp
  | OpLoseElection
  | OpChooseSyncSource Date OpTime ChainingPreference
  | OpSyncFrom HostAndPort OpTime
  | OpBlacklist HostAndPort Date
  | OpUnblacklist HostAndPort Date
  | OpClearBlacklist

primrec tc_run :: "TopologyOp \<Rightarrow> TopologyCoordinator \<Rightarrow> TopologyCoordinator option" where
  "tc_run (OpSetReadCommitted b) t = Some (setStorageEngineSupportsReadCommitted b t)"
| "tc_run (OpUpdateConfig sp c self now) t = updateConfig c self now t"
| "tc_run OpPrepareForStepDown t = Some (prepareForStepDown t)"
| "tc_run (OpStepDown until force applied) t = map_option snd (stepDown until force applied t)"
| "tc_run OpStepDownIfPending t = map_option snd (stepDownIfPending t)"
| "tc_run (OpSetFollowerMode m) t = setFollowerMode m t"
| "tc_run (OpAdjustMaintenance k) t = adjustMaintenanceCountBy k t"
| "tc_run (OpFreeze now secs) t = map_option snd (prepareFreezeResponse now secs t)"
| "tc_run (OpSingleNodeCandidate now) t = map_option snd (becomeCandidateIfStepdownPeriodOverAndSingleNodeSet now t)"
| "tc_run (OpHeartbeatRequest now name target) t = map_option (snd \<circ> snd) (prepareHeartbeatRequest now name target t)"
| "tc_run (OpHeartbeatRequestV1 now name target) t = map_option (snd \<circ> snd) (prepareHeartbeatRequestV1 now name target t)"
| "tc_run (OpHeartbeatAnswer now args name applied durable) t =
     map_option (snd \<circ> snd) (prepareHeartbeatResponse now args name applied durable t)"
| "tc_run (OpHeartbeatAnswerV1 now args name applied durable) t =
     map_option (snd \<circ> snd) (prepareHeartbeatResponseV1 now args name applied durable t)"
| "tc_run (OpHeartbeatResponse now rtt target failure resp applied) t =
     map_option snd (processHeartbeatResponse now rtt target failure resp applied t)"
| "tc_run (OpMemberDown now i applied) t = map_option snd (setMemberAsDown now i applied t)"
| "tc_run OpRestartHeartbeats t = Some (restartHeartbeats t)"
| "tc_run (OpElect args now applied) t = map_option snd (prepareElectResponse args now applied t)"
| "tc_run (OpVoteForMyself now) t = map_option snd (voteForMyself now t)"
| "tc_run (OpRequestVotes args applied) t = map_option snd (processReplSetRequestVotes args applied t)"
| "tc_run (OpLoadLastVote lv) t = Some (loadLastVote lv t)"
| "tc_run OpVoteForMyselfV1 t = Some (voteForMyselfV1 t)"
| "tc_run (OpUpdateTerm newTerm now) t = map_option snd (updateTerm newTerm now t)"
| "tc_run (OpBecomeCandidate now applied takeover) t = map_option snd (becomeCandidateIfElectable now applied takeover t)"
| "tc_run (OpElectionSleep until) t = Some (setElectionSleepUntil until t)"
| "tc_run (OpWinElection eid et) t = processWinElection eid et t"
| "tc_run OpLoseElection t = processLoseElection t"
| "tc_run (OpChooseSyncSource now fetched pref) t = map_option snd (chooseNewSyncSource now fetched pref t)"
| "tc_run (OpSyncFrom target applied) t = map_option (snd \<circ> snd) (prepareSyncFromResponse target applied t)"
| "tc_run (OpBlacklist host until) t = Some (blacklistSyncSource host until t)"
| "tc_run (OpUnblacklist host now) t = Some (unblacklistSyncSource host now t)"
| "tc_run OpClearBlacklist t = Some (clearSyncSourceBlacklist t)"

text \<open>
  What the callers have to see to. A configuration is installed after validation, with an index
  of this node in it, never during a candidacy, and on a config server after the storage
  engine has been asked about read committed. A step down is asked of a leader. An answer is processed
  for a heartbeat that was sent to somebody else, a member is marked down by a leader. A vote
  request from this configuration names a member of it, and the last vote does, if the request
  is for its term.
\<close>

definition tc_allowed :: "TopologyOp \<Rightarrow> TopologyCoordinator \<Rightarrow> bool" where
  "tc_allowed p t \<longleftrightarrow>
     (case p of
        OpUpdateConfig sp c self now \<Rightarrow>
          ReplSetConfig_validate sp c = None \<and> c_isInitialized c \<and> (\<forall>m\<in>set (c_members c). mc_priority m \<noteq> NaN) \<and>
          index_ok c self \<and> t_role t \<noteq> RoleCandidate \<and>
          (c_configServer c \<longrightarrow> t_storageEngineSupportsReadCommitted t \<noteq> ReadCommittedUnknown)
      | OpPrepareForStepDown \<Rightarrow> t_role t = RoleLeader
      | OpStepDown until force applied \<Rightarrow> t_role t = RoleLeader
      | OpSetFollowerMode m \<Rightarrow>
          t_role t = RoleFollower \<and> m \<in> {RS_RECOVERING, RS_ROLLBACK, RS_SECONDARY, RS_STARTUP2}
      | OpAdjustMaintenance k \<Rightarrow>
          t_role t = RoleFollower \<and> 0 \<le> t_maintenanceModeCalls t + k \<and> t_maintenanceModeCalls t + k \<le> int_max
      | OpSingleNodeCandidate now \<Rightarrow> t_role t \<noteq> RoleLeader
      | OpHeartbeatAnswer now args name applied durable \<Rightarrow>
          t_selfIndex t \<noteq> -1 \<longrightarrow> c_replSetName (t_rsConfig t) = name
      | OpHeartbeatResponse now rtt target failure resp applied \<Rightarrow>
          round_started t target resp \<and>
          (t_selfIndex t \<noteq> -1 \<longrightarrow> findMemberIndexByHostAndPort (t_rsConfig t) target \<noteq> t_selfIndex t)
      | OpMemberDown now i applied \<Rightarrow>
          t_role t = RoleLeader \<and> 0 \<le> i \<and> i < getNumMembers (t_rsConfig t) \<and> i \<noteq> t_selfIndex t
      | OpRequestVotes args applied \<Rightarrow>
          t_selfIndex t \<noteq> -1 \<and>
          (va_cfgver args = c_version (t_rsConfig t) \<and> va_setName args = c_replSetName (t_rsConfig t) \<longrightarrow>
             0 \<le> va_candidateIndex args \<and> va_candidateIndex args < getNumMembers (t_rsConfig t)) \<and>
          (lv_term (t_lastVote t) = va_term args \<and> \<not> va_dryRun args \<longrightarrow>
             0 \<le> lv_candidateIndex (t_lastVote t) \<and> lv_candidateIndex (t_lastVote t) < getNumMembers (t_rsConfig t))
      | OpWinElection eid et \<Rightarrow> t_role t = RoleCandidate
      | OpLoseElection \<Rightarrow> t_role t = RoleCandidate
      | _ \<Rightarrow> True)"

text \<open>The operations that only touch fields outside the invariant.\<close>

lemma tc_run_small:
  assumes "tc_ok t"
  shows "tc_ok (setStorageEngineSupportsReadCommitted b t)" "t_role t = RoleLeader \<Longrightarrow> tc_ok (prepareForStepDown t)"
    "tc_ok (loadLastVote lv t)" "tc_ok (voteForMyselfV1 t)" "tc_ok (setElectionSleepUntil now t)"
    "tc_ok (blacklistSyncSource h now t)" "tc_ok (unblacklistSyncSource h now t)" "tc_ok (clearSyncSourceBlacklist t)"
  using assms
  by (auto simp: setStorageEngineSupportsReadCommitted_def prepareForStepDown_def loadLastVote_def voteForMyselfV1_def
      setElectionSleepUntil_def blacklistSyncSource_def unblacklistSyncSource_def clearSyncSourceBlacklist_def tc_ok_def
      split: option.splits)

lemma returns_run [simp]:
  "(\<exists>t'. map_option snd x = Some t' \<and> P t') \<longleftrightarrow> (\<exists>a t'. x = Some (a, t') \<and> P t')"
  "(\<exists>t'. map_option (snd \<circ> snd) y = Some t' \<and> P t') \<longleftrightarrow> (\<exists>a b t'. y = Some (a, b, t') \<and> P t')"
  by auto

lemma tc_run_ok:
  assumes "tc_ok t" "tc_allowed p t"
  shows "\<exists>t'. tc_run p t = Some t' \<and> tc_ok t'"
  using assms(1)
proof (cases p)
  case (OpUpdateConfig sp c self now)
  with assms(2) have c: "ReplSetConfig_validate sp c = None" "c_isInitialized c" "\<forall>m\<in>set (c_members c). mc_priority m \<noteq> NaN"
    "index_ok c self" "t_role t \<noteq> RoleCandidate"
    "c_configServer c \<Longrightarrow> t_storageEngineSupportsReadCommitted t \<noteq> ReadCommittedUnknown" by (auto simp: tc_allowed_def)
  note ok = cfg_ok_validate [OF c(1-3)]
  then have "c_protocolVersion c = 0 \<or> c_protocolVersion c = 1" using c(2) by (simp add: cfg_ok_def)
  from updateConfig_ok [OF assms(1) c(5) ok c(4) this c(6), of now] OpUpdateConfig show ?thesis by auto
next
  case (OpMemberDown now i applied)
  then show ?thesis
    using setMemberAsDown_ok [OF assms(1), of i now applied] assms(2) by (auto simp: tc_allowed_def getNumMembers_def nat_less_iff)
next
  case (OpStepDown until force applied)
  then show ?thesis using stepDown_ok [OF assms(1), of until force applied] assms(2) by (auto simp: tc_allowed_def)
next
  case (OpChooseSyncSource now fetched pref)
  then show ?thesis using chooseNewSyncSource_ok [OF assms(1), of now fetched pref] by auto
next
  case (OpSetFollowerMode m)
  then show ?thesis using setFollowerMode_ok [OF assms(1), of m] assms(2) by (auto simp: tc_allowed_def)
next
  case (OpAdjustMaintenance k)
  then show ?thesis using adjustMaintenanceCountBy_ok [OF assms(1), of k] assms(2) by (auto simp: tc_allowed_def)
next
  case (OpHeartbeatResponse now rtt target failure resp applied)
  then show ?thesis
    using processHeartbeatResponse_ok [OF assms(1), of target resp now rtt failure applied] assms(2) by (auto simp: tc_allowed_def)
next
  case (OpRequestVotes args applied)
  then show ?thesis using processReplSetRequestVotes_ok [OF assms(1), of args applied] assms(2) by (auto simp: tc_allowed_def)
next
  case (OpHeartbeatAnswer now args name applied durable)
  then show ?thesis
    using prepareHeartbeatResponse_ok [OF assms(1), of name now args applied durable] assms(2) by (auto simp: tc_allowed_def)
next
  case (OpBecomeCandidate now applied tk)
  then show ?thesis using becomeCandidateIfElectable_ok [OF assms(1), of now applied tk] by auto
next
  case OpStepDownIfPending
  then show ?thesis using stepDownIfPending_ok [OF assms(1)] by auto
next
  case (OpWinElection eid et)
  then show ?thesis using processWinElection_ok [OF assms(1), of eid et] assms(2) by (auto simp: tc_allowed_def)
next
  case OpLoseElection
  then show ?thesis using processLoseElection_ok [OF assms(1)] assms(2) by (auto simp: tc_allowed_def)
next
  case (OpElect args now applied)
  then show ?thesis using prepareElectResponse_ok [OF assms(1), of args now applied] by fastforce
next
  case (OpFreeze now secs)
  then show ?thesis using prepareFreezeResponse_ok [OF assms(1), of now secs] by fastforce
next
  case (OpUpdateTerm newTerm now)
  then show ?thesis using updateTerm_ok [OF assms(1), of newTerm now] by fastforce
next
  case (OpSingleNodeCandidate now)
  then show ?thesis using becomeCandidateSingle_ok [OF assms(1), of now] assms(2) by (auto simp: tc_allowed_def)
next
  case (OpVoteForMyself now)
  then show ?thesis using voteForMyself_ok [OF assms(1), of now] by fastforce
next
  case (OpHeartbeatRequest now name target)
  then show ?thesis using prepareHeartbeatRequest_ok(1) [OF assms(1), of now name target] by fastforce
next
  case (OpHeartbeatRequestV1 now name target)
  then show ?thesis using prepareHeartbeatRequest_ok(2) [OF assms(1), of now name target] by fastforce
next
  case (OpHeartbeatAnswerV1 now args name applied durable)
  then show ?thesis using prepareHeartbeatResponseV1_ok [OF assms(1), of now args name applied durable] by fastforce
next
  case (OpSyncFrom target applied)
  then show ?thesis using prepareSyncFromResponse_ok [OF assms(1), of target applied] by fastforce
qed (use assms(2) in \<open>simp_all add: tc_allowed_def tc_run_small restartHeartbeats_ok\<close>)

inductive tc_step :: "TopologyCoordinator \<Rightarrow> TopologyCoordinator \<Rightarrow> bool" where
  run: "tc_allowed p t \<Longrightarrow> tc_run p t = Some t' \<Longrightarrow> tc_step t t'"

lemma tc_new_ok: "tc_ok (TopologyCoordinator_new opts)"
  by (simp add: tc_ok_def TopologyCoordinator_new_def cfg_ok_def ReplSetConfig_default_def index_ok_def roles_ok_def getNumMembers_def)

interpretation topology_machine: step_invariant "\<lambda>t. \<exists>opts. t = TopologyCoordinator_new opts" tc_step tc_ok
proof
  fix t t' assume "tc_ok t" "tc_step t t'"
  then show "tc_ok t'" using tc_run_ok by (fastforce elim: tc_step.cases)
qed (use tc_new_ok in blast)

end
