(* ===== verification/TopologyProps.thy ===== *)
theory TopologyProps
  imports TopologyMachine
begin

text \<open>
  The properties of the topology coordinator, for every state its operations can reach, and the
  example run their witnesses evaluate: a member of a set of three that hears from a second
  member, stands for election and wins.
\<close>

section \<open>Runs\<close>

fun tc_runs :: "TopologyOp list \<Rightarrow> TopologyCoordinator \<Rightarrow> TopologyCoordinator option" where
  "tc_runs [] t = Some t"
| "tc_runs (p # ps) t = (if tc_allowed p t then do { t' \<leftarrow> tc_run p t; tc_runs ps t' } else None)"

lemma tc_runs_steps: "tc_runs ps t = Some t' \<Longrightarrow> tc_step\<^sup>*\<^sup>* t t'"
  by (induction ps arbitrary: t)
    (auto simp: bind_eq_Some_conv split: if_splits intro: converse_rtranclp_into_rtranclp tc_step.run)

lemma round_started_code [code]:
  "round_started t target resp \<longleftrightarrow>
     ps_lastHeartbeatStartDate (getPingStats t target) \<noteq> 0 \<and>
     (case resp of Inl e \<Rightarrow> isAuthError e \<or> ps_numFailuresSinceLastStart (getPingStats t target) < int_max | Inr _ \<Rightarrow> True)"
  by (auto simp: round_started_def split: sum.split)

abbreviation tc_reachable :: "TopologyCoordinator \<Rightarrow> bool" where
  "tc_reachable t \<equiv> \<exists>opts. tc_step\<^sup>*\<^sup>* (TopologyCoordinator_new opts) t"

lemma reachable_ok: "tc_reachable t \<Longrightarrow> tc_ok t"
  using topology_machine.reachable_inv by blast

definition demo_options :: TopologyOptions where
  "demo_options = \<lparr>o_maxSyncSourceLagSecs = 30, o_clusterRole = ClusterNone, o_skipShardingConfigurationChecks = False,
     o_priorityTakeoverFreshnessWindowSeconds = 2, o_disableMaxSyncSourceLagSecs = False, o_dateToISOStringLocal = (\<lambda>d. [])\<rparr>"

definition demo_optime :: OpTime where
  "demo_optime = \<lparr>ot_timestamp = \<lparr>ts_secs = 100, ts_inc = 1\<rparr>, ot_term = 0\<rparr>"

definition demo_answer :: "MemberState \<Rightarrow> Term \<Rightarrow> ReplSetHeartbeatResponse" where
  "demo_answer st trm = ReplSetHeartbeatResponse_default\<lparr>r_state := Some st, r_setName := ''rs0'',
     r_appliedOpTime := Some demo_optime, r_durableOpTime := Some demo_optime, r_configVersion := 1, r_term := trm\<rparr>"

definition demo_hear :: "nat \<Rightarrow> MemberState \<Rightarrow> Term \<Rightarrow> TopologyOp list" where
  "demo_hear i st trm =
     [OpHeartbeatRequestV1 1000 ''rs0'' (mc_host (c_members demo_config ! i)),
      OpHeartbeatResponse 1010 10 (mc_host (c_members demo_config ! i)) [] (Inr (demo_answer st trm)) demo_optime]"

text \<open>A secondary that hears from member 1, and the leader it becomes.\<close>

definition demo_secondary_run :: "TopologyOp list" where
  "demo_secondary_run =
     [OpUpdateConfig demo_params demo_config 0 500, OpSetFollowerMode RS_SECONDARY] @ demo_hear 1 RS_SECONDARY 0"

definition demo_leader_run :: "TopologyOp list" where
  "demo_leader_run =
     demo_secondary_run @
     [OpUpdateTerm 1 1100, OpVoteForMyselfV1, OpBecomeCandidate 1200 demo_optime False,
      OpWinElection 7 \<lparr>ts_secs = 101, ts_inc = 1\<rparr>]"

definition demo_run :: "TopologyOp list \<Rightarrow> TopologyCoordinator" where
  "demo_run ps = the (tc_runs ps (TopologyCoordinator_new demo_options))"

lemma demo_run_reachable:
  assumes "\<not> Option.is_none (tc_runs ps (TopologyCoordinator_new demo_options))"
  shows "tc_reachable (demo_run ps)"
  using assms tc_runs_steps [of ps "TopologyCoordinator_new demo_options"] by (cases "tc_runs ps (TopologyCoordinator_new demo_options)") (auto simp: demo_run_def)

lemma demo_secondary: "tc_reachable (demo_run demo_secondary_run)"
  by (rule demo_run_reachable) code_simp

lemma demo_leader: "tc_reachable (demo_run demo_leader_run)"
  by (rule demo_run_reachable) code_simp

lemma demo_leader_role: "t_role (demo_run demo_leader_run) = RoleLeader"
  by code_simp

text \<open>
  The measured latency of a member lies between its fastest and its slowest heartbeat, for
  every sequence of round trips, although it is a rounded moving average.
\<close>

theorem latency_within_samples:
  assumes "samples \<noteq> []" "\<forall>x\<in>set samples. lo \<le> x \<and> x \<le> hi" "0 \<le> lo"
  shows "lo \<le> ps_getMillis (fold ps_hit samples PingStats_default) \<and>
         ps_getMillis (fold ps_hit samples PingStats_default) \<le> hi"
proof -
  have step: "lo \<le> ps_value (ps_hit x p) \<and> ps_value (ps_hit x p) \<le> hi"
    if "lo \<le> x" "x \<le> hi" "lo \<le> ps_value p \<and> ps_value p \<le> hi \<or> ps_value p = UninitializedPing" for x p
    using that assms(3) by (auto simp: ps_hit_def trunc_div_def sgn_if UninitializedPing_def)
  have "lo \<le> ps_value (fold ps_hit xs p) \<and> ps_value (fold ps_hit xs p) \<le> hi"
    if "\<forall>x\<in>set xs. lo \<le> x \<and> x \<le> hi" "xs \<noteq> [] \<or> lo \<le> ps_value p \<and> ps_value p \<le> hi"
      "lo \<le> ps_value p \<and> ps_value p \<le> hi \<or> ps_value p = UninitializedPing" for xs p
    using that by (induction xs arbitrary: p) (auto simp: step)
  from this [of samples PingStats_default] assms show ?thesis
    by (cases "samples = []") (auto simp: ps_getMillis_def PingStats_default_def UninitializedPing_def)
qed

theorem latency_within_samples_witness:
  "10 \<le> ps_getMillis (fold ps_hit [10, 90, 40] PingStats_default) \<and> ps_getMillis (fold ps_hit [10, 90, 40] PingStats_default) \<le> 90"
  using latency_within_samples [of "[10, 90, 40]" 10 90] by simp

text \<open>
  Priority takeover freshness. If the sums stay within 32 bits, a node is fresh enough exactly if it
  has the term of the latest optime it knows of and is within the window of seconds, or within 1000
  operations of the same second.
\<close>

theorem takeover_freshness:
  assumes "latest = latestKnownOpTime t ours"
    and "uint (ts_secs (ot_timestamp ours)) + uint (o_priorityTakeoverFreshnessWindowSeconds (t_options t)) < 2 ^ 32"
    and "uint (ts_inc (ot_timestamp ours)) + 1000 < 2 ^ 32"
  shows "amIFreshEnoughForPriorityTakeover t ours \<longleftrightarrow>
     ot_term ours = ot_term latest \<and>
     (if ts_secs (ot_timestamp ours) = ts_secs (ot_timestamp latest)
      then uint (ts_inc (ot_timestamp latest)) \<le> uint (ts_inc (ot_timestamp ours)) + 1000
      else uint (ts_secs (ot_timestamp latest)) \<le>
           uint (ts_secs (ot_timestamp ours)) + uint (o_priorityTakeoverFreshnessWindowSeconds (t_options t)))"
proof -
  have plus: "uint (a + b) = uint a + uint b" if "uint a + uint b < 2 ^ 32" for a b :: "32 word"
    using that by (simp add: uint_plus_if_size word_size)
  show ?thesis
    using plus [OF assms(2)] plus [of "ts_inc (ot_timestamp ours)" 1000] assms(3)
    by (auto simp: amIFreshEnoughForPriorityTakeover_def assms(1) Let_def word_le_def)
qed

theorem takeover_freshness_witness:
  "amIFreshEnoughForPriorityTakeover (demo_run demo_leader_run) demo_optime"
proof -
  have l: "latestKnownOpTime (demo_run demo_leader_run) demo_optime = demo_optime" by code_simp
  have w: "o_priorityTakeoverFreshnessWindowSeconds (t_options (demo_run demo_leader_run)) = 2" by code_simp
  show ?thesis
    using takeover_freshness [OF l [symmetric]] by (simp add: w) (simp add: demo_optime_def)
qed





section \<open>Properties of reachable states\<close>

text \<open>
  C10: the topology coordinator never aborts. In every state that its operations reach from a new
  coordinator, an operation its callers are allowed to make passes all its internal checks, and the
  state it leaves behind satisfies the invariant.
\<close>

theorem topology_never_aborts:
  assumes "tc_step\<^sup>*\<^sup>* (TopologyCoordinator_new opts) t" "tc_allowed p t"
  shows "\<exists>t'. tc_run p t = Some t' \<and> tc_ok t'"
  using reachable_ok assms(1) tc_run_ok [OF _ assms(2)] by blast

theorem topology_never_aborts_witness:
  "\<exists>t'. tc_run (OpMemberDown 2000 1 demo_optime) (demo_run demo_leader_run) = Some t' \<and> tc_ok t'"
proof -
  obtain opts where "tc_step\<^sup>*\<^sup>* (TopologyCoordinator_new opts) (demo_run demo_leader_run)" using demo_leader by blast
  moreover have "tc_allowed (OpMemberDown 2000 1 demo_optime) (demo_run demo_leader_run)" by code_simp
  ultimately show ?thesis by (rule topology_never_aborts)
qed

text \<open>
  C18: the primary a node follows in protocol version 1 is a member that reports itself as primary and that
  has the highest term of all of those; there is none exactly if no member does.
\<close>

theorem primary_has_highest_term:
  assumes "tc_step\<^sup>*\<^sup>* (TopologyCoordinator_new opts) t" "t_selfIndex t \<noteq> -1" "t_role t \<noteq> RoleLeader" "i \<noteq> t_selfIndex t"
  shows "\<exists>a t'. updatePrimaryFromHBDataV1 i now t = Some (a, t') \<and>
     (if t_currentPrimaryIndex t' = -1 then remotePrimaries t = []
      else t_currentPrimaryIndex t' \<in> set (remotePrimaries t) \<and>
           (\<forall>j\<in>set (remotePrimaries t). hb_term (t_hbdata t ! nat j) \<le> hb_term (t_hbdata t ! nat (t_currentPrimaryIndex t'))))"
  using updatePrimaryFromHBDataV1_ok [OF reachable_ok assms(4), of now] assms(1-3) by blast

definition demo_follower_run :: "TopologyOp list" where
  "demo_follower_run = demo_secondary_run @ demo_hear 1 RS_PRIMARY 1 @ demo_hear 2 RS_PRIMARY 2"

lemma demo_follower: "tc_reachable (demo_run demo_follower_run)"
  by (rule demo_run_reachable) code_simp

theorem primary_has_highest_term_witness:
  "\<exists>a t'. updatePrimaryFromHBDataV1 1 3000 (demo_run demo_follower_run) = Some (a, t') \<and> t_currentPrimaryIndex t' = 2"
proof -
  let ?t = "demo_run demo_follower_run"
  obtain opts where r: "tc_step\<^sup>*\<^sup>* (TopologyCoordinator_new opts) ?t" using demo_follower by blast
  have s: "t_selfIndex ?t \<noteq> -1" "t_role ?t \<noteq> RoleLeader" "1 \<noteq> t_selfIndex ?t" by code_simp+
  have p: "remotePrimaries ?t = [1, 2]" "hb_term (t_hbdata ?t ! nat 1) = 1" "hb_term (t_hbdata ?t ! nat 2) = 2" by code_simp+
  obtain a t' where u: "updatePrimaryFromHBDataV1 1 3000 ?t = Some (a, t')"
    "if t_currentPrimaryIndex t' = -1 then remotePrimaries ?t = []
      else t_currentPrimaryIndex t' \<in> set (remotePrimaries ?t) \<and>
           (\<forall>j\<in>set (remotePrimaries ?t). hb_term (t_hbdata ?t ! nat j) \<le> hb_term (t_hbdata ?t ! nat (t_currentPrimaryIndex t')))"
    using primary_has_highest_term [OF r s, of 3000] by blast
  have "t_currentPrimaryIndex t' = 1 \<or> t_currentPrimaryIndex t' = 2" using u(2) p(1) by (auto split: if_splits)
  moreover have "t_currentPrimaryIndex t' \<noteq> 1"
  proof
    assume one: "t_currentPrimaryIndex t' = 1"
    have "\<forall>j\<in>set (remotePrimaries ?t). hb_term (t_hbdata ?t ! nat j) \<le> hb_term (t_hbdata ?t ! nat 1)" using u(2) one by simp
    then have "hb_term (t_hbdata ?t ! nat 2) \<le> hb_term (t_hbdata ?t ! nat 1)" unfolding p(1) by simp
    then show False unfolding p(2,3) by simp
  qed
  ultimately show ?thesis using u(1) by blast
qed

text \<open>A secondary that has heard from both other members often enough to know their latency.\<close>

definition demo_source_run :: "TopologyOp list" where
  "demo_source_run = demo_secondary_run @ demo_hear 1 RS_SECONDARY 0 @ demo_hear 1 RS_SECONDARY 0 @ demo_hear 2 RS_SECONDARY 0"

lemma demo_source: "tc_reachable (demo_run demo_source_run)"
  by (rule demo_run_reachable) code_simp

text \<open>
  C32: choosing a sync source never aborts. A node outside its configuration has none, the member \<open>replSetSyncFrom\<close> asked for
  is taken if there is one, and there is none until the latencies are known. Without chaining it is the
  primary, unless that is unknown, this node or blacklisted. Otherwise it is a member that is up, readable, ahead of what was fetched, not blacklisted
  and builds indexes if this node does; there is no source only if no member is like that.
\<close>

theorem sync_source_usable:
  assumes "tc_step\<^sup>*\<^sup>* (TopologyCoordinator_new opts) t"
  shows "\<exists>i h t'. chooseNewSyncSource now fetched pref t = Some (h, t') \<and> expected_source t now fetched pref i \<and>
     index_ok (t_rsConfig t) i \<and> (i \<noteq> -1 \<longrightarrow> i \<noteq> t_selfIndex t) \<and>
     h = (if i = -1 then HostAndPort_empty else mc_host (c_members (t_rsConfig t) ! nat i)) \<and> (t_selfIndex t \<noteq> -1 \<longrightarrow> t_syncSource t' = h)"
  using chooseNewSyncSource_expected [OF reachable_ok, of t now fetched pref] assms by blast

theorem sync_source_usable_witness:
  "\<exists>i h t'. chooseNewSyncSource 2000 \<lparr>ot_timestamp = \<lparr>ts_secs = 90, ts_inc = 1\<rparr>, ot_term = 0\<rparr> kUseConfiguration
      (demo_run demo_source_run) = Some (h, t') \<and> i \<in> {1, 2} \<and> h = mc_host (demo_member i (27017 + i)) \<and> t_syncSource t' = h"
proof -
  let ?t = "demo_run demo_source_run" and ?f = "\<lparr>ot_timestamp = \<lparr>ts_secs = 90, ts_inc = 1\<rparr>, ot_term = 0\<rparr>"
  obtain opts where r: "tc_step\<^sup>*\<^sup>* (TopologyCoordinator_new opts) ?t" using demo_source by blast
  have f: "t_selfIndex ?t = 0" "t_forceSyncSourceIndex ?t = -1" "\<not> needMorePings ?t > 0" "c_chainingAllowed (t_rsConfig ?t)"
    "c_members (t_rsConfig ?t) = [demo_member 0 27017, demo_member 1 27018, demo_member 2 27019]" by code_simp+
  have u: "usable_source ?t 2000 ?f 1" by code_simp
  obtain i h t' where i: "chooseNewSyncSource 2000 ?f kUseConfiguration ?t = Some (h, t')" "expected_source ?t 2000 ?f kUseConfiguration i"
    "index_ok (t_rsConfig ?t) i" "i \<noteq> -1 \<longrightarrow> i \<noteq> t_selfIndex ?t"
    "h = (if i = -1 then HostAndPort_empty else mc_host (c_members (t_rsConfig ?t) ! nat i))" "t_selfIndex ?t \<noteq> -1 \<longrightarrow> t_syncSource t' = h"
    using sync_source_usable [OF r] by blast
  have "usable_source ?t 2000 ?f i" using i(2) u f by (auto simp: expected_source_def split: if_splits)
  then have "i = 1 \<or> i = 2" using i(3,4) f by (auto simp: usable_source_def index_ok_def getNumMembers_def)
  then show ?thesis using i f by auto
qed

text \<open>
  C30: a reconfiguration. Installing a validated configuration never aborts, this node stays the leader exactly
  if it led before and is electable in the new configuration, and its last vote is kept, as is its term
  unless the protocol version changes.
\<close>

theorem reconfig_leadership:
  assumes "tc_step\<^sup>*\<^sup>* (TopologyCoordinator_new opts) t" "tc_allowed (OpUpdateConfig sp new self now) t"
  shows "\<exists>t'. updateConfig new self now t = Some t' \<and> t_rsConfig t' = new \<and> t_selfIndex t' = self \<and>
     (t_role t' = RoleLeader \<longleftrightarrow> t_role t = RoleLeader \<and> self \<noteq> -1 \<and> isElectable (c_members new ! nat self)) \<and>
     t_lastVote t' = t_lastVote t \<and>
     (t_term t' = t_term t \<or> \<not> c_isInitialized (t_rsConfig t) \<or> c_protocolVersion (t_rsConfig t) \<noteq> c_protocolVersion new)"
proof -
  have c: "ReplSetConfig_validate sp new = None" "c_isInitialized new" "\<forall>m\<in>set (c_members new). mc_priority m \<noteq> NaN"
    "index_ok new self" "t_role t \<noteq> RoleCandidate"
    "c_configServer new \<Longrightarrow> t_storageEngineSupportsReadCommitted t \<noteq> ReadCommittedUnknown"
    using assms(2) by (auto simp: tc_allowed_def)
  note ok = cfg_ok_validate [OF c(1-3)]
  then have "c_protocolVersion new = 0 \<or> c_protocolVersion new = 1" using c(2) by (simp add: cfg_ok_def)
  from updateConfig_ok [OF reachable_ok c(5) ok c(4) this c(6), of now] assms(1) show ?thesis by blast
qed

theorem reconfig_leadership_witness:
  "\<exists>t'. updateConfig (demo_config\<lparr>c_version := 2\<rparr>) 0 5000 (demo_run demo_leader_run) = Some t' \<and> t_role t' = RoleLeader"
proof -
  obtain opts where r: "tc_step\<^sup>*\<^sup>* (TopologyCoordinator_new opts) (demo_run demo_leader_run)" using demo_leader by blast
  have a: "tc_allowed (OpUpdateConfig demo_params (demo_config\<lparr>c_version := 2\<rparr>) 0 5000) (demo_run demo_leader_run)" by code_simp
  have e: "isElectable (c_members (demo_config\<lparr>c_version := 2\<rparr>) ! nat 0)" by code_simp
  show ?thesis using reconfig_leadership [OF r a] e demo_leader_role by auto
qed

text \<open>
  C31: a leader that is asked to step down does so exactly if it is forced to or some other member could be
  elected at once: it is electable and has applied everything the leader has. Otherwise the state
  does not change.
\<close>

theorem step_down_iff_caught_up:
  assumes "tc_step\<^sup>*\<^sup>* (TopologyCoordinator_new opts) t" "t_role t = RoleLeader"
  shows "\<exists>b t'. stepDown until force lastOp t = Some (b, t') \<and>
     (b \<longleftrightarrow> force \<or> (\<exists>i. 0 \<le> i \<and> i < getNumMembers (t_rsConfig t) \<and> i \<noteq> t_selfIndex t \<and>
         getUnelectableReason t i lastOp = Some 0 \<and> ot_ge (hb_appliedOpTime (t_hbdata t ! nat i)) lastOp)) \<and>
     (b \<longrightarrow> t_role t' = RoleFollower \<and> t_stepDownUntil t' = until \<and> t_currentPrimaryIndex t' = -1) \<and> (\<not> b \<longrightarrow> t' = t)"
  using stepDown_ok [OF reachable_ok assms(2), of until force lastOp] assms(1) by blast

theorem step_down_iff_caught_up_witness:
  "\<exists>t'. stepDown 9000 False demo_optime (demo_run demo_leader_run) = Some (True, t') \<and> t_role t' = RoleFollower"
proof -
  let ?t = "demo_run demo_leader_run"
  obtain opts where r: "tc_step\<^sup>*\<^sup>* (TopologyCoordinator_new opts) ?t" using demo_leader by blast
  have "0 \<le> (1::int) \<and> 1 < getNumMembers (t_rsConfig ?t) \<and> 1 \<noteq> t_selfIndex ?t \<and>
     getUnelectableReason ?t 1 demo_optime = Some 0 \<and> ot_ge (hb_appliedOpTime (t_hbdata ?t ! nat 1)) demo_optime" by code_simp
  then have "\<exists>i. 0 \<le> i \<and> i < getNumMembers (t_rsConfig ?t) \<and> i \<noteq> t_selfIndex ?t \<and>
     getUnelectableReason ?t i demo_optime = Some 0 \<and> ot_ge (hb_appliedOpTime (t_hbdata ?t ! nat i)) demo_optime" by blast
  then show ?thesis using step_down_iff_caught_up [OF r demo_leader_role, of 9000 False demo_optime] by auto
qed

text \<open>
  C33: a leader that marks a member as down, and changes what it knows of no other one, asks to step down exactly if the votes of
  this node and of the members that are still up are no majority any more and it is not stepping down
  already; a step down is then pending, and it stays leader until that is done.
\<close>

theorem member_down_relinquishes:
  assumes "tc_step\<^sup>*\<^sup>* (TopologyCoordinator_new opts) t" "tc_allowed (OpMemberDown now i lastOp) t"
  shows "\<exists>a t'. setMemberAsDown now i lastOp t = Some (a, t') \<and> \<not> up (t_hbdata t' ! nat i) \<and>
     (\<forall>j<length (t_hbdata t). j \<noteq> nat i \<longrightarrow> t_hbdata t' ! j = t_hbdata t ! j) \<and> t_role t' = RoleLeader \<and>
     (t_stepDownPending t' \<longleftrightarrow> t_stepDownPending t \<or> 2 * votes_seen t' \<le> c_totalVotingMembers (t_rsConfig t)) \<and>
     (a_action a = StepDownSelf \<longleftrightarrow> \<not> t_stepDownPending t \<and> 2 * votes_seen t' \<le> c_totalVotingMembers (t_rsConfig t))"
proof -
  have l: "t_role t = RoleLeader" "0 \<le> i" "nat i < length (c_members (t_rsConfig t))" "i \<noteq> t_selfIndex t"
    using assms(2) by (auto simp: tc_allowed_def getNumMembers_def nat_less_iff)
  have ok: "tc_ok t" using reachable_ok assms(1) by blast
  let ?h = "setDownValues now ''no response within election timeout period'' (t_hbdata t ! nat i)"
  let ?t = "t\<lparr>t_hbdata := (t_hbdata t)[nat i := ?h]\<rparr>"
  have n: "\<not> up ((t_hbdata t)[nat i := ?h] ! nat i)" using l(3) tc_ok_D(2) [OF ok] by simp
  have v: "votes_seen (?t\<lparr>t_stepDownPending := b\<rparr>) = votes_seen ?t" for b by (simp add: votes_seen_def cong: if_cong)
  show ?thesis
    unfolding setMemberAsDown_result [OF ok l(2-4,1) refl]
    using n l(1) v by (cases "2 * votes_seen ?t \<le> c_totalVotingMembers (t_rsConfig t)"; cases "t_stepDownPending t")
      (simp_all add: stepDownSelfOnce_def action_defs makeNoAction_def)
qed

theorem member_down_relinquishes_witness:
  "\<exists>a t'. setMemberAsDown 2000 1 demo_optime (demo_run demo_leader_run) = Some (a, t') \<and> \<not> up (t_hbdata t' ! nat 1) \<and>
     a_action a = StepDownSelf \<and> t_stepDownPending t'"
proof -
  let ?t = "demo_run demo_leader_run"
  obtain opts where r: "tc_step\<^sup>*\<^sup>* (TopologyCoordinator_new opts) ?t" using demo_leader by blast
  have al: "tc_allowed (OpMemberDown 2000 1 demo_optime) ?t" by code_simp
  have f: "\<not> t_stepDownPending ?t" "votes_seen (snd (the (setMemberAsDown 2000 1 demo_optime ?t))) = 1"
    "c_totalVotingMembers (t_rsConfig ?t) = 3" by code_simp+
  from member_down_relinquishes [OF r al] f show ?thesis by auto
qed

text \<open>
  The member with the highest priority. The search never aborts; it returns a member that is electable
  now and than which no electable member has a higher priority, and -1 only if no member is electable.
\<close>

theorem highest_priority_electable:
  assumes "tc_step\<^sup>*\<^sup>* (TopologyCoordinator_new opts) t"
  shows "\<exists>r. getHighestPriorityElectableIndex t now lastOp = Some r \<and> index_ok (t_rsConfig t) r \<and>
     (r \<noteq> -1 \<longrightarrow> electable_now t now lastOp r) \<and>
     (\<forall>i. 0 \<le> i \<and> i < getNumMembers (t_rsConfig t) \<and> electable_now t now lastOp i \<longrightarrow>
        r \<noteq> -1 \<and> \<not> d_less (prio_at t r) (prio_at t i))"
  using getHighestPriorityElectableIndex_total [OF reachable_ok, of t now lastOp] assms by blast

theorem highest_priority_electable_witness:
  "\<exists>r. getHighestPriorityElectableIndex (demo_run demo_secondary_run) 2000 demo_optime = Some r \<and> r \<noteq> -1"
proof -
  let ?t = "demo_run demo_secondary_run"
  obtain opts where r: "tc_step\<^sup>*\<^sup>* (TopologyCoordinator_new opts) ?t" using demo_secondary by blast
  have "0 \<le> (1::int) \<and> 1 < getNumMembers (t_rsConfig ?t) \<and> electable_now ?t 2000 demo_optime 1" by code_simp
  then show ?thesis using highest_priority_electable [OF r, of 2000 demo_optime] by blast
qed

text \<open>
  C22: standing for election. A node becomes a candidate exactly if it is a follower and there is no reason
  against it; then it is a secondary member with a priority and some data, in no step down
  period, and it sees a majority of the votes. Otherwise nothing changes.
\<close>

theorem stands_iff_electable:
  assumes "tc_step\<^sup>*\<^sup>* (TopologyCoordinator_new opts) t"
  shows "\<exists>s t'. becomeCandidateIfElectable now lastOp tk t = Some (s, t') \<and>
     (s = StatusOK \<longleftrightarrow> t_role t = RoleFollower \<and> getMyUnelectableReason t now lastOp tk = Some 0) \<and>
     t' = (if s = StatusOK then t\<lparr>t_role := RoleCandidate\<rparr> else t) \<and>
     (s = StatusOK \<longrightarrow> t_selfIndex t \<noteq> -1 \<and> aMajoritySeemsToBeUp t = Some True \<and> \<not> ot_isNull lastOp \<and> t_stepDownUntil t \<le> now \<and>
        \<not> d_le (mc_priority (c_members (t_rsConfig t) ! nat (t_selfIndex t))) (Num 0) \<and> getMemberState t = Some RS_SECONDARY)"
proof -
  have ok: "tc_ok t" using assms reachable_ok by blast
  obtain s t' where s: "becomeCandidateIfElectable now lastOp tk t = Some (s, t')"
     "s = StatusOK \<longleftrightarrow> t_role t = RoleFollower \<and> getMyUnelectableReason t now lastOp tk = Some 0"
     "t' = (if s = StatusOK then t\<lparr>t_role := RoleCandidate\<rparr> else t)"
    using becomeCandidateIfElectable_ok [OF ok, of now lastOp tk] by blast
  show ?thesis
    using s getMyUnelectableReason_total [OF ok, of now lastOp tk] by (intro exI [of _ s] exI [of _ t']) (metis option.inject Role.distinct)
qed

theorem stands_iff_electable_witness:
  "\<exists>t'. becomeCandidateIfElectable 2000 demo_optime False (demo_run demo_secondary_run) = Some (StatusOK, t') \<and>
     t_role t' = RoleCandidate"
proof -
  let ?t = "demo_run demo_secondary_run"
  obtain opts where r: "tc_step\<^sup>*\<^sup>* (TopologyCoordinator_new opts) ?t" using demo_secondary by blast
  have "t_role ?t = RoleFollower \<and> getMyUnelectableReason ?t 2000 demo_optime False = Some 0" by code_simp
  then show ?thesis using stands_iff_electable [OF r, of 2000 demo_optime False] by fastforce
qed

end
