(* ===== verification/ScatterGather.thy ===== *)
theory ScatterGather
  imports HeartbeatData
begin

text \<open>
  Asking many nodes at once: \<open>ScatterGatherRunner\<close> sends the requests of a
  \<open>ScatterGatherAlgorithm\<close>, feeds it the responses one at a time and signals an event as soon as
  the algorithm has heard enough. The three methods of the algorithm are the parameters of the
  runner here; the vote requester, the freshness checker, the elect command runner and the quorum
  checker are the four algorithms. A callback handle is the index of its request.
\<close>

record 'a RunnerImpl =
  ru_algorithm :: 'a
  ru_callbacks :: "nat list"
  ru_valid :: bool

text \<open>\<open>ru_valid\<close>: the event has not been signalled. Signalling drops the outstanding callbacks.\<close>

definition signalSufficientResponsesReceived :: "'a RunnerImpl \<Rightarrow> 'a RunnerImpl" where
  "signalSufficientResponsesReceived ru = (if ru_valid ru then ru\<lparr>ru_callbacks := [], ru_valid := False\<rparr> else ru)"

definition runner_start :: "('a \<Rightarrow> bool) \<Rightarrow> HostAndPort list \<Rightarrow> 'a \<Rightarrow> 'a RunnerImpl option" where
  "runner_start sufficient requests a =
     (let ru = \<lparr>ru_algorithm = a, ru_callbacks = [0..<length requests], ru_valid = True\<rparr> in
      if ru_callbacks ru = [] \<or> sufficient a
      then do { ensure (sufficient a); Some (signalSufficientResponsesReceived ru) }
      else Some ru)"

definition runner_cancel :: "'a RunnerImpl \<Rightarrow> 'a RunnerImpl" where
  "runner_cancel ru = signalSufficientResponsesReceived ru"

text \<open>
  Removing a callback: \<open>find\<close>, swap with the last one, pop. \<open>None\<close> if the handle is not there.
\<close>

definition removeCallback :: "nat \<Rightarrow> nat list \<Rightarrow> nat list option" where
  "removeCallback handle cbs =
     (if handle \<in> set cbs then Some (butlast (map (\<lambda>c. if c = handle then last cbs else c) cbs)) else None)"

text \<open>The response \<open>None\<close> is the status \<open>CallbackCanceled\<close>.\<close>

definition runner_processResponse ::
  "(HostAndPort \<Rightarrow> 'r \<Rightarrow> 'a \<Rightarrow> 'a option) \<Rightarrow> ('a \<Rightarrow> bool) \<Rightarrow> HostAndPort list \<Rightarrow> nat \<Rightarrow> 'r option \<Rightarrow>
   'a RunnerImpl \<Rightarrow> 'a RunnerImpl option" where
  "runner_processResponse process sufficient requests handle response ru =
     (if \<not> ru_valid ru then Some ru
      else do {
        cbs \<leftarrow> removeCallback handle (ru_callbacks ru);
        (case response of
           None \<Rightarrow> Some (ru\<lparr>ru_callbacks := cbs\<rparr>)
         | Some r \<Rightarrow>
             do { a \<leftarrow> process (requests ! handle) r (ru_algorithm ru);
                  let ru1 = ru\<lparr>ru_callbacks := cbs, ru_algorithm := a\<rparr>;
                  if sufficient a then Some (signalSufficientResponsesReceived ru1)
                  else do { ensure (cbs \<noteq> []); Some ru1 } }) })"

text \<open>The responses of a run, in the order they arrive.\<close>

fun runner_run ::
  "(HostAndPort \<Rightarrow> 'r \<Rightarrow> 'a \<Rightarrow> 'a option) \<Rightarrow> ('a \<Rightarrow> bool) \<Rightarrow> HostAndPort list \<Rightarrow> (nat \<times> 'r) list \<Rightarrow>
   'a RunnerImpl \<Rightarrow> 'a RunnerImpl option" where
  "runner_run process sufficient requests [] ru = Some ru"
| "runner_run process sufficient requests ((handle, r) # rs) ru =
     do { ru1 \<leftarrow> runner_processResponse process sufficient requests handle (Some r) ru;
          runner_run process sufficient requests rs ru1 }"

lemma removeCallback_ok:
  assumes "distinct cbs" "handle \<in> set cbs"
  shows "\<exists>cbs'. removeCallback handle cbs = Some cbs' \<and> distinct cbs' \<and> set cbs' = set cbs - {handle}"
proof -
  let ?f = "\<lambda>c. if c = handle then last cbs else c"
  obtain ys l where cbs: "cbs = ys @ [l]" using assms(2) by (metis append_butlast_last_id list.set_cases list.distinct(1))
  have d: "distinct ys" "l \<notin> set ys" using assms(1) cbs by auto
  have "distinct (map ?f ys)" "set (map ?f ys) = set cbs - {handle}"
    using d assms(2) cbs by (auto simp: distinct_map inj_on_def)
  then show ?thesis using assms(2) cbs by (auto simp: removeCallback_def butlast_append)
qed

section \<open>The contract of an algorithm\<close>

text \<open>
  What the runner relies on: with an invariant between the state of the algorithm and the handles
  of the outstanding requests, a response of an outstanding request is processed without an
  abort, and once every request has been answered the responses are sufficient.
\<close>

locale scatter_gather_algorithm =
  fixes requests :: "'c \<Rightarrow> HostAndPort list"
    and new :: "'c \<Rightarrow> 'a"
    and process :: "'c \<Rightarrow> HostAndPort \<Rightarrow> 'r \<Rightarrow> 'a \<Rightarrow> 'a option"
    and sufficient :: "'c \<Rightarrow> 'a \<Rightarrow> bool"
    and valid :: "'c \<Rightarrow> bool"
    and inv :: "'c \<Rightarrow> (nat \<times> 'r) list \<Rightarrow> 'a \<Rightarrow> bool"
  assumes new_inv: "valid c \<Longrightarrow> inv c [] (new c)"
    and process_inv: "valid c \<Longrightarrow> inv c rs a \<Longrightarrow> \<not> sufficient c a \<Longrightarrow> i < length (requests c) \<Longrightarrow> i \<notin> fst ` set rs \<Longrightarrow>
      \<exists>a'. process c (requests c ! i) r a = Some a' \<and> inv c (rs @ [(i, r)]) a'"
    and all_sufficient: "valid c \<Longrightarrow> inv c rs a \<Longrightarrow> length rs = length (requests c) \<Longrightarrow> sufficient c a"
begin

text \<open>The responses are those of distinct requests.\<close>

definition answers :: "'c \<Rightarrow> (nat \<times> 'r) list \<Rightarrow> bool" where
  "answers c rs \<longleftrightarrow> distinct (map fst rs) \<and> fst ` set rs \<subseteq> {..<length (requests c)}"

text \<open>The state of the runner after the responses \<open>rs\<close>: those the algorithm got are a prefix.\<close>

definition runner_inv :: "'c \<Rightarrow> (nat \<times> 'r) list \<Rightarrow> 'a RunnerImpl \<Rightarrow> bool" where
  "runner_inv c rs ru \<longleftrightarrow>
     (if ru_valid ru
      then inv c rs (ru_algorithm ru) \<and> \<not> sufficient c (ru_algorithm ru) \<and> distinct (ru_callbacks ru) \<and>
           set (ru_callbacks ru) = {..<length (requests c)} - fst ` set rs
      else \<exists>us vs. rs = us @ vs \<and> inv c us (ru_algorithm ru) \<and> sufficient c (ru_algorithm ru))"

lemma start_ok:
  assumes "valid c"
  shows "\<exists>ru. runner_start (sufficient c) (requests c) (new c) = Some ru \<and> runner_inv c [] ru"
proof (cases "sufficient c (new c)")
  case True
  then show ?thesis
    using new_inv [OF assms]
    by (simp add: runner_start_def runner_inv_def signalSufficientResponsesReceived_def)
next
  case False
  then have "requests c \<noteq> []" using all_sufficient [OF assms new_inv [OF assms]] by auto
  then show ?thesis
    using False new_inv [OF assms] by (simp add: runner_start_def runner_inv_def lessThan_atLeast0)
qed

lemma response_ok:
  assumes v: "valid c" and inv: "runner_inv c rs ru" and ans: "answers c (rs @ [(i, r)])"
  shows "\<exists>ru'. runner_processResponse (process c) (sufficient c) (requests c) i (Some r) ru = Some ru' \<and>
     runner_inv c (rs @ [(i, r)]) ru'"
proof (cases "ru_valid ru")
  case False
  then show ?thesis using inv by (force simp: runner_processResponse_def runner_inv_def)
next
  case True
  have i: "i < length (requests c)" "i \<notin> fst ` set rs" and n: "distinct (map fst (rs @ [(i, r)]))"
    using ans by (auto simp: answers_def)
  have ra: "inv c rs (ru_algorithm ru)" "\<not> sufficient c (ru_algorithm ru)" "distinct (ru_callbacks ru)"
    "set (ru_callbacks ru) = {..<length (requests c)} - fst ` set rs"
    using inv True by (auto simp: runner_inv_def)
  obtain a where a: "process c (requests c ! i) r (ru_algorithm ru) = Some a" "inv c (rs @ [(i, r)]) a"
    using process_inv [OF v ra(1,2) i] by blast
  obtain cbs where cbs: "removeCallback i (ru_callbacks ru) = Some cbs" "distinct cbs" "set cbs = set (ru_callbacks ru) - {i}"
    using removeCallback_ok [OF ra(3), of i] ra(4) i by auto
  show ?thesis
  proof (cases "sufficient c a")
    case True
    then show ?thesis
      using \<open>ru_valid ru\<close> a cbs
      by (auto simp: runner_processResponse_def runner_inv_def signalSufficientResponsesReceived_def)
  next
    case False
    have "cbs \<noteq> []"
    proof
      assume "cbs = []"
      then have "{..<length (requests c)} = fst ` set (rs @ [(i, r)])" using cbs(3) ra(4) ans by (auto simp: answers_def)
      then have "length (requests c) = card (set (map fst (rs @ [(i, r)])))" by (metis card_lessThan set_map)
      then have "length (rs @ [(i, r)]) = length (requests c)" using distinct_card [OF n] by simp
      then show False using all_sufficient [OF v a(2)] False by blast
    qed
    then show ?thesis
      using \<open>ru_valid ru\<close> a cbs ra(4) False by (auto simp: runner_processResponse_def runner_inv_def)
  qed
qed

lemma run_ok:
  assumes "valid c" "runner_inv c rs ru" "answers c (rs @ rs')"
  shows "\<exists>ru'. runner_run (process c) (sufficient c) (requests c) rs' ru = Some ru' \<and> runner_inv c (rs @ rs') ru'"
  using assms(2,3)
proof (induction rs' arbitrary: rs ru)
  case (Cons x rs')
  obtain i r where x: "x = (i, r)" by (cases x)
  have "answers c (rs @ [(i, r)])" using Cons.prems(2) by (auto simp: answers_def x)
  then obtain ru1 where "runner_processResponse (process c) (sufficient c) (requests c) i (Some r) ru = Some ru1"
      "runner_inv c (rs @ [(i, r)]) ru1" using response_ok [OF assms(1) Cons.prems(1)] by blast
  then show ?case using Cons.IH [of "rs @ [(i, r)]" ru1] Cons.prems(2) by (simp add: x)
qed simp

text \<open>
  A run never aborts. The event is signalled with sufficient responses in hand, at the latest when
  every request has been answered, and the algorithm has then seen a prefix of the responses.
\<close>

lemma run_completes:
  assumes "valid c" "answers c rs"
  obtains ru us vs where
    "do { ru \<leftarrow> runner_start (sufficient c) (requests c) (new c); runner_run (process c) (sufficient c) (requests c) rs ru } = Some ru"
    "rs = us @ vs" "inv c us (ru_algorithm ru)" "ru_valid ru \<longleftrightarrow> \<not> sufficient c (ru_algorithm ru)"
    "ru_valid ru \<Longrightarrow> vs = []" "length rs = length (requests c) \<Longrightarrow> \<not> ru_valid ru"
proof -
  obtain ru0 where ru0: "runner_start (sufficient c) (requests c) (new c) = Some ru0" "runner_inv c [] ru0"
    using start_ok [OF assms(1)] by blast
  obtain ru where ru: "runner_run (process c) (sufficient c) (requests c) rs ru0 = Some ru" "runner_inv c rs ru"
    using run_ok [OF assms(1) ru0(2), of rs] assms(2) by auto
  have fin: "length rs = length (requests c) \<Longrightarrow> \<not> ru_valid ru"
    using ru(2) all_sufficient [OF assms(1)] by (auto simp: runner_inv_def split: if_splits)
  show ?thesis
  proof (cases "ru_valid ru")
    case True
    then show ?thesis using that [of ru rs "[]"] ru0 ru fin by (auto simp: runner_inv_def)
  next
    case False
    then obtain us vs where "rs = us @ vs" "inv c us (ru_algorithm ru)" "sufficient c (ru_algorithm ru)"
      using ru(2) by (auto simp: runner_inv_def)
    then show ?thesis using that [of ru us vs] ru0 ru False by auto
  qed
qed

end

end
