(* ===== verification/VoteRequester.thy ===== *)
theory VoteRequester
  imports ScatterGather TopologyVotes
begin

text \<open>
  The vote requester of protocol version 1, an algorithm of the scatter gather runner. A response is a network
  or executor error, a command error (or a response that does not parse), or a vote.
\<close>

type_synonym 'r RemoteResponse = "('r StatusWith) StatusWith"

abbreviation Failed :: "ErrorCode \<Rightarrow> 'r RemoteResponse" where "Failed e \<equiv> Inl e"
abbreviation CommandError :: "ErrorCode \<Rightarrow> 'r RemoteResponse" where "CommandError e \<equiv> Inr (Inl e)"
abbreviation Answer :: "'r \<Rightarrow> 'r RemoteResponse" where "Answer r \<equiv> Inr (Inr r)"

record VoteRequest =
  rq_config :: ReplSetConfig
  rq_candidateIndex :: int
  rq_term :: Term
  rq_dryRun :: bool
  rq_lastDurableOpTime :: OpTime

record VoteRequesterAlgorithm =
  vq_rsConfig :: ReplSetConfig
  vq_candidateIndex :: int
  vq_term :: Term
  vq_dryRun :: bool
  vq_lastDurableOpTime :: OpTime
  vq_targets :: "HostAndPort list"
  vq_responders :: "HostAndPort list"
  vq_staleTerm :: bool
  vq_responsesProcessed :: int
  vq_votes :: int

datatype VoteResult = kSuccessfullyElected | kStaleTerm | kInsufficientVotes

definition indexedMembers :: "ReplSetConfig \<Rightarrow> (int \<times> MemberConfig) list" where
  "indexedMembers c = zip (map int [0..<length (c_members c)]) (c_members c)"

definition VoteRequester_new :: "VoteRequest \<Rightarrow> VoteRequesterAlgorithm" where
  "VoteRequester_new q =
     \<lparr>vq_rsConfig = rq_config q, vq_candidateIndex = rq_candidateIndex q, vq_term = rq_term q, vq_dryRun = rq_dryRun q,
      vq_lastDurableOpTime = rq_lastDurableOpTime q,
      vq_targets = [mc_host m. (i, m) \<leftarrow> indexedMembers (rq_config q), isVoter m \<and> i \<noteq> rq_candidateIndex q],
      vq_responders = [], vq_staleTerm = False, vq_responsesProcessed = 0, vq_votes = 1\<rparr>"

text \<open>The command sent to every target.\<close>

definition VoteRequester_command :: "VoteRequesterAlgorithm \<Rightarrow> ReplSetRequestVotesArgs" where
  "VoteRequester_command a =
     \<lparr>va_setName = c_replSetName (vq_rsConfig a), va_term = vq_term a, va_candidateIndex = vq_candidateIndex a,
      va_cfgver = c_version (vq_rsConfig a), va_lastDurableOpTime = vq_lastDurableOpTime a, va_dryRun = vq_dryRun a\<rparr>"

definition VoteRequester_getRequests :: "VoteRequesterAlgorithm \<Rightarrow> (HostAndPort \<times> ReplSetRequestVotesArgs \<times> Millis) list" where
  "VoteRequester_getRequests a =
     map (\<lambda>target. (target, VoteRequester_command a, c_electionTimeoutPeriod (vq_rsConfig a))) (vq_targets a)"

definition VoteRequester_processResponse ::
  "HostAndPort \<Rightarrow> ReplSetRequestVotesResponse RemoteResponse \<Rightarrow> VoteRequesterAlgorithm \<Rightarrow> VoteRequesterAlgorithm" where
  "VoteRequester_processResponse target response a0 =
     (let a = a0\<lparr>vq_responsesProcessed := vq_responsesProcessed a0 + 1\<rparr> in
      case response of
        Failed e \<Rightarrow> a
      | CommandError e \<Rightarrow> a\<lparr>vq_responders := List.insert target (vq_responders a)\<rparr>
      | Answer r \<Rightarrow>
          a\<lparr>vq_responders := List.insert target (vq_responders a),
            vq_votes := vq_votes a + (if vr_voteGranted r then 1 else 0),
            vq_staleTerm := vq_staleTerm a \<or> vr_term r > vq_term a\<rparr>)"

definition VoteRequester_hasReceivedSufficientResponses :: "VoteRequesterAlgorithm \<Rightarrow> bool" where
  "VoteRequester_hasReceivedSufficientResponses a \<longleftrightarrow>
     vq_staleTerm a \<or> vq_votes a = c_majorityVoteCount (vq_rsConfig a) \<or>
     vq_responsesProcessed a = int (length (vq_targets a))"

definition VoteRequester_getResult :: "VoteRequesterAlgorithm \<Rightarrow> VoteResult" where
  "VoteRequester_getResult a =
     (if vq_staleTerm a then kStaleTerm
      else if vq_votes a \<ge> c_majorityVoteCount (vq_rsConfig a) then kSuccessfullyElected
      else kInsufficientVotes)"

section \<open>The contract\<close>

definition yes_vote :: "ReplSetRequestVotesResponse RemoteResponse \<Rightarrow> bool" where
  "yes_vote resp = (case resp of Answer r \<Rightarrow> vr_voteGranted r | _ \<Rightarrow> False)"

definition newer_term :: "Term \<Rightarrow> ReplSetRequestVotesResponse RemoteResponse \<Rightarrow> bool" where
  "newer_term trm resp = (case resp of Answer r \<Rightarrow> vr_term r > trm | _ \<Rightarrow> False)"

definition vote_targets :: "VoteRequest \<Rightarrow> HostAndPort list" where
  "vote_targets q = vq_targets (VoteRequester_new q)"

text \<open>The runner has listened on: before the last response no newer term and, if a majority is needed at all, no majority was there.\<close>

definition undecided :: "VoteRequest \<Rightarrow> (nat \<times> ReplSetRequestVotesResponse RemoteResponse) list \<Rightarrow> bool" where
  "undecided q rs \<longleftrightarrow>
     (\<forall>x\<in>set rs. \<not> newer_term (rq_term q) (snd x)) \<and>
     (1 \<le> c_majorityVoteCount (rq_config q) \<longrightarrow> 1 + int (count_if (\<lambda>x. yes_vote (snd x)) rs) < c_majorityVoteCount (rq_config q))"

definition vote_inv :: "VoteRequest \<Rightarrow> (nat \<times> ReplSetRequestVotesResponse RemoteResponse) list \<Rightarrow> VoteRequesterAlgorithm \<Rightarrow> bool" where
  "vote_inv q rs a \<longleftrightarrow>
     vq_rsConfig a = rq_config q \<and> vq_targets a = vote_targets q \<and> vq_term a = rq_term q \<and>
     vq_responsesProcessed a = int (length rs) \<and> vq_votes a = 1 + int (count_if (\<lambda>x. yes_vote (snd x)) rs) \<and>
     (vq_staleTerm a \<longleftrightarrow> (\<exists>x\<in>set rs. newer_term (rq_term q) (snd x))) \<and>
     (\<forall>k<length rs. undecided q (take k rs))"

lemma vote_inv_undecided:
  assumes "vote_inv q rs a" "\<not> VoteRequester_hasReceivedSufficientResponses a"
  shows "undecided q rs"
proof -
  let ?yes = "\<lambda>rs. int (count_if (\<lambda>x. yes_vote (snd x)) rs)" and ?m = "c_majorityVoteCount (rq_config q)"
  have a: "\<forall>x\<in>set rs. \<not> newer_term (rq_term q) (snd x)" "1 + ?yes rs \<noteq> ?m" "\<forall>k<length rs. undecided q (take k rs)"
    using assms by (auto simp: vote_inv_def VoteRequester_hasReceivedSufficientResponses_def)
  have "1 + ?yes rs \<le> ?m" if "1 \<le> ?m"
  proof (cases rs rule: rev_cases)
    case (snoc ys y)
    then have "undecided q ys" using a(3) by (metis butlast_conv_take butlast_snoc diff_less length_append_singleton length_greater_0_conv
        snoc_eq_iff_butlast zero_less_one)
    then show ?thesis using that snoc by (auto simp: undecided_def)
  qed (use that in simp)
  then show ?thesis using a(1,2) by (auto simp: undecided_def)
qed

interpretation vote_requester: scatter_gather_algorithm vote_targets VoteRequester_new
  "\<lambda>q target response a. Some (VoteRequester_processResponse target response a)"
  "\<lambda>q. VoteRequester_hasReceivedSufficientResponses" "\<lambda>q. True" vote_inv
proof
  fix q rs a i and r :: "ReplSetRequestVotesResponse RemoteResponse"
  assume inv: "vote_inv q rs a" "\<not> VoteRequester_hasReceivedSufficientResponses a"
  have "\<forall>k<Suc (length rs). undecided q (take k (rs @ [(i, r)]))"
    using vote_inv_undecided [OF inv] inv(1) by (auto simp: vote_inv_def less_Suc_eq)
  then have "vote_inv q (rs @ [(i, r)]) (VoteRequester_processResponse (vote_targets q ! i) r a)"
    using inv(1) by (auto simp: vote_inv_def VoteRequester_processResponse_def Let_def yes_vote_def newer_term_def split: sum.split)
  then show "\<exists>a'. Some (VoteRequester_processResponse (vote_targets q ! i) r a) = Some a' \<and> vote_inv q (rs @ [(i, r)]) a'"
    by simp
qed (auto simp: vote_inv_def vote_targets_def VoteRequester_new_def VoteRequester_hasReceivedSufficientResponses_def)

lemma vote_result:
  assumes "vote_inv q rs a"
  shows "VoteRequester_getResult a = kSuccessfullyElected \<longleftrightarrow>
     (\<forall>x\<in>set rs. \<not> newer_term (rq_term q) (snd x)) \<and>
     c_majorityVoteCount (rq_config q) \<le> 1 + int (count_if (\<lambda>x. yes_vote (snd x)) rs)"
  using assms by (auto simp: vote_inv_def VoteRequester_getResult_def)

text \<open>A whole round: send, gather, report. \<open>None\<close> is an abort, \<open>Some None\<close> that the event is not signalled yet.\<close>

definition vote_round :: "VoteRequest \<Rightarrow> (nat \<times> ReplSetRequestVotesResponse RemoteResponse) list \<Rightarrow> VoteResult option option" where
  "vote_round q rs =
     do { ru \<leftarrow> runner_start VoteRequester_hasReceivedSufficientResponses (vote_targets q) (VoteRequester_new q);
          ru1 \<leftarrow> runner_run (\<lambda>target response a. Some (VoteRequester_processResponse target response a))
                   VoteRequester_hasReceivedSufficientResponses (vote_targets q) rs ru;
          Some (if ru_valid ru1 then None else Some (VoteRequester_getResult (ru_algorithm ru1))) }"

definition vote_answers :: "VoteRequest \<Rightarrow> (nat \<times> ReplSetRequestVotesResponse RemoteResponse) list \<Rightarrow> bool" where
  "vote_answers q rs \<longleftrightarrow> distinct (map fst rs) \<and> fst ` set rs \<subseteq> {..<length (vote_targets q)}"

lemma vote_round_cases:
  assumes "vote_answers q rs"
  obtains us vs r where "vote_round q rs = Some r" "rs = us @ vs"
    "r = Some kSuccessfullyElected \<Longrightarrow> (\<forall>x\<in>set us. \<not> newer_term (rq_term q) (snd x)) \<and>
       c_majorityVoteCount (rq_config q) \<le> 1 + int (count_if (\<lambda>x. yes_vote (snd x)) us)"
    "r \<noteq> None \<Longrightarrow> r \<noteq> Some kSuccessfullyElected \<Longrightarrow> (\<exists>x\<in>set us. newer_term (rq_term q) (snd x)) \<or>
       length us = length (vote_targets q) \<and> 1 + int (count_if (\<lambda>x. yes_vote (snd x)) us) < c_majorityVoteCount (rq_config q)"
    "length rs = length (vote_targets q) \<Longrightarrow> r \<noteq> None"
    "r \<noteq> None \<Longrightarrow> r = Some kStaleTerm \<longleftrightarrow> (\<exists>x\<in>set us. newer_term (rq_term q) (snd x))"
    "\<forall>k<length us. undecided q (take k us)"
proof -
  have "vote_requester.answers q rs" using assms by (simp add: vote_requester.answers_def vote_answers_def)
  then obtain ru us vs where r:
    "do { ru \<leftarrow> runner_start VoteRequester_hasReceivedSufficientResponses (vote_targets q) (VoteRequester_new q);
         runner_run (\<lambda>target response a. Some (VoteRequester_processResponse target response a))
           VoteRequester_hasReceivedSufficientResponses (vote_targets q) rs ru } = Some ru"
    "rs = us @ vs" "vote_inv q us (ru_algorithm ru)" "ru_valid ru \<longleftrightarrow> \<not> VoteRequester_hasReceivedSufficientResponses (ru_algorithm ru)"
    "length rs = length (vote_targets q) \<Longrightarrow> \<not> ru_valid ru"
    by (rule vote_requester.run_completes [OF TrueI]) blast
  let ?a = "ru_algorithm ru"
  let ?r = "if ru_valid ru then None else Some (VoteRequester_getResult ?a)"
  have "vote_round q rs = Some ?r" using r(1) by (auto simp: vote_round_def bind_eq_Some_conv)
  moreover have "?r \<noteq> None \<Longrightarrow> ?r \<noteq> Some kSuccessfullyElected \<Longrightarrow> (\<exists>x\<in>set us. newer_term (rq_term q) (snd x)) \<or>
       length us = length (vote_targets q) \<and> 1 + int (count_if (\<lambda>x. yes_vote (snd x)) us) < c_majorityVoteCount (rq_config q)"
    using r(3,4) vote_result [OF r(3)]
    by (auto simp: VoteRequester_hasReceivedSufficientResponses_def vote_inv_def split: if_splits)
  moreover have "?r \<noteq> None \<Longrightarrow> ?r = Some kStaleTerm \<longleftrightarrow> (\<exists>x\<in>set us. newer_term (rq_term q) (snd x))"
    using r(3) by (auto simp: VoteRequester_getResult_def vote_inv_def split: if_splits)
  moreover have "\<forall>k<length us. undecided q (take k us)" using r(3) by (simp add: vote_inv_def)
  moreover have "?r = Some kSuccessfullyElected \<Longrightarrow> (\<forall>x\<in>set us. \<not> newer_term (rq_term q) (snd x)) \<and>
       c_majorityVoteCount (rq_config q) \<le> 1 + int (count_if (\<lambda>x. yes_vote (snd x)) us)"
    using vote_result [OF r(3)] by (simp split: if_splits)
  moreover have "length rs = length (vote_targets q) \<Longrightarrow> ?r \<noteq> None" using r(5) by simp
  ultimately show ?thesis using that [of ?r us vs, OF _ r(2)] by blast
qed

text \<open>
  How a round ends: with a majority, with a newer term before there is one, or without either when everybody has answered.
\<close>

lemma vote_round_ends:
  assumes "vote_answers q rs" "length rs = length (vote_targets q)"
  obtains (elected) us vs where "rs = us @ vs" "\<forall>x\<in>set us. \<not> newer_term (rq_term q) (snd x)"
      "c_majorityVoteCount (rq_config q) \<le> 1 + int (count_if (\<lambda>x. yes_vote (snd x)) us)" "vote_round q rs = Some (Some kSuccessfullyElected)"
  | (stale) us vs where "rs = us @ vs" "\<exists>x\<in>set us. newer_term (rq_term q) (snd x)" "\<forall>k<length us. undecided q (take k us)"
      "vote_round q rs = Some (Some kStaleTerm)"
  | (few) "\<forall>x\<in>set rs. \<not> newer_term (rq_term q) (snd x)"
      "1 + int (count_if (\<lambda>x. yes_vote (snd x)) rs) < c_majorityVoteCount (rq_config q)" "vote_round q rs = Some (Some kInsufficientVotes)"
proof -
  let ?ok = "\<lambda>x. \<not> newer_term (rq_term q) (snd x)" and ?yes = "\<lambda>rs. int (count_if (\<lambda>x. yes_vote (snd x)) rs)"
  obtain us vs r where r: "vote_round q rs = Some r" "rs = us @ vs"
    "r = Some kSuccessfullyElected \<Longrightarrow> (\<forall>x\<in>set us. ?ok x) \<and> c_majorityVoteCount (rq_config q) \<le> 1 + ?yes us"
    "r \<noteq> None \<Longrightarrow> r \<noteq> Some kSuccessfullyElected \<Longrightarrow> (\<exists>x\<in>set us. \<not> ?ok x) \<or>
       length us = length (vote_targets q) \<and> 1 + ?yes us < c_majorityVoteCount (rq_config q)"
    "r \<noteq> None" "r = Some kStaleTerm \<longleftrightarrow> (\<exists>x\<in>set us. \<not> ?ok x)" "\<forall>k<length us. undecided q (take k us)"
    by (rule vote_round_cases [OF assms(1)]) (use assms(2) in auto)
  obtain res where res: "r = Some res" using r(5) by blast
  show thesis
  proof (cases res)
    case kSuccessfullyElected
    then show ?thesis using elected [OF r(2)] r(1,3) res by auto
  next
    case kStaleTerm
    then show ?thesis using stale [OF r(2)] r(1,6,7) res by auto
  next
    case kInsufficientVotes
    then have n: "\<not> (\<exists>x\<in>set us. \<not> ?ok x)" using r(6) res by simp
    then have "length us = length (vote_targets q)" "1 + ?yes us < c_majorityVoteCount (rq_config q)"
      using r(4) [OF r(5)] res kInsufficientVotes by auto
    moreover from this have "us = rs" using r(2) assms(2) by simp
    ultimately show ?thesis using few n r(1) res kInsufficientVotes by auto
  qed
qed

section \<open>Properties\<close>

text \<open>
  C11: a round of vote requests ends once every target has answered or failed, and the responses determine its
  result. The candidate is elected exactly if its own vote and the yes votes before the first response with a newer term are a
  majority; otherwise the round ends with a stale term if there is such a response, and with too few
  votes if there is none. In particular the order of the responses does not matter while nobody reports a newer term, although
  the runner stops listening as soon as the majority is there.
\<close>

theorem vote_round_decides:
  assumes "vote_answers q rs" "length rs = length (vote_targets q)" "1 \<le> c_majorityVoteCount (rq_config q)"
  shows "vote_round q rs =
     Some (Some (let us = takeWhile (\<lambda>x. \<not> newer_term (rq_term q) (snd x)) rs in
                 if c_majorityVoteCount (rq_config q) \<le> 1 + int (count_if (\<lambda>x. yes_vote (snd x)) us) then kSuccessfullyElected
                 else if us = rs then kInsufficientVotes else kStaleTerm))"
proof -
  let ?ok = "\<lambda>x. \<not> newer_term (rq_term q) (snd x)" and ?yes = "\<lambda>rs. int (count_if (\<lambda>x. yes_vote (snd x)) rs)"
  show ?thesis
  proof (rule vote_round_ends [OF assms(1,2)])
    fix us vs
    assume u: "rs = us @ vs" "\<forall>x\<in>set us. ?ok x" "c_majorityVoteCount (rq_config q) \<le> 1 + ?yes us" "vote_round q rs = Some (Some kSuccessfullyElected)"
    have "takeWhile ?ok rs = us @ takeWhile ?ok vs" unfolding u(1) using u(2) by (simp add: takeWhile_append2)
    then show ?thesis unfolding u(4) using u(3) by (simp add: Let_def)
  next
    fix us vs
    assume u: "rs = us @ vs" "\<exists>x\<in>set us. newer_term (rq_term q) (snd x)" "\<forall>k<length us. undecided q (take k us)" "vote_round q rs = Some (Some kStaleTerm)"
    let ?tw = "takeWhile ?ok us"
    have t: "takeWhile ?ok rs = ?tw" unfolding u(1) using u(2) by (auto simp: takeWhile_append1)
    have l: "length ?tw < length us" using u(2) by (metis length_takeWhile_le nat_less_le set_takeWhileD takeWhile_eq_take take_all)
    then have "undecided q (take (length ?tw) us)" using u(3) by blast
    then have "undecided q ?tw" by (simp flip: takeWhile_eq_take)
    moreover have "?tw \<noteq> rs" using l unfolding u(1) by (metis length_append not_add_less1)
    ultimately show ?thesis unfolding u(4) Let_def t using assms(3) by (simp add: undecided_def)
  next
    assume u: "\<forall>x\<in>set rs. ?ok x" "1 + ?yes rs < c_majorityVoteCount (rq_config q)" "vote_round q rs = Some (Some kInsufficientVotes)"
    then have t: "takeWhile ?ok rs = rs" by (simp add: takeWhile_eq_all_conv)
    show ?thesis unfolding u(3) Let_def t using u(2) by simp
  qed
qed

definition demo_request :: VoteRequest where
  "demo_request = \<lparr>rq_config = demo_config, rq_candidateIndex = 0, rq_term = 3, rq_dryRun = False,
     rq_lastDurableOpTime = OpTime_default\<rparr>"

theorem vote_round_decides_witness:
  "vote_round demo_request [(1, Failed HostUnreachable), (0, Answer \<lparr>vr_term = 3, vr_voteGranted = True\<rparr>)] =
     Some (Some kSuccessfullyElected) \<and>
   vote_round demo_request [(1, Answer \<lparr>vr_term = 4, vr_voteGranted = False\<rparr>), (0, Answer \<lparr>vr_term = 3, vr_voteGranted = True\<rparr>)] =
     Some (Some kStaleTerm)"
proof -
  have "vote_targets demo_request = [mc_host (demo_member 1 27018), mc_host (demo_member 2 27019)]" by code_simp
  moreover have "c_majorityVoteCount (rq_config demo_request) = 2" "rq_term demo_request = 3" by code_simp+
  ultimately show ?thesis
    using vote_round_decides [of demo_request "[(1, Failed HostUnreachable), (0, Answer \<lparr>vr_term = 3, vr_voteGranted = True\<rparr>)]"]
      vote_round_decides [of demo_request
        "[(1, Answer \<lparr>vr_term = 4, vr_voteGranted = False\<rparr>), (0, Answer \<lparr>vr_term = 3, vr_voteGranted = True\<rparr>)]"]
    by (simp add: vote_answers_def newer_term_def yes_vote_def)
qed

end
