(* ===== verification/TopologyTerms.thy ===== *)
theory TopologyTerms
  imports TopologyProps
begin

text \<open>
  What the operations of the topology coordinator leave alone. Most of them touch neither the term and the last vote, nor the
  leadership of a leader and the follower mode; this is shown once, for every relation that ignores
  the other fields. Apart from the vote operations and a new configuration, only
  \<open>updateTerm\<close> touches the term, and it only raises it.
\<close>

named_theorems frame_rules

text \<open>The partial-correctness reading of an aborting operation: if it returns, the postcondition holds.\<close>

definition ensures :: "'a option \<Rightarrow> ('a \<Rightarrow> bool) \<Rightarrow> bool" where
  "ensures m Q \<longleftrightarrow> (\<forall>x. m = Some x \<longrightarrow> Q x)"

lemma ensures_simps [simp]:
  "ensures (Some x) Q = Q x" "ensures None Q" "ensures m (\<lambda>_. True)"
  "ensures (m \<bind> f) Q = (\<forall>x. m = Some x \<longrightarrow> ensures (f x) Q)"
  by (auto simp: ensures_def bind_eq_Some_conv)

lemma ensures_map [simp]:
  "ensures (map_option snd m) Q = ensures m (\<lambda>(x, t'). Q t')"
  "ensures (map_option (snd \<circ> snd) n) Q = ensures n (\<lambda>(x, y, t'). Q t')"
  by (auto simp: ensures_def)

lemma ensures_pair: "ensures m (\<lambda>(x, y). Q y) \<Longrightarrow> m = Some (a, b) \<Longrightarrow> Q b"
  by (simp add: ensures_def)

text \<open>The operations that change the configuration, the follower mode, a vote or a term, or depose a leader.\<close>

definition beyond_frame :: "TopologyOp \<Rightarrow> bool" where
  "beyond_frame p =
     (case p of OpUpdateConfig _ _ _ _ \<Rightarrow> True | OpStepDown _ _ _ \<Rightarrow> True | OpStepDownIfPending \<Rightarrow> True
      | OpSetFollowerMode _ \<Rightarrow> True | OpSingleNodeCandidate _ \<Rightarrow> True | OpRequestVotes _ _ \<Rightarrow> True | OpLoadLastVote _ \<Rightarrow> True
      | OpVoteForMyselfV1 \<Rightarrow> True | OpUpdateTerm _ _ \<Rightarrow> True | _ \<Rightarrow> False)"

locale topology_frame =
  fixes keeps :: "TopologyCoordinator \<Rightarrow> TopologyCoordinator \<Rightarrow> bool"
  assumes keeps_refl: "keeps t t"
    and keeps_trans: "keeps t t1 \<Longrightarrow> keeps t1 t2 \<Longrightarrow> keeps t t2"
    and keeps_role: "t_role t1 \<noteq> RoleLeader \<Longrightarrow> keeps t t1 \<Longrightarrow> keeps t (t1\<lparr>t_role := r\<rparr>)"
    and keeps_upd:
    "keeps t (t1\<lparr>t_electionId := x0\<rparr>) = keeps t t1" "keeps t (t1\<lparr>t_electionTime := x1\<rparr>) = keeps t t1"
    "keeps t (t1\<lparr>t_currentPrimaryIndex := x2\<rparr>) = keeps t t1" "keeps t (t1\<lparr>t_syncSource := x3\<rparr>) = keeps t t1"
    "keeps t (t1\<lparr>t_syncSourceBlacklist := x4\<rparr>) = keeps t t1" "keeps t (t1\<lparr>t_forceSyncSourceIndex := x5\<rparr>) = keeps t t1"
    "keeps t (t1\<lparr>t_hbmsg := x6\<rparr>) = keeps t t1" "keeps t (t1\<lparr>t_hbmsgTime := x7\<rparr>) = keeps t t1"
    "keeps t (t1\<lparr>t_hbdata := x8\<rparr>) = keeps t t1" "keeps t (t1\<lparr>t_stepDownPending := x9\<rparr>) = keeps t t1"
    "keeps t (t1\<lparr>t_stepDownUntil := x10\<rparr>) = keeps t t1" "keeps t (t1\<lparr>t_electionSleepUntil := x11\<rparr>) = keeps t t1"
    "keeps t (t1\<lparr>t_maintenanceModeCalls := x12\<rparr>) = keeps t t1" "keeps t (t1\<lparr>t_pings := x13\<rparr>) = keeps t t1"
    "keeps t (t1\<lparr>t_voteLease := x14\<rparr>) = keeps t t1" "keeps t (t1\<lparr>t_storageEngineSupportsReadCommitted := x15\<rparr>) = keeps t t1"
begin

lemmas keeps_simps = keeps_refl keeps_role keeps_upd

lemma hbmsg_keeps: "keeps t (setMyHeartbeatMessage now msg t1) = keeps t t1"
  by (simp add: setMyHeartbeatMessage_def keeps_simps)

lemma adjustMaintenance_keeps [frame_rules]: "ensures (adjustMaintenanceCountBy k t) (\<lambda>t'. keeps t t')"
  by (auto simp: adjustMaintenanceCountBy_def keeps_simps)

lemma freeze_keeps [frame_rules]: "ensures (prepareFreezeResponse now secs t) (\<lambda>(x, t'). keeps t t')"
  by (auto simp: prepareFreezeResponse_def keeps_simps)

lemma heartbeatRequest_keeps [frame_rules]:
  "ensures (prepareHeartbeatRequest now n h t) (\<lambda>(x, y, t'). keeps t t')"
  "ensures (prepareHeartbeatRequestV1 now n h t) (\<lambda>(x, y, t'). keeps t t')"
  by (auto simp: prepareHeartbeatRequest_def prepareHeartbeatRequestV1_def heartbeatRound_def putPingStats_def keeps_simps)

lemma answerConfig_keeps: "ensures (answerConfig now args b r t) (\<lambda>(x, y, t'). keeps t t')"
  by (auto simp: answerConfig_def noteHeartbeatRecv_def bind_eq_Some_conv keeps_simps)

lemma heartbeatAnswer_keeps [frame_rules]:
  "ensures (prepareHeartbeatResponse now args n a d t) (\<lambda>(x, y, t'). keeps t t')"
  "ensures (prepareHeartbeatResponseV1 now args n a d t) (\<lambda>(x, y, t'). keeps t t')"
  by (simp_all add: prepareHeartbeatResponse_def prepareHeartbeatResponseV1_def answerConfig_keeps keeps_refl)

lemma updatePrimaryV1_keeps: "ensures (updatePrimaryFromHBDataV1 i now t) (\<lambda>(x, t'). keeps t t')"
  by (auto simp: updatePrimaryFromHBDataV1_def hbmsg_keeps keeps_simps split: option.split)

lemma becomeCandidate_keeps [frame_rules]: "ensures (becomeCandidateIfElectable now l tk t) (\<lambda>(x, t'). keeps t t')"
  by (auto simp: becomeCandidateIfElectable_def keeps_simps)

lemma stepDownSelfOnce_keeps: "keeps t t1 \<Longrightarrow> (case stepDownSelfOnce t1 of (x, t') \<Rightarrow> keeps t t')"
  by (simp add: stepDownSelfOnce_def keeps_simps)

lemma highestPriorityCheck_keeps:
  "ensures (highestPriorityCheck now l t) (\<lambda>r. case r of None \<Rightarrow> True | Some (x, t') \<Rightarrow> keeps t t')"
  by (auto simp: highestPriorityCheck_def stepDownSelfOnce_def keeps_simps)

lemma remotePrimaryCheck_keeps:
  "ensures (remotePrimaryCheck now t) (\<lambda>r. case r of None \<Rightarrow> True | Some (x, t') \<Rightarrow> keeps t t')"
  by (simp add: remotePrimaryCheck_def hbmsg_keeps keeps_simps stepDownSelfOnce_keeps split: list.split)

lemma standOrRelinquish_keeps: "ensures (standOrRelinquish s now l t) (\<lambda>(x, t'). keeps t t')"
  using becomeCandidate_keeps [of now l False t]
  by (auto simp: standOrRelinquish_def stepDownSelfOnce_keeps keeps_simps ensures_def [of "becomeCandidateIfElectable now l False t"])

lemma updatePrimary_keeps: "ensures (updatePrimaryFromHBData i s now l t) (\<lambda>(x, t'). keeps t t')"
proof -
  have st: "ensures (case r1 of Some r \<Rightarrow> Some r
       | None \<Rightarrow> do { r2 \<leftarrow> remotePrimaryCheck now t1;
           (case r2 of Some r \<Rightarrow> Some r | None \<Rightarrow> standOrRelinquish s now l t1) }) (\<lambda>(x, t'). keeps t t')"
    if "keeps t t1" "highestPriorityCheck now l t1 = Some r1" for t1 r1
    using highestPriorityCheck_keeps [of now l t1] remotePrimaryCheck_keeps [of now t1] standOrRelinquish_keeps [of s now l t1] that
    by (fastforce simp: ensures_def bind_eq_Some_conv split: option.splits intro: keeps_trans)
  have s: "keeps t (t\<lparr>t_currentPrimaryIndex := -1\<rparr>)" by (simp add: keeps_simps)
  show ?thesis by (auto simp: updatePrimaryFromHBData_def bind_eq_Some_conv keeps_refl intro!: st s split: if_splits)
qed

lemma heartbeatResponse_keeps [frame_rules]: "ensures (processHeartbeatResponse now rtt h f resp l t) (\<lambda>(x, t'). keeps t t')"
proof -
  have st: "keeps t (putPingStats h p t)" for p by (simp add: putPingStats_def keeps_simps)
  have up: "keeps t t'" if "updatePrimaryFromHBData i s now l ((putPingStats h p t)\<lparr>t_hbdata := d\<rparr>) = Some (a, t') \<or>
      updatePrimaryFromHBDataV1 i now ((putPingStats h p t)\<lparr>t_hbdata := d\<rparr>) = Some (a, t')" for i s p d a t'
  proof -
    let ?t = "(putPingStats h p t)\<lparr>t_hbdata := d\<rparr>"
    have "keeps t ?t" by (simp add: putPingStats_def keeps_simps)
    then show ?thesis
      using that updatePrimary_keeps [of i s now l ?t] updatePrimaryV1_keeps [of i now ?t] by (auto simp: ensures_def intro: keeps_trans)
  qed
  show ?thesis unfolding processHeartbeatResponse_def by (auto simp: st keeps_simps intro: up)
qed

lemma memberDown_keeps [frame_rules]: "ensures (setMemberAsDown now i l t) (\<lambda>(x, t'). keeps t t')"
  by (simp add: setMemberAsDown_def stepDownSelfOnce_keeps keeps_simps)

lemma elect_keeps [frame_rules]: "ensures (prepareElectResponse args now l t) (\<lambda>(x, t'). keeps t t')"
  by (simp add: prepareElectResponse_def keeps_simps split: option.split)

lemma voteForMyself_keeps [frame_rules]: "ensures (voteForMyself now t) (\<lambda>(x, t'). keeps t t')"
  by (auto simp: voteForMyself_def keeps_simps)

lemma endElection_keeps [frame_rules]:
  "ensures (processWinElection eid et t) (\<lambda>t'. keeps t t')" "ensures (processLoseElection t) (\<lambda>t'. keeps t t')"
  by (auto simp: processWinElection_def setElectionInfo_def processLoseElection_def keeps_simps)

lemma syncSource_keeps [frame_rules]: "ensures (chooseNewSyncSource now l pref t) (\<lambda>(x, t'). keeps t t')"
proof -
  have st: "case syncFrom h now msg t1 of (x, t') \<Rightarrow> keeps t t'" "case noSource t1 of (x, t') \<Rightarrow> keeps t t'"
    if "keeps t t1" for h msg t1
    using that by (auto simp: syncFrom_def noSource_def hbmsg_keeps keeps_simps)
  show ?thesis by (simp add: chooseNewSyncSource_def choosePrimaryOnly_def st hbmsg_keeps keeps_simps split: option.split)
qed

lemma syncFromCommand_keeps [frame_rules]: "ensures (prepareSyncFromResponse h l t) (\<lambda>(x, y, t'). keeps t t')"
  by (simp add: prepareSyncFromResponse_def setForceSyncSourceIndex_def keeps_simps split: sum.split)

lemma tc_run_keeps:
  assumes "\<not> beyond_frame p"
  shows "ensures (tc_run p t) (keeps t)"
proof (cases p)
  case (OpUnblacklist h now)
  then show ?thesis by (simp add: unblacklistSyncSource_def keeps_simps split: option.split)
qed (use assms in \<open>simp_all add: frame_rules beyond_frame_def\<close>,
     simp_all add: keeps_simps setStorageEngineSupportsReadCommitted_def prepareForStepDown_def restartHeartbeats_def
       setElectionSleepUntil_def blacklistSyncSource_def clearSyncSourceBlacklist_def)

end

section \<open>Terms and votes\<close>

definition same_term :: "TopologyCoordinator \<Rightarrow> TopologyCoordinator \<Rightarrow> bool" where
  "same_term t t' \<longleftrightarrow> t_lastVote t' = t_lastVote t \<and> t_term t' = t_term t"

interpretation term_frame: topology_frame same_term
  by unfold_locales (simp_all add: same_term_def)

text \<open>The operations that vote, load a vote or install a configuration.\<close>

definition votes_or_reconfigures :: "TopologyOp \<Rightarrow> bool" where
  "votes_or_reconfigures p =
     (case p of OpUpdateConfig _ _ _ _ \<Rightarrow> True | OpRequestVotes _ _ \<Rightarrow> True | OpLoadLastVote _ \<Rightarrow> True
      | OpVoteForMyselfV1 \<Rightarrow> True | _ \<Rightarrow> False)"

lemma stepDown_term:
  "ensures (stepDown until force applied t) (\<lambda>(x, t'). same_term t t')"
  "ensures (stepDownIfPending t) (\<lambda>(x, t'). same_term t t')"
  "ensures (setFollowerMode m t) (same_term t)"
  "ensures (becomeCandidateIfStepdownPeriodOverAndSingleNodeSet now t) (\<lambda>(x, t'). same_term t t')"
  by (auto simp: same_term_def stepDown_def stepDownIfPending_def stepDownSelfAndReplaceWith_def setFollowerMode_def
      becomeCandidateIfStepdownPeriodOverAndSingleNodeSet_def)

lemma tc_run_same_term:
  assumes "\<not> votes_or_reconfigures p" "\<And>n d. p \<noteq> OpUpdateTerm n d"
  shows "ensures (tc_run p t) (same_term t)"
proof (cases "beyond_frame p")
  case True
  then show ?thesis using assms(1)
    by (cases p) (use assms(2) in \<open>auto simp: votes_or_reconfigures_def beyond_frame_def stepDown_term\<close>)
qed (rule term_frame.tc_run_keeps)

lemma tc_run_term:
  assumes "tc_run p t = Some t'" "\<not> votes_or_reconfigures p"
  shows "t_lastVote t' = t_lastVote t \<and> t_term t \<le> t_term t'"
proof (cases "\<exists>n d. p = OpUpdateTerm n d")
  case True
  then show ?thesis using assms(1) by (auto simp: updateTerm_def bind_eq_Some_conv split: if_splits)
next
  case False
  then show ?thesis using tc_run_same_term [OF assms(2), of t] assms(1) by (simp add: ensures_def same_term_def)
qed

section \<open>Leadership\<close>

text \<open>A leader stays leader, and the follower mode is kept.\<close>

definition lead_kept :: "TopologyCoordinator \<Rightarrow> TopologyCoordinator \<Rightarrow> bool" where
  "lead_kept t t' \<longleftrightarrow> (t_role t = RoleLeader \<longrightarrow> t_role t' = RoleLeader) \<and> t_followerMode t' = t_followerMode t"

interpretation lead_frame: topology_frame lead_kept
  by unfold_locales (auto simp: lead_kept_def)

lemma vote_lead:
  "ensures (processReplSetRequestVotes args applied t) (\<lambda>(x, t'). lead_kept t t')"
  "ensures (updateTerm n now t) (\<lambda>(x, t'). lead_kept t t')" "lead_kept t (loadLastVote lv t)" "lead_kept t (voteForMyselfV1 t)"
  by (auto simp: lead_kept_def processReplSetRequestVotes_def updateTerm_def loadLastVote_def voteForMyselfV1_def split: prod.splits)

definition deposes :: "TopologyOp \<Rightarrow> bool" where
  "deposes p =
     (case p of OpUpdateConfig _ _ _ _ \<Rightarrow> True | OpStepDown _ _ _ \<Rightarrow> True | OpStepDownIfPending \<Rightarrow> True
      | OpSetFollowerMode _ \<Rightarrow> True | OpSingleNodeCandidate _ \<Rightarrow> True | _ \<Rightarrow> False)"

lemma tc_run_lead_kept:
  assumes "\<not> deposes p"
  shows "ensures (tc_run p t) (lead_kept t)"
proof (cases "beyond_frame p")
  case True
  then show ?thesis using assms by (cases p) (simp_all add: deposes_def beyond_frame_def vote_lead)
qed (rule lead_frame.tc_run_keeps)

end
