(* ===== verification/ReplElectV1.thy ===== *)
theory ReplElectV1
  imports VoteRequester TopologyTerms
begin

text \<open>
  Elections of protocol version 1 as the replication coordinator runs them: the handler of vote requests,
  term updates with the step-down they may cause, and the phases of an own election (dry run, last
  vote, vote requests, result). Every handler runs under \<open>_topoMutex\<close>. The write of the last vote
  goes to external storage: its status is an argument, and the vote to be stored is part of the
  result.
\<close>

section \<open>Term updates\<close>

definition isV1ElectionProtocol :: "TopologyCoordinator \<Rightarrow> bool" where
  "isV1ElectionProtocol t \<longleftrightarrow> c_protocolVersion (t_rsConfig t) = 1"

text \<open>The result is \<open>None\<close> in protocol version 0, where the result variable stays unset.\<close>

definition updateTerm_incallback :: "Term \<Rightarrow> Date \<Rightarrow> TopologyCoordinator \<Rightarrow> (UpdateTermResult option \<times> TopologyCoordinator) option" where
  "updateTerm_incallback newTerm now t =
     (if \<not> isV1ElectionProtocol t then Some (None, t)
      else do { (r, t1) \<leftarrow> updateTerm newTerm now t;
                Some (Some r, if r = kTriggerStepDown then prepareForStepDown t1 else t1) })"

text \<open>\<open>updateTerm\<close> of a node that runs as a replica set: it waits for the step-down it has started.\<close>

definition rc_updateTerm :: "Term \<Rightarrow> Date \<Rightarrow> TopologyCoordinator \<Rightarrow> (Status \<times> TopologyCoordinator) option" where
  "rc_updateTerm newTerm now t =
     (if \<not> isV1ElectionProtocol t then Some (StatusOK, t)
      else do { (r, t1) \<leftarrow> updateTerm_incallback newTerm now t;
                t2 \<leftarrow> (if r = Some kTriggerStepDown then do { (b, t2) \<leftarrow> stepDownIfPending t1; Some t2 } else Some t1);
                Some (failIf (r = Some kUpdatedTerm \<or> r = Some kTriggerStepDown) StaleTerm, t2) })"

section \<open>Answering a vote request\<close>

definition rc_processReplSetRequestVotes ::
  "ReplSetRequestVotesArgs \<Rightarrow> Date \<Rightarrow> OpTime \<Rightarrow> (LastVote \<Rightarrow> Status) \<Rightarrow> TopologyCoordinator \<Rightarrow>
   (Status \<times> ReplSetRequestVotesResponse option \<times> LastVote option \<times> TopologyCoordinator) option" where
  "rc_processReplSetRequestVotes args now lastApplied store t =
     (if \<not> isV1ElectionProtocol t then Some (Some BadValue, None, None, t)
      else do {
        (termStatus, t1) \<leftarrow> rc_updateTerm (va_term args) now t;
        if termStatus \<noteq> StatusOK \<and> termStatus \<noteq> Some StaleTerm then Some (termStatus, None, None, t1)
        else do {
          (r, t2) \<leftarrow> processReplSetRequestVotes args lastApplied t1;
          let lv = \<lparr>lv_term = va_term args, lv_candidateIndex = va_candidateIndex args\<rparr>;
          Some (if \<not> va_dryRun args \<and> vr_voteGranted r
                then (store lv, Some r, if store lv = StatusOK then Some lv else None, t2)
                else (StatusOK, Some r, None, t2)) } })"

section \<open>Standing for election\<close>

text \<open>
  A phase ends with what the next one needs, or the election is lost (\<open>LoseElectionGuardV1\<close>).
  \<open>steady\<close> says that no configuration change is under way.
\<close>

definition loseElection :: "TopologyCoordinator \<Rightarrow> ('a option \<times> TopologyCoordinator) option" where
  "loseElection t = do { t1 \<leftarrow> processLoseElection t; Some (None, t1) }"

definition startElectSelfV1 :: "bool \<Rightarrow> OpTime \<Rightarrow> TopologyCoordinator \<Rightarrow> (VoteRequest option \<times> TopologyCoordinator) option" where
  "startElectSelfV1 steady lastOpTime t =
     (if \<not> steady then loseElection t
      else do {
        me \<leftarrow> getMemberAt (t_rsConfig t) (t_selfIndex t);
        ensure (isElectable me);
        if ot_eq lastOpTime OpTime_default then loseElection t
        else Some (Some \<lparr>rq_config = t_rsConfig t, rq_candidateIndex = t_selfIndex t, rq_term = t_term t, rq_dryRun = True,
                         rq_lastDurableOpTime = lastOpTime\<rparr>, t) })"

definition onDryRunComplete ::
  "Term \<Rightarrow> VoteResult \<Rightarrow> Date \<Rightarrow> TopologyCoordinator \<Rightarrow> (LastVote option \<times> TopologyCoordinator) option" where
  "onDryRunComplete originalTerm endResult now t =
     (if t_term t \<noteq> originalTerm then loseElection t
      else if endResult \<noteq> kSuccessfullyElected then loseElection t
      else do {
        let newTerm = originalTerm + 1;
        (r, t1) \<leftarrow> updateTerm_incallback newTerm now t;
        ensure (r = Some kUpdatedTerm);
        Some (Some \<lparr>lv_term = newTerm, lv_candidateIndex = t_selfIndex t1\<rparr>, voteForMyselfV1 t1) })"

definition startVoteRequester :: "Term \<Rightarrow> OpTime \<Rightarrow> TopologyCoordinator \<Rightarrow> (VoteRequest option \<times> TopologyCoordinator) option" where
  "startVoteRequester newTerm lastOpTime t =
     (if t_term t \<noteq> newTerm then loseElection t
      else Some (Some \<lparr>rq_config = t_rsConfig t, rq_candidateIndex = t_selfIndex t, rq_term = newTerm, rq_dryRun = False,
                       rq_lastDurableOpTime = lastOpTime\<rparr>, t))"

definition writeLastVoteForMyElection ::
  "LastVote \<Rightarrow> Status \<Rightarrow> OpTime \<Rightarrow> TopologyCoordinator \<Rightarrow> (VoteRequest option \<times> TopologyCoordinator) option" where
  "writeLastVoteForMyElection lv stored lastOpTime t =
     (if stored \<noteq> StatusOK then loseElection t else startVoteRequester (lv_term lv) lastOpTime t)"

text \<open>Winning: \<open>kActionWinElection\<close> with the election id and the timestamp it is given.\<close>

definition onVoteRequestComplete ::
  "Term \<Rightarrow> VoteResult \<Rightarrow> OID \<Rightarrow> Timestamp \<Rightarrow> TopologyCoordinator \<Rightarrow> (unit option \<times> TopologyCoordinator) option" where
  "onVoteRequestComplete newTerm endResult electionId electionOpTime t =
     (if t_term t \<noteq> newTerm then loseElection t
      else if endResult \<noteq> kSuccessfullyElected then loseElection t
      else do { ensure (t_term t \<noteq> kUninitializedTerm);
                t1 \<leftarrow> processWinElection electionId electionOpTime t;
                Some (Some (), t1) })"

section \<open>Starting up\<close>

text \<open>
  The term a node starts with: that of its last oplog entry or of its last vote, whichever is
  higher. The last vote is loaded first, the configuration installed next.
\<close>

definition startupTerm :: "ReplSetConfig \<Rightarrow> OpTime \<Rightarrow> LastVote option \<Rightarrow> Term" where
  "startupTerm c lastOpTime lastVote =
     (if c_protocolVersion c = 1
      then (case lastVote of Some lv \<Rightarrow> max (ot_term lastOpTime) (lv_term lv) | None \<Rightarrow> ot_term lastOpTime)
      else kUninitializedTerm)"

definition finishLoadLocalConfig ::
  "ReplSetConfig \<Rightarrow> int \<Rightarrow> OpTime \<Rightarrow> LastVote option \<Rightarrow> Date \<Rightarrow> TopologyCoordinator \<Rightarrow> TopologyCoordinator option" where
  "finishLoadLocalConfig localConfig myIndex lastOpTime lastVote now t =
     do { t1 \<leftarrow> updateConfig localConfig myIndex now t;
          (r, t2) \<leftarrow> updateTerm_incallback (startupTerm localConfig lastOpTime lastVote) now t1;
          Some t2 }"

definition startLoadLocalConfig :: "LastVote option \<Rightarrow> TopologyCoordinator \<Rightarrow> TopologyCoordinator" where
  "startLoadLocalConfig lastVote t = (case lastVote of Some lv \<Rightarrow> loadLastVote lv t | None \<Rightarrow> t)"

section \<open>Storing the last vote\<close>

text \<open>The document of \<open>local.replset.election\<close> is only replaced by a vote of a higher term.\<close>

definition storeLocalLastVoteDocument :: "LastVote \<Rightarrow> LastVote option \<Rightarrow> LastVote option" where
  "storeLocalLastVoteDocument lv doc =
     (case doc of None \<Rightarrow> Some lv | Some old \<Rightarrow> if lv_term lv > lv_term old then Some lv else Some old)"

section \<open>Terms along the handlers\<close>

lemma updateTerm_cases:
  assumes "updateTerm n now t = Some (r, t')"
  shows "t_lastVote t' = t_lastVote t" "t_term t' = (if r = kUpdatedTerm then n else t_term t)"
    "r = kAlreadyUpToDate \<longleftrightarrow> n \<le> t_term t" "r = kTriggerStepDown \<longleftrightarrow> n > t_term t \<and> t_role t = RoleLeader"
    "t_selfIndex t' = t_selfIndex t"
  using assms by (auto simp: updateTerm_def iAmPrimary_def bind_eq_Some_conv split: if_splits)

lemma updateTerm_incallback_cases:
  assumes "updateTerm_incallback n now t = Some (r, t')"
  shows "t_lastVote t' = t_lastVote t" "t_term t' = (if r = Some kUpdatedTerm then n else t_term t)"
    "r = Some kUpdatedTerm \<longrightarrow> t_term t < n" "t_selfIndex t' = t_selfIndex t"
    "isV1ElectionProtocol t \<and> t_role t \<noteq> RoleLeader \<longrightarrow> n \<le> t_term t'"
proof -
  consider "\<not> isV1ElectionProtocol t" "r = None" "t' = t"
    | u t1 where "isV1ElectionProtocol t" "updateTerm n now t = Some (u, t1)" "r = Some u"
        "t' = (if u = kTriggerStepDown then prepareForStepDown t1 else t1)"
    using assms by (auto simp: updateTerm_incallback_def bind_eq_Some_conv split: if_splits)
  then have "t_lastVote t' = t_lastVote t \<and> t_term t' = (if r = Some kUpdatedTerm then n else t_term t) \<and>
    (r = Some kUpdatedTerm \<longrightarrow> t_term t < n) \<and> t_selfIndex t' = t_selfIndex t \<and>
    (isV1ElectionProtocol t \<and> t_role t \<noteq> RoleLeader \<longrightarrow> n \<le> t_term t')"
  proof cases
    case (2 u t1)
    then show ?thesis using updateTerm_cases [OF 2(2)] by (cases u) (auto simp: prepareForStepDown_def)
  qed simp
  then show "t_lastVote t' = t_lastVote t" "t_term t' = (if r = Some kUpdatedTerm then n else t_term t)"
    "r = Some kUpdatedTerm \<longrightarrow> t_term t < n" "t_selfIndex t' = t_selfIndex t"
    "isV1ElectionProtocol t \<and> t_role t \<noteq> RoleLeader \<longrightarrow> n \<le> t_term t'"
    by blast+
qed

text \<open>
  After \<open>updateTerm\<close> a node that was not the leader has at least the term of the request; the
  leader steps down and keeps its old term.
\<close>

lemma rc_updateTerm_reaches:
  assumes "rc_updateTerm n now t = Some (st, t')" "isV1ElectionProtocol t" "t_role t \<noteq> RoleLeader"
  shows "n \<le> t_term t'" "t_lastVote t' = t_lastVote t"
proof -
  obtain r t1 where r: "updateTerm_incallback n now t = Some (r, t1)" using assms(1,2) by (auto simp: rc_updateTerm_def bind_eq_Some_conv)
  have "r \<noteq> Some kTriggerStepDown"
    using r assms(2,3) by (auto simp: updateTerm_incallback_def bind_eq_Some_conv dest: updateTerm_cases(4))
  then have "t' = t1" using assms(1,2) r by (auto simp: rc_updateTerm_def)
  then show "n \<le> t_term t'" "t_lastVote t' = t_lastVote t" using updateTerm_incallback_cases [OF r] assms(2,3) by auto
qed

lemma request_votes_cases:
  assumes "processReplSetRequestVotes args l t = Some (r, t')"
  shows "t_term t' = t_term t"
    "vr_voteGranted r \<Longrightarrow> \<not> va_dryRun args \<Longrightarrow> t_term t \<le> va_term args \<and> lv_term (t_lastVote t) \<noteq> va_term args \<and>
       t_lastVote t' = \<lparr>lv_term = va_term args, lv_candidateIndex = va_candidateIndex args\<rparr>"
    "\<not> (vr_voteGranted r \<and> \<not> va_dryRun args) \<Longrightarrow> t_lastVote t' = t_lastVote t"
  using assms by (auto simp: processReplSetRequestVotes_def bind_eq_Some_conv split: if_splits)

lemma dry_run_vote:
  assumes "onDryRunComplete originalTerm res now t = Some (Some lv, t')"
  shows "t_lastVote t' = lv" "lv_term lv = t_term t'" "t_term t < t_term t'" "lv_candidateIndex lv = t_selfIndex t"
  using assms updateTerm_incallback_cases
  by (auto simp: onDryRunComplete_def loseElection_def voteForMyselfV1_def bind_eq_Some_conv split: if_splits)

lemma updateConfig_keeps:
  assumes "updateConfig c self now t = Some t'"
  shows "t_lastVote t' = t_lastVote t" "t_rsConfig t' = c"
    "t_term t' = (if \<not> c_isInitialized (t_rsConfig t) \<or> c_protocolVersion (t_rsConfig t) \<noteq> c_protocolVersion c
       then (if c_protocolVersion c = 1 then kInitialTerm else kUninitializedTerm) else t_term t)"
    "t_role t = RoleFollower \<Longrightarrow> t_role t' \<noteq> RoleLeader"
proof -
  have "ensures (updateConfig c self now t) (\<lambda>t'. t_lastVote t' = t_lastVote t \<and> t_rsConfig t' = c \<and>
    t_term t' = (if \<not> c_isInitialized (t_rsConfig t) \<or> c_protocolVersion (t_rsConfig t) \<noteq> c_protocolVersion c
       then (if c_protocolVersion c = 1 then kInitialTerm else kUninitializedTerm) else t_term t) \<and>
    (t_role t = RoleFollower \<longrightarrow> t_role t' \<noteq> RoleLeader))"
    by (auto simp: updateConfig_def updateHeartbeatDataForReconfig_def)
  then show "t_lastVote t' = t_lastVote t" "t_rsConfig t' = c"
    "t_term t' = (if \<not> c_isInitialized (t_rsConfig t) \<or> c_protocolVersion (t_rsConfig t) \<noteq> c_protocolVersion c
       then (if c_protocolVersion c = 1 then kInitialTerm else kUninitializedTerm) else t_term t)"
    "t_role t = RoleFollower \<Longrightarrow> t_role t' \<noteq> RoleLeader"
    using assms unfolding ensures_def by blast+
qed

text \<open>A node starts with a term that is not lower than that of its last vote.\<close>

lemma startup_term:
  assumes "finishLoadLocalConfig c self lastOp doc now (startLoadLocalConfig doc (TopologyCoordinator_new opts)) = Some t"
    "c_protocolVersion c = 1"
  shows "lv_term (t_lastVote t) \<le> t_term t" "\<And>lv. doc = Some lv \<Longrightarrow> t_lastVote t = lv"
proof -
  let ?t0 = "startLoadLocalConfig doc (TopologyCoordinator_new opts)"
  obtain t1 r where t1: "updateConfig c self now ?t0 = Some t1" "updateTerm_incallback (startupTerm c lastOp doc) now t1 = Some (r, t)"
    using assms(1) by (auto simp: finishLoadLocalConfig_def bind_eq_Some_conv)
  have n: "\<not> c_isInitialized (t_rsConfig ?t0)" "t_role ?t0 = RoleFollower"
    by (auto simp: startLoadLocalConfig_def TopologyCoordinator_new_def ReplSetConfig_default_def loadLastVote_def split: option.split)
  note c = updateConfig_keeps [OF t1(1)]
  have s: "startupTerm c lastOp doc \<le> t_term t" "t_term t1 \<le> t_term t" "t_lastVote t = t_lastVote ?t0"
    using updateTerm_incallback_cases [OF t1(2)] c n assms(2) by (auto simp: isV1ElectionProtocol_def)
  have z: "t_term t1 = kInitialTerm" using c(3) n assms(2) by simp
  show "lv_term (t_lastVote t) \<le> t_term t" "\<And>lv. doc = Some lv \<Longrightarrow> t_lastVote t = lv"
    using s z assms(2)
    by (auto simp: startLoadLocalConfig_def loadLastVote_def startupTerm_def TopologyCoordinator_new_def split: option.splits)
qed

end
