(* ===== verification/ElectionSafety.thy ===== *)
theory ElectionSafety
  imports ReplElectV1
begin

text \<open>
  At most one primary per term. A voter is a node with its stored last vote; its votes are cast when
  the reply is sent, after the vote has been stored, and a crash loses the votes that were granted but
  not stored. One voter casts at most one vote per term, so two candidates that a majority of a
  configuration elects in one term are the same. The argument needs that a node handles a request of a
  newer term only after it has taken over the term; the leader that steps down because of the
  request does not, and \<open>leader_votes_twice\<close> shows what follows.
\<close>

section \<open>Voters\<close>

record Voter =
  vt_node :: TopologyCoordinator
  vt_stored :: "LastVote option"
  vt_granted :: "LastVote set"
  vt_cast :: "LastVote set"

text \<open>Starting the process: what was granted and not stored is lost.\<close>

definition started :: "Voter \<Rightarrow> Voter \<Rightarrow> bool" where
  "started v v' \<longleftrightarrow>
     vt_stored v' = vt_stored v \<and> vt_granted v' = {} \<and> vt_cast v' = vt_cast v \<and>
     (\<exists>c self lastOp now opts. c_protocolVersion c = 1 \<and>
        finishLoadLocalConfig c self lastOp (vt_stored v) now (startLoadLocalConfig (vt_stored v) (TopologyCoordinator_new opts)) =
          Some (vt_node v'))"

inductive voter_step :: "Voter \<Rightarrow> Voter \<Rightarrow> bool" where
  other: "tc_run p (vt_node v) = Some t' \<Longrightarrow> \<not> votes_or_reconfigures p \<Longrightarrow> voter_step v (v\<lparr>vt_node := t'\<rparr>)"
| reconfig: "updateConfig c self now (vt_node v) = Some t' \<Longrightarrow> c_isInitialized (t_rsConfig (vt_node v)) \<Longrightarrow>
     c_protocolVersion (t_rsConfig (vt_node v)) = c_protocolVersion c \<Longrightarrow> voter_step v (v\<lparr>vt_node := t'\<rparr>)"
| request: "processReplSetRequestVotes args applied (vt_node v) = Some (r, t') \<Longrightarrow> va_term args \<le> t_term (vt_node v) \<Longrightarrow>
     voter_step v (v\<lparr>vt_node := t', vt_granted := vt_granted v \<union>
       (if vr_voteGranted r \<and> \<not> va_dryRun args then {\<lparr>lv_term = va_term args, lv_candidateIndex = va_candidateIndex args\<rparr>} else {})\<rparr>)"
| own: "onDryRunComplete originalTerm res now (vt_node v) = Some (Some lv, t') \<Longrightarrow>
     voter_step v (v\<lparr>vt_node := t', vt_granted := insert lv (vt_granted v)\<rparr>)"
| store: "lv \<in> vt_granted v \<Longrightarrow>
     voter_step v (v\<lparr>vt_stored := storeLocalLastVoteDocument lv (vt_stored v), vt_granted := vt_granted v - {lv},
                    vt_cast := insert lv (vt_cast v)\<rparr>)"
| restart: "started v v' \<Longrightarrow> voter_step v v'"

text \<open>
  The invariant: no vote has a higher term than the last vote, nor the last vote than the node;
  what was cast is covered by what is stored; and the votes of one term agree.
\<close>

definition voter_ok :: "Voter \<Rightarrow> bool" where
  "voter_ok v \<longleftrightarrow>
     lv_term (t_lastVote (vt_node v)) \<le> t_term (vt_node v) \<and>
     (\<forall>lv\<in>vt_cast v \<union> vt_granted v. lv_term lv \<le> lv_term (t_lastVote (vt_node v))) \<and>
     (\<forall>a\<in>vt_cast v \<union> vt_granted v. \<forall>b\<in>vt_cast v \<union> vt_granted v. lv_term a = lv_term b \<longrightarrow> a = b) \<and>
     (\<forall>lv\<in>vt_cast v. \<exists>d. vt_stored v = Some d \<and> lv_term lv \<le> lv_term d) \<and>
     (\<forall>d. vt_stored v = Some d \<longrightarrow> lv_term d \<le> lv_term (t_lastVote (vt_node v)))"

lemma voter_okD:
  assumes "voter_ok v"
  shows "lv_term (t_lastVote (vt_node v)) \<le> t_term (vt_node v)"
    "\<forall>lv\<in>vt_cast v \<union> vt_granted v. lv_term lv \<le> lv_term (t_lastVote (vt_node v))"
    "\<forall>a\<in>vt_cast v \<union> vt_granted v. \<forall>b\<in>vt_cast v \<union> vt_granted v. lv_term a = lv_term b \<longrightarrow> a = b"
    "\<forall>lv\<in>vt_cast v. \<exists>d. vt_stored v = Some d \<and> lv_term lv \<le> lv_term d"
    "\<forall>d. vt_stored v = Some d \<longrightarrow> lv_term d \<le> lv_term (t_lastVote (vt_node v))"
  using assms unfolding voter_ok_def by blast+

lemma voter_ok_unique: "voter_ok v \<Longrightarrow> a \<in> vt_cast v \<Longrightarrow> b \<in> vt_cast v \<Longrightarrow> lv_term a = lv_term b \<Longrightarrow> a = b"
  using voter_okD(3) by blast

lemma voter_ok_node:
  assumes "voter_ok v" "t_lastVote t' = t_lastVote (vt_node v)" "t_term (vt_node v) \<le> t_term t'"
  shows "voter_ok (v\<lparr>vt_node := t'\<rparr>)"
  using assms by (auto simp: voter_ok_def)

lemma voter_ok_new:
  assumes ok: "voter_ok v" and lv: "t_lastVote t' = lv" "lv_term lv \<le> t_term t'" "lv_term (t_lastVote (vt_node v)) < lv_term lv"
  shows "voter_ok (v\<lparr>vt_node := t', vt_granted := insert lv (vt_granted v)\<rparr>)"
proof -
  have old: "\<forall>a\<in>vt_cast v \<union> vt_granted v. lv_term a < lv_term lv" using voter_okD(2) [OF ok] lv(3) le_less_trans by blast
  have d: "\<forall>d. vt_stored v = Some d \<longrightarrow> lv_term d \<le> lv_term lv" using voter_okD(5) [OF ok] lv(3) by (meson le_less_trans less_imp_le)
  let ?L = "vt_cast v \<union> insert lv (vt_granted v)"
  have "\<forall>a\<in>?L. lv_term a \<le> lv_term lv" using old by (metis Un_iff insert_iff less_imp_le order_refl)
  moreover have "\<forall>a\<in>?L. \<forall>b\<in>?L. lv_term a = lv_term b \<longrightarrow> a = b"
    using old voter_okD(3) [OF ok] by (metis Un_iff insert_iff less_irrefl)
  moreover have "\<forall>lv\<in>vt_cast v. \<exists>d. vt_stored v = Some d \<and> lv_term lv \<le> lv_term d" by (rule voter_okD(4) [OF ok])
  ultimately show ?thesis using d lv(1,2) by (simp add: voter_ok_def)
qed

lemma started_ok:
  assumes "started v v'" "\<forall>lv\<in>vt_cast v. \<exists>d. vt_stored v = Some d \<and> lv_term lv \<le> lv_term d"
    "\<forall>a\<in>vt_cast v. \<forall>b\<in>vt_cast v. lv_term a = lv_term b \<longrightarrow> a = b"
  shows "voter_ok v'"
proof -
  have n: "lv_term (t_lastVote (vt_node v')) \<le> t_term (vt_node v')" "\<And>lv. vt_stored v = Some lv \<Longrightarrow> t_lastVote (vt_node v') = lv"
    and f: "vt_stored v' = vt_stored v" "vt_granted v' = {}" "vt_cast v' = vt_cast v"
    using assms(1) startup_term unfolding started_def by blast+
  have "\<forall>lv\<in>vt_cast v. lv_term lv \<le> lv_term (t_lastVote (vt_node v'))" using n(2) assms(2) by metis
  then show ?thesis using n f assms(2,3) by (simp add: voter_ok_def)
qed

lemma store_ok:
  assumes "voter_ok v" "lv \<in> vt_granted v"
  shows "voter_ok (v\<lparr>vt_stored := storeLocalLastVoteDocument lv (vt_stored v), vt_granted := vt_granted v - {lv},
                    vt_cast := insert lv (vt_cast v)\<rparr>)"
proof -
  have s: "\<exists>d. storeLocalLastVoteDocument lv (vt_stored v) = Some d \<and> lv_term lv \<le> lv_term d \<and>
      (\<forall>e. vt_stored v = Some e \<longrightarrow> lv_term e \<le> lv_term d) \<and> (d = lv \<or> vt_stored v = Some d)"
    by (auto simp: storeLocalLastVoteDocument_def split: option.split)
  then obtain d where d: "storeLocalLastVoteDocument lv (vt_stored v) = Some d" "lv_term lv \<le> lv_term d"
    "\<forall>e. vt_stored v = Some e \<longrightarrow> lv_term e \<le> lv_term d" "d = lv \<or> vt_stored v = Some d" by blast
  have c: "\<forall>x\<in>insert lv (vt_cast v). lv_term x \<le> lv_term d"
    using voter_okD(4) [OF assms(1)] d(2,3) by (metis insert_iff order_trans)
  have "lv_term d \<le> lv_term (t_lastVote (vt_node v))"
    using voter_okD(2,5) [OF assms(1)] assms(2) d(4) by blast
  moreover have "insert lv (vt_cast v) \<union> (vt_granted v - {lv}) = vt_cast v \<union> vt_granted v" using assms(2) by auto
  ultimately show ?thesis using assms(1) d(1) c by (simp add: voter_ok_def)
qed

lemma voter_step_ok: "voter_step v v' \<Longrightarrow> voter_ok v \<Longrightarrow> voter_ok v'"
proof (induction rule: voter_step.induct)
  case (other p v t')
  then show ?case using tc_run_term voter_ok_node by blast
next
  case (reconfig c self now v t')
  then show ?case using updateConfig_keeps [OF reconfig(1)] by (intro voter_ok_node) auto
next
  case (request args applied v r t')
  note c = request_votes_cases [OF request(1)]
  show ?case
  proof (cases "vr_voteGranted r \<and> \<not> va_dryRun args")
    case True
    have "lv_term (t_lastVote (vt_node v)) < va_term args"
      using c(2) True request(2) voter_okD(1) [OF request(3)] by auto
    then show ?thesis using voter_ok_new [OF request(3), of t'] c True request(2) by simp
  next
    case False
    then have "(if vr_voteGranted r \<and> \<not> va_dryRun args then {\<lparr>lv_term = va_term args, lv_candidateIndex = va_candidateIndex args\<rparr>} else {}) = {}"
      by simp
    then show ?thesis using voter_ok_node [OF request(3), of t'] c(1) c(3) [OF False] by simp
  qed
next
  case (own originalTerm res now v lv t')
  then show ?case using dry_run_vote [OF own(1)] voter_okD(1) [OF own(2)] by (intro voter_ok_new) auto
next
  case (store lv v)
  then show ?case by (intro store_ok)
next
  case (restart v v')
  then show ?case using voter_okD(3,4) [OF restart(2)] by (intro started_ok [OF restart(1)]) blast+
qed

definition voter_start :: "Voter \<Rightarrow> bool" where
  "voter_start v \<longleftrightarrow> vt_cast v = {} \<and> started v v"

interpretation voter_machine: step_invariant voter_start voter_step voter_ok
proof
  fix v assume "voter_start v"
  then show "voter_ok v" using started_ok [of v v] by (simp add: voter_start_def)
qed (blast intro: voter_step_ok)

definition voter_reachable :: "Voter \<Rightarrow> bool" where
  "voter_reachable v \<longleftrightarrow> (\<exists>s. voter_start s \<and> voter_step\<^sup>*\<^sup>* s v)"

lemma voter_reachable_ok: "voter_reachable v \<Longrightarrow> voter_ok v"
  using voter_machine.reachable_inv by (auto simp: voter_reachable_def)

text \<open>
  The machine covers every vote request that the replication coordinator handles, except that of a newer term on a leader: any other node
  takes over the term first.
\<close>

lemma handler_steps:
  assumes "rc_processReplSetRequestVotes args now applied store (vt_node v) = Some (st, Some r, lv, t')"
    and "t_role (vt_node v) \<noteq> RoleLeader \<or> va_term args \<le> t_term (vt_node v)"
  shows "voter_step\<^sup>*\<^sup>* v (v\<lparr>vt_node := t', vt_granted := vt_granted v \<union>
       (if vr_voteGranted r \<and> \<not> va_dryRun args then {\<lparr>lv_term = va_term args, lv_candidateIndex = va_candidateIndex args\<rparr>} else {})\<rparr>)"
proof -
  let ?t = "vt_node v"
  let ?n = "va_term args"
  define t1 where "t1 = (if ?n \<le> t_term ?t then ?t
    else ?t\<lparr>t_electionSleepUntil := now + c_electionTimeoutPeriod (t_rsConfig ?t), t_term := ?n\<rparr>)"
  have t1: "updateTerm ?n now ?t = Some (if ?n \<le> t_term ?t then kAlreadyUpToDate else kUpdatedTerm, t1)" "?n \<le> t_term t1"
    using assms(2) by (auto simp: t1_def updateTerm_def iAmPrimary_def)
  then have "isV1ElectionProtocol ?t \<Longrightarrow> \<exists>s. rc_updateTerm ?n now ?t = Some (s, t1)"
    by (simp add: rc_updateTerm_def updateTerm_incallback_def)
  then have "processReplSetRequestVotes args applied t1 = Some (r, t')"
    using assms(1) by (auto simp: rc_processReplSetRequestVotes_def bind_eq_Some_conv Let_def split: if_splits)
  note u = t1(1) this this t1(2)
  have "voter_step v (v\<lparr>vt_node := t1\<rparr>)" using u(1) by (intro other [of "OpUpdateTerm (va_term args) now"]) (auto simp: votes_or_reconfigures_def)
  moreover have "voter_step (v\<lparr>vt_node := t1\<rparr>) (v\<lparr>vt_node := t', vt_granted := vt_granted v \<union>
       (if vr_voteGranted r \<and> \<not> va_dryRun args then {\<lparr>lv_term = va_term args, lv_candidateIndex = va_candidateIndex args\<rparr>} else {})\<rparr>)"
    using request [of args applied "v\<lparr>vt_node := t1\<rparr>" r t'] u(2,4) by simp
  ultimately show ?thesis by (meson converse_rtranclp_into_rtranclp r_into_rtranclp)
qed

section \<open>Majorities\<close>

text \<open>
  The interface of a majority system: voting members of a configuration and the number of votes
  that elects. Two electing sets of votes have a voter in common.
\<close>

locale majority_system =
  fixes valid :: "'c \<Rightarrow> bool"
    and voters :: "'c \<Rightarrow> 'm set"
    and majority :: "'c \<Rightarrow> int"
  assumes finite_voters: "valid c \<Longrightarrow> finite (voters c)"
    and more_than_half: "valid c \<Longrightarrow> int (card (voters c)) < 2 * majority c"
begin

lemma majorities_meet:
  assumes "valid c" "A \<subseteq> voters c" "B \<subseteq> voters c" "majority c \<le> int (card A)" "majority c \<le> int (card B)"
  shows "\<exists>m. m \<in> A \<and> m \<in> B"
proof (rule ccontr)
  assume "\<not> ?thesis"
  then have d: "A \<inter> B = {}" by blast
  have f: "finite A" "finite B" using finite_voters [OF assms(1)] assms(2,3) finite_subset by blast+
  have "card A + card B = card (A \<union> B)" using card_Un_disjoint [OF f d] by simp
  also have "\<dots> \<le> card (voters c)" using assms(2,3) by (intro card_mono finite_voters [OF assms(1)]) auto
  finally show False using more_than_half [OF assms(1)] assms(4,5) by linarith
qed

end

definition voterIndices :: "ReplSetConfig \<Rightarrow> int set" where
  "voterIndices c = {i. 0 \<le> i \<and> i < getNumMembers c \<and> isVoter (c_members c ! nat i)}"

text \<open>A configuration whose majorities have been calculated from its members.\<close>

definition majorities_calculated :: "ReplSetConfig \<Rightarrow> bool" where
  "majorities_calculated c \<longleftrightarrow> c_majorityVoteCount c = c_majorityVoteCount (calculateMajorities c)"

lemma card_voterIndices: "finite (voterIndices c)" "card (voterIndices c) = count_if isVoter (c_members c)"
proof -
  have e: "voterIndices c = int ` {i. i < length (c_members c) \<and> isVoter (c_members c ! i)}" (is "_ = int ` ?S")
  proof (rule set_eqI)
    fix i
    show "i \<in> voterIndices c \<longleftrightarrow> i \<in> int ` ?S"
      unfolding image_iff by (auto simp: voterIndices_def getNumMembers_def intro: exI [of _ "nat i"])
  qed
  show "finite (voterIndices c)" unfolding e by simp
  show "card (voterIndices c) = count_if isVoter (c_members c)"
    unfolding e by (simp add: card_image count_if_def length_filter_conv_card)
qed

interpretation config_majority: majority_system majorities_calculated voterIndices c_majorityVoteCount
  by unfold_locales (auto simp: majorities_calculated_def card_voterIndices calculateMajorities_def)

section \<open>Elections\<close>

text \<open>The members behind the targets of a vote request.\<close>

definition targetMembers :: "VoteRequest \<Rightarrow> int list" where
  "targetMembers q = [i. (i, m) \<leftarrow> indexedMembers (rq_config q), isVoter m \<and> i \<noteq> rq_candidateIndex q]"

lemma set_indexedMembers: "(i, m) \<in> set (indexedMembers c) \<longleftrightarrow> 0 \<le> i \<and> i < getNumMembers c \<and> m = c_members c ! nat i"
  using set_indexed [of i m "c_members c"] by (simp add: indexedMembers_def indexed_def getNumMembers_def)

lemma targetMembers_filter:
  "targetMembers q = map fst (filter (\<lambda>(i, m). isVoter m \<and> i \<noteq> rq_candidateIndex q) (indexedMembers (rq_config q)))"
  "vote_targets q = map (\<lambda>(i, m). mc_host m) (filter (\<lambda>(i, m). isVoter m \<and> i \<noteq> rq_candidateIndex q) (indexedMembers (rq_config q)))"
proof -
  have "concat (map (\<lambda>(i, m). if P i m then [f i m] else []) xs) = map (\<lambda>(i, m). f i m) (filter (\<lambda>(i, m). P i m) xs)"
    for P and f :: "int \<Rightarrow> MemberConfig \<Rightarrow> 'b" and xs by (induction xs) auto
  then show "targetMembers q = map fst (filter (\<lambda>(i, m). isVoter m \<and> i \<noteq> rq_candidateIndex q) (indexedMembers (rq_config q)))"
    "vote_targets q = map (\<lambda>(i, m). mc_host m) (filter (\<lambda>(i, m). isVoter m \<and> i \<noteq> rq_candidateIndex q) (indexedMembers (rq_config q)))"
    by (auto simp: targetMembers_def vote_targets_def VoteRequester_new_def case_prod_unfold)
qed

lemma targetMembers_props:
  "length (vote_targets q) = length (targetMembers q)" "distinct (targetMembers q)"
  "set (targetMembers q) \<subseteq> voterIndices (rq_config q) - {rq_candidateIndex q}"
proof -
  show "length (vote_targets q) = length (targetMembers q)" by (simp add: targetMembers_filter)
  have "distinct (map fst (indexedMembers (rq_config q)))" by (simp add: indexedMembers_def distinct_map)
  then show "distinct (targetMembers q)" unfolding targetMembers_filter by (rule distinct_map_filter)
  show "set (targetMembers q) \<subseteq> voterIndices (rq_config q) - {rq_candidateIndex q}"
    unfolding targetMembers_filter by (auto simp: set_indexedMembers voterIndices_def)
qed

text \<open>
  The candidate \<open>a\<close> is elected in a term: it has cast its own vote, its round of vote requests
  succeeds, and every yes it counts was sent by that member.
\<close>

definition elected :: "(int \<Rightarrow> Voter) \<Rightarrow> ReplSetConfig \<Rightarrow> Term \<Rightarrow> int \<Rightarrow> bool" where
  "elected vs c trm a \<longleftrightarrow>
     (\<exists>q rs. rq_config q = c \<and> rq_candidateIndex q = a \<and> rq_term q = trm \<and> vote_answers q rs \<and>
        vote_round q rs = Some (Some kSuccessfullyElected) \<and>
        \<lparr>lv_term = trm, lv_candidateIndex = a\<rparr> \<in> vt_cast (vs a) \<and>
        (\<forall>(j, r)\<in>set rs. yes_vote r \<longrightarrow> \<lparr>lv_term = trm, lv_candidateIndex = a\<rparr> \<in> vt_cast (vs (targetMembers q ! j))))"

lemma elected_majority:
  assumes "elected vs c trm a" "a \<in> voterIndices c"
  shows "\<exists>A \<subseteq> voterIndices c. c_majorityVoteCount c \<le> int (card A) \<and>
    (\<forall>i\<in>A. \<lparr>lv_term = trm, lv_candidateIndex = a\<rparr> \<in> vt_cast (vs i))"
proof -
  obtain q rs where q: "rq_config q = c" "rq_candidateIndex q = a" "vote_answers q rs"
    "vote_round q rs = Some (Some kSuccessfullyElected)" "\<lparr>lv_term = trm, lv_candidateIndex = a\<rparr> \<in> vt_cast (vs a)"
    "\<forall>(j, r)\<in>set rs. yes_vote r \<longrightarrow> \<lparr>lv_term = trm, lv_candidateIndex = a\<rparr> \<in> vt_cast (vs (targetMembers q ! j))"
    using assms(1) unfolding elected_def by blast
  obtain us vs' where us: "rs = us @ vs'" "c_majorityVoteCount c \<le> 1 + int (count_if (\<lambda>x. yes_vote (snd x)) us)"
    by (rule vote_round_cases [OF q(3)]) (use q(1,4) in auto)
  let ?yes = "filter (\<lambda>x. yes_vote (snd x)) us"
  let ?Y = "(\<lambda>x. targetMembers q ! fst x) ` set ?yes"
  have d: "distinct (map fst us)" "fst ` set us \<subseteq> {..<length (targetMembers q)}"
    using q(3) us(1) by (auto simp: vote_answers_def targetMembers_props)
  have inj: "inj_on (\<lambda>x. targetMembers q ! fst x) (set ?yes)"
  proof (rule inj_onI)
    fix x y assume xy: "x \<in> set ?yes" "y \<in> set ?yes" "targetMembers q ! fst x = targetMembers q ! fst y"
    have "fst x < length (targetMembers q)" "fst y < length (targetMembers q)" using xy(1,2) d(2) by auto
    then have "fst x = fst y" using nth_eq_iff_index_eq [OF targetMembers_props(2) [of q]] xy(3) by blast
    then show "x = y" using xy(1,2) d(1) by (simp add: distinct_map inj_on_def)
  qed
  have "distinct ?yes" using d(1) by (simp add: distinct_map)
  then have cardY: "card ?Y = count_if (\<lambda>x. yes_vote (snd x)) us"
    using card_image [OF inj] distinct_card [of ?yes] by (simp add: count_if_def)
  have Y: "?Y \<subseteq> voterIndices c - {a}"
  proof
    fix i assume "i \<in> ?Y"
    then obtain x where x: "x \<in> set us" "i = targetMembers q ! fst x" by auto
    then have "fst x < length (targetMembers q)" using d(2) by auto
    then have "i \<in> set (targetMembers q)" using x(2) by simp
    then show "i \<in> voterIndices c - {a}" using targetMembers_props(3) [of q] q(1,2) by blast
  qed
  have "card (insert a ?Y) = Suc (card ?Y)" using Y by (intro card_insert_disjoint) auto
  then have "c_majorityVoteCount c \<le> int (card (insert a ?Y))" using us(2) cardY by simp
  moreover have "\<forall>i\<in>insert a ?Y. \<lparr>lv_term = trm, lv_candidateIndex = a\<rparr> \<in> vt_cast (vs i)" using q(5,6) us(1) by fastforce
  ultimately show ?thesis using Y assms(2) by (intro exI [of _ "insert a ?Y"]) auto
qed

subsection \<open>An example\<close>

text \<open>
  In a set of three, member 1 stands for election in term 1, member 0 grants its vote, and both votes
  are stored.
\<close>

definition demo_voter :: "int \<Rightarrow> Voter" where
  "demo_voter self = \<lparr>vt_node = the (finishLoadLocalConfig demo_config self OpTime_default None 500 (TopologyCoordinator_new demo_options)),
     vt_stored = None, vt_granted = {}, vt_cast = {}\<rparr>"

definition demo_request_votes :: "Term \<Rightarrow> int \<Rightarrow> ReplSetRequestVotesArgs" where
  "demo_request_votes trm cand = \<lparr>va_setName = ''rs0'', va_term = trm, va_candidateIndex = cand, va_cfgver = 1,
     va_lastDurableOpTime = demo_optime, va_dryRun = False\<rparr>"

abbreviation demo_vote :: LastVote where "demo_vote \<equiv> \<lparr>lv_term = 1, lv_candidateIndex = 1\<rparr>"

definition demo_told :: TopologyCoordinator where
  "demo_told = the (tc_run (OpUpdateTerm 1 600) (vt_node (demo_voter 0)))"

definition demo_asked :: TopologyCoordinator where
  "demo_asked = snd (the (processReplSetRequestVotes (demo_request_votes 1 1) OpTime_default demo_told))"

definition demo_stands :: TopologyCoordinator where
  "demo_stands = snd (the (onDryRunComplete 0 kSuccessfullyElected 600 (vt_node (demo_voter 1))))"

definition demo_voters :: "int \<Rightarrow> Voter" where
  "demo_voters i =
     (if i = 2 then demo_voter 2
      else \<lparr>vt_node = (if i = 0 then demo_asked else demo_stands), vt_stored = Some demo_vote, vt_granted = {}, vt_cast = {demo_vote}\<rparr>)"

lemma the_Some: "\<not> Option.is_none x \<Longrightarrow> x = Some (the x)"
  by (cases x) auto

lemma demo_voter_start:
  "voter_start (demo_voter 0)" "voter_start (demo_voter 1)" "voter_start (demo_voter 2)"
proof -
  have pv: "c_protocolVersion demo_config = 1" by code_simp
  have s: "\<not> Option.is_none (finishLoadLocalConfig demo_config i OpTime_default None 500 (TopologyCoordinator_new demo_options)) \<Longrightarrow>
      voter_start (demo_voter i)" for i
    using the_Some pv unfolding voter_start_def started_def demo_voter_def startLoadLocalConfig_def by fastforce
  show "voter_start (demo_voter 0)" "voter_start (demo_voter 1)" "voter_start (demo_voter 2)"
    by (rule s, code_simp)+
qed

lemma stored_vote:
  assumes "voter_step s (v\<lparr>vt_node := t, vt_granted := {lv}\<rparr>)" "vt_stored v = None" "vt_cast v = {}"
  shows "voter_step\<^sup>*\<^sup>* s \<lparr>vt_node = t, vt_stored = Some lv, vt_granted = {}, vt_cast = {lv}\<rparr>"
proof -
  have "voter_step (v\<lparr>vt_node := t, vt_granted := {lv}\<rparr>) \<lparr>vt_node = t, vt_stored = Some lv, vt_granted = {}, vt_cast = {lv}\<rparr>"
    using store [of lv "v\<lparr>vt_node := t, vt_granted := {lv}\<rparr>"] assms(2,3) by (cases v) (simp add: storeLocalLastVoteDocument_def)
  with assms(1) show ?thesis by (meson converse_rtranclp_into_rtranclp r_into_rtranclp)
qed

lemma demo_voters_reachable: "voter_reachable (demo_voters 0)" "voter_reachable (demo_voters 1)" "voter_reachable (demo_voters 2)"
proof -
  let ?v = "demo_voter 0"
  have "tc_run (OpUpdateTerm 1 600) (vt_node ?v) = Some demo_told" unfolding demo_told_def by (rule the_Some) code_simp
  then have 1: "voter_step ?v (?v\<lparr>vt_node := demo_told\<rparr>)" by (rule other) code_simp
  have r: "processReplSetRequestVotes (demo_request_votes 1 1) OpTime_default demo_told =
      Some (\<lparr>vr_term = 1, vr_voteGranted = True\<rparr>, demo_asked)"
  proof -
    have g: "fst (the (processReplSetRequestVotes (demo_request_votes 1 1) OpTime_default demo_told)) = \<lparr>vr_term = 1, vr_voteGranted = True\<rparr>"
      by code_simp
    have "\<not> Option.is_none (processReplSetRequestVotes (demo_request_votes 1 1) OpTime_default demo_told)" by code_simp
    from the_Some [OF this] show ?thesis unfolding demo_asked_def by (metis g prod.collapse)
  qed
  have "va_term (demo_request_votes 1 1) \<le> t_term demo_told" by code_simp
  with r have "voter_step (?v\<lparr>vt_node := demo_told\<rparr>) (?v\<lparr>vt_node := demo_asked, vt_granted := {demo_vote}\<rparr>)"
    using request [of "demo_request_votes 1 1" OpTime_default "?v\<lparr>vt_node := demo_told\<rparr>"]
    by (simp add: demo_request_votes_def demo_voter_def)
  from stored_vote [OF this] have "voter_step\<^sup>*\<^sup>* (?v\<lparr>vt_node := demo_told\<rparr>) (demo_voters 0)"
    by (simp add: demo_voters_def demo_voter_def)
  with 1 show "voter_reachable (demo_voters 0)"
    unfolding voter_reachable_def by (meson converse_rtranclp_into_rtranclp demo_voter_start(1))
  let ?w = "demo_voter 1"
  have o: "onDryRunComplete 0 kSuccessfullyElected 600 (vt_node ?w) = Some (Some demo_vote, demo_stands)"
  proof -
    have g: "fst (the (onDryRunComplete 0 kSuccessfullyElected 600 (vt_node ?w))) = Some demo_vote" by code_simp
    have "\<not> Option.is_none (onDryRunComplete 0 kSuccessfullyElected 600 (vt_node ?w))" by code_simp
    from the_Some [OF this] show ?thesis unfolding demo_stands_def by (metis g prod.collapse)
  qed
  have "vt_granted ?w = {}" by (simp add: demo_voter_def)
  with own [OF o] have "voter_step ?w (?w\<lparr>vt_node := demo_stands, vt_granted := {demo_vote}\<rparr>)" by simp
  from stored_vote [OF this] have "voter_step\<^sup>*\<^sup>* ?w (demo_voters 1)" by (simp add: demo_voters_def demo_voter_def)
  then show "voter_reachable (demo_voters 1)" unfolding voter_reachable_def using demo_voter_start(2) by blast
  show "voter_reachable (demo_voters 2)"
    unfolding voter_reachable_def demo_voters_def using demo_voter_start(3) by auto
qed

section \<open>Properties\<close>

text \<open>Member 0, which has voted for member 1 in term 1, is asked by member 2 in the same term.\<close>

definition demo_refused :: TopologyCoordinator where
  "demo_refused = snd (the (processReplSetRequestVotes (demo_request_votes 1 2) OpTime_default demo_asked))"

text \<open>
  C3: a voter casts at most one vote per term, whatever it does in between: it may crash after it has
  granted a vote and before it has stored it, store votes in any order, or take part in
  reconfigurations. The voter handles a request of a newer term only after it has taken over the term, as every node does that is
  not the leader; what a leader does is the subject of the last property of this theory.
\<close>

theorem one_vote_per_term:
  assumes "voter_reachable v" "a \<in> vt_cast v" "b \<in> vt_cast v" "lv_term a = lv_term b"
  shows "lv_candidateIndex a = lv_candidateIndex b"
  using voter_ok_unique [OF voter_reachable_ok [OF assms(1)] assms(2-4)] by simp

theorem one_vote_per_term_witness:
  "\<exists>v r. voter_reachable v \<and> processReplSetRequestVotes (demo_request_votes 1 2) OpTime_default (vt_node (demo_voters 0)) = Some (r, vt_node v) \<and>
     \<not> vr_voteGranted r \<and> {lv_candidateIndex b |b. b \<in> vt_cast v \<and> lv_term b = 1} = {1}"
proof -
  let ?v = "(demo_voters 0)\<lparr>vt_node := demo_refused\<rparr>"
  have n: "vt_node (demo_voters 0) = demo_asked" by (simp add: demo_voters_def)
  have g: "fst (the (processReplSetRequestVotes (demo_request_votes 1 2) OpTime_default demo_asked)) = \<lparr>vr_term = 1, vr_voteGranted = False\<rparr>"
    "\<not> Option.is_none (processReplSetRequestVotes (demo_request_votes 1 2) OpTime_default demo_asked)"
    "va_term (demo_request_votes 1 2) \<le> t_term demo_asked" by code_simp+
  have r: "processReplSetRequestVotes (demo_request_votes 1 2) OpTime_default demo_asked = Some (\<lparr>vr_term = 1, vr_voteGranted = False\<rparr>, demo_refused)"
    unfolding demo_refused_def using the_Some [OF g(2)] g(1) by (metis prod.collapse)
  have "voter_step (demo_voters 0) ?v"
    using request [of "demo_request_votes 1 2" OpTime_default "demo_voters 0"] r g(3) n by simp
  then have v: "voter_reachable ?v" using demo_voters_reachable(1) by (meson rtranclp.rtrancl_into_rtrancl voter_reachable_def)
  have c: "demo_vote \<in> vt_cast ?v" by (simp add: demo_voters_def)
  have "lv_candidateIndex b = 1" if "b \<in> vt_cast ?v" "lv_term b = 1" for b
    using one_vote_per_term [OF v that(1) c] that(2) by simp
  then have "{lv_candidateIndex b |b. b \<in> vt_cast ?v \<and> lv_term b = 1} = {1}" using c by force
  then show ?thesis using v r n by (intro exI [of _ ?v] exI [of _ "\<lparr>vr_term = 1, vr_voteGranted = False\<rparr>"]) simp
qed

text \<open>
  C2: at most one primary per term. If the voters of a configuration behave as the state machine
  says, two candidates that are elected in one term are the same.
\<close>

theorem one_primary_per_term:
  assumes "majorities_calculated c" "\<forall>i\<in>voterIndices c. voter_reachable (vs i)"
    and "a \<in> voterIndices c" "b \<in> voterIndices c" "elected vs c trm a" "elected vs c trm b"
  shows "a = b"
proof -
  let ?v = "\<lambda>x. \<lparr>lv_term = trm, lv_candidateIndex = x\<rparr>"
  obtain A where A: "A \<subseteq> voterIndices c" "c_majorityVoteCount c \<le> int (card A)" "\<forall>i\<in>A. ?v a \<in> vt_cast (vs i)"
    using elected_majority [OF assms(5,3)] by blast
  obtain B where B: "B \<subseteq> voterIndices c" "c_majorityVoteCount c \<le> int (card B)" "\<forall>i\<in>B. ?v b \<in> vt_cast (vs i)"
    using elected_majority [OF assms(6,4)] by blast
  obtain i where i: "i \<in> A" "i \<in> B" using config_majority.majorities_meet [OF assms(1) A(1) B(1) A(2) B(2)] by blast
  then have "voter_ok (vs i)" using assms(2) A(1) voter_reachable_ok by blast
  moreover have "?v a \<in> vt_cast (vs i)" "?v b \<in> vt_cast (vs i)" using A(3) B(3) i by blast+
  ultimately have "?v a = ?v b" by (rule voter_ok_unique) simp
  then show ?thesis by simp
qed

lemma demo_elected: "elected demo_voters demo_config 1 1"
proof -
  let ?q = "demo_request\<lparr>rq_candidateIndex := 1, rq_term := 1\<rparr>"
  let ?rs = "[(0, Answer \<lparr>vr_term = 1, vr_voteGranted = True\<rparr>)]"
  have 1: "vote_round ?q ?rs = Some (Some kSuccessfullyElected)" by code_simp
  have 2: "targetMembers ?q = [0, 2]" by code_simp
  then have "vote_answers ?q ?rs" by (simp add: vote_answers_def targetMembers_props)
  with 1 2 show ?thesis
    unfolding elected_def
    by (intro exI [of _ ?q] exI [of _ ?rs]) (simp add: demo_voters_def demo_request_def)
qed

theorem one_primary_per_term_witness:
  "{b \<in> voterIndices demo_config. elected demo_voters demo_config 1 b} = {1}"
proof -
  have v: "voterIndices demo_config = {0, 1, 2}"
    by (auto simp: voterIndices_def demo_config_def getNumMembers_def isVoter_def demo_member_def nth_Cons' split: if_splits)
  have m: "majorities_calculated demo_config" by code_simp
  have "\<forall>i\<in>voterIndices demo_config. voter_reachable (demo_voters i)" using demo_voters_reachable v by simp
  from one_primary_per_term [OF m this _ _ demo_elected] show ?thesis using demo_elected v by auto
qed

text \<open>A vote request that fits the configuration of the node and its oplog.\<close>

definition request_fits :: "ReplSetConfig \<Rightarrow> OpTime \<Rightarrow> ReplSetRequestVotesArgs \<Rightarrow> bool" where
  "request_fits c applied args \<longleftrightarrow>
     va_cfgver args = c_version c \<and> va_setName args = c_replSetName c \<and> \<not> va_dryRun args \<and>
     \<not> ot_less (va_lastDurableOpTime args) applied \<and> 0 \<le> va_candidateIndex args \<and> va_candidateIndex args < getNumMembers c"

lemma request_granted:
  assumes ok: "tc_ok t" and self: "t_selfIndex t \<noteq> -1" "\<not> isArbiter (c_members (t_rsConfig t) ! nat (t_selfIndex t))"
    and fits: "request_fits (t_rsConfig t) applied args" and trm: "t_term t \<le> va_term args" "lv_term (t_lastVote t) \<noteq> va_term args"
  shows "processReplSetRequestVotes args applied t =
    Some (\<lparr>vr_term = t_term t, vr_voteGranted = True\<rparr>, t\<lparr>t_lastVote := \<lparr>lv_term = va_term args, lv_candidateIndex = va_candidateIndex args\<rparr>\<rparr>)"
proof -
  have c: "index_ok (t_rsConfig t) (va_candidateIndex args)" "va_candidateIndex args \<noteq> -1"
    using fits by (auto simp: request_fits_def index_ok_def)
  obtain b where "findHealthyPrimaryOfEqualOrGreaterPriority t (va_candidateIndex args) = Some b"
    using findHealthyPrimary_total [OF ok subset_refl] member_nth [OF c]
    by (force simp: findHealthyPrimaryOfEqualOrGreaterPriority_def)
  then show ?thesis
    using fits trm self selfConfig_ok [OF ok self(1)] by (simp add: processReplSetRequestVotes_def request_fits_def)
qed

lemma newer_term_taken:
  assumes ok: "tc_ok t" and v1: "isV1ElectionProtocol t" and n: "t_term t < n"
  shows "\<exists>t'. rc_updateTerm n now t = Some (Some StaleTerm, t') \<and> tc_ok t' \<and> t_rsConfig t' = t_rsConfig t \<and> t_selfIndex t' = t_selfIndex t \<and>
    t_lastVote t' = t_lastVote t \<and> t_role t' \<noteq> RoleLeader \<and> t_term t' = (if t_role t = RoleLeader then t_term t else n)"
proof (cases "t_role t = RoleLeader")
  case True
  let ?t = "prepareForStepDown (t\<lparr>t_electionSleepUntil := now + c_electionTimeoutPeriod (t_rsConfig t)\<rparr>)"
  have u: "updateTerm_incallback n now t = Some (Some kTriggerStepDown, ?t)"
    using v1 n iAmPrimary_ok [of "t\<lparr>t_electionSleepUntil := x\<rparr>" for x] ok True
    by (simp add: updateTerm_incallback_def updateTerm_def)
  have "tc_ok ?t" using ok True by (simp add: prepareForStepDown_def tc_ok_def)
  then obtain b t2 where s: "stepDownIfPending ?t = Some (b, t2)" "tc_ok t2" using stepDownIfPending_ok by blast
  have "t_rsConfig t2 = t_rsConfig t \<and> t_selfIndex t2 = t_selfIndex t \<and> t_lastVote t2 = t_lastVote t \<and> t_role t2 = RoleFollower \<and> t_term t2 = t_term t"
    using s(1) by (auto simp: stepDownIfPending_def stepDownSelfAndReplaceWith_def prepareForStepDown_def bind_eq_Some_conv Let_def
        split: if_splits list.splits)
  then show ?thesis using u s True v1 by (simp add: rc_updateTerm_def)
next
  case False
  have "updateTerm_incallback n now t =
      Some (Some kUpdatedTerm, t\<lparr>t_electionSleepUntil := now + c_electionTimeoutPeriod (t_rsConfig t), t_term := n\<rparr>)"
    using v1 n iAmPrimary_ok [of "t\<lparr>t_electionSleepUntil := x\<rparr>" for x] ok False
    by (simp add: updateTerm_incallback_def updateTerm_def)
  then show ?thesis using False ok v1 by (simp add: rc_updateTerm_def tc_ok_def)
qed

lemma handler_grants:
  assumes "tc_ok t" "isV1ElectionProtocol t" "t_selfIndex t \<noteq> -1" "\<not> isArbiter (c_members (t_rsConfig t) ! nat (t_selfIndex t))"
    and "request_fits (t_rsConfig t) applied args" "t_term t < va_term args" "lv_term (t_lastVote t) \<noteq> va_term args"
  shows "\<exists>r t'. rc_processReplSetRequestVotes args now applied (\<lambda>lv. StatusOK) t =
      Some (StatusOK, Some r, Some \<lparr>lv_term = va_term args, lv_candidateIndex = va_candidateIndex args\<rparr>, t') \<and> vr_voteGranted r \<and>
    tc_ok t' \<and> t_rsConfig t' = t_rsConfig t \<and> t_selfIndex t' = t_selfIndex t \<and> t_role t' \<noteq> RoleLeader \<and>
    lv_term (t_lastVote t') = va_term args \<and> t_term t' = (if t_role t = RoleLeader then t_term t else va_term args)"
proof -
  obtain t1 where t1: "rc_updateTerm (va_term args) now t = Some (Some StaleTerm, t1)" "tc_ok t1" "t_rsConfig t1 = t_rsConfig t"
    "t_selfIndex t1 = t_selfIndex t" "t_lastVote t1 = t_lastVote t" "t_role t1 \<noteq> RoleLeader"
    "t_term t1 = (if t_role t = RoleLeader then t_term t else va_term args)"
    using newer_term_taken [OF assms(1,2,6)] by blast
  have g: "processReplSetRequestVotes args applied t1 = Some (\<lparr>vr_term = t_term t1, vr_voteGranted = True\<rparr>,
      t1\<lparr>t_lastVote := \<lparr>lv_term = va_term args, lv_candidateIndex = va_candidateIndex args\<rparr>\<rparr>)"
    using assms t1 by (intro request_granted) (auto split: if_splits)
  have "tc_ok (t1\<lparr>t_lastVote := lv\<rparr>)" for lv using t1(2) by (simp add: tc_ok_def)
  then show ?thesis using g t1 assms(2,5) by (simp add: rc_processReplSetRequestVotes_def request_fits_def)
qed

text \<open>The votes a node stores and sends while it answers a sequence of requests.\<close>

fun rc_votes :: "Date \<Rightarrow> OpTime \<Rightarrow> ReplSetRequestVotesArgs list \<Rightarrow> TopologyCoordinator \<Rightarrow> LastVote option list option" where
  "rc_votes now applied [] t = Some []"
| "rc_votes now applied (a # as) t =
     do { (st, r, lv, t1) \<leftarrow> rc_processReplSetRequestVotes a now applied (\<lambda>lv. StatusOK) t;
          rest \<leftarrow> rc_votes now applied as t1;
          Some (lv # rest) }"

text \<open>
  C40: a leader votes twice. Any leader of protocol version 1 that is asked for its vote in a newer term, in an older one that is still newer than its own,
  and in the first one again, by requests that fit its configuration and its oplog, grants all three, whoever the candidates are. The
  first request makes it step down without taking over the term, so the second one is not
  stale for it and overwrites the last vote. With different candidates in the first and the third request it has voted twice in one
  term, and in a set of three either vote makes a majority.
\<close>

theorem leader_votes_twice:
  assumes "tc_step\<^sup>*\<^sup>* (TopologyCoordinator_new opts) t" "t_role t = RoleLeader" "isV1ElectionProtocol t"
    and "\<not> isArbiter (c_members (t_rsConfig t) ! nat (t_selfIndex t))" "lv_term (t_lastVote t) \<le> t_term t"
    and "request_fits (t_rsConfig t) applied a" "request_fits (t_rsConfig t) applied b" "request_fits (t_rsConfig t) applied c"
    and "t_term t < va_term b" "va_term b < va_term a" "va_term c = va_term a"
  shows "rc_votes now applied [a, b, c] t =
    Some [Some \<lparr>lv_term = va_term a, lv_candidateIndex = va_candidateIndex a\<rparr>, Some \<lparr>lv_term = va_term b, lv_candidateIndex = va_candidateIndex b\<rparr>,
          Some \<lparr>lv_term = va_term a, lv_candidateIndex = va_candidateIndex c\<rparr>]"
proof -
  have ok: "tc_ok t" "t_selfIndex t \<noteq> -1"
    using reachable_ok assms(1,2) tc_ok_D(6) [of t] by (auto simp: roles_ok_def)
  have v: "isV1ElectionProtocol u" if "t_rsConfig u = t_rsConfig t" for u using assms(3) that by (simp add: isV1ElectionProtocol_def)
  obtain r1 t1 where 1: "rc_processReplSetRequestVotes a now applied (\<lambda>lv. StatusOK) t =
      Some (StatusOK, Some r1, Some \<lparr>lv_term = va_term a, lv_candidateIndex = va_candidateIndex a\<rparr>, t1)"
    "tc_ok t1" "t_rsConfig t1 = t_rsConfig t" "t_selfIndex t1 = t_selfIndex t" "t_role t1 \<noteq> RoleLeader" "lv_term (t_lastVote t1) = va_term a" "t_term t1 = t_term t"
    using handler_grants [OF ok(1) assms(3) ok(2) assms(4,6), of now] assms(2,5,9,10) by auto
  obtain r2 t2 where 2: "rc_processReplSetRequestVotes b now applied (\<lambda>lv. StatusOK) t1 =
      Some (StatusOK, Some r2, Some \<lparr>lv_term = va_term b, lv_candidateIndex = va_candidateIndex b\<rparr>, t2)"
    "tc_ok t2" "t_rsConfig t2 = t_rsConfig t" "t_selfIndex t2 = t_selfIndex t" "t_role t2 \<noteq> RoleLeader" "lv_term (t_lastVote t2) = va_term b" "t_term t2 = va_term b"
    using handler_grants [OF 1(2) v, of applied b now] 1 ok(2) assms(4,7,9,10) by auto
  obtain r3 t3 where 3: "rc_processReplSetRequestVotes c now applied (\<lambda>lv. StatusOK) t2 =
      Some (StatusOK, Some r3, Some \<lparr>lv_term = va_term a, lv_candidateIndex = va_candidateIndex c\<rparr>, t3)"
    using handler_grants [OF 2(2) v, of applied c now] 2 ok(2) assms(4,8,10,11) by auto
  show ?thesis by (simp add: 1(1) 2(1) 3)
qed

theorem leader_votes_twice_witness:
  "rc_votes 2000 demo_optime [demo_request_votes 3 1, demo_request_votes 2 2, demo_request_votes 3 2] (demo_run demo_leader_run) =
     Some [Some \<lparr>lv_term = 3, lv_candidateIndex = 1\<rparr>, Some \<lparr>lv_term = 2, lv_candidateIndex = 2\<rparr>, Some \<lparr>lv_term = 3, lv_candidateIndex = 2\<rparr>]"
proof -
  let ?t = "demo_run demo_leader_run"
  obtain opts where r: "tc_step\<^sup>*\<^sup>* (TopologyCoordinator_new opts) ?t" using demo_leader by blast
  have l: "isV1ElectionProtocol ?t" "\<not> isArbiter (c_members (t_rsConfig ?t) ! nat (t_selfIndex ?t))" "lv_term (t_lastVote ?t) \<le> t_term ?t"
    "t_term ?t = 1" by code_simp+
  have f: "request_fits (t_rsConfig ?t) demo_optime (demo_request_votes 3 1)" "request_fits (t_rsConfig ?t) demo_optime (demo_request_votes 2 2)"
    "request_fits (t_rsConfig ?t) demo_optime (demo_request_votes 3 2)" by code_simp+
  show ?thesis using leader_votes_twice [OF r demo_leader_role l(1-3) f, of 2000] l(4) by (simp add: demo_request_votes_def)
qed

end
