(* ===== verification/ElectionAlgorithms.thy ===== *)
theory ElectionAlgorithms
  imports VoteRequester TopologyInv
begin

text \<open>
  The two phases of an election of protocol version 0, as algorithms of the scatter gather runner:
  the freshness checker asks whether anybody is fresher or would veto, the elect command runner
  collects the votes. The hosts asked are those of members that may be up.
\<close>

section \<open>The freshness checker\<close>

text \<open>What the checker reads of a response: the optime is \<open>None\<close> if it is not a date.\<close>

record FreshAnswer =
  fa_fresher :: bool
  fa_time :: "Timestamp option"
  fa_veto :: bool

datatype ElectionAbortReason = AbortNone | FreshnessTie | FresherNodeFound | QuorumUnreachable

record FreshnessCheckerAlgorithm =
  fc_responsesProcessed :: int
  fc_failedVoterResponses :: int
  fc_lastOpTimeApplied :: Timestamp
  fc_rsConfig :: ReplSetConfig
  fc_selfIndex :: int
  fc_targets :: "HostAndPort list"
  fc_votingTargets :: int
  fc_losableVoters :: int
  fc_myVote :: int
  fc_abortReason :: ElectionAbortReason

record CheckRequest =
  ck_lastOpTimeApplied :: Timestamp
  ck_config :: ReplSetConfig
  ck_selfIndex :: int
  ck_targets :: "HostAndPort list"

definition countVotingTargets :: "ReplSetConfig \<Rightarrow> HostAndPort list \<Rightarrow> int option" where
  "countVotingTargets c targets =
     do { ms \<leftarrow> mapM (findMemberByHostAndPort c) targets;
          Some (int (count_if (\<lambda>m. case m of Some x \<Rightarrow> isVoter x | None \<Rightarrow> False) ms)) }"

definition FreshnessChecker_new :: "CheckRequest \<Rightarrow> FreshnessCheckerAlgorithm option" where
  "FreshnessChecker_new q =
     do { voting \<leftarrow> countVotingTargets (ck_config q) (ck_targets q);
          me \<leftarrow> getMemberAt (ck_config q) (ck_selfIndex q);
          let myVote = (if isVoter me then 1 else 0);
          Some \<lparr>fc_responsesProcessed = 0, fc_failedVoterResponses = 0, fc_lastOpTimeApplied = ck_lastOpTimeApplied q,
                fc_rsConfig = ck_config q, fc_selfIndex = ck_selfIndex q, fc_targets = ck_targets q,
                fc_votingTargets = voting, fc_losableVoters = max 0 (voting + myVote - c_majorityVoteCount (ck_config q)),
                fc_myVote = myVote, fc_abortReason = AbortNone\<rparr> }"

text \<open>The targets of the requests; a request to the node itself is an abort.\<close>

definition requestTargets :: "ReplSetConfig \<Rightarrow> int \<Rightarrow> HostAndPort list \<Rightarrow> HostAndPort list option" where
  "requestTargets c self targets =
     do { me \<leftarrow> getMemberAt c self;
          mapM (\<lambda>h. do { ensure (\<not> hp_eq h (mc_host me)); Some h }) targets }"

definition FreshnessChecker_getRequests :: "FreshnessCheckerAlgorithm \<Rightarrow> (HostAndPort \<times> ReplSetFreshArgs) list option" where
  "FreshnessChecker_getRequests a =
     do { me \<leftarrow> getMemberAt (fc_rsConfig a) (fc_selfIndex a);
          targets \<leftarrow> requestTargets (fc_rsConfig a) (fc_selfIndex a) (fc_targets a);
          Some (map (\<lambda>h. (h, \<lparr>fa_setName = c_replSetName (fc_rsConfig a), fa_id = word_of_int (mc_id me),
                              fa_cfgver = c_version (fc_rsConfig a), fa_opTime = fc_lastOpTimeApplied a\<rparr>)) targets) }"

definition hadTooManyFailedVoterResponses :: "FreshnessCheckerAlgorithm \<Rightarrow> bool" where
  "hadTooManyFailedVoterResponses a \<longleftrightarrow> fc_failedVoterResponses a > fc_losableVoters a"

definition isVotingMember :: "ReplSetConfig \<Rightarrow> HostAndPort \<Rightarrow> bool option" where
  "isVotingMember c h = do { m \<leftarrow> findMemberByHostAndPort c h; x \<leftarrow> m; Some (isVoter x) }"

definition FreshnessChecker_processResponse ::
  "HostAndPort \<Rightarrow> FreshAnswer RemoteResponse \<Rightarrow> FreshnessCheckerAlgorithm \<Rightarrow> FreshnessCheckerAlgorithm option" where
  "FreshnessChecker_processResponse target response a0 =
     do { let a = a0\<lparr>fc_responsesProcessed := fc_responsesProcessed a0 + 1\<rparr>;
          voting \<leftarrow> isVotingMember (fc_rsConfig a) target;
          Some (case response of
              Answer r \<Rightarrow>
                if fa_fresher r then a\<lparr>fc_abortReason := FresherNodeFound\<rparr>
                else (case fa_time r of
                    None \<Rightarrow> a\<lparr>fc_abortReason := FresherNodeFound\<rparr>
                  | Some remoteTime \<Rightarrow>
                      (let a1 = (if remoteTime = fc_lastOpTimeApplied a then a\<lparr>fc_abortReason := FreshnessTie\<rparr> else a) in
                       if ts_less (fc_lastOpTimeApplied a1) remoteTime then a1\<lparr>fc_abortReason := FresherNodeFound\<rparr>
                       else if fa_veto r then a1\<lparr>fc_abortReason := FresherNodeFound\<rparr>
                       else a1))
            | _ \<Rightarrow>
                if voting
                then (let a1 = a\<lparr>fc_failedVoterResponses := fc_failedVoterResponses a + 1\<rparr> in
                      if hadTooManyFailedVoterResponses a1 then a1\<lparr>fc_abortReason := QuorumUnreachable\<rparr> else a1)
                else a) }"

definition FreshnessChecker_hasReceivedSufficientResponses :: "FreshnessCheckerAlgorithm \<Rightarrow> bool" where
  "FreshnessChecker_hasReceivedSufficientResponses a \<longleftrightarrow>
     fc_abortReason a \<noteq> AbortNone \<and> fc_abortReason a \<noteq> FreshnessTie \<or>
     fc_responsesProcessed a = int (length (fc_targets a))"

definition shouldAbortElection :: "FreshnessCheckerAlgorithm \<Rightarrow> ElectionAbortReason" where
  "shouldAbortElection a = fc_abortReason a"

subsection \<open>The contract\<close>

definition check_valid :: "CheckRequest \<Rightarrow> bool" where
  "check_valid q \<longleftrightarrow> 0 \<le> ck_selfIndex q \<and> ck_selfIndex q < getNumMembers (ck_config q) \<and>
     (\<forall>h\<in>set (ck_targets q). findMemberIndexByHostAndPort (ck_config q) h \<noteq> -1)"

definition check_new :: "CheckRequest \<Rightarrow> FreshnessCheckerAlgorithm" where
  "check_new q = the (FreshnessChecker_new q)"

definition failed_response :: "'r RemoteResponse \<Rightarrow> bool" where
  "failed_response resp = (case resp of Answer r \<Rightarrow> False | _ \<Rightarrow> True)"

definition objects :: "Timestamp \<Rightarrow> FreshAnswer RemoteResponse \<Rightarrow> bool" where
  "objects mine resp = (case resp of
     Answer r \<Rightarrow> fa_fresher r \<or> fa_veto r \<or> (case fa_time r of None \<Rightarrow> True | Some x \<Rightarrow> ts_less mine x) | _ \<Rightarrow> False)"

definition ties :: "Timestamp \<Rightarrow> FreshAnswer RemoteResponse \<Rightarrow> bool" where
  "ties mine resp = (case resp of Answer r \<Rightarrow> fa_time r = Some mine | _ \<Rightarrow> False)"

definition votingTarget :: "CheckRequest \<Rightarrow> nat \<Rightarrow> bool" where
  "votingTarget q i = (isVotingMember (ck_config q) (ck_targets q ! i) = Some True)"

definition check_inv :: "CheckRequest \<Rightarrow> (nat \<times> FreshAnswer RemoteResponse) list \<Rightarrow> FreshnessCheckerAlgorithm \<Rightarrow> bool" where
  "check_inv q rs a \<longleftrightarrow>
     fc_rsConfig a = ck_config q \<and> fc_targets a = ck_targets q \<and> fc_lastOpTimeApplied a = ck_lastOpTimeApplied q \<and>
     fc_losableVoters a = fc_losableVoters (check_new q) \<and>
     fc_responsesProcessed a = int (length rs) \<and>
     fc_failedVoterResponses a = int (count_if (\<lambda>(i, r). failed_response r \<and> votingTarget q i) rs) \<and>
     (fc_abortReason a = AbortNone \<or> fc_abortReason a = FreshnessTie \<longrightarrow>
        fc_failedVoterResponses a \<le> fc_losableVoters a \<and> (\<forall>(i, r)\<in>set rs. \<not> objects (ck_lastOpTimeApplied q) r) \<and>
        (fc_abortReason a = FreshnessTie \<longleftrightarrow> (\<exists>(i, r)\<in>set rs. ties (ck_lastOpTimeApplied q) r))) \<and>
     (fc_abortReason a = FresherNodeFound \<longrightarrow> (\<exists>(i, r)\<in>set rs. objects (ck_lastOpTimeApplied q) r)) \<and>
     (fc_abortReason a = QuorumUnreachable \<longrightarrow> fc_losableVoters a < fc_failedVoterResponses a)"

lemma mapM_Some: "(\<And>x. x \<in> set xs \<Longrightarrow> \<exists>y. f x = Some y) \<Longrightarrow> \<exists>ys. mapM f xs = Some ys"
  by (induction xs) force+

lemma findMember_ok:
  "findMemberByHostAndPort c h =
     Some (let i = findMemberIndexByHostAndPort c h in if i = -1 then None else Some (c_members c ! nat i))"
  using index_okD [OF index_by_host [OF refl, THEN conjunct1, of c h]]
  by (auto simp: findMemberByHostAndPort_def getMemberAt_Some)

lemma check_new_ok:
  assumes "check_valid q"
  shows "FreshnessChecker_new q = Some (check_new q)"
proof -
  obtain ms where "mapM (findMemberByHostAndPort (ck_config q)) (ck_targets q) = Some ms"
    using mapM_Some [of "ck_targets q" "findMemberByHostAndPort (ck_config q)"] findMember_ok by blast
  then show ?thesis
    using assms by (simp add: check_new_def FreshnessChecker_new_def countVotingTargets_def check_valid_def getMemberAt_Some
        getNumMembers_def nat_less_iff)
qed

lemma FreshnessChecker_new_fields:
  assumes "FreshnessChecker_new q = Some a"
  shows "fc_rsConfig a = ck_config q" "fc_targets a = ck_targets q"
    "fc_lastOpTimeApplied a = ck_lastOpTimeApplied q" "fc_responsesProcessed a = 0"
    "fc_failedVoterResponses a = 0" "fc_abortReason a = AbortNone" "0 \<le> fc_losableVoters a"
  using assms by (auto simp: FreshnessChecker_new_def bind_eq_Some_conv)

lemmas check_new_fields = FreshnessChecker_new_fields [OF check_new_ok]

lemma check_process:
  assumes v: "check_valid q" and inv: "check_inv q rs a" and ns: "\<not> FreshnessChecker_hasReceivedSufficientResponses a"
    and i: "i < length (ck_targets q)"
  shows "\<exists>a'. FreshnessChecker_processResponse (ck_targets q ! i) r a = Some a' \<and> check_inv q (rs @ [(i, r)]) a'"
proof -
  have st: "fc_abortReason a = AbortNone \<or> fc_abortReason a = FreshnessTie" using ns by (auto simp: FreshnessChecker_hasReceivedSufficientResponses_def)
  have "findMemberIndexByHostAndPort (ck_config q) (ck_targets q ! i) \<noteq> -1" using v i by (auto simp: check_valid_def)
  then obtain b where b: "isVotingMember (ck_config q) (ck_targets q ! i) = Some b" by (simp add: isVotingMember_def findMember_ok)
  have base: "fc_rsConfig a = ck_config q" "fc_targets a = ck_targets q" "fc_lastOpTimeApplied a = ck_lastOpTimeApplied q"
      "fc_losableVoters a = fc_losableVoters (check_new q)" "fc_responsesProcessed a = int (length rs)"
      "fc_failedVoterResponses a = int (count_if (\<lambda>(i, r). failed_response r \<and> votingTarget q i) rs)"
      "fc_failedVoterResponses a \<le> fc_losableVoters a" "\<forall>(i, r)\<in>set rs. \<not> objects (ck_lastOpTimeApplied q) r"
      "fc_abortReason a = FreshnessTie \<longleftrightarrow> (\<exists>(i, r)\<in>set rs. ties (ck_lastOpTimeApplied q) r)"
    using inv st unfolding check_inv_def by blast+
  let ?a = "a\<lparr>fc_responsesProcessed := fc_responsesProcessed a + 1\<rparr>"
  show ?thesis
  proof (cases "failed_response r")
    case False
    then obtain x where Answer: "r = Answer x" by (auto simp: failed_response_def split: sum.splits)
    have n: "check_inv q (rs @ [(i, r)]) (?a\<lparr>fc_abortReason := FresherNodeFound\<rparr>)" if "objects (ck_lastOpTimeApplied q) r"
      using base(1-6) that Answer by (simp add: check_inv_def failed_response_def)
    have ok: "check_inv q (rs @ [(i, r)]) (if ties (ck_lastOpTimeApplied q) r then ?a\<lparr>fc_abortReason := FreshnessTie\<rparr> else ?a)"
      if "\<not> objects (ck_lastOpTimeApplied q) r"
      using base that Answer st by (auto simp: check_inv_def failed_response_def)
    have "FreshnessChecker_processResponse (ck_targets q ! i) r a =
        Some (if objects (ck_lastOpTimeApplied q) r then ?a\<lparr>fc_abortReason := FresherNodeFound\<rparr>
              else if ties (ck_lastOpTimeApplied q) r then ?a\<lparr>fc_abortReason := FreshnessTie\<rparr> else ?a)"
      using b base(1,3) Answer
      by (cases "fa_time x") (simp_all add: FreshnessChecker_processResponse_def objects_def ties_def Let_def)
    then show ?thesis using n ok by simp
  next
    case True
    then have o: "\<not> objects (ck_lastOpTimeApplied q) r" "\<not> ties (ck_lastOpTimeApplied q) r"
      by (auto simp: failed_response_def objects_def ties_def split: sum.splits)
    let ?b = "if b then ?a\<lparr>fc_failedVoterResponses := fc_failedVoterResponses a + 1\<rparr> else ?a"
    have "FreshnessChecker_processResponse (ck_targets q ! i) r a =
        Some (if b \<and> hadTooManyFailedVoterResponses ?b then ?b\<lparr>fc_abortReason := QuorumUnreachable\<rparr> else ?b)"
      using True b base(1) by (auto simp: FreshnessChecker_processResponse_def failed_response_def Let_def split: sum.splits)
    then show ?thesis using base st o True b
      by (cases b) (auto simp: check_inv_def votingTarget_def hadTooManyFailedVoterResponses_def)
  qed
qed

interpretation freshness_checker: scatter_gather_algorithm ck_targets check_new
  "\<lambda>q. FreshnessChecker_processResponse" "\<lambda>q. FreshnessChecker_hasReceivedSufficientResponses" check_valid check_inv
proof
  fix q assume "check_valid q"
  then show "check_inv q [] (check_new q)" using check_new_fields by (simp add: check_inv_def)
next
  fix q rs a assume "check_inv q rs a" "length rs = length (ck_targets q)"
  then show "FreshnessChecker_hasReceivedSufficientResponses a"
    by (simp add: check_inv_def FreshnessChecker_hasReceivedSufficientResponses_def)
qed (rule check_process)

section \<open>The elect command runner\<close>

text \<open>An answer is the vote, or \<open>None\<close> if it is not a 32-bit integer. The sum wraps around.\<close>

record ElectCmdRunnerAlgorithm =
  ec_receivedVotes :: int
  ec_actualResponses :: nat
  ec_sufficientResponsesReceived :: bool
  ec_rsConfig :: ReplSetConfig
  ec_selfIndex :: int
  ec_targets :: "HostAndPort list"
  ec_round :: OID

record ElectRequest =
  el_config :: ReplSetConfig
  el_selfIndex :: int
  el_targets :: "HostAndPort list"
  el_round :: OID

definition ElectCmdRunner_new :: "ElectRequest \<Rightarrow> ElectCmdRunnerAlgorithm option" where
  "ElectCmdRunner_new q =
     do { me \<leftarrow> getMemberAt (el_config q) (el_selfIndex q);
          Some \<lparr>ec_receivedVotes = getNumVotes me, ec_actualResponses = 0, ec_sufficientResponsesReceived = False,
                ec_rsConfig = el_config q, ec_selfIndex = el_selfIndex q, ec_targets = el_targets q, ec_round = el_round q\<rparr> }"

definition ElectCmdRunner_getRequests :: "ElectCmdRunnerAlgorithm \<Rightarrow> (HostAndPort \<times> ReplSetElectArgs) list option" where
  "ElectCmdRunner_getRequests a =
     do { me \<leftarrow> getMemberAt (ec_rsConfig a) (ec_selfIndex a);
          targets \<leftarrow> requestTargets (ec_rsConfig a) (ec_selfIndex a) (ec_targets a);
          Some (map (\<lambda>h. (h, \<lparr>ea_set = c_replSetName (ec_rsConfig a), ea_whoid = mc_id me,
                              ea_cfgver = c_version (ec_rsConfig a), ea_round = ec_round a\<rparr>)) targets) }"

definition ElectCmdRunner_hasReceivedSufficientResponses :: "ElectCmdRunnerAlgorithm \<Rightarrow> bool" where
  "ElectCmdRunner_hasReceivedSufficientResponses a \<longleftrightarrow>
     ec_sufficientResponsesReceived a \<or> ec_receivedVotes a \<ge> c_majorityVoteCount (ec_rsConfig a) \<or>
     ec_receivedVotes a < 0 \<or> ec_actualResponses a = length (ec_targets a)"

definition ElectCmdRunner_processResponse :: "int option StatusWith \<Rightarrow> ElectCmdRunnerAlgorithm \<Rightarrow> ElectCmdRunnerAlgorithm" where
  "ElectCmdRunner_processResponse response a0 =
     (let a = a0\<lparr>ec_actualResponses := ec_actualResponses a0 + 1\<rparr> in
      case response of
        Inl e \<Rightarrow> a
      | Inr None \<Rightarrow> a\<lparr>ec_sufficientResponsesReceived := True\<rparr>
      | Inr (Some vote) \<Rightarrow> a\<lparr>ec_receivedVotes := int32 (ec_receivedVotes a + vote)\<rparr>)"

definition getReceivedVotes :: "ElectCmdRunnerAlgorithm \<Rightarrow> int" where
  "getReceivedVotes a = ec_receivedVotes a"

definition elect_valid :: "ElectRequest \<Rightarrow> bool" where
  "elect_valid q \<longleftrightarrow> 0 \<le> el_selfIndex q \<and> el_selfIndex q < getNumMembers (el_config q)"

definition elect_new :: "ElectRequest \<Rightarrow> ElectCmdRunnerAlgorithm" where
  "elect_new q = the (ElectCmdRunner_new q)"

definition elect_vote :: "int option StatusWith \<Rightarrow> int" where
  "elect_vote resp = (case resp of Inr (Some v) \<Rightarrow> v | _ \<Rightarrow> 0)"

definition elect_inv :: "ElectRequest \<Rightarrow> (nat \<times> int option StatusWith) list \<Rightarrow> ElectCmdRunnerAlgorithm \<Rightarrow> bool" where
  "elect_inv q rs a \<longleftrightarrow>
     ec_rsConfig a = el_config q \<and> ec_targets a = el_targets q \<and> ec_actualResponses a = length rs \<and>
     int32 (ec_receivedVotes a) = int32 (getNumVotes (c_members (el_config q) ! nat (el_selfIndex q)) + sum_list (map (elect_vote \<circ> snd) rs)) \<and>
     ec_receivedVotes a = int32 (ec_receivedVotes a)"

lemma int32_add [simp]: "int32 (int32 a + b) = int32 (a + b)"
proof -
  have "int32 a + b + 2 ^ 31 = (a + 2 ^ 31) mod 2 ^ 32 + b" by (simp only: int32_def)
  then have "(int32 a + b + 2 ^ 31) mod 2 ^ 32 = (a + 2 ^ 31 + b) mod 2 ^ 32" by (simp only: mod_add_left_eq)
  also have "a + 2 ^ 31 + b = a + b + 2 ^ 31" by simp
  finally show ?thesis by (simp only: int32_def [of "int32 a + b"] int32_def [of "a + b"])
qed

lemma int32_idem [simp]: "int32 (int32 a) = int32 a"
  using int32_add [of a 0] by simp

lemma int32_small: "-(2 ^ 31) \<le> a \<Longrightarrow> a < 2 ^ 31 \<Longrightarrow> int32 a = a"
  by (simp add: int32_def)

interpretation elect_runner: scatter_gather_algorithm el_targets elect_new
  "\<lambda>q target response a. Some (ElectCmdRunner_processResponse response a)"
  "\<lambda>q. ElectCmdRunner_hasReceivedSufficientResponses" elect_valid elect_inv
proof
  fix q assume "elect_valid q"
  then have "ElectCmdRunner_new q = Some (elect_new q)"
    by (simp add: elect_new_def ElectCmdRunner_new_def elect_valid_def getMemberAt_Some getNumMembers_def nat_less_iff)
  then show "elect_inv q [] (elect_new q)"
    using \<open>elect_valid q\<close>
    by (auto simp: elect_inv_def elect_new_def ElectCmdRunner_new_def elect_valid_def getMemberAt_Some getNumMembers_def nat_less_iff
        getNumVotes_def int32_def)
next
  fix q rs a i and r :: "int option StatusWith"
  assume "elect_inv q rs a"
  moreover have "int32 (ec_receivedVotes a + v) = int32 (x + v)" if "int32 (ec_receivedVotes a) = int32 x" for x v
    by (metis that int32_add)
  ultimately show "\<exists>a'. Some (ElectCmdRunner_processResponse r a) = Some a' \<and> elect_inv q (rs @ [(i, r)]) a'"
    by (auto simp: elect_inv_def ElectCmdRunner_processResponse_def elect_vote_def add.assoc split: sum.split option.split)
qed (auto simp: elect_inv_def ElectCmdRunner_hasReceivedSufficientResponses_def)

section \<open>Properties\<close>

text \<open>A whole round of either phase.\<close>

definition check_round :: "CheckRequest \<Rightarrow> (nat \<times> FreshAnswer RemoteResponse) list \<Rightarrow> FreshnessCheckerAlgorithm RunnerImpl option" where
  "check_round q rs =
     do { a \<leftarrow> FreshnessChecker_new q;
          ru \<leftarrow> runner_start FreshnessChecker_hasReceivedSufficientResponses (ck_targets q) a;
          runner_run FreshnessChecker_processResponse FreshnessChecker_hasReceivedSufficientResponses (ck_targets q) rs ru }"

definition elect_round :: "ElectRequest \<Rightarrow> (nat \<times> int option StatusWith) list \<Rightarrow> ElectCmdRunnerAlgorithm RunnerImpl option" where
  "elect_round q rs =
     do { a \<leftarrow> ElectCmdRunner_new q;
          ru \<leftarrow> runner_start ElectCmdRunner_hasReceivedSufficientResponses (el_targets q) a;
          runner_run (\<lambda>target response a. Some (ElectCmdRunner_processResponse response a))
            ElectCmdRunner_hasReceivedSufficientResponses (el_targets q) rs ru }"

text \<open>
  How many voters may fail. The voters that were asked answer or fail, so the bound of the checker says that no voter has
  failed, or the voters that answered and this node are still a majority.
\<close>

definition ownVote :: "CheckRequest \<Rightarrow> int" where
  "ownVote q = (if isVoter (c_members (ck_config q) ! nat (ck_selfIndex q)) then 1 else 0)"

definition votersFailed :: "CheckRequest \<Rightarrow> (nat \<times> FreshAnswer RemoteResponse) list \<Rightarrow> int" where
  "votersFailed q rs = int (count_if (\<lambda>(i, r). failed_response r \<and> votingTarget q i) rs)"

definition votersHeard :: "CheckRequest \<Rightarrow> (nat \<times> FreshAnswer RemoteResponse) list \<Rightarrow> int" where
  "votersHeard q rs = int (count_if (\<lambda>(i, r). \<not> failed_response r \<and> votingTarget q i) rs)"

lemma count_if_distinct: "distinct xs \<Longrightarrow> count_if P xs = card {x \<in> set xs. P x}"
  using distinct_card [of "filter P xs"] by (simp add: count_if_def)

lemma mapM_map: "(\<And>x. x \<in> set xs \<Longrightarrow> f x = Some (g x)) \<Longrightarrow> mapM f xs = Some (map g xs)"
  by (induction xs) auto

lemma losableVoters:
  assumes "check_valid q"
  shows "fc_losableVoters (check_new q) =
    max 0 (int (count_if (votingTarget q) [0..<length (ck_targets q)]) + ownVote q - c_majorityVoteCount (ck_config q))"
proof -
  let ?c = "ck_config q" and ?ts = "ck_targets q"
  let ?g = "\<lambda>h. let i = findMemberIndexByHostAndPort ?c h in if i = -1 then None else Some (c_members ?c ! nat i)"
  let ?p = "\<lambda>h. isVotingMember ?c h = Some True"
  have "mapM (findMemberByHostAndPort ?c) ?ts = Some (map ?g ?ts)" by (rule mapM_map) (rule findMember_ok)
  moreover have "(case ?g h of Some x \<Rightarrow> isVoter x | None \<Rightarrow> False) \<longleftrightarrow> ?p h" for h
    by (simp add: isVotingMember_def findMember_ok Let_def)
  ultimately have "countVotingTargets ?c ?ts = Some (int (count_if ?p ?ts))"
    by (simp add: countVotingTargets_def count_if_map)
  moreover have "count_if ?p ?ts = count_if (votingTarget q) [0..<length ?ts]"
    using count_if_map [of ?p "(!) ?ts" "[0..<length ?ts]"] by (simp add: map_nth votingTarget_def [abs_def])
  moreover have "getMemberAt ?c (ck_selfIndex q) = Some (c_members ?c ! nat (ck_selfIndex q))"
    using assms by (simp add: check_valid_def getMemberAt_Some getNumMembers_def nat_less_iff)
  ultimately have "FreshnessChecker_new q \<noteq> None \<and> fc_losableVoters (the (FreshnessChecker_new q)) =
      max 0 (int (count_if (votingTarget q) [0..<length ?ts]) + ownVote q - c_majorityVoteCount ?c)"
    by (simp add: FreshnessChecker_new_def ownVote_def)
  then show ?thesis by (simp add: check_new_def)
qed

lemma enough_voters:
  assumes "check_valid q" "distinct (map fst rs)" "fst ` set rs \<subseteq> {..<length (ck_targets q)}" "length rs = length (ck_targets q)"
  shows "votersFailed q rs \<le> fc_losableVoters (check_new q) \<longleftrightarrow>
    votersFailed q rs = 0 \<or> c_majorityVoteCount (ck_config q) \<le> votersHeard q rs + ownVote q"
proof -
  let ?n = "length (ck_targets q)"
  have "card (fst ` set rs) = ?n" using assms(2,4) by (metis distinct_card length_map list.set_map)
  then have "set (map fst rs) = {..<?n}" using assms(3) by (simp add: card_subset_eq)
  then have "count_if (votingTarget q) (map fst rs) = count_if (votingTarget q) [0..<?n]"
    using assms(2) by (simp add: count_if_distinct atLeast0LessThan)
  moreover have "votersFailed q rs + votersHeard q rs = int (count_if (votingTarget q) (map fst rs))"
    unfolding votersFailed_def votersHeard_def by (induction rs) auto
  ultimately show ?thesis unfolding losableVoters [OF assms(1)] by (auto simp: votersFailed_def)
qed

text \<open>
  C28: the freshness check. Once every target has answered or failed, the check is over. It lets the
  election go on exactly if no answer reports a fresher member, a newer or malformed optime or a veto, no answer has the very optime of this
  node, and no voter failed to answer or the voters that answered are, with this node, still a majority. It reports a
  tie exactly if all that holds but some answer has the same optime. Otherwise it reports that a fresher node was found, only if an answer
  objects, or that no quorum can be reached, only if too many voters failed.
\<close>

theorem freshness_check_decides:
  assumes "check_valid q" "distinct (map fst rs)" "fst ` set rs \<subseteq> {..<length (ck_targets q)}" "length rs = length (ck_targets q)"
  shows "\<exists>ru. check_round q rs = Some ru \<and> \<not> ru_valid ru \<and>
     (let mine = ck_lastOpTimeApplied q; objection = (\<exists>(i, r)\<in>set rs. objects mine r); tie = (\<exists>(i, r)\<in>set rs. ties mine r);
          enough = (votersFailed q rs = 0 \<or> c_majorityVoteCount (ck_config q) \<le> votersHeard q rs + ownVote q) in
      (shouldAbortElection (ru_algorithm ru) = AbortNone \<longleftrightarrow> \<not> objection \<and> enough \<and> \<not> tie) \<and>
      (shouldAbortElection (ru_algorithm ru) = FreshnessTie \<longleftrightarrow> \<not> objection \<and> enough \<and> tie) \<and>
      (shouldAbortElection (ru_algorithm ru) = FresherNodeFound \<longrightarrow> objection) \<and>
      (shouldAbortElection (ru_algorithm ru) = QuorumUnreachable \<longrightarrow> \<not> enough))"
proof -
  have "freshness_checker.answers q rs" using assms(2,3) by (simp add: freshness_checker.answers_def)
  then obtain ru us vs where r:
    "do { ru \<leftarrow> runner_start FreshnessChecker_hasReceivedSufficientResponses (ck_targets q) (check_new q);
          runner_run FreshnessChecker_processResponse FreshnessChecker_hasReceivedSufficientResponses (ck_targets q) rs ru } = Some ru"
    "rs = us @ vs" "check_inv q us (ru_algorithm ru)" "ru_valid ru \<longleftrightarrow> \<not> FreshnessChecker_hasReceivedSufficientResponses (ru_algorithm ru)"
    "\<not> ru_valid ru"
    by (rule freshness_checker.run_completes [OF assms(1)]) (use assms(4) in blast)
  let ?a = "ru_algorithm ru"
  have run: "check_round q rs = Some ru" using r(1) check_new_ok [OF assms(1)] by (simp add: check_round_def)
  have all: "us = rs" if "fc_abortReason ?a \<in> {AbortNone, FreshnessTie}"
    using that r(2-5) assms(4) by (auto simp: FreshnessChecker_hasReceivedSufficientResponses_def check_inv_def)
  have some: "votersFailed q us \<le> votersFailed q rs" using r(2) by (simp add: votersFailed_def)
  have inv: "fc_abortReason ?a \<in> {AbortNone, FreshnessTie} \<Longrightarrow> votersFailed q us \<le> fc_losableVoters (check_new q) \<and>
      (\<forall>(i, r)\<in>set us. \<not> objects (ck_lastOpTimeApplied q) r) \<and>
      (fc_abortReason ?a = FreshnessTie \<longleftrightarrow> (\<exists>(i, r)\<in>set us. ties (ck_lastOpTimeApplied q) r))"
    "fc_abortReason ?a = FresherNodeFound \<Longrightarrow> \<exists>(i, r)\<in>set us. objects (ck_lastOpTimeApplied q) r"
    "fc_abortReason ?a = QuorumUnreachable \<Longrightarrow> fc_losableVoters (check_new q) < votersFailed q us"
    using r(3) unfolding check_inv_def votersFailed_def by simp_all
  have mono: "\<exists>(i, r)\<in>set rs. P r" if "\<exists>(i, r)\<in>set us. P r" for P using that r(2) by auto
  show ?thesis
    unfolding enough_voters [OF assms, symmetric] Let_def shouldAbortElection_def
    using run r(5) inv all some mono [of "objects (ck_lastOpTimeApplied q)"]
    by (intro exI [of _ ru]) (cases "fc_abortReason ?a", simp_all, force+)
qed

definition demo_check :: CheckRequest where
  "demo_check = \<lparr>ck_lastOpTimeApplied = \<lparr>ts_secs = 100, ts_inc = 1\<rparr>, ck_config = demo_config, ck_selfIndex = 0,
     ck_targets = [mc_host (demo_member 1 27018), mc_host (demo_member 2 27019)]\<rparr>"

text \<open>One voter is unreachable and the other one is behind: the election goes on. With both unreachable there is no quorum.\<close>

theorem freshness_check_decides_witness:
  "(\<exists>ru. check_round demo_check [(1, Failed HostUnreachable), (0, Answer \<lparr>fa_fresher = False, fa_time = Some Timestamp_null, fa_veto = False\<rparr>)] = Some ru \<and>
     shouldAbortElection (ru_algorithm ru) = AbortNone) \<and>
   (\<exists>ru. check_round demo_check [(1, Failed HostUnreachable), (0, Failed HostUnreachable)] = Some ru \<and>
     shouldAbortElection (ru_algorithm ru) = QuorumUnreachable)"
proof -
  define good where "good = [(1 :: nat, Failed HostUnreachable), (0, Answer \<lparr>fa_fresher = False, fa_time = Some Timestamp_null, fa_veto = False\<rparr>)]"
  define bad where "bad = [(1 :: nat, Failed HostUnreachable), (0 :: nat, Failed HostUnreachable :: FreshAnswer RemoteResponse)]"
  have v: "check_valid demo_check" by code_simp
  have l: "length (ck_targets demo_check) = 2" "c_majorityVoteCount (ck_config demo_check) = 2" "ownVote demo_check = 1" by code_simp+
  have g: "distinct (map fst good)" "fst ` set good \<subseteq> {..<2}" "length good = 2" "votersFailed demo_check good = 1" "votersHeard demo_check good = 1"
    "\<not> (\<exists>(i, r)\<in>set good. objects (ck_lastOpTimeApplied demo_check) r)" "\<not> (\<exists>(i, r)\<in>set good. ties (ck_lastOpTimeApplied demo_check) r)"
    unfolding good_def by code_simp+
  have b: "distinct (map fst bad)" "fst ` set bad \<subseteq> {..<2}" "length bad = 2" "votersFailed demo_check bad = 2" "votersHeard demo_check bad = 0"
    "\<not> (\<exists>(i, r)\<in>set bad. objects (ck_lastOpTimeApplied demo_check) r)"
    unfolding bad_def by code_simp+
  obtain ru where ru: "check_round demo_check good = Some ru" "shouldAbortElection (ru_algorithm ru) = AbortNone"
    using freshness_check_decides [OF v g(1)] g(2-7) by (auto simp: l Let_def)
  obtain rb where rb: "check_round demo_check bad = Some rb" "shouldAbortElection (ru_algorithm rb) \<notin> {AbortNone, FreshnessTie, FresherNodeFound}"
    using freshness_check_decides [OF v b(1)] b(2-6) by (auto simp: l Let_def)
  then have "shouldAbortElection (ru_algorithm rb) = QuorumUnreachable" by (cases "shouldAbortElection (ru_algorithm rb)") auto
  then show ?thesis using ru rb(1) unfolding good_def bad_def by auto
qed

lemma elect_sum_bounds:
  assumes "\<forall>x\<in>set us. elect_vote (snd x) \<in> {-10000, 0, 1}"
  defines "vs \<equiv> map (elect_vote \<circ> snd) us"
  shows "- 10000 * int (length us) \<le> sum_list vs" "sum_list vs \<le> int (count_if (\<lambda>x. elect_vote (snd x) = 1) us)"
    "(\<exists>x\<in>set us. elect_vote (snd x) = -10000) \<Longrightarrow> sum_list vs \<le> int (length us) - 10000"
    "count_if (\<lambda>x. elect_vote (snd x) = 1) us \<le> length us"
    "\<forall>x\<in>set us. elect_vote (snd x) \<noteq> -10000 \<Longrightarrow> sum_list vs = int (count_if (\<lambda>x. elect_vote (snd x) = 1) us)"
proof -
  have "- 10000 * int (length us) \<le> sum_list vs \<and> sum_list vs \<le> int (count_if (\<lambda>x. elect_vote (snd x) = 1) us) \<and>
    count_if (\<lambda>x. elect_vote (snd x) = 1) us \<le> length us \<and>
    ((\<exists>x\<in>set us. elect_vote (snd x) = -10000) \<longrightarrow> sum_list vs \<le> int (length us) - 10000) \<and>
    ((\<forall>x\<in>set us. elect_vote (snd x) \<noteq> -10000) \<longrightarrow> sum_list vs = int (count_if (\<lambda>x. elect_vote (snd x) = 1) us))"
    using assms(1) unfolding vs_def by (induction us) auto
  then show "- 10000 * int (length us) \<le> sum_list vs" "sum_list vs \<le> int (count_if (\<lambda>x. elect_vote (snd x) = 1) us)"
    "(\<exists>x\<in>set us. elect_vote (snd x) = -10000) \<Longrightarrow> sum_list vs \<le> int (length us) - 10000"
    "count_if (\<lambda>x. elect_vote (snd x) = 1) us \<le> length us"
    "\<forall>x\<in>set us. elect_vote (snd x) \<noteq> -10000 \<Longrightarrow> sum_list vs = int (count_if (\<lambda>x. elect_vote (snd x) = 1) us)" by auto
qed

text \<open>
  C29: an election of protocol version 0 needs a majority and tolerates no veto. If every vote is 1, 0
  or the veto of -10000, the elect command runner reports a majority exactly if none of the responses it
  counted is a veto and the members that voted yes in them, with the candidate's own vote, are a
  majority.
\<close>

theorem elect_needs_majority:
  assumes "elect_valid q" "distinct (map fst rs)" "fst ` set rs \<subseteq> {..<length (el_targets q)}" "length rs = length (el_targets q)"
    and "length (el_targets q) \<le> 50" "0 < c_majorityVoteCount (el_config q)" "\<forall>x\<in>set rs. elect_vote (snd x) \<in> {-10000, 0, 1}"
  shows "\<exists>ru. elect_round q rs = Some ru \<and> \<not> ru_valid ru \<and>
     (let us = take (ec_actualResponses (ru_algorithm ru)) rs in
      c_majorityVoteCount (el_config q) \<le> getReceivedVotes (ru_algorithm ru) \<longleftrightarrow>
        (\<forall>x\<in>set us. elect_vote (snd x) \<noteq> -10000) \<and>
        c_majorityVoteCount (el_config q) \<le>
          getNumVotes (c_members (el_config q) ! nat (el_selfIndex q)) + int (count_if (\<lambda>x. elect_vote (snd x) = 1) us))"
proof -
  have new: "ElectCmdRunner_new q = Some (elect_new q)"
    using assms(1) by (simp add: elect_new_def ElectCmdRunner_new_def elect_valid_def getMemberAt_Some getNumMembers_def nat_less_iff)
  have "elect_runner.answers q rs" using assms(2,3) by (simp add: elect_runner.answers_def)
  then obtain ru us vs where r:
    "do { ru \<leftarrow> runner_start ElectCmdRunner_hasReceivedSufficientResponses (el_targets q) (elect_new q);
          runner_run (\<lambda>target response a. Some (ElectCmdRunner_processResponse response a))
            ElectCmdRunner_hasReceivedSufficientResponses (el_targets q) rs ru } = Some ru"
    "rs = us @ vs" "elect_inv q us (ru_algorithm ru)" "\<not> ru_valid ru"
    by (rule elect_runner.run_completes [OF assms(1)]) (use assms(4) in blast)
  have run: "elect_round q rs = Some ru" using r(1) new by (simp add: elect_round_def)
  let ?own = "getNumVotes (c_members (el_config q) ! nat (el_selfIndex q))" and ?s = "sum_list (map (elect_vote \<circ> snd) us)"
  have us: "\<forall>x\<in>set us. elect_vote (snd x) \<in> {-10000, 0, 1}" "length us \<le> 50" using assms(4,5,7) r(2) by auto
  have tk: "take (ec_actualResponses (ru_algorithm ru)) rs = us" using r(2,3) by (simp add: elect_inv_def)
  note b = elect_sum_bounds [OF us(1)]
  have own: "0 \<le> ?own" "?own \<le> 1" by (auto simp: getNumVotes_def)
  have "getReceivedVotes (ru_algorithm ru) = int32 (?own + ?s)"
    using r(3) unfolding elect_inv_def getReceivedVotes_def by metis
  also have "\<dots> = ?own + ?s" using b(1,2,4) us(2) own by (intro int32_small) auto
  finally have g: "getReceivedVotes (ru_algorithm ru) = ?own + ?s" .
  have "c_majorityVoteCount (el_config q) \<le> ?own + ?s \<longleftrightarrow> (\<forall>x\<in>set us. elect_vote (snd x) \<noteq> -10000) \<and>
      c_majorityVoteCount (el_config q) \<le> ?own + int (count_if (\<lambda>x. elect_vote (snd x) = 1) us)"
  proof (cases "\<forall>x\<in>set us. elect_vote (snd x) \<noteq> -10000")
    case True
    then show ?thesis using b(5) by simp
  next
    case False
    then have "?own + ?s < 0" using b(3) us(2) own by simp
    then show ?thesis using False assms(6) by simp
  qed
  then show ?thesis using run r(4) unfolding Let_def by (intro exI [of _ ru]) (simp only: tk g simp_thms)
qed

definition demo_elect :: ElectRequest where
  "demo_elect = \<lparr>el_config = demo_config, el_selfIndex = 0,
     el_targets = [mc_host (demo_member 1 27018), mc_host (demo_member 2 27019)], el_round = 9\<rparr>"

theorem elect_needs_majority_witness:
  "\<exists>ru. elect_round demo_elect [(0, Inr (Some 1)), (1, Inl HostUnreachable)] = Some ru \<and> \<not> ru_valid ru \<and>
     c_majorityVoteCount demo_config \<le> getReceivedVotes (ru_algorithm ru)"
proof -
  let ?rs = "[(0 :: nat, Inr (Some 1)), (1, Inl HostUnreachable)]"
  have v: "elect_valid demo_elect" by code_simp
  have l: "length (el_targets demo_elect) = 2" "c_majorityVoteCount (el_config demo_elect) = 2" by code_simp+
  have n: "ec_actualResponses (ru_algorithm (the (elect_round demo_elect ?rs))) = 1" by code_simp
  have own: "getNumVotes (c_members (el_config demo_elect) ! nat (el_selfIndex demo_elect)) = 1" by code_simp
  have c: "c_majorityVoteCount demo_config = 2" by code_simp
  show ?thesis
    using elect_needs_majority [OF v, of ?rs] n by (auto simp: l c own elect_vote_def Let_def)
qed

end
