(* ===== verification/QuorumChecker.thy ===== *)
theory QuorumChecker
  imports VoteRequester TopologyInv
begin

text \<open>
  The quorum check before a configuration is initiated or changed, the fourth algorithm of the scatter gather
  runner: every other member of the new configuration gets a heartbeat.
\<close>

text \<open>
  A heartbeat response as the checker sees it: the status of parsing it, its content, and the replica
  set id of the metadata if they parse and carry one.
\<close>

record QuorumAnswer =
  qa_status :: Status
  qa_response :: ReplSetHeartbeatResponse
  qa_replicaSetId :: "nat option"

record QuorumCheckerState =
  qc_rsConfig :: ReplSetConfig
  qc_myIndex :: int
  qc_numResponses :: int
  qc_voters :: "HostAndPort list"
  qc_numElectable :: int
  qc_vetoStatus :: Status
  qc_badResponses :: "(HostAndPort \<times> ErrorCode) list"
  qc_finalStatus :: Status

definition QuorumChecker_hasReceivedSufficientResponses :: "QuorumCheckerState \<Rightarrow> bool" where
  "QuorumChecker_hasReceivedSufficientResponses a \<longleftrightarrow>
     (if qc_vetoStatus a \<noteq> StatusOK \<or> qc_numResponses a = getNumMembers (qc_rsConfig a) then True
      else if c_version (qc_rsConfig a) = 1 then False
      else if qc_numElectable a = 0 then False
      else \<not> int (length (qc_voters a)) < c_majorityVoteCount (qc_rsConfig a))"

definition quorumStatus :: "QuorumCheckerState \<Rightarrow> Status" where
  "quorumStatus a =
     (if qc_vetoStatus a \<noteq> StatusOK then qc_vetoStatus a
      else if c_version (qc_rsConfig a) = 1 \<and> qc_badResponses a \<noteq> [] then Some NodeNotFound
      else if qc_numElectable a = 0 then Some NodeNotFound
      else if int (length (qc_voters a)) < c_majorityVoteCount (qc_rsConfig a) then Some NodeNotFound
      else StatusOK)"

definition onQuorumCheckComplete :: "QuorumCheckerState \<Rightarrow> QuorumCheckerState" where
  "onQuorumCheckComplete a = a\<lparr>qc_finalStatus := quorumStatus a\<rparr>"

definition QuorumChecker_new :: "ReplSetConfig \<Rightarrow> int \<Rightarrow> QuorumCheckerState option" where
  "QuorumChecker_new c myIndex =
     do { ensure (myIndex < getNumMembers c);
          me \<leftarrow> getMemberAt c myIndex;
          let a = \<lparr>qc_rsConfig = c, qc_myIndex = myIndex, qc_numResponses = 1,
                   qc_voters = (if isVoter me then [mc_host me] else []),
                   qc_numElectable = (if isElectable me then 1 else 0), qc_vetoStatus = StatusOK, qc_badResponses = [],
                   qc_finalStatus = Some CallbackCanceled\<rparr>;
          Some (if QuorumChecker_hasReceivedSufficientResponses a then onQuorumCheckComplete a else a) }"

definition otherHosts :: "ReplSetConfig \<Rightarrow> int \<Rightarrow> HostAndPort list" where
  "otherHosts c myIndex = map (\<lambda>(i, m). mc_host m) (filter (\<lambda>(i, m). i \<noteq> myIndex) (indexedMembers c))"

definition QuorumChecker_getRequests :: "QuorumCheckerState \<Rightarrow> HostAndPort list" where
  "QuorumChecker_getRequests a =
     (if QuorumChecker_hasReceivedSufficientResponses a then [] else otherHosts (qc_rsConfig a) (qc_myIndex a))"

text \<open>The end of \<open>_tabulateHeartbeatResponse\<close>: count the member the answer came from.\<close>

definition countAnswer :: "HostAndPort \<Rightarrow> QuorumCheckerState \<Rightarrow> QuorumCheckerState option" where
  "countAnswer target a =
     (case find (\<lambda>m. hp_eq (mc_host m) target) (c_members (qc_rsConfig a)) of
        None \<Rightarrow> None
      | Some m \<Rightarrow>
          Some (a\<lparr>qc_numElectable := qc_numElectable a + (if isElectable m then 1 else 0),
                  qc_voters := (if isVoter m then qc_voters a @ [target] else qc_voters a)\<rparr>))"

text \<open>
  A response that parses. A different replica set id is a veto that does not keep the answer from being
  counted.
\<close>

definition differentSetId :: "ReplSetConfig \<Rightarrow> QuorumAnswer \<Rightarrow> bool" where
  "differentSetId c x \<longleftrightarrow> c_replicaSetId c \<noteq> None \<and> qa_replicaSetId x \<noteq> None \<and> c_replicaSetId c \<noteq> qa_replicaSetId x"

definition tabulateAnswer :: "HostAndPort \<Rightarrow> QuorumAnswer \<Rightarrow> QuorumCheckerState \<Rightarrow> QuorumCheckerState option" where
  "tabulateAnswer target x a =
     (let c = qc_rsConfig a; r = qa_response x in
      if r_setName r \<noteq> [] \<and> r_configVersion r \<ge> c_version c
      then Some (a\<lparr>qc_vetoStatus := Some NewReplicaSetConfigurationIncompatible\<rparr>)
      else (let a1 = (if differentSetId c x then a\<lparr>qc_vetoStatus := Some NewReplicaSetConfigurationIncompatible\<rparr> else a) in
            if c_version c = 1 \<and> r_hasData r then Some (a1\<lparr>qc_vetoStatus := Some CannotInitializeNodeWithData\<rparr>)
            else countAnswer target a1))"

definition tabulateHeartbeatResponse ::
  "HostAndPort \<Rightarrow> QuorumAnswer StatusWith \<Rightarrow> QuorumCheckerState \<Rightarrow> QuorumCheckerState option" where
  "tabulateHeartbeatResponse target response a0 =
     (let a = a0\<lparr>qc_numResponses := qc_numResponses a0 + 1\<rparr> in
      case response of
        Inl e \<Rightarrow> Some (a\<lparr>qc_badResponses := qc_badResponses a @ [(target, e)]\<rparr>)
      | Inr x \<Rightarrow>
          (case qa_status x of
             Some e \<Rightarrow>
               if e = InconsistentReplicaSetNames
               then Some (a\<lparr>qc_vetoStatus := Some NewReplicaSetConfigurationIncompatible\<rparr>)
               else if e \<noteq> InvalidReplicaSetConfig then Some (a\<lparr>qc_badResponses := qc_badResponses a @ [(target, e)]\<rparr>)
               else tabulateAnswer target x a
           | None \<Rightarrow> tabulateAnswer target x a))"

definition QuorumChecker_processResponse ::
  "HostAndPort \<Rightarrow> QuorumAnswer StatusWith \<Rightarrow> QuorumCheckerState \<Rightarrow> QuorumCheckerState option" where
  "QuorumChecker_processResponse target response a0 =
     do { a \<leftarrow> tabulateHeartbeatResponse target response a0;
          Some (if QuorumChecker_hasReceivedSufficientResponses a then onQuorumCheckComplete a else a) }"

section \<open>The contract\<close>

text \<open>What a response means: a veto, a failure, or an affirmative answer.\<close>

datatype Verdict = Veto | Bad | Good

definition verdict :: "ReplSetConfig \<Rightarrow> QuorumAnswer StatusWith \<Rightarrow> Verdict" where
  "verdict c response =
     (case response of
        Inl e \<Rightarrow> Bad
      | Inr x \<Rightarrow>
          if qa_status x = Some InconsistentReplicaSetNames then Veto
          else if qa_status x \<noteq> None \<and> qa_status x \<noteq> Some InvalidReplicaSetConfig then Bad
          else if r_setName (qa_response x) \<noteq> [] \<and> r_configVersion (qa_response x) \<ge> c_version c \<or> differentSetId c x \<or>
                  c_version c = 1 \<and> r_hasData (qa_response x) then Veto
          else Good)"

type_synonym QuorumRequest = "ReplSetConfig \<times> int"

definition quorum_valid :: "QuorumRequest \<Rightarrow> bool" where
  "quorum_valid q \<longleftrightarrow> 0 \<le> snd q \<and> snd q < getNumMembers (fst q)"

definition quorum_new :: "QuorumRequest \<Rightarrow> QuorumCheckerState" where
  "quorum_new q = the (QuorumChecker_new (fst q) (snd q))"

definition quorum_targets :: "QuorumRequest \<Rightarrow> HostAndPort list" where
  "quorum_targets q = QuorumChecker_getRequests (quorum_new q)"

definition memberOf :: "ReplSetConfig \<Rightarrow> HostAndPort \<Rightarrow> MemberConfig option" where
  "memberOf c h = find (\<lambda>m. hp_eq (mc_host m) h) (c_members c)"

text \<open>The members behind the affirmative answers, this node first.\<close>

definition affirmed :: "QuorumRequest \<Rightarrow> (nat \<times> QuorumAnswer StatusWith) list \<Rightarrow> MemberConfig list" where
  "affirmed q rs = c_members (fst q) ! nat (snd q) #
     [m. (i, r) \<leftarrow> rs, verdict (fst q) r = Good, m \<leftarrow> (case memberOf (fst q) (quorum_targets q ! i) of Some m \<Rightarrow> [m] | None \<Rightarrow> [])]"

definition quorum_inv :: "QuorumRequest \<Rightarrow> (nat \<times> QuorumAnswer StatusWith) list \<Rightarrow> QuorumCheckerState \<Rightarrow> bool" where
  "quorum_inv q rs a \<longleftrightarrow>
     qc_rsConfig a = fst q \<and> qc_numResponses a = 1 + int (length rs) \<and>
     (qc_vetoStatus a = StatusOK \<longleftrightarrow> (\<forall>(i, r)\<in>set rs. verdict (fst q) r \<noteq> Veto)) \<and>
     (qc_badResponses a = [] \<longleftrightarrow> (\<forall>(i, r)\<in>set rs. verdict (fst q) r \<noteq> Bad)) \<and>
     (qc_vetoStatus a = StatusOK \<longrightarrow>
        length (qc_voters a) = count_if isVoter (affirmed q rs) \<and>
        qc_numElectable a = int (count_if isElectable (affirmed q rs))) \<and>
     qc_finalStatus a = (if QuorumChecker_hasReceivedSufficientResponses a then quorumStatus a else Some CallbackCanceled)"

lemma quorum_new_ok:
  assumes "quorum_valid q"
  shows "QuorumChecker_new (fst q) (snd q) = Some (quorum_new q)" "quorum_inv q [] (quorum_new q)"
    "qc_myIndex (quorum_new q) = snd q"
proof -
  let ?m = "c_members (fst q) ! nat (snd q)"
  have m: "getMemberAt (fst q) (snd q) = Some ?m"
    using assms by (simp add: quorum_valid_def getMemberAt_Some getNumMembers_def nat_less_iff)
  show eq: "QuorumChecker_new (fst q) (snd q) = Some (quorum_new q)"
    using assms m by (simp add: quorum_new_def QuorumChecker_new_def quorum_valid_def)
  show "quorum_inv q [] (quorum_new q)" "qc_myIndex (quorum_new q) = snd q"
    using assms m
    by (auto simp: quorum_new_def QuorumChecker_new_def quorum_valid_def quorum_inv_def affirmed_def onQuorumCheckComplete_def
        QuorumChecker_hasReceivedSufficientResponses_def quorumStatus_def)
qed

lemma affirmed_snoc:
  "affirmed q (rs @ [(i, r)]) = affirmed q rs @
     (if verdict (fst q) r = Good then (case memberOf (fst q) (quorum_targets q ! i) of Some m \<Rightarrow> [m] | None \<Rightarrow> []) else [])"
  by (simp add: affirmed_def)

lemma target_member:
  assumes "quorum_valid q" "i < length (quorum_targets q)"
  shows "\<exists>m. memberOf (fst q) (quorum_targets q ! i) = Some m"
proof -
  let ?h = "quorum_targets q ! i"
  have "?h \<in> set (quorum_targets q)" using assms(2) by simp
  then have "?h \<in> set (otherHosts (fst q) (snd q))"
    using quorum_new_ok [OF assms(1)]
    by (auto simp: quorum_targets_def QuorumChecker_getRequests_def quorum_inv_def split: if_splits)
  then obtain m where m: "m \<in> set (c_members (fst q))" "?h = mc_host m"
    by (auto simp: otherHosts_def indexedMembers_def dest: set_zip_rightD)
  show ?thesis
  proof (cases "memberOf (fst q) ?h")
    case None
    then show ?thesis using m by (auto simp: memberOf_def find_None_iff hp_eq_def)
  qed blast
qed

lemma quorum_sufficient_complete [simp]:
  "QuorumChecker_hasReceivedSufficientResponses (onQuorumCheckComplete a) = QuorumChecker_hasReceivedSufficientResponses a"
  "quorumStatus (onQuorumCheckComplete a) = quorumStatus a"
  by (simp_all add: onQuorumCheckComplete_def QuorumChecker_hasReceivedSufficientResponses_def quorumStatus_def)

text \<open>What tabulating a response changes, by its verdict.\<close>

lemma tabulate_outcome:
  assumes "memberOf (qc_rsConfig a) target = Some m"
  shows "\<exists>a'. tabulateHeartbeatResponse target r a = Some a' \<and> qc_rsConfig a' = qc_rsConfig a \<and>
     qc_numResponses a' = qc_numResponses a + 1 \<and> qc_finalStatus a' = qc_finalStatus a \<and>
     (qc_badResponses a' = [] \<longleftrightarrow> qc_badResponses a = [] \<and> verdict (qc_rsConfig a) r \<noteq> Bad) \<and>
     (verdict (qc_rsConfig a) r = Veto \<longrightarrow> qc_vetoStatus a' \<noteq> StatusOK) \<and>
     (verdict (qc_rsConfig a) r \<noteq> Veto \<longrightarrow> qc_vetoStatus a' = qc_vetoStatus a \<and>
        length (qc_voters a') = length (qc_voters a) + (if verdict (qc_rsConfig a) r = Good \<and> isVoter m then 1 else 0) \<and>
        qc_numElectable a' = qc_numElectable a + (if verdict (qc_rsConfig a) r = Good \<and> isElectable m then 1 else 0))"
proof -
  have count: "countAnswer target b =
      Some (b\<lparr>qc_numElectable := qc_numElectable b + (if isElectable m then 1 else 0),
              qc_voters := (if isVoter m then qc_voters b @ [target] else qc_voters b)\<rparr>)"
    if "qc_rsConfig b = qc_rsConfig a" for b
    using assms that by (simp add: countAnswer_def memberOf_def)
  show ?thesis
  proof (cases r)
    case (Inl e)
    then show ?thesis by (simp add: tabulateHeartbeatResponse_def verdict_def)
  next
    case (Inr x)
    show ?thesis
    proof (cases "qa_status x = None \<or> qa_status x = Some InvalidReplicaSetConfig")
      case True
      then have "tabulateHeartbeatResponse target r a = tabulateAnswer target x (a\<lparr>qc_numResponses := qc_numResponses a + 1\<rparr>)"
        by (auto simp: Inr tabulateHeartbeatResponse_def)
      then show ?thesis using True by (auto simp: Inr tabulateAnswer_def verdict_def count)
    next
      case False
      then show ?thesis by (auto simp: Inr tabulateHeartbeatResponse_def verdict_def)
    qed
  qed
qed

lemma quorum_process:
  assumes v: "quorum_valid q" and inv: "quorum_inv q rs a" and i: "i < length (quorum_targets q)"
    and ns: "\<not> QuorumChecker_hasReceivedSufficientResponses a"
  shows "\<exists>a'. QuorumChecker_processResponse (quorum_targets q ! i) r a = Some a' \<and> quorum_inv q (rs @ [(i, r)]) a'"
proof -
  obtain m where m: "memberOf (fst q) (quorum_targets q ! i) = Some m" using target_member [OF v i] by blast
  have "qc_vetoStatus a = StatusOK"
    by (rule ccontr) (use ns in \<open>simp add: QuorumChecker_hasReceivedSufficientResponses_def\<close>)
  then have a: "qc_rsConfig a = fst q" "qc_vetoStatus a = StatusOK" "qc_finalStatus a = Some CallbackCanceled"
    using inv ns by (simp_all add: quorum_inv_def)
  obtain a1 where a1: "tabulateHeartbeatResponse (quorum_targets q ! i) r a = Some a1" "qc_rsConfig a1 = fst q"
    "qc_numResponses a1 = qc_numResponses a + 1" "qc_finalStatus a1 = Some CallbackCanceled"
    "qc_badResponses a1 = [] \<longleftrightarrow> qc_badResponses a = [] \<and> verdict (fst q) r \<noteq> Bad"
    "verdict (fst q) r = Veto \<longrightarrow> qc_vetoStatus a1 \<noteq> StatusOK"
    "verdict (fst q) r \<noteq> Veto \<longrightarrow> qc_vetoStatus a1 = StatusOK \<and>
        length (qc_voters a1) = length (qc_voters a) + (if verdict (fst q) r = Good \<and> isVoter m then 1 else 0) \<and>
        qc_numElectable a1 = qc_numElectable a + (if verdict (fst q) r = Good \<and> isElectable m then 1 else 0)"
    using tabulate_outcome [of a "quorum_targets q ! i" m r] m a by auto
  let ?a2 = "if QuorumChecker_hasReceivedSufficientResponses a1 then onQuorumCheckComplete a1 else a1"
  have f: "qc_rsConfig ?a2 = fst q" "qc_numResponses ?a2 = qc_numResponses a1" "qc_vetoStatus ?a2 = qc_vetoStatus a1"
    "qc_badResponses ?a2 = qc_badResponses a1" "qc_voters ?a2 = qc_voters a1" "qc_numElectable ?a2 = qc_numElectable a1"
    "qc_finalStatus ?a2 = (if QuorumChecker_hasReceivedSufficientResponses ?a2 then quorumStatus ?a2 else Some CallbackCanceled)"
    using a1(2,4) by (simp_all add: onQuorumCheckComplete_def)
      (simp_all add: QuorumChecker_hasReceivedSufficientResponses_def quorumStatus_def)
  have "qc_numResponses a1 = 1 + int (length (rs @ [(i, r)]))" using inv a1(3) by (simp add: quorum_inv_def)
  moreover have "qc_vetoStatus a1 = StatusOK \<longleftrightarrow> (\<forall>(i, r)\<in>set (rs @ [(i, r)]). verdict (fst q) r \<noteq> Veto)"
    using inv a(2) a1(6,7) by (auto simp: quorum_inv_def)
  moreover have "qc_badResponses a1 = [] \<longleftrightarrow> (\<forall>(i, r)\<in>set (rs @ [(i, r)]). verdict (fst q) r \<noteq> Bad)"
    using inv a1(5) by (auto simp: quorum_inv_def)
  moreover have "qc_vetoStatus a1 = StatusOK \<longrightarrow> length (qc_voters a1) = count_if isVoter (affirmed q (rs @ [(i, r)])) \<and>
      qc_numElectable a1 = int (count_if isElectable (affirmed q (rs @ [(i, r)])))"
  proof -
    have c: "length (qc_voters a) = count_if isVoter (affirmed q rs)" "qc_numElectable a = int (count_if isElectable (affirmed q rs))"
      using inv a(2) by (simp_all add: quorum_inv_def)
    show ?thesis
      by (cases "verdict (fst q) r") (use a1(6,7) m in \<open>auto simp: affirmed_snoc c\<close>)
  qed
  ultimately have "quorum_inv q (rs @ [(i, r)]) ?a2" using f by (simp only: quorum_inv_def)
  then show ?thesis using a1(1) by (simp add: QuorumChecker_processResponse_def)
qed

lemma others_length:
  assumes "0 \<le> k \<and> k < getNumMembers c"
  shows "length (filter (\<lambda>(i, m). i \<noteq> k) (indexedMembers c)) = length (c_members c) - 1"
proof -
  let ?is = "map int [0..<length (c_members c)]"
  have "length xs = length ys \<Longrightarrow> length (filter (\<lambda>(i, m). i \<noteq> k) (zip xs ys)) = length (filter (\<lambda>i. i \<noteq> k) xs)" for xs and ys :: "MemberConfig list"
    by (induction xs ys rule: list_induct2) auto
  then have "length (filter (\<lambda>(i, m). i \<noteq> k) (indexedMembers c)) = length (filter (\<lambda>i. i \<noteq> k) ?is)" by (simp add: indexedMembers_def)
  also have "filter (\<lambda>i. i \<noteq> k) ?is = removeAll k ?is" unfolding removeAll_filter_not_eq by (rule filter_cong) auto
  also have "\<dots> = remove1 k ?is" by (simp add: distinct_remove1_removeAll distinct_map)
  also have "length \<dots> = length (c_members c) - 1"
  proof -
    have "k = int (nat k)" "nat k < length (c_members c)" using assms by (auto simp: getNumMembers_def)
    then have "k \<in> set ?is" by (metis atLeast0LessThan imageI lessThan_iff list.set_map set_upt)
    then show ?thesis by (simp add: length_remove1)
  qed
  finally show ?thesis .
qed

lemma quorumStatus_OK:
  "quorumStatus a = StatusOK \<longleftrightarrow> qc_vetoStatus a = StatusOK \<and> (c_version (qc_rsConfig a) = 1 \<longrightarrow> qc_badResponses a = []) \<and>
     qc_numElectable a \<noteq> 0 \<and> c_majorityVoteCount (qc_rsConfig a) \<le> int (length (qc_voters a))"
  by (auto simp: quorumStatus_def)

lemma quorum_inv_sufficient:
  assumes "quorum_inv q rs a" "quorum_inv q rs b"
  shows "QuorumChecker_hasReceivedSufficientResponses a = QuorumChecker_hasReceivedSufficientResponses b"
proof -
  have "qc_rsConfig a = qc_rsConfig b" "qc_numResponses a = qc_numResponses b"
    "qc_vetoStatus a = StatusOK \<longleftrightarrow> qc_vetoStatus b = StatusOK"
    "qc_vetoStatus a = StatusOK \<longrightarrow> length (qc_voters a) = length (qc_voters b) \<and> qc_numElectable a = qc_numElectable b"
    using assms unfolding quorum_inv_def by simp_all
  then show ?thesis
    unfolding QuorumChecker_hasReceivedSufficientResponses_def by (cases "qc_vetoStatus a = StatusOK") simp_all
qed

interpretation quorum_check: scatter_gather_algorithm quorum_targets quorum_new
  "\<lambda>q. QuorumChecker_processResponse" "\<lambda>q. QuorumChecker_hasReceivedSufficientResponses" quorum_valid quorum_inv
proof
  fix q rs a assume v: "quorum_valid q" and inv: "quorum_inv q rs a" and l: "length rs = length (quorum_targets q)"
  show "QuorumChecker_hasReceivedSufficientResponses a"
  proof (cases "QuorumChecker_hasReceivedSufficientResponses (quorum_new q)")
    case True
    then have "rs = []" using l by (simp add: quorum_targets_def QuorumChecker_getRequests_def)
    then show ?thesis using True quorum_inv_sufficient [OF _ quorum_new_ok(2) [OF v]] inv by blast
  next
    case False
    have "length (filter (\<lambda>(i, m). i \<noteq> snd q) (indexedMembers (fst q))) = length (c_members (fst q)) - 1"
      using v by (intro others_length) (simp add: quorum_valid_def)
    then have "length rs = length (c_members (fst q)) - 1"
      using l False quorum_new_ok(2,3) [OF v] by (simp add: quorum_targets_def QuorumChecker_getRequests_def otherHosts_def quorum_inv_def)
    moreover have "0 < length (c_members (fst q))" using v by (auto simp: quorum_valid_def getNumMembers_def)
    ultimately have "1 + int (length rs) = int (length (c_members (fst q)))" by linarith
    then have "qc_numResponses a = getNumMembers (qc_rsConfig a)"
      using inv by (simp add: quorum_inv_def getNumMembers_def)
    then show ?thesis by (simp add: QuorumChecker_hasReceivedSufficientResponses_def)
  qed
qed (use quorum_new_ok(2) quorum_process in blast)+

section \<open>Properties\<close>

definition checkQuorum :: "QuorumRequest \<Rightarrow> (nat \<times> QuorumAnswer StatusWith) list \<Rightarrow> QuorumCheckerState RunnerImpl option" where
  "checkQuorum q rs =
     do { a \<leftarrow> QuorumChecker_new (fst q) (snd q);
          ru \<leftarrow> runner_start QuorumChecker_hasReceivedSufficientResponses (QuorumChecker_getRequests a) a;
          runner_run QuorumChecker_processResponse QuorumChecker_hasReceivedSufficientResponses (QuorumChecker_getRequests a) rs ru }"

text \<open>
  C21: the quorum check. Once every other member has answered or failed, the check is over, and its result
  is determined by the responses it counted, those it listened to before it had enough: the
  configuration is accepted exactly if none of them is a veto, a majority of the voters and an
  electable member affirm it, this node counted in, and, for an initial configuration, none of them is
  a failure.
\<close>

theorem quorum_check_decides:
  assumes "quorum_valid q" "distinct (map fst rs)" "fst ` set rs \<subseteq> {..<length (quorum_targets q)}"
    and "length rs = length (quorum_targets q)"
  shows "\<exists>ru. checkQuorum q rs = Some ru \<and> \<not> ru_valid ru \<and>
     (let us = take (nat (qc_numResponses (ru_algorithm ru) - 1)) rs in
      qc_finalStatus (ru_algorithm ru) = StatusOK \<longleftrightarrow>
        (\<forall>(i, r)\<in>set us. verdict (fst q) r \<noteq> Veto) \<and>
        (c_version (fst q) = 1 \<longrightarrow> (\<forall>(i, r)\<in>set us. verdict (fst q) r \<noteq> Bad)) \<and>
        (\<exists>m\<in>set (affirmed q us). isElectable m) \<and>
        c_majorityVoteCount (fst q) \<le> int (count_if isVoter (affirmed q us)))"
proof -
  have "quorum_check.answers q rs" using assms(2,3) by (simp add: quorum_check.answers_def)
  then obtain ru us vs where r:
    "do { ru \<leftarrow> runner_start QuorumChecker_hasReceivedSufficientResponses (quorum_targets q) (quorum_new q);
          runner_run QuorumChecker_processResponse QuorumChecker_hasReceivedSufficientResponses (quorum_targets q) rs ru } = Some ru"
    "rs = us @ vs" "quorum_inv q us (ru_algorithm ru)"
    "ru_valid ru \<longleftrightarrow> \<not> QuorumChecker_hasReceivedSufficientResponses (ru_algorithm ru)" "\<not> ru_valid ru"
    by (rule quorum_check.run_completes [OF assms(1)]) (use assms(4) in blast)
  have run: "checkQuorum q rs = Some ru"
    using r(1) quorum_new_ok(1) [OF assms(1)] by (simp add: checkQuorum_def quorum_targets_def)
  have fin: "qc_finalStatus (ru_algorithm ru) = quorumStatus (ru_algorithm ru)" using r(3,4,5) by (simp add: quorum_inv_def)
  have us: "take (nat (qc_numResponses (ru_algorithm ru) - 1)) rs = us" using r(2,3) by (simp add: quorum_inv_def)
  have "quorumStatus (ru_algorithm ru) = StatusOK \<longleftrightarrow>
        (\<forall>(i, r)\<in>set us. verdict (fst q) r \<noteq> Veto) \<and>
        (c_version (fst q) = 1 \<longrightarrow> (\<forall>(i, r)\<in>set us. verdict (fst q) r \<noteq> Bad)) \<and>
        (\<exists>m\<in>set (affirmed q us). isElectable m) \<and>
        c_majorityVoteCount (fst q) \<le> int (count_if isVoter (affirmed q us))"
  proof -
    have e: "qc_numElectable (ru_algorithm ru) \<noteq> 0 \<longleftrightarrow> (\<exists>m\<in>set (affirmed q us). isElectable m)"
      if "qc_numElectable (ru_algorithm ru) = int (count_if isElectable (affirmed q us))"
      using that count_if_zero [of isElectable "affirmed q us"] by simp
    show ?thesis using r(3) e unfolding quorum_inv_def quorumStatus_OK by metis
  qed
  then show ?thesis using run r(5) unfolding Let_def by (intro exI [of _ ru]) (simp only: us fin simp_thms)
qed

definition demo_affirm :: "QuorumAnswer StatusWith" where
  "demo_affirm = Inr \<lparr>qa_status = None, qa_response = ReplSetHeartbeatResponse_default\<lparr>r_setName := ''rs0'', r_configVersion := 1\<rparr>,
     qa_replicaSetId = None\<rparr>"

theorem quorum_check_decides_witness:
  "\<exists>ru. checkQuorum (demo_config\<lparr>c_version := 2\<rparr>, 0) [(1, demo_affirm), (0, Inl HostUnreachable)] = Some ru \<and>
     \<not> ru_valid ru \<and> qc_finalStatus (ru_algorithm ru) = StatusOK"
proof -
  let ?q = "(demo_config\<lparr>c_version := 2\<rparr>, 0)" and ?rs = "[(1 :: nat, demo_affirm), (0, Inl HostUnreachable)]"
  have v: "quorum_valid ?q" by code_simp
  have l: "length (quorum_targets ?q) = 2" by code_simp
  have n: "nat (qc_numResponses (ru_algorithm (the (checkQuorum ?q ?rs))) - 1) = 1" by code_simp
  have p: "(\<forall>(i, r)\<in>set (take 1 ?rs). verdict (fst ?q) r \<noteq> Veto) \<and> c_version (fst ?q) \<noteq> 1 \<and>
      (\<exists>m\<in>set (affirmed ?q (take 1 ?rs)). isElectable m) \<and>
      c_majorityVoteCount (fst ?q) \<le> int (count_if isVoter (affirmed ?q (take 1 ?rs)))" by code_simp
  have d: "distinct (map fst ?rs)" "fst ` set ?rs \<subseteq> {..<length (quorum_targets ?q)}"
    "length ?rs = length (quorum_targets ?q)" by (simp_all add: l)
  show ?thesis using quorum_check_decides [OF v d] n p unfolding Let_def by (metis option.sel)
qed

end
