(* ===== verification/ReplElectV0.thy ===== *)
theory ReplElectV0
  imports ElectionAlgorithms ReplElectV1
begin

text \<open>
  Elections of protocol version 0 as the replication coordinator runs them: the freshness check, the vote for
  itself, the elect commands and the result. The random delay after a tie or a lost election, the
  time, and whether the phase was cancelled are arguments; a phase also returns when to try again.
\<close>

definition startElectSelf :: "bool \<Rightarrow> OpTime \<Rightarrow> TopologyCoordinator \<Rightarrow> (CheckRequest option \<times> TopologyCoordinator) option" where
  "startElectSelf steady lastOpTimeApplied t =
     (if \<not> steady then loseElection t
      else do {
        me \<leftarrow> getMemberAt (t_rsConfig t) (t_selfIndex t);
        ensure (isElectable me);
        if ot_isNull lastOpTimeApplied then loseElection t
        else do {
          targets \<leftarrow> getMaybeUpHostAndPorts t;
          Some (Some \<lparr>ck_lastOpTimeApplied = ot_timestamp lastOpTimeApplied, ck_config = t_rsConfig t,
                      ck_selfIndex = t_selfIndex t, ck_targets = targets\<rparr>, t) } })"

record ElectionPhase =
  ep_next :: "ElectRequest option"
  ep_sleptLastElection :: bool
  ep_recoverAt :: "Date option"

definition lostPhase :: "bool \<Rightarrow> Date option \<Rightarrow> TopologyCoordinator \<Rightarrow> (ElectionPhase \<times> TopologyCoordinator) option" where
  "lostPhase slept retry t =
     do { t1 \<leftarrow> processLoseElection t; Some (\<lparr>ep_next = None, ep_sleptLastElection = slept, ep_recoverAt = retry\<rparr>, t1) }"

text \<open>The part after the switch: vote for itself, then ask the others.\<close>

definition runForElection :: "bool \<Rightarrow> Date \<Rightarrow> OID \<Rightarrow> TopologyCoordinator \<Rightarrow> (ElectionPhase \<times> TopologyCoordinator) option" where
  "runForElection slept now electRound t =
     do { (voted, t1) \<leftarrow> voteForMyself now t;
          if \<not> voted then lostPhase slept None t1
          else do {
            targets \<leftarrow> getMaybeUpHostAndPorts t1;
            Some (\<lparr>ep_next = Some \<lparr>el_config = t_rsConfig t1, el_selfIndex = t_selfIndex t1, el_targets = targets, el_round = electRound\<rparr>,
                   ep_sleptLastElection = slept, ep_recoverAt = None\<rparr>, t1) } }"

definition onFreshnessCheckComplete ::
  "bool \<Rightarrow> ElectionAbortReason \<Rightarrow> bool \<Rightarrow> Date \<Rightarrow> Millis \<Rightarrow> OID \<Rightarrow> TopologyCoordinator \<Rightarrow> (ElectionPhase \<times> TopologyCoordinator) option" where
  "onFreshnessCheckComplete canceled abortReason slept now random electRound t =
     (if canceled then lostPhase slept None t
      else case abortReason of
          AbortNone \<Rightarrow> runForElection slept now electRound t
        | FreshnessTie \<Rightarrow>
            if t_selfIndex t \<noteq> 0 \<and> \<not> slept
            then (let nextCandidateTime = now + (random + 50) in
                  lostPhase True (Some nextCandidateTime) (setElectionSleepUntil nextCandidateTime t))
            else runForElection False now electRound t
        | _ \<Rightarrow> lostPhase slept None t)"

definition onElectCmdRunnerComplete ::
  "bool \<Rightarrow> int \<Rightarrow> int \<Rightarrow> Date \<Rightarrow> Millis \<Rightarrow> OID \<Rightarrow> Timestamp \<Rightarrow> TopologyCoordinator \<Rightarrow> (Date option \<times> TopologyCoordinator) option" where
  "onElectCmdRunnerComplete canceled receivedVotes originalConfigVersion now random electionId electionOpTime t =
     (if canceled then loseElection t
      else if receivedVotes < c_majorityVoteCount (t_rsConfig t)
      then (let nextCandidateTime = now + (random + 50) in
            do { t1 \<leftarrow> processLoseElection (setElectionSleepUntil nextCandidateTime t); Some (Some nextCandidateTime, t1) })
      else if c_version (t_rsConfig t) \<noteq> originalConfigVersion then loseElection t
      else do { t1 \<leftarrow> processWinElection electionId electionOpTime t; Some (None, t1) })"

definition recoverFromElectionTie ::
  "Date \<Rightarrow> bool \<Rightarrow> OpTime \<Rightarrow> TopologyCoordinator \<Rightarrow> (CheckRequest option \<times> TopologyCoordinator) option" where
  "recoverFromElectionTie now steady lastOpApplied t =
     do { status \<leftarrow> checkShouldStandForElection t now lastOpApplied;
          if status \<noteq> StatusOK then Some (None, t)
          else do { (st, t1) \<leftarrow> becomeCandidateIfElectable now lastOpApplied False t;
                    ensure (st = StatusOK);
                    startElectSelf steady lastOpApplied t1 } }"

section \<open>Properties\<close>

lemma sleep_ok [simp]: "tc_ok (setElectionSleepUntil d t) = tc_ok t" "t_role (setElectionSleepUntil d t) = t_role t"
  by (simp_all add: setElectionSleepUntil_def)

lemma loseElection_ok:
  assumes "tc_ok t" "t_role t = RoleCandidate"
  shows "\<exists>t'. loseElection t = Some (None, t') \<and> tc_ok t' \<and> t_role t' = RoleFollower"
  using processLoseElection_ok [OF assms] by (auto simp: loseElection_def)

text \<open>
  C27: the end of an election of protocol version 0. It never aborts, and the candidate becomes the
  leader exactly if the election was not cancelled, it has a majority of the votes and the
  configuration is still the one it started with; otherwise it is a follower again.
\<close>

theorem election_v0_outcome:
  assumes "tc_step\<^sup>*\<^sup>* (TopologyCoordinator_new opts) t" "t_role t = RoleCandidate"
  shows "\<exists>d t'. onElectCmdRunnerComplete canceled votes version now random eid et t = Some (d, t') \<and> tc_ok t' \<and>
     (if \<not> canceled \<and> c_majorityVoteCount (t_rsConfig t) \<le> votes \<and> c_version (t_rsConfig t) = version
      then t_role t' = RoleLeader \<and> t_currentPrimaryIndex t' = t_selfIndex t else t_role t' = RoleFollower)"
proof -
  have ok: "tc_ok t" using reachable_ok assms(1) by blast
  obtain w where w: "processWinElection eid et t = Some w" "tc_ok w" "t_role w = RoleLeader" "t_currentPrimaryIndex w = t_selfIndex t"
    using processWinElection_ok [OF ok assms(2)] by blast
  obtain l where l: "loseElection t = Some (None :: Date option, l)" "tc_ok l" "t_role l = RoleFollower"
    using loseElection_ok [OF ok assms(2)] by blast
  let ?s = "setElectionSleepUntil (now + (random + 50)) t"
  obtain x where x: "processLoseElection ?s = Some x" "tc_ok x" "t_role x = RoleFollower"
    using processLoseElection_ok [of ?s] ok assms(2) by auto
  show ?thesis using w l x by (auto simp: onElectCmdRunnerComplete_def)
qed

definition demo_candidate_run :: "TopologyOp list" where
  "demo_candidate_run = demo_secondary_run @ [OpUpdateTerm 1 1100, OpVoteForMyselfV1, OpBecomeCandidate 1200 demo_optime False]"

lemma demo_candidate: "tc_reachable (demo_run demo_candidate_run)"
  by (rule demo_run_reachable) code_simp

lemma demo_candidate_fields: "t_role (demo_run demo_candidate_run) = RoleCandidate" "t_term (demo_run demo_candidate_run) = 1"
  "c_majorityVoteCount (t_rsConfig (demo_run demo_candidate_run)) = 2" "c_version (t_rsConfig (demo_run demo_candidate_run)) = 1"
  by code_simp+

theorem election_v0_outcome_witness:
  "\<exists>d t'. onElectCmdRunnerComplete False 2 1 3000 17 7 \<lparr>ts_secs = 101, ts_inc = 1\<rparr> (demo_run demo_candidate_run) = Some (d, t') \<and>
     t_role t' = RoleLeader"
proof -
  obtain opts where "tc_step\<^sup>*\<^sup>* (TopologyCoordinator_new opts) (demo_run demo_candidate_run)" using demo_candidate by blast
  from election_v0_outcome [OF this demo_candidate_fields(1), of False 2 1 3000 17 7 "\<lparr>ts_secs = 101, ts_inc = 1\<rparr>"]
  show ?thesis by (auto simp: demo_candidate_fields)
qed

text \<open>
  C20: the end of an election of protocol version 1. It never aborts in a term the node can stand in, and the
  candidate becomes the leader exactly if the round of votes elected it and its term is still
  the term of the election; otherwise it is a follower again.
\<close>

theorem election_v1_outcome:
  assumes "tc_step\<^sup>*\<^sup>* (TopologyCoordinator_new opts) t" "t_role t = RoleCandidate" "newTerm \<noteq> kUninitializedTerm"
  shows "\<exists>r t'. onVoteRequestComplete newTerm res eid et t = Some (r, t') \<and> tc_ok t' \<and>
     (if t_term t = newTerm \<and> res = kSuccessfullyElected
      then t_role t' = RoleLeader \<and> t_currentPrimaryIndex t' = t_selfIndex t else t_role t' = RoleFollower)"
proof -
  have ok: "tc_ok t" using reachable_ok assms(1) by blast
  obtain w where w: "processWinElection eid et t = Some w" "tc_ok w" "t_role w = RoleLeader" "t_currentPrimaryIndex w = t_selfIndex t"
    using processWinElection_ok [OF ok assms(2)] by blast
  obtain l where l: "loseElection t = Some (None :: unit option, l)" "tc_ok l" "t_role l = RoleFollower"
    using loseElection_ok [OF ok assms(2)] by blast
  show ?thesis using w l assms(3) by (auto simp: onVoteRequestComplete_def)
qed

theorem election_v1_outcome_witness:
  "\<exists>r t'. onVoteRequestComplete 1 kSuccessfullyElected 7 \<lparr>ts_secs = 101, ts_inc = 1\<rparr> (demo_run demo_candidate_run) = Some (r, t') \<and>
     t_role t' = RoleLeader"
proof -
  obtain opts where "tc_step\<^sup>*\<^sup>* (TopologyCoordinator_new opts) (demo_run demo_candidate_run)" using demo_candidate by blast
  from election_v1_outcome [OF this demo_candidate_fields(1), of 1 kSuccessfullyElected 7 "\<lparr>ts_secs = 101, ts_inc = 1\<rparr>"]
  show ?thesis by (auto simp: demo_candidate_fields kUninitializedTerm_def)
qed

end
