(* ===== verification/ReplProgress.thy ===== *)
theory ReplProgress
  imports ReplElectV1
begin

text \<open>
  Replication progress in the replication coordinator (\<open>replication_coordinator_impl.cpp\<close>): the
  optimes every member has reached, the commit point and the committed snapshot, and the threads
  that wait for a write concern or an optime. All of it is guarded by \<open>_mutex\<close>, so an operation
  is one step; a wait is the end of a step, and what the thread does when it is woken the next.
  Calls into the external state, notifications of waiters and scheduled work are appended
  to the list \<open>rc_calls\<close>. The clock is read once per operation.
\<close>

section \<open>Data\<close>

datatype SyncMode = SyncUnset | SyncNone | SyncFsync | SyncJournal

record WriteConcernOptions = WriteConcern +
  wc_syncMode :: SyncMode
  wc_wTimeout :: Millis
  wc_wDeadline :: Date

definition Date_max :: Date where "Date_max = 2 ^ 63 - 1"

type_synonym SnapshotName = "64 word"

record SnapshotInfo =
  sn_opTime :: OpTime
  sn_name :: SnapshotName

text \<open>The comparison of tuples: by optime, and by name if neither optime is smaller.\<close>

definition snap_less :: "SnapshotInfo \<Rightarrow> SnapshotInfo \<Rightarrow> bool" where
  "snap_less a b \<longleftrightarrow> ot_less (sn_opTime a) (sn_opTime b) \<or> (\<not> ot_less (sn_opTime b) (sn_opTime a) \<and> sn_name a < sn_name b)"

definition snap_le :: "SnapshotInfo \<Rightarrow> SnapshotInfo \<Rightarrow> bool" where
  "snap_le a b \<longleftrightarrow> \<not> snap_less b a"

record SlaveInfo =
  si_lastDurableOpTime :: OpTime
  si_lastAppliedOpTime :: OpTime
  si_hostAndPort :: HostAndPort
  si_memberId :: int
  si_rid :: OID
  si_self :: bool
  si_lastUpdate :: Date
  si_down :: bool

definition SlaveInfo_default :: SlaveInfo where
  "SlaveInfo_default =
     \<lparr>si_lastDurableOpTime = OpTime_default, si_lastAppliedOpTime = OpTime_default, si_hostAndPort = HostAndPort_empty,
      si_memberId = -1, si_rid = 0, si_self = False, si_lastUpdate = Date_max, si_down = False\<rparr>"

text \<open>
  A waiter is a pointer, here a number. A thread waiter has a condition variable to signal; the only
  callback waiter of the program is that of primary catch-up, with the target optime.
\<close>

record Waiter =
  w_id :: nat
  w_opTime :: OpTime
  w_writeConcern :: "WriteConcernOptions option"
  w_callback :: bool

record CatchupState =
  cu_timeout :: "Date option"
  cu_waiter :: "Waiter option"

record ReplSettings =
  rs_usingReplSets :: bool
  rs_master :: bool
  rs_slave :: bool
  rs_majorityReadConcern :: bool

datatype Mode = modeNone | modeReplSet | modeMasterSlave

definition getReplicationModeFromSettings :: "ReplSettings \<Rightarrow> Mode" where
  "getReplicationModeFromSettings st =
     (if rs_usingReplSets st then modeReplSet else if rs_master st \<or> rs_slave st then modeMasterSlave else modeNone)"

datatype ApplierState = ApplierRunning | ApplierDraining | ApplierStopped

datatype ConfigState =
    kConfigPreStart | kConfigStartingUp | kConfigReplicationDisabled | kConfigUninitialized
  | kConfigSteady | kConfigInitiating | kConfigReconfiguring | kConfigHBReconfiguring

datatype ExternalCall =
    NotifyWaiter nat | NotifySnapshotWaiters | NotifyOplogMetadataWaiters
  | CreateSnapshot SnapshotName | UpdateCommittedSnapshot SnapshotName | DropAllSnapshots | ForceSnapshotCreation
  | ForwardSlaveProgress | StartProducerIfStopped | StopProducer | NotifyDrainFinished | OnDrainComplete
  | StartNoopWriter OpTime | StopNoopWriter | SignalApplierToChooseNewSyncSource | CloseConnections
  | ShardingOnStepDownHook | ScheduleStepDownFinish | ScheduleTimePassing Date | NotifyStepDownWaiters
  | SendHeartbeat HostAndPort int Date | CancelHeartbeats | RemoteStepDown HostAndPort | SetGlobalTimestamp Timestamp
  | ScheduleResetLastVote | StartDataReplication | StartMasterSlave

record ReplCoord =
  rc_settings :: ReplSettings
  rc_topCoord :: TopologyCoordinator
  rc_rsConfigState :: ConfigState
  rc_rsConfig :: ReplSetConfig
  rc_selfIndex :: int
  rc_memberState :: MemberState
  rc_applierState :: ApplierState
  rc_canAcceptNonLocalWrites :: bool
  rc_canServeNonLocalReads :: bool
  rc_stepDownPending :: bool
  rc_cachedTerm :: Term
  rc_electionId :: OID
  rc_catchupState :: "CatchupState option"
  rc_slaveInfo :: "SlaveInfo list"
  rc_lastCommittedOpTime :: OpTime
  rc_firstOpTimeOfMyTerm :: OpTime
  rc_uncommittedSnapshots :: "SnapshotInfo list"
  rc_currentCommittedSnapshot :: "SnapshotInfo option"
  rc_snapshotNameGenerator :: "64 word"
  rc_replicationWaiterList :: "Waiter list"
  rc_opTimeWaiterList :: "Waiter list"
  rc_nextWaiter :: nat
  rc_snapshotsEnabled :: bool
  rc_isDurableStorageEngine :: bool
  rc_executorRunning :: bool
  rc_inShutdown :: bool
  rc_livenessTimer :: "Date option"
  rc_earliestMemberId :: int
  rc_electionTimer :: "Date option"
  rc_priorityTakeover :: "Date option"
  rc_seedList :: "HostAndPort list"
  rc_calls :: "ExternalCall list"

definition call :: "ExternalCall \<Rightarrow> ReplCoord \<Rightarrow> ReplCoord" where
  "call c s = s\<lparr>rc_calls := rc_calls s @ [c]\<rparr>"

definition getReplicationMode :: "ReplCoord \<Rightarrow> Mode" where
  "getReplicationMode s = getReplicationModeFromSettings (rc_settings s)"

fun foldM :: "('a \<Rightarrow> 's \<Rightarrow> 's option) \<Rightarrow> 'a list \<Rightarrow> 's \<Rightarrow> 's option" where
  "foldM f [] s = Some s"
| "foldM f (x # xs) s = f x s \<bind> foldM f xs"

section \<open>Own progress\<close>

definition getMyIndexInSlaveInfo :: "ReplCoord \<Rightarrow> int option" where
  "getMyIndexInSlaveInfo s =
     (if getReplicationMode s = modeMasterSlave then Some 0
      else do { ensure (rs_usingReplSets (rc_settings s));
                if rc_selfIndex s = -1 then do { ensure (length (rc_slaveInfo s) = 1); Some 0 }
                else Some (rc_selfIndex s) })"

definition mySlaveInfo :: "ReplCoord \<Rightarrow> SlaveInfo option" where
  "mySlaveInfo s = do { i \<leftarrow> getMyIndexInSlaveInfo s; nth_opt (rc_slaveInfo s) i }"

definition getMyLastAppliedOpTime :: "ReplCoord \<Rightarrow> OpTime option" where
  "getMyLastAppliedOpTime s = do { si \<leftarrow> mySlaveInfo s; Some (si_lastAppliedOpTime si) }"

definition getMyLastDurableOpTime :: "ReplCoord \<Rightarrow> OpTime option" where
  "getMyLastDurableOpTime s = do { si \<leftarrow> mySlaveInfo s; Some (si_lastDurableOpTime si) }"

section \<open>Write concerns\<close>

definition rc_checkIfWriteConcernCanBeSatisfied :: "WriteConcernOptions \<Rightarrow> ReplCoord \<Rightarrow> Status" where
  "rc_checkIfWriteConcernCanBeSatisfied wc s =
     (case getReplicationMode s of
        modeNone \<Rightarrow> Some NoReplicationEnabled
      | modeMasterSlave \<Rightarrow> failIf (wMode wc \<noteq> []) UnknownReplWriteConcern
      | modeReplSet \<Rightarrow> checkIfWriteConcernCanBeSatisfied (rc_rsConfig s) (WriteConcern.truncate wc))"

definition progress :: "bool \<Rightarrow> SlaveInfo \<Rightarrow> OpTime" where
  "progress durable si = (if durable then si_lastDurableOpTime si else si_lastAppliedOpTime si)"

fun numNodesLoop :: "(SlaveInfo \<Rightarrow> bool) \<Rightarrow> int \<Rightarrow> SlaveInfo list \<Rightarrow> bool" where
  "numNodesLoop reached n [] = False"
| "numNodesLoop reached n (si # sis) =
     (let n' = (if reached si then n - 1 else n) in n' \<le> 0 \<or> numNodesLoop reached n' sis)"

definition haveNumNodesReachedOpTime :: "OpTime \<Rightarrow> int \<Rightarrow> bool \<Rightarrow> ReplCoord \<Rightarrow> bool option" where
  "haveNumNodesReachedOpTime target numNodes durablyWritten s =
     do { me \<leftarrow> mySlaveInfo s;
          if ot_less (progress durablyWritten me) target then Some False
          else Some (numNodesLoop (\<lambda>si. ot_ge (progress durablyWritten si) target) numNodes (rc_slaveInfo s)) }"

text \<open>The matcher sees the tags of one member, until it is satisfied.\<close>

fun updateWithTags :: "ReplSetTag list \<Rightarrow> TagMatch \<Rightarrow> bool \<times> TagMatch" where
  "updateWithTags [] m = (False, m)"
| "updateWithTags (t # ts) m = (case matchUpdate t m of (True, m') \<Rightarrow> (True, m') | (False, m') \<Rightarrow> updateWithTags ts m')"

fun taggedNodesLoop :: "ReplSetConfig \<Rightarrow> (SlaveInfo \<Rightarrow> bool) \<Rightarrow> TagMatch \<Rightarrow> SlaveInfo list \<Rightarrow> bool option" where
  "taggedNodesLoop c reached m [] = Some False"
| "taggedNodesLoop c reached m (si # sis) =
     (if reached si
      then do { memberConfig \<leftarrow> findMemberByID c (si_memberId si);
                case updateWithTags (mc_tags memberConfig) m of
                  (True, m') \<Rightarrow> Some True
                | (False, m') \<Rightarrow> taggedNodesLoop c reached m' sis }
      else taggedNodesLoop c reached m sis)"

definition haveTaggedNodesReachedOpTime :: "OpTime \<Rightarrow> TagPattern \<Rightarrow> bool \<Rightarrow> ReplCoord \<Rightarrow> bool option" where
  "haveTaggedNodesReachedOpTime opTime tagPattern durablyWritten s =
     taggedNodesLoop (rc_rsConfig s) (\<lambda>si. ot_ge (progress durablyWritten si) opTime) (newTagMatch tagPattern) (rc_slaveInfo s)"

definition isOpTimeMajorityConfirmed :: "OpTime \<Rightarrow> ReplCoord \<Rightarrow> bool option" where
  "isOpTimeMajorityConfirmed opTime s =
     (case findCustomWriteMode (rc_rsConfig s) kMajorityWriteConcernModeName of
        Inl _ \<Rightarrow> None
      | Inr tagPattern \<Rightarrow>
          haveTaggedNodesReachedOpTime opTime tagPattern (c_writeConcernMajorityJournalDefault (rc_rsConfig s)) s)"

definition haveSnapshot :: "OpTime \<Rightarrow> SnapshotName \<Rightarrow> ReplCoord \<Rightarrow> bool" where
  "haveSnapshot opTime minSnapshot s =
     (case rc_currentCommittedSnapshot s of
        None \<Rightarrow> False
      | Some sn \<Rightarrow> ot_ge (sn_opTime sn) opTime \<and> minSnapshot \<le> sn_name sn)"

definition doneWaitingForReplication :: "OpTime \<Rightarrow> SnapshotName \<Rightarrow> WriteConcernOptions \<Rightarrow> ReplCoord \<Rightarrow> bool option" where
  "doneWaitingForReplication opTime minSnapshot wc s =
     do { ensure (wc_syncMode wc \<noteq> SyncUnset);
          if rc_checkIfWriteConcernCanBeSatisfied wc s \<noteq> StatusOK then Some True
          else do {
            let useDurableOpTime = (wc_syncMode wc = SyncJournal);
            if wMode wc = [] then haveNumNodesReachedOpTime opTime (wNumNodes wc) useDurableOpTime s
            else if wMode wc = kMajority \<and> rc_snapshotsEnabled s \<and> \<not> haveSnapshot opTime minSnapshot s then Some False
            else (case findCustomWriteMode (rc_rsConfig s)
                         (if wMode wc = kMajority then kMajorityWriteConcernModeName else wMode wc) of
                    Inl _ \<Rightarrow> Some True
                  | Inr tagPattern \<Rightarrow> haveTaggedNodesReachedOpTime opTime tagPattern useDurableOpTime s) } }"

definition populateUnsetWriteConcernOptionsSyncMode :: "WriteConcernOptions \<Rightarrow> ReplCoord \<Rightarrow> WriteConcernOptions" where
  "populateUnsetWriteConcernOptionsSyncMode wc s =
     (if wc_syncMode wc = SyncUnset
      then wc\<lparr>wc_syncMode := (if wMode wc = kMajority \<and> rc_isDurableStorageEngine s \<and>
                                 c_writeConcernMajorityJournalDefault (rc_rsConfig s) then SyncJournal else SyncNone)\<rparr>
      else wc)"

definition getHostsWrittenTo :: "OpTime \<Rightarrow> bool \<Rightarrow> OID \<Rightarrow> ReplCoord \<Rightarrow> HostAndPort list" where
  "getHostsWrittenTo oper durablyWritten myRID s =
     map si_hostAndPort (filter (\<lambda>si. \<not> (getReplicationMode s = modeMasterSlave \<and> si_rid si = myRID) \<and>
       \<not> ot_less (progress durablyWritten si) oper) (rc_slaveInfo s))"

section \<open>Waiter lists\<close>

text \<open>
  The loop of \<open>signalAndRemoveIf_inlock\<close>: an element that is signalled is replaced by the last one,
  and the same position is looked at again. The result is what was signalled, in this order, and
  the list that remains. The waiters are notified afterwards: no notification changes the list or
  what the loop asks of it, except that the callback of the catch-up takes its own waiter, which has
  left the list, out once more.
\<close>

function signalLoop :: "('a \<Rightarrow> bool option) \<Rightarrow> nat \<Rightarrow> 'a list \<Rightarrow> ('a list \<times> 'a list) option" where
  "signalLoop func i xs =
     (if i < length xs
      then do { hit \<leftarrow> func (xs ! i);
                if \<not> hit then signalLoop func (Suc i) xs
                else do { (signalled, rest) \<leftarrow> signalLoop func i (butlast (xs[i := last xs]));
                          Some (xs ! i # signalled, rest) } }
      else Some ([], xs))"
  by pat_completeness auto
termination
  by (relation "measure (\<lambda>(func, i, xs). length xs - i)") auto

definition removeWaiter :: "Waiter \<Rightarrow> Waiter list \<Rightarrow> Waiter list" where
  "removeWaiter w ws =
     (let i = findIndex (\<lambda>w'. w_id w' = w_id w) ws in
      if i = length ws then ws else butlast (ws[i := last ws]))"

definition enterDrainMode :: "ReplCoord \<Rightarrow> ReplCoord" where
  "enterDrainMode s = call StopProducer (s\<lparr>rc_applierState := ApplierDraining\<rparr>)"

text \<open>\<open>CatchupState::abort_inlock\<close>; the cancelled timeout goes with the state.\<close>

definition CatchupState_abort :: "ReplCoord \<Rightarrow> ReplCoord option" where
  "CatchupState_abort s =
     do { cu \<leftarrow> rc_catchupState s;
          ensure (rc_memberState s = RS_PRIMARY);
          let s1 = (case cu_waiter cu of
                      Some w \<Rightarrow> s\<lparr>rc_opTimeWaiterList := removeWaiter w (rc_opTimeWaiterList s)\<rparr>
                    | None \<Rightarrow> s);
          Some ((enterDrainMode s1)\<lparr>rc_catchupState := None\<rparr>) }"

text \<open>The callback checks its target again, since stepping down may call it too.\<close>

definition catchupCallback :: "OpTime \<Rightarrow> ReplCoord \<Rightarrow> ReplCoord option" where
  "catchupCallback targetOpTime s =
     do { mine \<leftarrow> getMyLastAppliedOpTime s;
          if ot_le targetOpTime mine then CatchupState_abort s else Some s }"

definition notifyWaiter :: "Waiter \<Rightarrow> ReplCoord \<Rightarrow> ReplCoord option" where
  "notifyWaiter w s = (if w_callback w then catchupCallback (w_opTime w) s else Some (call (NotifyWaiter (w_id w)) s))"

definition wakeReadyWaiters :: "ReplCoord \<Rightarrow> ReplCoord option" where
  "wakeReadyWaiters s =
     do { (signalled, rest) \<leftarrow>
            signalLoop (\<lambda>w. do { wc \<leftarrow> w_writeConcern w; doneWaitingForReplication (w_opTime w) 0 wc s }) 0
              (rc_replicationWaiterList s);
          foldM notifyWaiter signalled (s\<lparr>rc_replicationWaiterList := rest\<rparr>) }"

definition signalOpTimeWaiters :: "OpTime \<Rightarrow> ReplCoord \<Rightarrow> ReplCoord option" where
  "signalOpTimeWaiters opTime s =
     do { (signalled, rest) \<leftarrow> signalLoop (\<lambda>w. Some (ot_le (w_opTime w) opTime)) 0 (rc_opTimeWaiterList s);
          foldM notifyWaiter signalled (s\<lparr>rc_opTimeWaiterList := rest\<rparr>) }"

section \<open>Snapshots and the commit point\<close>

definition updateCommittedSnapshot :: "SnapshotInfo \<Rightarrow> ReplCoord \<Rightarrow> ReplCoord option" where
  "updateCommittedSnapshot newSnapshot s =
     do { ensure (\<not> ot_isNull (sn_opTime newSnapshot));
          ensure (ot_le (sn_opTime newSnapshot) (rc_lastCommittedOpTime s));
          ensure (case rc_currentCommittedSnapshot s of
                    Some cur \<Rightarrow> ot_ge (sn_opTime newSnapshot) (sn_opTime cur) \<and> sn_name cur < sn_name newSnapshot
                  | None \<Rightarrow> True);
          ensure (case rc_uncommittedSnapshots s of u # us \<Rightarrow> snap_less newSnapshot u | [] \<Rightarrow> True);
          wakeReadyWaiters (call (UpdateCommittedSnapshot (sn_name newSnapshot)) (call NotifySnapshotWaiters
            (s\<lparr>rc_currentCommittedSnapshot := Some newSnapshot\<rparr>))) }"

text \<open>
  \<open>_advanceCommitPoint_inlock\<close>. An arbiter also takes the commit point as its own progress, by
  an operation that in turn may advance the commit point of a primary; the argument \<open>asArbiter\<close>
  stands for it. \<open>std::upper_bound\<close> of an ordered vector is the end of its prefix up to the bound.
\<close>

definition advanceCommitPoint_with :: "(OpTime \<Rightarrow> ReplCoord \<Rightarrow> ReplCoord option) \<Rightarrow> OpTime \<Rightarrow> ReplCoord \<Rightarrow> ReplCoord option" where
  "advanceCommitPoint_with asArbiter committed s =
     (if ot_eq committed (rc_lastCommittedOpTime s) then Some s
      else if ot_less committed (rc_lastCommittedOpTime s) then Some s
      else if rc_memberState s = RS_PRIMARY \<and> ot_less committed (rc_firstOpTimeOfMyTerm s) then Some s
      else do {
        s1 \<leftarrow> (if rc_memberState s = RS_ARBITER then asArbiter committed s else Some s);
        let s2 = call NotifyOplogMetadataWaiters (s1\<lparr>rc_lastCommittedOpTime := committed\<rparr>);
        let maxSnapshot = \<lparr>sn_opTime = committed, sn_name = -1\<rparr>;
        let ready = takeWhile (\<lambda>u. snap_le u maxSnapshot) (rc_uncommittedSnapshots s2);
        if ready \<noteq> []
        then updateCommittedSnapshot (last ready)
               (s2\<lparr>rc_uncommittedSnapshots := drop (length ready) (rc_uncommittedSnapshots s2)\<rparr>)
        else Some s2 })"

text \<open>\<open>std::sort\<close> with the operator \<open><\<close> of optimes.\<close>

fun insertOpTime :: "OpTime \<Rightarrow> OpTime list \<Rightarrow> OpTime list" where
  "insertOpTime x [] = [x]"
| "insertOpTime x (y # ys) = (if ot_less y x then y # insertOpTime x ys else x # y # ys)"

definition sortOpTimes :: "OpTime list \<Rightarrow> OpTime list" where
  "sortOpTimes xs = foldr insertOpTime xs []"

definition votingNodesOpTimes :: "ReplCoord \<Rightarrow> OpTime list option" where
  "votingNodesOpTimes s =
     do { xss \<leftarrow> mapM (\<lambda>si. do { memberConfig \<leftarrow> findMemberByID (rc_rsConfig s) (si_memberId si);
                                Some (if isVoter memberConfig
                                      then [progress (c_writeConcernMajorityJournalDefault (rc_rsConfig s)) si] else []) })
                    (rc_slaveInfo s);
          Some (concat xss) }"

text \<open>
  Only a primary gets past the first condition, so the part for arbiters is not reached. A negative
  majority is a huge number after the conversion to \<open>unsigned long\<close>.
\<close>

definition updateLastCommittedOpTime :: "ReplCoord \<Rightarrow> ReplCoord option" where
  "updateLastCommittedOpTime s =
     (if rc_memberState s \<noteq> RS_PRIMARY \<or> rc_stepDownPending s then Some s
      else do {
        xs \<leftarrow> votingNodesOpTimes s;
        ensure (xs \<noteq> []);
        let majority = c_writeMajority (rc_rsConfig s);
        if majority < 0 \<or> int (length xs) < majority then Some s
        else do { committed \<leftarrow> nth_opt (sortOpTimes xs) (int (length xs) - majority);
                  advanceCommitPoint_with (\<lambda>_ _. None) committed s } })"

definition createSnapshot :: "OpTime \<Rightarrow> SnapshotName \<Rightarrow> ReplCoord \<Rightarrow> ReplCoord option" where
  "createSnapshot timeOfSnapshot name s =
     do { let s1 = call (CreateSnapshot name) s;
          let info = \<lparr>sn_opTime = timeOfSnapshot, sn_name = name\<rparr>;
          if ot_le timeOfSnapshot (rc_lastCommittedOpTime s1)
          then do { ensure (rc_uncommittedSnapshots s1 = []); updateCommittedSnapshot info s1 }
          else do {
            ensure (rc_uncommittedSnapshots s1 \<noteq> [] \<longrightarrow>
                      snap_less (last (rc_uncommittedSnapshots s1)) info \<and> sn_name (last (rc_uncommittedSnapshots s1)) < name);
            Some (s1\<lparr>rc_uncommittedSnapshots := rc_uncommittedSnapshots s1 @ [info]\<rparr>) } }"

definition reserveSnapshotName :: "ReplCoord \<Rightarrow> SnapshotName \<times> ReplCoord" where
  "reserveSnapshotName s =
     (let name = rc_snapshotNameGenerator s + 1 in (name, s\<lparr>rc_snapshotNameGenerator := name\<rparr>))"

definition dropAllSnapshots :: "ReplCoord \<Rightarrow> ReplCoord" where
  "dropAllSnapshots s = call DropAllSnapshots (s\<lparr>rc_uncommittedSnapshots := [], rc_currentCommittedSnapshot := None\<rparr>)"

section \<open>Progress of the members\<close>

definition setSlaveInfo :: "int \<Rightarrow> SlaveInfo \<Rightarrow> ReplCoord \<Rightarrow> ReplCoord" where
  "setSlaveInfo i si s = s\<lparr>rc_slaveInfo := (rc_slaveInfo s)[nat i := si]\<rparr>"

definition updateSlaveInfoAppliedOpTime :: "Date \<Rightarrow> int \<Rightarrow> OpTime \<Rightarrow> ReplCoord \<Rightarrow> ReplCoord option" where
  "updateSlaveInfoAppliedOpTime now i opTime s =
     do { si \<leftarrow> nth_opt (rc_slaveInfo s) i;
          s1 \<leftarrow> updateLastCommittedOpTime
                 (setSlaveInfo i (si\<lparr>si_lastAppliedOpTime := opTime, si_lastUpdate := now, si_down := False\<rparr>) s);
          wakeReadyWaiters s1 }"

definition updateSlaveInfoDurableOpTime :: "Date \<Rightarrow> int \<Rightarrow> OpTime \<Rightarrow> ReplCoord \<Rightarrow> ReplCoord option" where
  "updateSlaveInfoDurableOpTime now i opTime s =
     do { si \<leftarrow> nth_opt (rc_slaveInfo s) i;
          if ot_less (si_lastAppliedOpTime si) opTime then Some s
          else do { s1 \<leftarrow> updateLastCommittedOpTime
                       (setSlaveInfo i (si\<lparr>si_lastDurableOpTime := opTime, si_lastUpdate := now, si_down := False\<rparr>) s);
                    wakeReadyWaiters s1 } }"

definition rc_setMyLastAppliedOpTime :: "Date \<Rightarrow> OpTime \<Rightarrow> bool \<Rightarrow> ReplCoord \<Rightarrow> ReplCoord option" where
  "rc_setMyLastAppliedOpTime now opTime isRollbackAllowed s =
     do { i \<leftarrow> getMyIndexInSlaveInfo s;
          si \<leftarrow> nth_opt (rc_slaveInfo s) i;
          let mine = si_lastAppliedOpTime si;
          ensure (isRollbackAllowed \<or> ot_eq opTime mine \<or>
                    ot_gt opTime mine \<and>
                    (ot_term opTime = kUninitializedTerm \<or> ot_term mine = kUninitializedTerm \<or>
                     ts_less (ot_timestamp mine) (ot_timestamp opTime)));
          s1 \<leftarrow> updateSlaveInfoAppliedOpTime now i opTime s;
          signalOpTimeWaiters opTime s1 }"

definition rc_setMyLastDurableOpTime :: "Date \<Rightarrow> OpTime \<Rightarrow> bool \<Rightarrow> ReplCoord \<Rightarrow> ReplCoord option" where
  "rc_setMyLastDurableOpTime now opTime isRollbackAllowed s =
     do { i \<leftarrow> getMyIndexInSlaveInfo s;
          si \<leftarrow> nth_opt (rc_slaveInfo s) i;
          ensure (isRollbackAllowed \<or> ot_le (si_lastDurableOpTime si) opTime);
          if ot_less (si_lastAppliedOpTime si) opTime then Some s
          else updateSlaveInfoDurableOpTime now i opTime s }"

definition advanceCommitPoint :: "Date \<Rightarrow> OpTime \<Rightarrow> ReplCoord \<Rightarrow> ReplCoord option" where
  "advanceCommitPoint now = advanceCommitPoint_with (\<lambda>committed. rc_setMyLastAppliedOpTime now committed False)"

definition reportUpstream :: "ReplCoord \<Rightarrow> ReplCoord" where
  "reportUpstream s =
     (if getReplicationMode s \<noteq> modeReplSet \<or> rc_memberState s = RS_PRIMARY then s else call ForwardSlaveProgress s)"

definition setMyLastAppliedOpTime :: "Date \<Rightarrow> OpTime \<Rightarrow> ReplCoord \<Rightarrow> ReplCoord option" where
  "setMyLastAppliedOpTime now opTime s =
     do { s1 \<leftarrow> rc_setMyLastAppliedOpTime now opTime False s; Some (reportUpstream s1) }"

definition setMyLastDurableOpTime :: "Date \<Rightarrow> OpTime \<Rightarrow> ReplCoord \<Rightarrow> ReplCoord option" where
  "setMyLastDurableOpTime now opTime s =
     do { s1 \<leftarrow> rc_setMyLastDurableOpTime now opTime False s; Some (reportUpstream s1) }"

definition setMyLastAppliedOpTimeForward :: "Date \<Rightarrow> OpTime \<Rightarrow> ReplCoord \<Rightarrow> ReplCoord option" where
  "setMyLastAppliedOpTimeForward now opTime s =
     do { mine \<leftarrow> getMyLastAppliedOpTime s;
          if ot_gt opTime mine then setMyLastAppliedOpTime now opTime s
          else do { ensure (ot_eq opTime mine \<or> ot_term opTime = kUninitializedTerm \<or> ot_term mine = kUninitializedTerm \<or>
                            ts_less (ot_timestamp opTime) (ot_timestamp mine));
                    Some s } }"

definition setMyLastDurableOpTimeForward :: "Date \<Rightarrow> OpTime \<Rightarrow> ReplCoord \<Rightarrow> ReplCoord option" where
  "setMyLastDurableOpTimeForward now opTime s =
     do { mine \<leftarrow> getMyLastDurableOpTime s;
          if ot_gt opTime mine then setMyLastDurableOpTime now opTime s else Some s }"

definition resetMyLastOpTimes :: "Date \<Rightarrow> ReplCoord \<Rightarrow> ReplCoord option" where
  "resetMyLastOpTimes now s =
     do { s1 \<leftarrow> rc_setMyLastAppliedOpTime now OpTime_default True s;
          s2 \<leftarrow> rc_setMyLastDurableOpTime now OpTime_default True s1;
          Some (reportUpstream s2) }"

text \<open>The last optime of the oplog is read from storage; the default one is used if that fails.\<close>

definition resetLastOpTimesFromOplog :: "Date \<Rightarrow> OpTime StatusWith \<Rightarrow> ReplCoord \<Rightarrow> ReplCoord option" where
  "resetLastOpTimesFromOplog now lastOpTimeStatus s =
     do { let lastOpTime = (case lastOpTimeStatus of Inr o1 \<Rightarrow> o1 | Inl _ \<Rightarrow> OpTime_default);
          s1 \<leftarrow> rc_setMyLastAppliedOpTime now lastOpTime True s;
          s2 \<leftarrow> rc_setMyLastDurableOpTime now lastOpTime True s1;
          Some (call (SetGlobalTimestamp (ot_timestamp lastOpTime)) (reportUpstream s2)) }"

section \<open>Liveness of the members\<close>

text \<open>The first member, among those not this node and not down, with the smallest date.\<close>

fun earliestUpdate :: "SlaveInfo list \<Rightarrow> Date \<times> int \<Rightarrow> Date \<times> int" where
  "earliestUpdate [] e = e"
| "earliestUpdate (si # sis) e =
     earliestUpdate sis (if \<not> si_self si \<and> \<not> si_down si \<and> fst e > si_lastUpdate si then (si_lastUpdate si, si_memberId si) else e)"

text \<open>\<open>rc_livenessTimer\<close> is the callback that is scheduled and not cancelled.\<close>

definition scheduleNextLivenessUpdate :: "ReplCoord \<Rightarrow> ReplCoord" where
  "scheduleNextLivenessUpdate s =
     (if c_protocolVersion (rc_rsConfig s) \<noteq> 1 then s
      else (let (earliestDate, earliestMemberId) = earliestUpdate (rc_slaveInfo s) (Date_max, -1) in
            if earliestMemberId = -1 \<or> earliestDate = Date_max then s\<lparr>rc_earliestMemberId := -1\<rparr>
            else if rc_livenessTimer s \<noteq> None \<or> \<not> rc_executorRunning s then s
            else s\<lparr>rc_livenessTimer := Some (earliestDate + c_electionTimeoutPeriod (rc_rsConfig s)),
                   rc_earliestMemberId := earliestMemberId\<rparr>))"

definition cancelAndRescheduleLivenessUpdate :: "int \<Rightarrow> ReplCoord \<Rightarrow> ReplCoord" where
  "cancelAndRescheduleLivenessUpdate updatedMemberId s =
     (if rc_earliestMemberId s \<noteq> -1 \<and> rc_earliestMemberId s \<noteq> updatedMemberId then s
      else scheduleNextLivenessUpdate (s\<lparr>rc_livenessTimer := None\<rparr>))"

section \<open>Progress reported by other members\<close>

record UpdateInfo =
  ui_appliedOpTime :: OpTime
  ui_durableOpTime :: OpTime
  ui_cfgver :: int
  ui_memberId :: int

record OldUpdateInfo =
  oui_ts :: OpTime
  oui_cfgver :: int
  oui_memberId :: int

definition findSlaveInfoByMemberID :: "int \<Rightarrow> ReplCoord \<Rightarrow> int option" where
  "findSlaveInfoByMemberID memberId s =
     (let i = findIndex (\<lambda>si. si_memberId si = memberId) (rc_slaveInfo s) in
      if i < length (rc_slaveInfo s) then Some (int i) else None)"

text \<open>The part of \<open>_setLastOptime_inlock\<close> after the member has been found: optimes only grow.\<close>

definition updateOpTimes :: "Date \<Rightarrow> int \<Rightarrow> OpTime \<Rightarrow> OpTime \<Rightarrow> ReplCoord \<Rightarrow> ReplCoord option" where
  "updateOpTimes now i applied durable s =
     do { si \<leftarrow> nth_opt (rc_slaveInfo s) i;
          s1 \<leftarrow> (if ot_less (si_lastAppliedOpTime si) applied then updateSlaveInfoAppliedOpTime now i applied s else Some s);
          si1 \<leftarrow> nth_opt (rc_slaveInfo s1) i;
          if ot_less (si_lastDurableOpTime si1) durable then updateSlaveInfoDurableOpTime now i durable s1 else Some s1 }"

text \<open>The result has the status and, if the sender's configuration is another one, our version.\<close>

definition setLastOptime :: "Date \<Rightarrow> UpdateInfo \<Rightarrow> ReplCoord \<Rightarrow> (Status \<times> int option \<times> ReplCoord) option" where
  "setLastOptime now args s =
     (if rc_selfIndex s = -1 then Some (Some NotMasterOrSecondary, None, s)
      else do {
        ensure (getReplicationMode s = modeReplSet);
        if ui_memberId args < 0 then Some (Some NodeNotFound, None, s)
        else do {
          me \<leftarrow> getMemberAt (rc_rsConfig s) (rc_selfIndex s);
          if ui_memberId args = mc_id me then Some (StatusOK, None, s)
          else if ui_cfgver args \<noteq> c_version (rc_rsConfig s)
          then Some (Some InvalidReplicaSetConfig, Some (c_version (rc_rsConfig s)), s)
          else (case findSlaveInfoByMemberID (ui_memberId args) s of
                  None \<Rightarrow> do { ensure (findMemberByID (rc_rsConfig s) (ui_memberId args) = None);
                               Some (Some NodeNotFound, None, s) }
                | Some i \<Rightarrow> do {
                    s1 \<leftarrow> updateOpTimes now i (ui_appliedOpTime args) (ui_durableOpTime args) s;
                    si \<leftarrow> nth_opt (rc_slaveInfo s1) i;
                    Some (StatusOK, None, cancelAndRescheduleLivenessUpdate (ui_memberId args)
                            (setSlaveInfo i (si\<lparr>si_lastUpdate := now, si_down := False\<rparr>) s1)) }) } })"

text \<open>The old form of the command has one optime, durable and applied.\<close>

definition setLastOptime_old :: "Date \<Rightarrow> OldUpdateInfo \<Rightarrow> ReplCoord \<Rightarrow> (Status \<times> int option \<times> ReplCoord) option" where
  "setLastOptime_old now args =
     setLastOptime now \<lparr>ui_appliedOpTime = oui_ts args, ui_durableOpTime = oui_ts args, ui_cfgver = oui_cfgver args,
                        ui_memberId = oui_memberId args\<rparr>"

fun updatePositionLoop ::
  "('a \<Rightarrow> ReplCoord \<Rightarrow> (Status \<times> int option \<times> ReplCoord) option) \<Rightarrow> 'a list \<Rightarrow> bool \<Rightarrow> ReplCoord \<Rightarrow>
   (Status \<times> int option \<times> bool \<times> ReplCoord) option" where
  "updatePositionLoop upd [] changed s = Some (StatusOK, None, changed, s)"
| "updatePositionLoop upd (u # us) changed s =
     do { (st, v, s1) \<leftarrow> upd u s;
          if st \<noteq> StatusOK then Some (st, v, changed, s1) else updatePositionLoop upd us True s1 }"

definition forwardIfChanged :: "Status \<times> int option \<times> bool \<times> ReplCoord \<Rightarrow> Status \<times> int option \<times> ReplCoord" where
  "forwardIfChanged = (\<lambda>(st, v, changed, s).
     (st, v, if changed \<and> rc_memberState s \<noteq> RS_PRIMARY then call ForwardSlaveProgress s else s))"

definition processReplSetUpdatePosition :: "Date \<Rightarrow> UpdateInfo list \<Rightarrow> ReplCoord \<Rightarrow> (Status \<times> int option \<times> ReplCoord) option" where
  "processReplSetUpdatePosition now updates s =
     map_option forwardIfChanged (updatePositionLoop (setLastOptime now) updates False s)"

definition processReplSetUpdatePosition_old :: "Date \<Rightarrow> OldUpdateInfo list \<Rightarrow> ReplCoord \<Rightarrow> (Status \<times> int option \<times> ReplCoord) option" where
  "processReplSetUpdatePosition_old now updates s =
     map_option forwardIfChanged (updatePositionLoop (setLastOptime_old now) updates False s)"

definition updateOpTimesFromHeartbeat :: "Date \<Rightarrow> int \<Rightarrow> OpTime \<Rightarrow> OpTime \<Rightarrow> ReplCoord \<Rightarrow> ReplCoord option" where
  "updateOpTimesFromHeartbeat now targetIndex durable applied s =
     do { ensure (rc_selfIndex s \<ge> 0);
          ensure (targetIndex \<ge> 0);
          si \<leftarrow> nth_opt (rc_slaveInfo s) targetIndex;
          s1 \<leftarrow> (if ot_gt applied (si_lastAppliedOpTime si) then updateSlaveInfoAppliedOpTime now targetIndex applied s else Some s);
          si1 \<leftarrow> nth_opt (rc_slaveInfo s1) targetIndex;
          if ot_gt durable (si_lastDurableOpTime si1) then updateSlaveInfoDurableOpTime now targetIndex durable s1 else Some s1 }"

subsection \<open>Master and slave\<close>

definition findSlaveInfoByRID :: "OID \<Rightarrow> ReplCoord \<Rightarrow> int option" where
  "findSlaveInfoByRID rid s =
     (let i = findIndex (\<lambda>si. si_rid si = rid) (rc_slaveInfo s) in
      if i < length (rc_slaveInfo s) then Some (int i) else None)"

definition addSlaveInfo :: "SlaveInfo \<Rightarrow> ReplCoord \<Rightarrow> ReplCoord option" where
  "addSlaveInfo si s =
     do { ensure (getReplicationMode s = modeMasterSlave);
          s1 \<leftarrow> updateLastCommittedOpTime (s\<lparr>rc_slaveInfo := rc_slaveInfo s @ [si]\<rparr>);
          wakeReadyWaiters s1 }"

text \<open>\<open>massert\<close> throws; the exception is \<open>OtherError\<close>.\<close>

definition setLastOptimeForSlave :: "Date \<Rightarrow> OID \<Rightarrow> Timestamp \<Rightarrow> ReplCoord \<Rightarrow> (Status \<times> ReplCoord) option" where
  "setLastOptimeForSlave now rid ts s =
     (if getReplicationMode s \<noteq> modeMasterSlave then Some (Some OtherError, s)
      else do {
        let opTime = \<lparr>ot_timestamp = ts, ot_term = kUninitializedTerm\<rparr>;
        s1 \<leftarrow> (case findSlaveInfoByRID rid s of
                 Some i \<Rightarrow> do { si \<leftarrow> nth_opt (rc_slaveInfo s) i;
                               if ot_less (si_lastAppliedOpTime si) opTime then updateSlaveInfoAppliedOpTime now i opTime s
                               else Some s }
               | None \<Rightarrow> addSlaveInfo (SlaveInfo_default\<lparr>si_rid := rid, si_lastAppliedOpTime := opTime\<rparr>) s);
        Some (StatusOK, s1) })"

section \<open>Waiting for a write concern\<close>

text \<open>
  What the waiting thread knows: its optime, the snapshot it needs, its write concern. A step ends with a
  status, or with the thread waiting at its waiter; \<open>WaitOutcome\<close> is how the wait ends. When a wait times
  out is left open.
\<close>

record AwaitArgs =
  aw_opTime :: OpTime
  aw_minSnapshot :: SnapshotName
  aw_writeConcern :: WriteConcernOptions

datatype AwaitResult = AwaitDone Status | AwaitWaiting nat

datatype WaitOutcome = WaitNotified | WaitTimeout | WaitInterrupted ErrorCode

definition checkForStepDown :: "OpTime \<Rightarrow> ReplCoord \<Rightarrow> Status" where
  "checkForStepDown opTime s =
     failIf (getReplicationMode s = modeReplSet \<and> rc_memberState s \<noteq> RS_PRIMARY \<or>
             ot_term opTime \<noteq> rc_cachedTerm s \<or> rc_stepDownPending s) PrimarySteppedDown"

text \<open>The end of the life of the \<open>WaiterGuard\<close>: the thread leaves with a status.\<close>

definition leaveWaiterList :: "nat \<Rightarrow> Status \<Rightarrow> ReplCoord \<Rightarrow> AwaitResult \<times> ReplCoord" where
  "leaveWaiterList n st s =
     (AwaitDone st, s\<lparr>rc_replicationWaiterList :=
        removeWaiter \<lparr>w_id = n, w_opTime = OpTime_default, w_writeConcern = None, w_callback = False\<rparr> (rc_replicationWaiterList s)\<rparr>)"

text \<open>The condition of the loop and its body up to the wait.\<close>

definition awaitLoop :: "nat \<Rightarrow> AwaitArgs \<Rightarrow> ReplCoord \<Rightarrow> (AwaitResult \<times> ReplCoord) option" where
  "awaitLoop n a s =
     do { ready \<leftarrow> doneWaitingForReplication (aw_opTime a) (aw_minSnapshot a) (aw_writeConcern a) s;
          Some (if ready then leaveWaiterList n (rc_checkIfWriteConcernCanBeSatisfied (aw_writeConcern a) s) s
                else if rc_inShutdown s then leaveWaiterList n (Some ShutdownInProgress) s
                else (AwaitWaiting n, s)) }"

definition awaitReplication_inlock :: "bool \<Rightarrow> Status \<Rightarrow> AwaitArgs \<Rightarrow> ReplCoord \<Rightarrow> (AwaitResult \<times> ReplCoord) option" where
  "awaitReplication_inlock isLocked interrupt a s =
     (let opTime = aw_opTime a; wc = aw_writeConcern a in
      if isLocked then Some (AwaitDone (Some IllegalOperation), s)
      else if getReplicationMode s = modeNone then Some (AwaitDone StatusOK, s)
      else if getReplicationMode s = modeMasterSlave \<and> wMode wc = kMajority then Some (AwaitDone StatusOK, s)
      else if ot_isNull opTime \<and> aw_minSnapshot a = 0 then Some (AwaitDone StatusOK, s)
      else if checkForStepDown opTime s \<noteq> StatusOK then Some (AwaitDone (checkForStepDown opTime s), s)
      else if interrupt \<noteq> StatusOK then Some (AwaitDone interrupt, s)
      else if wMode wc = [] \<and> wNumNodes wc < 1 then Some (AwaitDone StatusOK, s)
      else do {
        here \<leftarrow> (if wMode wc = [] \<and> wNumNodes wc = 1
                 then do { mine \<leftarrow> getMyLastAppliedOpTime s; Some (ot_ge mine opTime) } else Some False);
        if here then Some (AwaitDone StatusOK, s)
        else (let n = rc_nextWaiter s;
                  w = \<lparr>w_id = n, w_opTime = opTime, w_writeConcern = Some wc, w_callback = False\<rparr> in
              awaitLoop n a (s\<lparr>rc_nextWaiter := Suc n, rc_replicationWaiterList := rc_replicationWaiterList s @ [w]\<rparr>)) })"

definition awaitReplication_resume :: "WaitOutcome \<Rightarrow> nat \<Rightarrow> AwaitArgs \<Rightarrow> ReplCoord \<Rightarrow> (AwaitResult \<times> ReplCoord) option" where
  "awaitReplication_resume outcome n a s =
     (case outcome of
        WaitInterrupted e \<Rightarrow> Some (leaveWaiterList n (Some e) s)
      | WaitTimeout \<Rightarrow> Some (leaveWaiterList n (Some WriteConcernFailed) s)
      | WaitNotified \<Rightarrow>
          if checkForStepDown (aw_opTime a) s \<noteq> StatusOK
          then Some (leaveWaiterList n (checkForStepDown (aw_opTime a) s) s)
          else awaitLoop n a s)"

definition awaitReplication :: "bool \<Rightarrow> Status \<Rightarrow> OpTime \<Rightarrow> WriteConcernOptions \<Rightarrow> ReplCoord \<Rightarrow> (AwaitResult \<times> ReplCoord) option" where
  "awaitReplication isLocked interrupt opTime wc s =
     awaitReplication_inlock isLocked interrupt
       \<lparr>aw_opTime = opTime, aw_minSnapshot = 0, aw_writeConcern = populateUnsetWriteConcernOptionsSyncMode wc s\<rparr> s"

text \<open>The optime and the snapshot are those of the client's last operation.\<close>

definition awaitReplicationOfLastOpForClient ::
  "bool \<Rightarrow> Status \<Rightarrow> OpTime \<Rightarrow> SnapshotName \<Rightarrow> WriteConcernOptions \<Rightarrow> ReplCoord \<Rightarrow> (AwaitResult \<times> ReplCoord) option" where
  "awaitReplicationOfLastOpForClient isLocked interrupt lastOp lastSnapshot wc s =
     awaitReplication_inlock isLocked interrupt
       \<lparr>aw_opTime = lastOp, aw_minSnapshot = lastSnapshot, aw_writeConcern = populateUnsetWriteConcernOptionsSyncMode wc s\<rparr> s"

section \<open>Waiting for an optime\<close>

definition currentReadOpTime :: "bool \<Rightarrow> ReplCoord \<Rightarrow> OpTime option" where
  "currentReadOpTime majority s =
     (if majority then Some (case rc_currentCommittedSnapshot s of Some sn \<Rightarrow> sn_opTime sn | None \<Rightarrow> OpTime_default)
      else getMyLastAppliedOpTime s)"

text \<open>
  One turn of the loop. A majority read waits for the next snapshot, without a waiter; another one enters
  the list with a new waiter, which is taken out when the wait ends.
\<close>

datatype ReadWaitResult = ReadDone Status | ReadWaitingSnapshot | ReadWaiting nat

definition readWaitLoop :: "bool \<Rightarrow> OpTime \<Rightarrow> ReplCoord \<Rightarrow> (ReadWaitResult \<times> ReplCoord) option" where
  "readWaitLoop majority target s =
     do { cur \<leftarrow> currentReadOpTime majority s;
          Some (if \<not> ot_gt target cur then (ReadDone StatusOK, s)
                else if rc_inShutdown s then (ReadDone (Some ShutdownInProgress), s)
                else if majority then (ReadWaitingSnapshot, s)
                else (let n = rc_nextWaiter s;
                          w = \<lparr>w_id = n, w_opTime = target, w_writeConcern = None, w_callback = False\<rparr> in
                      (ReadWaiting n, s\<lparr>rc_nextWaiter := Suc n, rc_opTimeWaiterList := rc_opTimeWaiterList s @ [w]\<rparr>))) }"

definition waitUntilOpTimeForRead :: "bool \<Rightarrow> bool \<Rightarrow> OpTime \<Rightarrow> ReplCoord \<Rightarrow> (ReadWaitResult \<times> ReplCoord) option" where
  "waitUntilOpTimeForRead isLocked majority target s =
     (if isLocked then Some (ReadDone (Some IllegalOperation), s)
      else if majority \<and> \<not> rs_majorityReadConcern (rc_settings s) then Some (ReadDone (Some ReadConcernMajorityNotEnabled), s)
      else if ot_isNull target then Some (ReadDone StatusOK, s)
      else if getReplicationMode s \<noteq> modeReplSet then Some (ReadDone (Some NotAReplicaSet), s)
      else if majority \<and> \<not> rc_snapshotsEnabled s then Some (ReadDone (Some CommandNotSupported), s)
      else readWaitLoop majority target s)"

definition waitUntilOpTimeForRead_resume ::
  "Status \<Rightarrow> nat option \<Rightarrow> bool \<Rightarrow> OpTime \<Rightarrow> ReplCoord \<Rightarrow> (ReadWaitResult \<times> ReplCoord) option" where
  "waitUntilOpTimeForRead_resume waitStatus waiter majority target s =
     (let s1 = (case waiter of
                  Some n \<Rightarrow> s\<lparr>rc_opTimeWaiterList := removeWaiter
                    \<lparr>w_id = n, w_opTime = target, w_writeConcern = None, w_callback = False\<rparr> (rc_opTimeWaiterList s)\<rparr>
                | None \<Rightarrow> s) in
      if waitStatus \<noteq> StatusOK then Some (ReadDone waitStatus, s1) else readWaitLoop majority target s1)"

end
