(* ===== verification/ReplOrder.thy ===== *)
theory ReplOrder
  imports ReplProgress "HOL-Library.Multiset"
begin

text \<open>
  Facts about optimes, lists of waiters and the order statistics behind the commit point, used by the proofs
  on replication progress.
\<close>

section \<open>Optimes of one protocol version\<close>

text \<open>
  Comparing optimes ignores the terms as soon as one of them is uninitialized, so \<open><\<close> is not transitive
  on all optimes. It is a linear order on those of one protocol version: in version 1 an optime is the default
  one or has a term, in version 0 no optime has a term. The order is that of the numbers \<open>rank\<close>.
\<close>

definition proper :: "bool \<Rightarrow> OpTime \<Rightarrow> bool" where
  "proper v1 x \<longleftrightarrow>
     (if v1 then x = OpTime_default \<or> (ot_term x \<ge> 0 \<and> \<not> ot_isNull x) else ot_term x = kUninitializedTerm)"

definition ts_value :: "Timestamp \<Rightarrow> int" where
  "ts_value t = uint (ts_secs t) * 2 ^ 32 + uint (ts_inc t)"

definition rank :: "OpTime \<Rightarrow> int" where
  "rank x = ot_term x * 2 ^ 64 + ts_value (ot_timestamp x)"

lemma word32_bounds: "0 \<le> uint (w :: 32 word)" "uint (w :: 32 word) < 4294967296"
  using uint_bounded [of w] by simp_all

lemma ts_value_bounds: "0 \<le> ts_value t" "ts_value t < 2 ^ 64"
  using word32_bounds [of "ts_secs t"] word32_bounds [of "ts_inc t"] by (simp_all add: ts_value_def)

lemma lex_less:
  fixes a b c d n :: int
  assumes "0 \<le> b" "b < n" "0 \<le> d" "d < n"
  shows "a * n + b < c * n + d \<longleftrightarrow> a < c \<or> (a = c \<and> b < d)"
proof -
  have "x * n + n \<le> y * n" if "x < y" for x y :: int
    using that assms mult_right_mono [of "x + 1" y n] by (simp add: distrib_right)
  then show ?thesis using assms by (smt (verit))
qed

lemma ts_less_value: "ts_less a b \<longleftrightarrow> ts_value a < ts_value b"
  using lex_less [of "uint (ts_inc a)" "2 ^ 32" "uint (ts_inc b)" "uint (ts_secs a)" "uint (ts_secs b)"] word32_bounds
  by (simp add: ts_less_def ts_value_def word_less_def word_uint_eq_iff)

lemma ts_value_inj: "ts_value a = ts_value b \<longleftrightarrow> a = b"
proof
  assume eq: "ts_value a = ts_value b"
  then have "\<not> ts_less a b" "\<not> ts_less b a" by (simp_all add: ts_less_value)
  then show "a = b" using ts_less_linear by blast
qed simp

lemma ts_value_null [simp]: "ts_value Timestamp_null = 0"
  by (simp add: ts_value_def Timestamp_null_def)

lemma rank_default: "rank OpTime_default = - (2 ^ 64)"
  by (simp add: rank_def OpTime_default_def kUninitializedTerm_def)

lemma proper_default [simp]: "proper v1 OpTime_default"
  by (simp add: proper_def OpTime_default_def)

lemma proper_pos:
  assumes "ot_term x \<ge> 0" "\<not> ot_isNull x"
  shows "0 < ts_value (ot_timestamp x)"
  using assms(2) ts_value_inj [of "ot_timestamp x" Timestamp_null] ts_value_bounds [of "ot_timestamp x"]
  by (auto simp: ot_isNull_def ts_isNull_def Timestamp_null_def ts_value_def intro: le_neq_trans)

lemma rank_less_terms:
  "(ot_term a < ot_term b \<or> (ot_term a = ot_term b \<and> ts_less (ot_timestamp a) (ot_timestamp b))) \<longleftrightarrow> rank a < rank b"
  using lex_less [OF ts_value_bounds ts_value_bounds] by (simp add: ts_less_value rank_def)

lemma rank_inj: "rank a = rank b \<longleftrightarrow> a = b"
proof
  assume "rank a = rank b"
  then have "\<not> rank a < rank b" "\<not> rank b < rank a" by simp_all
  then have "ot_term a = ot_term b" "\<not> ts_less (ot_timestamp a) (ot_timestamp b)" "\<not> ts_less (ot_timestamp b) (ot_timestamp a)"
    using rank_less_terms [of a b] rank_less_terms [of b a] by auto
  then show "a = b" using ts_less_linear [of "ot_timestamp a" "ot_timestamp b"] by simp
qed simp

lemma ot_less_rank:
  assumes "proper v1 a" "proper v1 b"
  shows "ot_less a b \<longleftrightarrow> rank a < rank b"
proof (cases "v1 \<and> (a = OpTime_default \<or> b = OpTime_default)")
  case True
  then have "a = OpTime_default \<and> b = OpTime_default \<or> a = OpTime_default \<and> b \<noteq> OpTime_default \<or> a \<noteq> OpTime_default \<and> b = OpTime_default"
    by blast
  then show ?thesis
  proof (elim disjE)
    assume e: "a = OpTime_default \<and> b \<noteq> OpTime_default"
    then have "ot_term b \<ge> 0" "\<not> ot_isNull b" using assms(2) True by (auto simp: proper_def)
    then show ?thesis using e proper_pos [of b] ts_value_bounds [of "ot_timestamp b"]
      by (simp add: ot_less_def OpTime_default_def ts_less_value rank_def kUninitializedTerm_def)
  next
    assume e: "a \<noteq> OpTime_default \<and> b = OpTime_default"
    then have "ot_term a \<ge> 0" "\<not> ot_isNull a" using assms(1) True by (auto simp: proper_def)
    then show ?thesis using e proper_pos [of a] ts_value_bounds [of "ot_timestamp a"]
      by (simp add: ot_less_def OpTime_default_def ts_less_value rank_def kUninitializedTerm_def)
  qed simp
next
  case False
  show ?thesis
  proof (cases v1)
    case True
    then have "ot_term a \<noteq> kUninitializedTerm" "ot_term b \<noteq> kUninitializedTerm"
      using False assms by (auto simp: proper_def kUninitializedTerm_def)
    then show ?thesis by (simp add: ot_less_def rank_less_terms)
  next
    case v0: False
    then have "ot_term a = kUninitializedTerm" "ot_term b = kUninitializedTerm" using assms by (simp_all add: proper_def)
    then show ?thesis using rank_less_terms [of a b] by (simp add: ot_less_def)
  qed
qed

lemma ot_eq_rank:
  assumes "proper v1 a" "proper v1 b"
  shows "ot_eq a b \<longleftrightarrow> rank a = rank b"
proof -
  have "ot_eq a b \<Longrightarrow> \<not> ot_less a b \<and> \<not> ot_less b a" by (auto simp: ot_eq_def ot_less_def split: if_splits)
  moreover have "rank a = rank b \<Longrightarrow> ot_eq a b" by (simp add: rank_inj ot_eq_def)
  ultimately show ?thesis using ot_less_rank [OF assms] ot_less_rank [OF assms(2,1)] by fastforce
qed

lemma ot_ranks:
  assumes "proper v1 a" "proper v1 b"
  shows "ot_less a b \<longleftrightarrow> rank a < rank b" "ot_eq a b \<longleftrightarrow> rank a = rank b" "ot_le a b \<longleftrightarrow> rank a \<le> rank b"
    "ot_gt a b \<longleftrightarrow> rank b < rank a" "ot_ge a b \<longleftrightarrow> rank b \<le> rank a"
  using ot_less_rank [OF assms] ot_eq_rank [OF assms] by (auto simp: ot_le_def ot_gt_def ot_ge_def)

section \<open>Order statistics\<close>

lemma insertOpTime_rank:
  assumes "proper v1 x" "\<forall>y\<in>set ys. proper v1 y"
  shows "map rank (insertOpTime x ys) = insort (rank x) (map rank ys)"
  using assms by (induction ys) (auto simp: ot_ranks)

lemma set_insertOpTime [simp]: "set (insertOpTime x ys) = insert x (set ys)"
  by (induction ys) auto

lemma set_sortOpTimes [simp]: "set (sortOpTimes xs) = set xs"
  by (induction xs) (auto simp: sortOpTimes_def)

lemma sortOpTimes_rank:
  assumes "\<forall>x\<in>set xs. proper v1 x"
  shows "map rank (sortOpTimes xs) = sort (map rank xs)"
  using assms
proof (induction xs)
  case (Cons x xs)
  moreover have "\<forall>y\<in>set (sortOpTimes xs). proper v1 y" using Cons.prems by simp
  ultimately show ?case using insertOpTime_rank [of v1 x "sortOpTimes xs"] by (simp add: sortOpTimes_def)
qed (simp add: sortOpTimes_def)

lemma length_sortOpTimes [simp]: "length (sortOpTimes xs) = length xs"
proof -
  have "length (insertOpTime x ys) = Suc (length ys)" for x ys by (induction ys) auto
  then show ?thesis by (induction xs) (auto simp: sortOpTimes_def)
qed

text \<open>The element \<open>k\<close> places before the end of an ascending list is reached by \<open>k\<close> elements, and is the largest such.\<close>

lemma count_if_mset: "count_if P xs = size (filter_mset P (mset xs))"
  by (simp add: count_if_def flip: mset_filter)

lemma count_if_sort: "count_if P (sort xs) = count_if P xs"
  by (simp add: count_if_mset)

lemma sorted_count_ge:
  fixes ys :: "int list"
  assumes "sorted ys" "k \<le> length ys" "0 < k"
  shows "k \<le> count_if (\<lambda>y. ys ! (length ys - k) \<le> y) ys"
proof -
  let ?i = "length ys - k"
  have "\<forall>y\<in>set (drop ?i ys). ys ! ?i \<le> y"
    using assms by (auto simp: in_set_conv_nth sorted_nth_mono)
  then have "count_if (\<lambda>y. ys ! ?i \<le> y) (drop ?i ys) = length (drop ?i ys)"
    by (simp add: count_if_def)
  moreover have "count_if (\<lambda>y. ys ! ?i \<le> y) ys = count_if (\<lambda>y. ys ! ?i \<le> y) (take ?i ys) + count_if (\<lambda>y. ys ! ?i \<le> y) (drop ?i ys)"
    by (metis append_take_drop_id count_if_simps(3))
  ultimately show ?thesis using assms(2) by simp
qed

lemma sorted_count_greatest:
  fixes ys :: "int list"
  assumes "sorted ys" "k \<le> length ys" "0 < k" "k \<le> count_if (\<lambda>y. t \<le> y) ys"
  shows "t \<le> ys ! (length ys - k)"
proof (rule ccontr)
  let ?i = "length ys - k"
  assume "\<not> t \<le> ys ! ?i"
  moreover have "y \<le> ys ! ?i" if "y \<in> set (take (Suc ?i) ys)" for y
    using that assms(2,3) by (auto simp: in_set_conv_nth intro!: sorted_nth_mono [OF assms(1)])
  ultimately have "\<forall>y\<in>set (take (Suc ?i) ys). \<not> t \<le> y" by fastforce
  then have "count_if (\<lambda>y. t \<le> y) (take (Suc ?i) ys) = 0" by (simp add: count_if_zero)
  moreover have "count_if (\<lambda>y. t \<le> y) ys = count_if (\<lambda>y. t \<le> y) (take (Suc ?i) ys) + count_if (\<lambda>y. t \<le> y) (drop (Suc ?i) ys)"
    by (metis append_take_drop_id count_if_simps(3))
  moreover have "count_if (\<lambda>y. t \<le> y) (drop (Suc ?i) ys) \<le> k - 1"
    using count_if_le_length [of "\<lambda>y. t \<le> y" "drop (Suc ?i) ys"] assms(2) by simp
  ultimately show False using assms(3,4) by simp
qed

section \<open>The loop over waiters\<close>

lemma butlast_swap_mset:
  assumes "i < length xs"
  shows "mset xs = add_mset (xs ! i) (mset (butlast (xs[i := last xs])))"
proof -
  obtain ys z where xs: "xs = ys @ [z]" using assms by (metis length_0_conv not_less_zero rev_exhaust)
  show ?thesis
  proof (cases "i = length ys")
    case True
    then show ?thesis by (simp add: xs)
  next
    case False
    then have i: "i < length ys" using assms by (simp add: xs)
    then have "butlast (xs[i := last xs]) = ys[i := z]" by (simp add: xs list_update_append)
    moreover have "mset ys = add_mset (ys ! i) (mset ys - {#ys ! i#})" using i by simp
    ultimately show ?thesis using i by (simp add: xs nth_append mset_update)
  qed
qed

lemma butlast_swap_set:
  assumes "i < length xs"
  shows "set (butlast (xs[i := last xs])) \<subseteq> set xs"
  using arg_cong [OF butlast_swap_mset [OF assms], of set_mset] by auto

declare signalLoop.simps [simp del]

lemma signalLoop_total:
  assumes "\<forall>x\<in>set xs. f x \<noteq> None"
  shows "signalLoop f i xs \<noteq> None"
  using assms
proof (induction f i xs rule: signalLoop.induct)
  case (1 f i xs)
  show ?case
  proof (cases "i < length xs")
    case True
    then obtain b where b: "f (xs ! i) = Some b" using 1(3) nth_mem by (metis not_None_eq)
    have "set (butlast (xs[i := last xs])) \<subseteq> set xs" by (rule butlast_swap_set [OF True])
    then have "\<forall>x\<in>set (butlast (xs[i := last xs])). f x \<noteq> None" using 1(3) by blast
    then show ?thesis using 1(1) [OF True b] 1(2) [OF True b] 1(3) True b
      by (cases b) (auto simp: signalLoop.simps [of f i xs])
  qed (simp add: signalLoop.simps)
qed

lemma signalLoop_spec:
  assumes "signalLoop f i xs = Some (sig, rest)" "\<forall>x\<in>set (take i xs). f x = Some False"
  shows "(\<forall>x\<in>set sig. f x = Some True) \<and> (\<forall>x\<in>set rest. f x = Some False) \<and> mset xs = mset sig + mset rest"
  using assms
proof (induction f i xs arbitrary: sig rest rule: signalLoop.induct)
  case (1 f i xs)
  show ?case
  proof (cases "i < length xs")
    case True
    then obtain b where b: "f (xs ! i) = Some b" using 1(3) by (auto simp: signalLoop.simps [of f i xs] bind_eq_Some_conv)
    show ?thesis
    proof (cases b)
      case False
      then have "signalLoop f (Suc i) xs = Some (sig, rest)" using 1(3) True b by (simp add: signalLoop.simps [of f i xs])
      moreover have "\<forall>x\<in>set (take (Suc i) xs). f x = Some False" using 1(4) b False True by (auto simp: take_Suc_conv_app_nth)
      ultimately show ?thesis using 1(1) [OF True b] False by blast
    next
      case hit: True
      let ?ys = "butlast (xs[i := last xs])"
      obtain sig' where s: "signalLoop f i ?ys = Some (sig', rest)" "sig = xs ! i # sig'"
        using 1(3) True b hit by (auto simp: signalLoop.simps [of f i xs] bind_eq_Some_conv)
      have "take i ?ys = take i xs" using True by (simp add: take_butlast)
      then have "(\<forall>x\<in>set sig'. f x = Some True) \<and> (\<forall>x\<in>set rest. f x = Some False) \<and> mset ?ys = mset sig' + mset rest"
        using 1(2) [OF True b _ s(1)] hit 1(4) by simp
      then show ?thesis using s(2) b hit butlast_swap_mset [OF True] by simp
    qed
  next
    case False
    then show ?thesis using 1(3,4) by (simp add: signalLoop.simps [of f i xs])
  qed
qed

lemma signalLoop_set:
  assumes "signalLoop f 0 xs = Some (sig, rest)"
  shows "set sig = {x \<in> set xs. f x = Some True}" "set rest = {x \<in> set xs. f x = Some False}" "mset xs = mset sig + mset rest"
proof -
  note p = signalLoop_spec [OF assms, simplified]
  have "set xs = set sig \<union> set rest" using p by (metis set_mset_mset set_mset_union)
  then show "set sig = {x \<in> set xs. f x = Some True}" "set rest = {x \<in> set xs. f x = Some False}" "mset xs = mset sig + mset rest"
    using p by auto
qed

lemma removeWaiter_set: "set (removeWaiter w ws) \<subseteq> set ws"
proof -
  let ?i = "findIndex (\<lambda>w'. w_id w' = w_id w) ws"
  have "set (butlast (ws[?i := last ws])) \<subseteq> set ws" if "ws \<noteq> []"
    using set_update_subset_insert [of ws ?i "last ws"] last_in_set [OF that] by (auto dest: in_set_butlastD)
  then show ?thesis by (cases "ws = []") (auto simp: removeWaiter_def)
qed

lemma removeWaiter_mset:
  assumes "\<exists>w'\<in>set ws. w_id w' = w_id w"
  shows "\<exists>w'. w_id w' = w_id w \<and> mset ws = add_mset w' (mset (removeWaiter w ws))"
proof -
  let ?P = "\<lambda>w'. w_id w' = w_id w"
  have i: "findIndex ?P ws < length ws" using assms by (simp add: findIndex_less)
  show ?thesis using findIndex_sat [OF i] butlast_swap_mset [OF i] i by (auto simp: removeWaiter_def)
qed

lemma removeWaiter_id:
  assumes "distinct (map w_id ws)"
  shows "set (removeWaiter w ws) = {w' \<in> set ws. w_id w' \<noteq> w_id w}" "distinct (map w_id (removeWaiter w ws))"
proof -
  have "set (removeWaiter w ws) = {w' \<in> set ws. w_id w' \<noteq> w_id w} \<and> distinct (map w_id (removeWaiter w ws))"
  proof (cases "\<exists>w'\<in>set ws. w_id w' = w_id w")
    case True
    then obtain w' where w': "w_id w' = w_id w" "mset ws = add_mset w' (mset (removeWaiter w ws))" using removeWaiter_mset by blast
    then have "mset (map w_id ws) = mset (map w_id (w' # removeWaiter w ws))" by simp
    then have "distinct (map w_id (w' # removeWaiter w ws))" using assms mset_eq_imp_distinct_iff by blast
    moreover have "set ws = insert w' (set (removeWaiter w ws))" using w'(2) by (metis set_mset_add_mset_insert set_mset_mset)
    ultimately show ?thesis using w'(1) by (auto simp: image_iff)
  next
    case False
    then have "findIndex (\<lambda>w'. w_id w' = w_id w) ws = length ws"
      using findIndex_less [of "\<lambda>w'. w_id w' = w_id w" ws] findIndex_le [of "\<lambda>w'. w_id w' = w_id w" ws] by simp
    then show ?thesis using False assms by (auto simp: removeWaiter_def)
  qed
  then show "set (removeWaiter w ws) = {w' \<in> set ws. w_id w' \<noteq> w_id w}" "distinct (map w_id (removeWaiter w ws))" by blast+
qed

end
