(* ===== verification/ReplProgressInv.thy ===== *)
theory ReplProgressInv
  imports ReplOrder
begin

text \<open>
  The invariant of replication progress, and what the operations on it do: they return, keep the
  invariant, and leave no waiter behind whose write concern is met.
\<close>

section \<open>The invariant\<close>

definition pcfg_ok :: "ReplSetConfig \<Rightarrow> bool" where
  "pcfg_ok c \<longleftrightarrow> distinct (map mc_id (c_members c)) \<and> 0 < c_writeMajority c \<and> (\<exists>m\<in>set (c_members c). isVoter m) \<and>
     (\<forall>(n, p)\<in>set (c_customWriteConcernModes c). distinct (map fst p))"

text \<open>The entries follow the members of the configuration; without a place in it there is one entry.\<close>

definition aligned :: "ReplCoord \<Rightarrow> bool" where
  "aligned s \<longleftrightarrow>
     rs_usingReplSets (rc_settings s) \<and>
     (if rc_selfIndex s = -1 then length (rc_slaveInfo s) = 1
      else 0 \<le> rc_selfIndex s \<and> rc_selfIndex s < int (length (rc_slaveInfo s)) \<and>
           map si_memberId (rc_slaveInfo s) = map mc_id (c_members (rc_rsConfig s)) \<and> pcfg_ok (rc_rsConfig s))"

definition slave_ok :: "bool \<Rightarrow> SlaveInfo \<Rightarrow> bool" where
  "slave_ok v1 si \<longleftrightarrow>
     proper v1 (si_lastAppliedOpTime si) \<and> proper v1 (si_lastDurableOpTime si)"

definition snap_follows :: "SnapshotInfo \<Rightarrow> SnapshotInfo \<Rightarrow> bool" where
  "snap_follows a b \<longleftrightarrow> rank (sn_opTime a) \<le> rank (sn_opTime b) \<and> sn_name a < sn_name b"

text \<open>Committed snapshot, commit point, uncommitted snapshots, in this order.\<close>

definition snaps_ok :: "bool \<Rightarrow> ReplCoord \<Rightarrow> bool" where
  "snaps_ok v1 s \<longleftrightarrow>
     proper v1 (rc_lastCommittedOpTime s) \<and> proper v1 (rc_firstOpTimeOfMyTerm s) \<and>
     (\<forall>u\<in>set (rc_uncommittedSnapshots s). proper v1 (sn_opTime u) \<and> \<not> ot_isNull (sn_opTime u) \<and>
        rank (rc_lastCommittedOpTime s) < rank (sn_opTime u)) \<and>
     sorted_wrt snap_follows (rc_uncommittedSnapshots s) \<and>
     (\<forall>cur. rc_currentCommittedSnapshot s = Some cur \<longrightarrow>
        proper v1 (sn_opTime cur) \<and> rank (sn_opTime cur) \<le> rank (rc_lastCommittedOpTime s) \<and>
        (\<forall>u\<in>set (rc_uncommittedSnapshots s). sn_name cur < sn_name u))"

definition write_waiter :: "Waiter \<Rightarrow> bool" where
  "write_waiter w \<longleftrightarrow> \<not> w_callback w \<and> (\<exists>wc. w_writeConcern w = Some wc \<and> wc_syncMode wc \<noteq> SyncUnset)"

text \<open>
  Only a primary has threads that wait for a write concern, and only a primary catches up. A callback in the list
  of optime waiters is the one of the catch-up.
\<close>

definition waiters_ok :: "ReplCoord \<Rightarrow> bool" where
  "waiters_ok s \<longleftrightarrow>
     (\<forall>w\<in>set (rc_replicationWaiterList s). write_waiter w \<and> w_id w < rc_nextWaiter s) \<and>
     distinct (map w_id (rc_replicationWaiterList s)) \<and>
     (rc_replicationWaiterList s \<noteq> [] \<longrightarrow> rc_memberState s = RS_PRIMARY) \<and>
     (\<forall>w\<in>set (rc_opTimeWaiterList s). w_id w < rc_nextWaiter s \<and>
        (w_callback w \<longrightarrow> (\<exists>cu. rc_catchupState s = Some cu \<and> cu_waiter cu = Some w))) \<and>
     distinct (map w_id (rc_opTimeWaiterList s)) \<and>
     (rc_catchupState s \<noteq> None \<longrightarrow> rc_memberState s = RS_PRIMARY) \<and>
     (\<forall>cu w. rc_catchupState s = Some cu \<and> cu_waiter cu = Some w \<longrightarrow> w_id w < rc_nextWaiter s)"

definition progress_ok :: "bool \<Rightarrow> ReplCoord \<Rightarrow> bool" where
  "progress_ok v1 s \<longleftrightarrow>
     aligned s \<and> (\<forall>si\<in>set (rc_slaveInfo s). slave_ok v1 si) \<and> snaps_ok v1 s \<and> waiters_ok s \<and>
     (rc_memberState s = RS_PRIMARY \<longrightarrow> rc_selfIndex s \<noteq> -1) \<and>
     (\<forall>w\<in>set (rc_replicationWaiterList s). proper v1 (w_opTime w))"

definition waiter_done :: "ReplCoord \<Rightarrow> Waiter \<Rightarrow> bool option" where
  "waiter_done s w = do { wc \<leftarrow> w_writeConcern w; doneWaitingForReplication (w_opTime w) 0 wc s }"

text \<open>No thread in the list waits for something that has happened.\<close>

definition quiet :: "ReplCoord \<Rightarrow> bool" where
  "quiet s \<longleftrightarrow> (\<forall>w\<in>set (rc_replicationWaiterList s). waiter_done s w = Some False)"

text \<open>Each part of the invariant reads a few fields only.\<close>

lemma aligned_upd [simp]:
  "aligned (rc_topCoord_update f1 s) = aligned s" "aligned (rc_rsConfigState_update f2 s) = aligned s"
  "aligned (rc_memberState_update f3 s) = aligned s" "aligned (rc_applierState_update f4 s) = aligned s"
  "aligned (rc_canAcceptNonLocalWrites_update f5 s) = aligned s" "aligned (rc_canServeNonLocalReads_update f6 s) = aligned s"
  "aligned (rc_stepDownPending_update f7 s) = aligned s" "aligned (rc_cachedTerm_update f8 s) = aligned s"
  "aligned (rc_electionId_update f9 s) = aligned s" "aligned (rc_catchupState_update f10 s) = aligned s"
  "aligned (rc_lastCommittedOpTime_update f11 s) = aligned s" "aligned (rc_firstOpTimeOfMyTerm_update f12 s) = aligned s"
  "aligned (rc_uncommittedSnapshots_update f13 s) = aligned s" "aligned (rc_currentCommittedSnapshot_update f14 s) = aligned s"
  "aligned (rc_snapshotNameGenerator_update f15 s) = aligned s" "aligned (rc_replicationWaiterList_update f16 s) = aligned s"
  "aligned (rc_opTimeWaiterList_update f17 s) = aligned s" "aligned (rc_nextWaiter_update f18 s) = aligned s"
  "aligned (rc_snapshotsEnabled_update f19 s) = aligned s" "aligned (rc_isDurableStorageEngine_update f20 s) = aligned s"
  "aligned (rc_executorRunning_update f21 s) = aligned s" "aligned (rc_inShutdown_update f22 s) = aligned s"
  "aligned (rc_livenessTimer_update f23 s) = aligned s" "aligned (rc_earliestMemberId_update f24 s) = aligned s"
  "aligned (rc_electionTimer_update f25 s) = aligned s" "aligned (rc_priorityTakeover_update f26 s) = aligned s"
  "aligned (rc_calls_update f27 s) = aligned s"
  by (simp_all add: aligned_def)

lemma snaps_ok_upd [simp]:
  "snaps_ok v1 (rc_settings_update f28 s) = snaps_ok v1 s" "snaps_ok v1 (rc_topCoord_update f29 s) = snaps_ok v1 s"
  "snaps_ok v1 (rc_rsConfigState_update f30 s) = snaps_ok v1 s" "snaps_ok v1 (rc_rsConfig_update f31 s) = snaps_ok v1 s"
  "snaps_ok v1 (rc_selfIndex_update f32 s) = snaps_ok v1 s" "snaps_ok v1 (rc_memberState_update f33 s) = snaps_ok v1 s"
  "snaps_ok v1 (rc_applierState_update f34 s) = snaps_ok v1 s" "snaps_ok v1 (rc_canAcceptNonLocalWrites_update f35 s) = snaps_ok v1 s"
  "snaps_ok v1 (rc_canServeNonLocalReads_update f36 s) = snaps_ok v1 s"
  "snaps_ok v1 (rc_stepDownPending_update f37 s) = snaps_ok v1 s" "snaps_ok v1 (rc_cachedTerm_update f38 s) = snaps_ok v1 s"
  "snaps_ok v1 (rc_electionId_update f39 s) = snaps_ok v1 s" "snaps_ok v1 (rc_catchupState_update f40 s) = snaps_ok v1 s"
  "snaps_ok v1 (rc_slaveInfo_update f41 s) = snaps_ok v1 s" "snaps_ok v1 (rc_snapshotNameGenerator_update f42 s) = snaps_ok v1 s"
  "snaps_ok v1 (rc_replicationWaiterList_update f43 s) = snaps_ok v1 s"
  "snaps_ok v1 (rc_opTimeWaiterList_update f44 s) = snaps_ok v1 s" "snaps_ok v1 (rc_nextWaiter_update f45 s) = snaps_ok v1 s"
  "snaps_ok v1 (rc_snapshotsEnabled_update f46 s) = snaps_ok v1 s"
  "snaps_ok v1 (rc_isDurableStorageEngine_update f47 s) = snaps_ok v1 s"
  "snaps_ok v1 (rc_executorRunning_update f48 s) = snaps_ok v1 s" "snaps_ok v1 (rc_inShutdown_update f49 s) = snaps_ok v1 s"
  "snaps_ok v1 (rc_livenessTimer_update f50 s) = snaps_ok v1 s" "snaps_ok v1 (rc_earliestMemberId_update f51 s) = snaps_ok v1 s"
  "snaps_ok v1 (rc_electionTimer_update f52 s) = snaps_ok v1 s" "snaps_ok v1 (rc_priorityTakeover_update f53 s) = snaps_ok v1 s"
  "snaps_ok v1 (rc_calls_update f54 s) = snaps_ok v1 s"
  by (simp_all add: snaps_ok_def)

lemma waiters_ok_upd [simp]:
  "waiters_ok (rc_settings_update f55 s) = waiters_ok s" "waiters_ok (rc_topCoord_update f56 s) = waiters_ok s"
  "waiters_ok (rc_rsConfigState_update f57 s) = waiters_ok s" "waiters_ok (rc_rsConfig_update f58 s) = waiters_ok s"
  "waiters_ok (rc_selfIndex_update f59 s) = waiters_ok s" "waiters_ok (rc_applierState_update f60 s) = waiters_ok s"
  "waiters_ok (rc_canAcceptNonLocalWrites_update f61 s) = waiters_ok s"
  "waiters_ok (rc_canServeNonLocalReads_update f62 s) = waiters_ok s" "waiters_ok (rc_stepDownPending_update f63 s) = waiters_ok s"
  "waiters_ok (rc_cachedTerm_update f64 s) = waiters_ok s" "waiters_ok (rc_electionId_update f65 s) = waiters_ok s"
  "waiters_ok (rc_slaveInfo_update f66 s) = waiters_ok s" "waiters_ok (rc_lastCommittedOpTime_update f67 s) = waiters_ok s"
  "waiters_ok (rc_firstOpTimeOfMyTerm_update f68 s) = waiters_ok s" "waiters_ok (rc_uncommittedSnapshots_update f69 s) = waiters_ok s"
  "waiters_ok (rc_currentCommittedSnapshot_update f70 s) = waiters_ok s"
  "waiters_ok (rc_snapshotNameGenerator_update f71 s) = waiters_ok s" "waiters_ok (rc_snapshotsEnabled_update f72 s) = waiters_ok s"
  "waiters_ok (rc_isDurableStorageEngine_update f73 s) = waiters_ok s" "waiters_ok (rc_executorRunning_update f74 s) = waiters_ok s"
  "waiters_ok (rc_inShutdown_update f75 s) = waiters_ok s" "waiters_ok (rc_livenessTimer_update f76 s) = waiters_ok s"
  "waiters_ok (rc_earliestMemberId_update f77 s) = waiters_ok s" "waiters_ok (rc_electionTimer_update f78 s) = waiters_ok s"
  "waiters_ok (rc_priorityTakeover_update f79 s) = waiters_ok s" "waiters_ok (rc_calls_update f80 s) = waiters_ok s"
  by (simp_all add: waiters_ok_def)

lemma progress_ok_upd [simp]:
  "progress_ok v1 (rc_topCoord_update f81 s) = progress_ok v1 s" "progress_ok v1 (rc_rsConfigState_update f82 s) = progress_ok v1 s"
  "progress_ok v1 (rc_applierState_update f83 s) = progress_ok v1 s"
  "progress_ok v1 (rc_canAcceptNonLocalWrites_update f84 s) = progress_ok v1 s"
  "progress_ok v1 (rc_canServeNonLocalReads_update f85 s) = progress_ok v1 s"
  "progress_ok v1 (rc_stepDownPending_update f86 s) = progress_ok v1 s"
  "progress_ok v1 (rc_cachedTerm_update f87 s) = progress_ok v1 s" "progress_ok v1 (rc_electionId_update f88 s) = progress_ok v1 s"
  "progress_ok v1 (rc_snapshotNameGenerator_update f89 s) = progress_ok v1 s"
  "progress_ok v1 (rc_snapshotsEnabled_update f90 s) = progress_ok v1 s"
  "progress_ok v1 (rc_isDurableStorageEngine_update f91 s) = progress_ok v1 s"
  "progress_ok v1 (rc_executorRunning_update f92 s) = progress_ok v1 s"
  "progress_ok v1 (rc_inShutdown_update f93 s) = progress_ok v1 s" "progress_ok v1 (rc_livenessTimer_update f94 s) = progress_ok v1 s"
  "progress_ok v1 (rc_earliestMemberId_update f95 s) = progress_ok v1 s"
  "progress_ok v1 (rc_electionTimer_update f96 s) = progress_ok v1 s"
  "progress_ok v1 (rc_priorityTakeover_update f97 s) = progress_ok v1 s" "progress_ok v1 (rc_calls_update f98 s) = progress_ok v1 s"
  by (simp_all add: progress_ok_def)

lemma progress_okD:
  assumes "progress_ok v1 s"
  shows "aligned s" "\<forall>si\<in>set (rc_slaveInfo s). slave_ok v1 si" "snaps_ok v1 s" "waiters_ok s"
    "rc_memberState s = RS_PRIMARY \<Longrightarrow> rc_selfIndex s \<noteq> -1" "\<forall>w\<in>set (rc_replicationWaiterList s). proper v1 (w_opTime w)"
  using assms by (auto simp: progress_ok_def)

section \<open>What the functions that only read return\<close>

lemma replset_mode: "aligned s \<Longrightarrow> getReplicationMode s = modeReplSet"
  by (simp add: aligned_def getReplicationMode_def getReplicationModeFromSettings_def)

definition myIndex :: "ReplCoord \<Rightarrow> int" where
  "myIndex s = (if rc_selfIndex s = -1 then 0 else rc_selfIndex s)"

lemma my_index:
  assumes "aligned s"
  shows "getMyIndexInSlaveInfo s = Some (myIndex s)" "0 \<le> myIndex s" "myIndex s < int (length (rc_slaveInfo s))"
    "nth_opt (rc_slaveInfo s) (myIndex s) = Some (rc_slaveInfo s ! nat (myIndex s))"
    "rc_slaveInfo s ! nat (myIndex s) \<in> set (rc_slaveInfo s)"
  using assms replset_mode [OF assms]
  by (auto simp: getMyIndexInSlaveInfo_def aligned_def myIndex_def nth_opt_def split: if_splits)

lemma my_optimes:
  assumes "aligned s"
  shows "mySlaveInfo s = Some (rc_slaveInfo s ! nat (myIndex s))"
    "getMyLastAppliedOpTime s = Some (si_lastAppliedOpTime (rc_slaveInfo s ! nat (myIndex s)))"
    "getMyLastDurableOpTime s = Some (si_lastDurableOpTime (rc_slaveInfo s ! nat (myIndex s)))"
  using my_index [OF assms] by (simp_all add: mySlaveInfo_def getMyLastAppliedOpTime_def getMyLastDurableOpTime_def)

lemma member_of_slave:
  assumes "aligned s" "rc_selfIndex s \<noteq> -1" "si \<in> set (rc_slaveInfo s)"
  shows "\<exists>m\<in>set (c_members (rc_rsConfig s)). findMemberByID (rc_rsConfig s) (si_memberId si) = Some m \<and> mc_id m = si_memberId si"
proof -
  have "set (map si_memberId (rc_slaveInfo s)) = set (map mc_id (c_members (rc_rsConfig s)))"
    using assms(1,2) by (simp only: aligned_def if_False)
  then have "si_memberId si \<in> mc_id ` set (c_members (rc_rsConfig s))" using assms(3) by force
  then show ?thesis unfolding findMemberByID_def
    by (cases "List.find (\<lambda>m. mc_id m = si_memberId si) (c_members (rc_rsConfig s))")
      (auto simp: find_None_iff find_Some_iff)
qed

lemma taggedNodesLoop_total:
  assumes "\<forall>si\<in>set sis. findMemberByID c (si_memberId si) \<noteq> None"
  shows "\<exists>b. taggedNodesLoop c P m sis = Some b"
  using assms by (induction sis arbitrary: m) (auto split: prod.split bool.split)

lemma haveTagged_total:
  assumes "aligned s" "rc_selfIndex s \<noteq> -1"
  shows "\<exists>b. haveTaggedNodesReachedOpTime x p d s = Some b"
  unfolding haveTaggedNodesReachedOpTime_def using member_of_slave [OF assms] by (intro taggedNodesLoop_total) force

lemma haveNumNodes_total: "aligned s \<Longrightarrow> \<exists>b. haveNumNodesReachedOpTime x n d s = Some b"
  by (auto simp: haveNumNodesReachedOpTime_def my_optimes)

lemma doneWaiting_total:
  assumes "aligned s" "rc_selfIndex s \<noteq> -1" "wc_syncMode wc \<noteq> SyncUnset"
  shows "\<exists>b. doneWaitingForReplication x n wc s = Some b"
  using haveTagged_total [OF assms(1,2)] haveNumNodes_total [OF assms(1)] assms(3)
  by (auto simp: doneWaitingForReplication_def split: sum.split)

section \<open>What the answer depends on\<close>

definition progress_view :: "ReplCoord \<Rightarrow> (int \<times> OpTime \<times> OpTime) list" where
  "progress_view s = map (\<lambda>si. (si_memberId si, si_lastDurableOpTime si, si_lastAppliedOpTime si)) (rc_slaveInfo s)"

abbreviation reached_view :: "bool \<Rightarrow> SlaveInfo list \<Rightarrow> (int \<times> OpTime) list" where
  "reached_view d sis \<equiv> map (\<lambda>si. (si_memberId si, progress d si)) sis"

lemma view_progress:
  assumes "progress_view s' = progress_view s"
  shows "reached_view d (rc_slaveInfo s') = reached_view d (rc_slaveInfo s)"
proof -
  have "reached_view d (rc_slaveInfo x) = map (\<lambda>(i, u, a). (i, if d then u else a)) (progress_view x)" for x
    by (simp add: progress_view_def progress_def comp_def)
  then show ?thesis using assms by simp
qed

lemma view_Cons:
  assumes "reached_view d (x # xs) = reached_view d ys"
  obtains y ys' where "ys = y # ys'" "si_memberId y = si_memberId x" "progress d y = progress d x" "reached_view d xs = reached_view d ys'"
  using assms by (cases ys) auto

lemma numNodesLoop_view:
  "reached_view d xs = reached_view d ys \<Longrightarrow>
   numNodesLoop (\<lambda>si. P (progress d si)) n xs = numNodesLoop (\<lambda>si. P (progress d si)) n ys"
proof (induction xs arbitrary: ys n)
  case (Cons x xs)
  from Cons.prems obtain y ys' where ys: "ys = y # ys'" "si_memberId y = si_memberId x" "progress d y = progress d x"
    "reached_view d xs = reached_view d ys'" by (rule view_Cons)
  show ?case using Cons.IH [OF ys(4)] by (simp add: ys(1-3))
qed simp

lemma taggedNodesLoop_view:
  "reached_view d xs = reached_view d ys \<Longrightarrow>
   taggedNodesLoop c (\<lambda>si. P (progress d si)) m xs = taggedNodesLoop c (\<lambda>si. P (progress d si)) m ys"
proof (induction xs arbitrary: ys m)
  case (Cons x xs)
  from Cons.prems obtain y ys' where ys: "ys = y # ys'" "si_memberId y = si_memberId x" "progress d y = progress d x"
    "reached_view d xs = reached_view d ys'" by (rule view_Cons)
  show ?case using Cons.IH [OF ys(4)] unfolding ys(1)
    by (cases "findMemberByID c (si_memberId x)") (simp_all add: ys(2,3) split: prod.split bool.split)
qed simp

definition same_view :: "ReplCoord \<Rightarrow> ReplCoord \<Rightarrow> bool" where
  "same_view s s' \<longleftrightarrow>
     rc_settings s' = rc_settings s \<and> rc_rsConfig s' = rc_rsConfig s \<and> rc_selfIndex s' = rc_selfIndex s \<and>
     rc_snapshotsEnabled s' = rc_snapshotsEnabled s \<and> progress_view s' = progress_view s"

lemma doneWaiting_view:
  assumes "same_view s s'" "aligned s" "aligned s'"
    "rc_currentCommittedSnapshot s' = rc_currentCommittedSnapshot s"
  shows "doneWaitingForReplication x n wc s' = doneWaitingForReplication x n wc s"
proof -
  have l: "reached_view d (rc_slaveInfo s') = reached_view d (rc_slaveInfo s)" for d
    using assms(1) by (intro view_progress) (simp add: same_view_def)
  have i: "myIndex s' = myIndex s" using assms(1) by (simp add: same_view_def myIndex_def)
  have "progress d (rc_slaveInfo s' ! nat (myIndex s)) = progress d (rc_slaveInfo s ! nat (myIndex s))" for d
    using arg_cong [OF l [of d], of "\<lambda>xs. xs ! nat (myIndex s)"] my_index(2,3) [OF assms(2)] my_index(2,3) [OF assms(3)] i by simp
  then have n: "haveNumNodesReachedOpTime x k d s' = haveNumNodesReachedOpTime x k d s" for k d
    using numNodesLoop_view [OF l, of "\<lambda>y. ot_ge y x"] i by (simp add: haveNumNodesReachedOpTime_def my_optimes assms(2,3))
  have t: "haveTaggedNodesReachedOpTime x p d s' = haveTaggedNodesReachedOpTime x p d s" for p d
    using taggedNodesLoop_view [OF l, of _ "\<lambda>y. ot_ge y x"] assms(1) by (simp add: haveTaggedNodesReachedOpTime_def same_view_def)
  have c: "rc_checkIfWriteConcernCanBeSatisfied wc s' = rc_checkIfWriteConcernCanBeSatisfied wc s"
    using assms(1,2,3) by (simp add: rc_checkIfWriteConcernCanBeSatisfied_def replset_mode same_view_def)
  have h: "haveSnapshot x n s' = haveSnapshot x n s" using assms(4) by (simp add: haveSnapshot_def)
  show ?thesis using assms(1) unfolding doneWaitingForReplication_def n t c h by (simp add: same_view_def)
qed

lemma waiter_done_view:
  assumes "same_view s s'" "aligned s" "aligned s'" "rc_currentCommittedSnapshot s' = rc_currentCommittedSnapshot s"
  shows "waiter_done s' w = waiter_done s w"
  using doneWaiting_view [OF assms] by (cases "w_writeConcern w") (simp_all add: waiter_done_def)

section \<open>Waking\<close>

text \<open>
  Waiters leave the list only when they are notified, with their write concern met. The committed snapshot only
  moves forward.
\<close>

definition woken :: "ReplCoord \<Rightarrow> ReplCoord \<Rightarrow> bool" where
  "woken s s' \<longleftrightarrow>
     set (rc_replicationWaiterList s') \<subseteq> set (rc_replicationWaiterList s) \<and>
     (distinct (map w_id (rc_replicationWaiterList s)) \<longrightarrow> distinct (map w_id (rc_replicationWaiterList s'))) \<and>
     (\<exists>cs. rc_calls s' = rc_calls s @ cs) \<and>
     (\<forall>a. rc_currentCommittedSnapshot s = Some a \<longrightarrow>
        (\<exists>b. rc_currentCommittedSnapshot s' = Some b \<and> rank (sn_opTime a) \<le> rank (sn_opTime b))) \<and>
     (\<forall>w\<in>set (rc_replicationWaiterList s). w \<in> set (rc_replicationWaiterList s') \<or>
        NotifyWaiter (w_id w) \<in> set (rc_calls s') \<and> waiter_done s' w = Some True)"

lemma woken_refl [simp]: "woken s s"
  by (simp add: woken_def)

lemma woken_trans:
  assumes "woken s s1" "woken s1 s2"
    "\<And>w. w \<in> set (rc_replicationWaiterList s) \<Longrightarrow> waiter_done s1 w = Some True \<Longrightarrow> waiter_done s2 w = Some True"
  shows "woken s s2"
  using assms unfolding woken_def by (fastforce intro: order_trans)

lemma woken_from:
  assumes "woken s1 s2" "rc_replicationWaiterList s1 = rc_replicationWaiterList s" "\<exists>cs. rc_calls s1 = rc_calls s @ cs"
    "\<And>a. rc_currentCommittedSnapshot s = Some a \<Longrightarrow>
      \<exists>b. rc_currentCommittedSnapshot s1 = Some b \<and> rank (sn_opTime a) \<le> rank (sn_opTime b)"
  shows "woken s s2"
  using assms unfolding woken_def by (fastforce intro: order_trans)

text \<open>The parts of the state that the commit point touches.\<close>

definition commit_frame :: "ReplCoord \<Rightarrow> ReplCoord \<Rightarrow> bool" where
  "commit_frame s s' \<longleftrightarrow>
     s' = s\<lparr>rc_lastCommittedOpTime := rc_lastCommittedOpTime s', rc_uncommittedSnapshots := rc_uncommittedSnapshots s',
            rc_currentCommittedSnapshot := rc_currentCommittedSnapshot s',
            rc_replicationWaiterList := rc_replicationWaiterList s', rc_calls := rc_calls s'\<rparr>"

lemma commit_frame_refl [simp]: "commit_frame s s"
  by (simp add: commit_frame_def)

lemma commit_frameI:
  "s' = s\<lparr>rc_lastCommittedOpTime := a, rc_uncommittedSnapshots := b, rc_currentCommittedSnapshot := c,
     rc_replicationWaiterList := d, rc_calls := e\<rparr> \<Longrightarrow> commit_frame s s'"
  by (simp add: commit_frame_def)

lemma commit_frame_upd:
  "commit_frame s (s\<lparr>rc_lastCommittedOpTime := a, rc_uncommittedSnapshots := b, rc_currentCommittedSnapshot := c,
     rc_replicationWaiterList := d, rc_calls := e\<rparr>)"
  "commit_frame s (s\<lparr>rc_replicationWaiterList := d, rc_calls := e\<rparr>)"
  by (simp_all add: commit_frame_def)

lemma commit_frame_fields:
  assumes "commit_frame s s'"
  shows "rc_settings s' = rc_settings s" "rc_topCoord s' = rc_topCoord s" "rc_rsConfigState s' = rc_rsConfigState s"
    "rc_rsConfig s' = rc_rsConfig s" "rc_selfIndex s' = rc_selfIndex s" "rc_memberState s' = rc_memberState s"
    "rc_applierState s' = rc_applierState s" "rc_canAcceptNonLocalWrites s' = rc_canAcceptNonLocalWrites s"
    "rc_canServeNonLocalReads s' = rc_canServeNonLocalReads s" "rc_stepDownPending s' = rc_stepDownPending s"
    "rc_cachedTerm s' = rc_cachedTerm s" "rc_electionId s' = rc_electionId s" "rc_catchupState s' = rc_catchupState s"
    "rc_slaveInfo s' = rc_slaveInfo s" "rc_firstOpTimeOfMyTerm s' = rc_firstOpTimeOfMyTerm s"
    "rc_opTimeWaiterList s' = rc_opTimeWaiterList s" "rc_nextWaiter s' = rc_nextWaiter s"
    "rc_snapshotsEnabled s' = rc_snapshotsEnabled s" "rc_executorRunning s' = rc_executorRunning s"
    "rc_inShutdown s' = rc_inShutdown s"
  by (subst assms [unfolded commit_frame_def], simp)+

lemma commit_frame_trans:
  assumes "commit_frame s s1" "commit_frame s1 s2"
  shows "commit_frame s s2"
  unfolding commit_frame_def by (subst assms(2) [unfolded commit_frame_def], subst assms(1) [unfolded commit_frame_def]) simp

lemma notify_threads:
  "\<forall>w\<in>set ws. \<not> w_callback w \<Longrightarrow> foldM notifyWaiter ws s = Some (s\<lparr>rc_calls := rc_calls s @ map (\<lambda>w. NotifyWaiter (w_id w)) ws\<rparr>)"
  by (induction ws arbitrary: s) (simp_all add: notifyWaiter_def call_def)

lemma progress_ok_list:
  assumes "progress_ok v1 s" "set ws \<subseteq> set (rc_replicationWaiterList s)" "distinct (map w_id ws)"
  shows "progress_ok v1 (s\<lparr>rc_replicationWaiterList := ws, rc_calls := cs\<rparr>)"
  using assms by (auto simp: progress_ok_def waiters_ok_def)

lemma wakeReadyWaiters_ok:
  assumes "progress_ok v1 s"
  shows "\<exists>s'. wakeReadyWaiters s = Some s' \<and> progress_ok v1 s' \<and> quiet s' \<and> woken s s' \<and>
    s' = s\<lparr>rc_replicationWaiterList := rc_replicationWaiterList s', rc_calls := rc_calls s'\<rparr>"
proof -
  note ok = progress_okD [OF assms]
  let ?f = "\<lambda>w. do { wc \<leftarrow> w_writeConcern w; doneWaitingForReplication (w_opTime w) 0 wc s }"
  let ?ws = "rc_replicationWaiterList s"
  have ws: "\<forall>w\<in>set ?ws. write_waiter w" "distinct (map w_id ?ws)" "?ws \<noteq> [] \<Longrightarrow> rc_selfIndex s \<noteq> -1"
    using ok(4,5) by (auto simp: waiters_ok_def)
  have "\<forall>w\<in>set ?ws. ?f w \<noteq> None"
  proof
    fix w assume w: "w \<in> set ?ws"
    then obtain wc where "w_writeConcern w = Some wc" "wc_syncMode wc \<noteq> SyncUnset" using ws(1) by (auto simp: write_waiter_def)
    moreover have "rc_selfIndex s \<noteq> -1" using w ws(3) by fastforce
    ultimately show "?f w \<noteq> None" using doneWaiting_total [OF ok(1)] by fastforce
  qed
  from signalLoop_total [OF this, of 0] obtain sig rest where l: "signalLoop ?f 0 ?ws = Some (sig, rest)" by auto
  note p = signalLoop_set [OF l]
  let ?s' = "s\<lparr>rc_replicationWaiterList := rest, rc_calls := rc_calls s @ map (\<lambda>w. NotifyWaiter (w_id w)) sig\<rparr>"
  have "\<forall>w\<in>set sig. \<not> w_callback w" using p(1) ws(1) by (auto simp: write_waiter_def)
  then have w: "wakeReadyWaiters s = Some ?s'" using l by (simp add: wakeReadyWaiters_def notify_threads)
  have "mset (map w_id ?ws) = mset (map w_id sig) + mset (map w_id rest)" using p(3) by simp
  then have "distinct (map w_id (sig @ rest))" using ws(2) mset_eq_imp_distinct_iff [of "map w_id ?ws" "map w_id (sig @ rest)"] by simp
  then have d: "distinct (map w_id rest)" by simp
  have sub: "set rest \<subseteq> set ?ws" using p(2) by auto
  have k: "progress_ok v1 ?s'" by (rule progress_ok_list [OF assms sub d])
  have "same_view s ?s'" by (simp add: same_view_def progress_view_def)
  from waiter_done_view [OF this ok(1) progress_okD(1) [OF k]] have v: "waiter_done ?s' w = waiter_done s w" for w by simp
  then have q: "quiet ?s'" using p(2) by (simp add: quiet_def waiter_done_def)
  have "set ?ws = set sig \<union> set rest" using p(3) by (metis set_mset_mset set_mset_union)
  moreover have "\<forall>w\<in>set sig. waiter_done ?s' w = Some True"
    using p(1) unfolding v by (simp add: waiter_done_def)
  ultimately have "woken s ?s'" using sub d by (auto simp: woken_def)
  then show ?thesis using w k q by (intro exI [of _ ?s']) simp
qed

section \<open>The commit point\<close>

lemma updateCommittedSnapshot_ok:
  assumes ok: "progress_ok v1 s" and new: "proper v1 (sn_opTime n)" "\<not> ot_isNull (sn_opTime n)"
    "rank (sn_opTime n) \<le> rank (rc_lastCommittedOpTime s)"
    and cur: "\<And>cur. rc_currentCommittedSnapshot s = Some cur \<Longrightarrow> rank (sn_opTime cur) \<le> rank (sn_opTime n) \<and> sn_name cur < sn_name n"
    and unc: "\<forall>u\<in>set (rc_uncommittedSnapshots s). sn_name n < sn_name u"
  shows "\<exists>s'. updateCommittedSnapshot n s = Some s' \<and> progress_ok v1 s' \<and> quiet s' \<and> woken s s' \<and> commit_frame s s' \<and>
    rc_lastCommittedOpTime s' = rc_lastCommittedOpTime s \<and> rc_currentCommittedSnapshot s' = Some n"
proof -
  note sn = progress_okD(3) [OF ok, unfolded snaps_ok_def]
  let ?s1 = "s\<lparr>rc_currentCommittedSnapshot := Some n\<rparr>"
  let ?cs = "rc_calls s @ [NotifySnapshotWaiters, UpdateCommittedSnapshot (sn_name n)]"
  have u: "snap_less n u" if "u \<in> set (rc_uncommittedSnapshots s)" for u
    using that sn new unc ot_ranks(1) [OF new(1), of "sn_opTime u"] by (auto simp: snap_less_def)
  have c: "ot_ge (sn_opTime n) (sn_opTime c)" if "rc_currentCommittedSnapshot s = Some c" for c
    using that sn cur [OF that] ot_ranks(5) [OF new(1), of "sn_opTime c"] by auto
  have e: "ot_le (sn_opTime n) (rc_lastCommittedOpTime s)" using sn new ot_ranks(3) [OF new(1)] by blast
  have "snaps_ok v1 ?s1" using sn new unc by (auto simp: snaps_ok_def)
  then have "progress_ok v1 (?s1\<lparr>rc_calls := ?cs\<rparr>)" using ok by (simp add: progress_ok_def)
  from wakeReadyWaiters_ok [OF this] obtain s' where s': "wakeReadyWaiters (?s1\<lparr>rc_calls := ?cs\<rparr>) = Some s'" "progress_ok v1 s'" "quiet s'"
    "woken (?s1\<lparr>rc_calls := ?cs\<rparr>) s'"
    "s' = (?s1\<lparr>rc_calls := ?cs\<rparr>)\<lparr>rc_replicationWaiterList := rc_replicationWaiterList s', rc_calls := rc_calls s'\<rparr>" by blast
  have f: "s' = s\<lparr>rc_currentCommittedSnapshot := Some n, rc_replicationWaiterList := rc_replicationWaiterList s', rc_calls := rc_calls s'\<rparr>"
    using s'(5) by simp
  have "updateCommittedSnapshot n s = wakeReadyWaiters (?s1\<lparr>rc_calls := ?cs\<rparr>)"
    using new(2) e c cur u by (auto simp: updateCommittedSnapshot_def call_def split: option.split list.split)
  moreover have "commit_frame s s'"
    by (rule commit_frameI [where a = "rc_lastCommittedOpTime s" and b = "rc_uncommittedSnapshots s"], rule trans [OF f]) simp
  moreover have "woken s s'" by (rule woken_from [OF s'(4)]) (use cur in auto)
  moreover have "rc_lastCommittedOpTime s' = rc_lastCommittedOpTime s" "rc_currentCommittedSnapshot s' = Some n"
    by (subst f, simp)+
  ultimately show ?thesis using s'(1-3) by (intro exI [of _ s']) simp
qed

text \<open>The snapshots that become committed are a prefix of the uncommitted ones.\<close>

lemma ready_snapshots:
  assumes "snaps_ok v1 s" "proper v1 c" and ready: "ready = takeWhile (\<lambda>u. snap_le u \<lparr>sn_opTime = c, sn_name = -1\<rparr>) (rc_uncommittedSnapshots s)"
  shows "\<forall>u\<in>set ready. rank (sn_opTime u) \<le> rank c"
    "\<forall>u\<in>set (drop (length ready) (rc_uncommittedSnapshots s)). rank c < rank (sn_opTime u)"
proof -
  let ?us = "rc_uncommittedSnapshots s"
  note sn = assms(1) [unfolded snaps_ok_def]
  have le: "snap_le u \<lparr>sn_opTime = c, sn_name = -1\<rparr> \<longleftrightarrow> rank (sn_opTime u) \<le> rank c" if "u \<in> set ?us" for u
    using that sn ot_ranks(1) [OF assms(2), of "sn_opTime u"] ot_ranks(1) [of v1 "sn_opTime u", OF _ assms(2)] word_n1_ge [of "sn_name u"]
    by (auto simp: snap_le_def snap_less_def)
  show r: "\<forall>u\<in>set ready. rank (sn_opTime u) \<le> rank c"
    unfolding ready using le by (auto dest: set_takeWhileD)
  show "\<forall>u\<in>set (drop (length ready) ?us). rank c < rank (sn_opTime u)"
  proof (cases "drop (length ready) ?us")
    case (Cons d ds)
    have dw: "dropWhile (\<lambda>u. snap_le u \<lparr>sn_opTime = c, sn_name = -1\<rparr>) ?us = d # ds"
      using Cons unfolding ready by (simp add: dropWhile_eq_drop)
    have "?us = ready @ d # ds" unfolding ready using dw by (metis takeWhile_dropWhile_id)
    then have "sorted_wrt snap_follows (d # ds)" "d \<in> set ?us" using sn by (auto simp: sorted_wrt_append)
    moreover have "\<not> snap_le d \<lparr>sn_opTime = c, sn_name = -1\<rparr>" using dw by (metis hd_dropWhile list.distinct(1) list.sel(1))
    ultimately have "rank c < rank (sn_opTime d)" "\<forall>u\<in>set ds. rank (sn_opTime d) \<le> rank (sn_opTime u)"
      using le by (auto simp: snap_follows_def)
    then show ?thesis unfolding Cons by fastforce
  qed simp
qed

lemma advanceCommitPoint_ok:
  assumes ok: "progress_ok v1 s" and c: "proper v1 c" and na: "rc_memberState s = RS_ARBITER \<longrightarrow> f c s = Some s"
  shows "\<exists>s'. advanceCommitPoint_with f c s = Some s' \<and> progress_ok v1 s' \<and> (quiet s \<longrightarrow> quiet s') \<and> woken s s' \<and> commit_frame s s' \<and>
    rc_lastCommittedOpTime s' =
      (if rank c \<le> rank (rc_lastCommittedOpTime s) \<or> rc_memberState s = RS_PRIMARY \<and> rank c < rank (rc_firstOpTimeOfMyTerm s)
       then rc_lastCommittedOpTime s else c)"
proof -
  note sn = progress_okD(3) [OF ok, unfolded snaps_ok_def]
  have "proper v1 (rc_lastCommittedOpTime s)" "proper v1 (rc_firstOpTimeOfMyTerm s)" using sn by blast+
  note r = ot_ranks [OF c this(1)] ot_ranks [OF c this(2)]
  show ?thesis
  proof (cases "rank c \<le> rank (rc_lastCommittedOpTime s) \<or> rc_memberState s = RS_PRIMARY \<and> rank c < rank (rc_firstOpTimeOfMyTerm s)")
    case True
    then have "advanceCommitPoint_with f c s = Some s" by (auto simp: advanceCommitPoint_with_def r)
    then show ?thesis using ok True by simp
  next
    case False
    let ?us = "rc_uncommittedSnapshots s"
    define ready where "ready = takeWhile (\<lambda>u. snap_le u \<lparr>sn_opTime = c, sn_name = -1\<rparr>) ?us"
    note rs = ready_snapshots [OF progress_okD(3) [OF ok] c ready_def]
    let ?cs = "rc_calls s @ [NotifyOplogMetadataWaiters]"
    let ?s2 = "s\<lparr>rc_lastCommittedOpTime := c, rc_calls := ?cs, rc_uncommittedSnapshots := drop (length ready) ?us\<rparr>"
    have split: "?us = ready @ drop (length ready) ?us"
      unfolding ready_def by (metis dropWhile_eq_drop takeWhile_dropWhile_id)
    have sorted: "sorted_wrt snap_follows ready" "sorted_wrt snap_follows (drop (length ready) ?us)"
      "\<forall>u\<in>set ready. \<forall>v\<in>set (drop (length ready) ?us). snap_follows u v"
    proof -
      have "sorted_wrt snap_follows (ready @ drop (length ready) ?us)" using sn by (simp flip: split)
      then show "sorted_wrt snap_follows ready" "sorted_wrt snap_follows (drop (length ready) ?us)"
        "\<forall>u\<in>set ready. \<forall>v\<in>set (drop (length ready) ?us). snap_follows u v" by (simp_all add: sorted_wrt_append)
    qed
    have sub: "set (drop (length ready) ?us) \<subseteq> set ?us" by (rule set_drop_subset)
    have "snaps_ok v1 ?s2"
      using sn c rs(2) sorted(2) sub False by (fastforce simp: snaps_ok_def)
    then have ok2: "progress_ok v1 ?s2" using ok by (simp add: progress_ok_def)
    have w2: "woken s ?s2" by (simp add: woken_def)
    have f2: "commit_frame s ?s2" by (simp add: commit_frame_def)
    have adv: "advanceCommitPoint_with f c s = (if ready \<noteq> [] then updateCommittedSnapshot (last ready) ?s2 else Some ?s2)"
    proof -
      have "rank c \<noteq> rank (rc_lastCommittedOpTime s)" "\<not> rank c < rank (rc_lastCommittedOpTime s)"
        "(rc_memberState s = RS_PRIMARY \<and> rank c < rank (rc_firstOpTimeOfMyTerm s)) = False" using False by auto
      then show ?thesis using na unfolding advanceCommitPoint_with_def ready_def r
        by (cases "rc_memberState s = RS_PRIMARY"; cases "rc_memberState s = RS_ARBITER") (simp_all add: call_def)
    qed
    show ?thesis
    proof (cases "ready = []")
      case True
      have "same_view s ?s2" by (simp add: same_view_def progress_view_def)
      from waiter_done_view [OF this progress_okD(1) [OF ok] progress_okD(1) [OF ok2]]
      have "quiet s \<Longrightarrow> quiet ?s2" by (simp add: quiet_def)
      then show ?thesis using adv True ok2 w2 f2 False by (intro exI [of _ ?s2]) auto
    next
      case ne: False
      let ?n = "last ready"
      have n: "?n \<in> set ready" "?n \<in> set ?us" using ne split by (auto) (metis UnI1 last_in_set set_append)
      have names: "sn_name cur < sn_name ?n" "rank (sn_opTime cur) \<le> rank (sn_opTime ?n)" if "rc_currentCommittedSnapshot ?s2 = Some cur" for cur
        using that sn n(2) by force+
      have "\<exists>s'. updateCommittedSnapshot ?n ?s2 = Some s' \<and> progress_ok v1 s' \<and> quiet s' \<and> woken ?s2 s' \<and> commit_frame ?s2 s' \<and>
        rc_lastCommittedOpTime s' = rc_lastCommittedOpTime ?s2 \<and> rc_currentCommittedSnapshot s' = Some ?n"
        by (rule updateCommittedSnapshot_ok [OF ok2])
          (use sn n rs(1) names sorted(3) in \<open>auto simp: snap_follows_def\<close>)
      then obtain s' where s': "updateCommittedSnapshot ?n ?s2 = Some s'" "progress_ok v1 s'" "quiet s'" "woken ?s2 s'" "commit_frame ?s2 s'"
        "rc_lastCommittedOpTime s' = c" by auto
      then show ?thesis using adv ne woken_from [OF s'(4), of s] commit_frame_trans [OF f2 s'(5)] False by (intro exI [of _ s']) auto
    qed
  qed
qed

subsection \<open>Majorities\<close>

definition is_voter :: "ReplCoord \<Rightarrow> SlaveInfo \<Rightarrow> bool" where
  "is_voter s si = (case findMemberByID (rc_rsConfig s) (si_memberId si) of Some m \<Rightarrow> isVoter m | None \<Rightarrow> False)"

definition journals :: "ReplCoord \<Rightarrow> bool" where
  "journals s = c_writeConcernMajorityJournalDefault (rc_rsConfig s)"

text \<open>An optime is reached by a write majority of the voters, in the sense that counts for commits.\<close>

definition majority_reached :: "ReplCoord \<Rightarrow> OpTime \<Rightarrow> bool" where
  "majority_reached s c \<longleftrightarrow>
     c_writeMajority (rc_rsConfig s) \<le> int (count_if (\<lambda>si. is_voter s si \<and> ot_ge (progress (journals s) si) c) (rc_slaveInfo s))"

lemma mapM_total: "(\<And>x. x \<in> set xs \<Longrightarrow> f x = Some (g x)) \<Longrightarrow> mapM f xs = Some (map g xs)"
  by (induction xs) auto

lemma count_if_conj_le: "count_if (\<lambda>x. P x \<and> Q x) xs \<le> length (filter P xs)"
  by (induction xs) auto

lemma concat_filter: "concat (map (\<lambda>x. if P x then [g x] else []) xs) = map g (filter P xs)"
  by (induction xs) auto

lemma voting_optimes:
  assumes "aligned s" "rc_selfIndex s \<noteq> -1"
  shows "votingNodesOpTimes s = Some (map (progress (journals s)) (filter (is_voter s) (rc_slaveInfo s)))"
proof -
  have "mapM (\<lambda>si. do { memberConfig \<leftarrow> findMemberByID (rc_rsConfig s) (si_memberId si);
      Some (if isVoter memberConfig then [progress (journals s) si] else []) }) (rc_slaveInfo s) =
    Some (map (\<lambda>si. if is_voter s si then [progress (journals s) si] else []) (rc_slaveInfo s))"
    using member_of_slave [OF assms] by (intro mapM_total) (fastforce simp: is_voter_def)
  then show ?thesis unfolding votingNodesOpTimes_def journals_def [symmetric] by (simp add: concat_filter)
qed

lemma voters_exist:
  assumes "aligned s" "rc_selfIndex s \<noteq> -1"
  shows "filter (is_voter s) (rc_slaveInfo s) \<noteq> []"
proof -
  let ?ms = "c_members (rc_rsConfig s)"
  have a: "map si_memberId (rc_slaveInfo s) = map mc_id ?ms" "distinct (map mc_id ?ms)" "\<exists>m\<in>set ?ms. isVoter m"
    using assms by (simp_all add: aligned_def pcfg_ok_def)
  then obtain m where m: "m \<in> set ?ms" "isVoter m" by blast
  have "mc_id m \<in> set (map si_memberId (rc_slaveInfo s))" using m(1) a(1) by simp
  then obtain si where si: "si \<in> set (rc_slaveInfo s)" "si_memberId si = mc_id m" by auto
  obtain m' where m': "m' \<in> set ?ms" "findMemberByID (rc_rsConfig s) (si_memberId si) = Some m'" "mc_id m' = si_memberId si"
    using member_of_slave [OF assms si(1)] by blast
  have "inj_on mc_id (set ?ms)" using a(2) by (simp add: distinct_map)
  then have "m' = m" using inj_onD [of mc_id "set ?ms" m' m] m(1) m' si(2) by simp
  then have "is_voter s si" using m'(2) m(2) by (simp add: is_voter_def)
  then show ?thesis using si(1) by (auto simp: filter_empty_conv)
qed

lemma progress_proper: "slave_ok v1 si \<Longrightarrow> proper v1 (progress d si)"
  by (simp add: slave_ok_def progress_def)

lemma majority_count:
  assumes "\<forall>si\<in>set (rc_slaveInfo s). slave_ok v1 si" "proper v1 c"
  shows "count_if (\<lambda>si. is_voter s si \<and> ot_ge (progress (journals s) si) c) (rc_slaveInfo s) =
    count_if (\<lambda>x. rank c \<le> x) (map rank (map (progress (journals s)) (filter (is_voter s) (rc_slaveInfo s))))"
proof -
  have "count_if (\<lambda>x. rank c \<le> x) (map rank (map (progress (journals s)) (filter (is_voter s) sis))) =
    count_if (\<lambda>si. is_voter s si \<and> ot_ge (progress (journals s) si) c) sis" if "\<forall>si\<in>set sis. slave_ok v1 si" for sis
    using that by (induction sis) (auto simp: ot_ranks(5) [OF progress_proper assms(2)])
  then show ?thesis using assms(1) by simp
qed

text \<open>The optime picked from the sorted vector is the greatest one a majority has reached.\<close>

lemma committed_candidate:
  assumes "\<forall>x\<in>set xs. proper v1 x" "0 < n" "n \<le> int (length xs)"
  shows "\<exists>c\<in>set xs. nth_opt (sortOpTimes xs) (int (length xs) - n) = Some c \<and>
    n \<le> int (count_if (\<lambda>x. rank c \<le> x) (map rank xs)) \<and>
    (\<forall>t. n \<le> int (count_if (\<lambda>x. t \<le> x) (map rank xs)) \<longrightarrow> t \<le> rank c)"
proof -
  let ?ys = "sort (map rank xs)"
  let ?i = "length xs - nat n"
  define c where "c = sortOpTimes xs ! ?i"
  have i: "?i < length (sortOpTimes xs)" "nat n \<le> length ?ys" "0 < nat n" using assms(2,3) by auto
  have c: "rank c = ?ys ! (length ?ys - nat n)"
    using i(1) sortOpTimes_rank [OF assms(1)] nth_map [OF i(1), of rank] by (simp add: c_def)
  have mem: "c \<in> set xs" unfolding c_def using i(1) nth_mem [OF i(1)] by simp
  have nth: "nth_opt (sortOpTimes xs) (int (length xs) - n) = Some c"
    using assms(2,3) by (simp add: nth_opt_def c_def) (simp add: nat_diff_distrib)
  have count: "nat n \<le> count_if (\<lambda>x. rank c \<le> x) (map rank xs)"
    using sorted_count_ge [OF _ i(2,3)] unfolding c by (simp add: count_if_sort)
  have max: "t \<le> rank c" if "n \<le> int (count_if (\<lambda>x. t \<le> x) (map rank xs))" for t
    using sorted_count_greatest [OF _ i(2,3), of t] that unfolding c by (simp add: count_if_sort nat_le_iff)
  show ?thesis using mem nth count max assms(2) by (intro bexI [of _ c]) (auto simp: nat_le_iff)
qed

lemma updateLastCommittedOpTime_ok:
  assumes ok: "progress_ok v1 s"
  shows "\<exists>s'. updateLastCommittedOpTime s = Some s' \<and> progress_ok v1 s' \<and> (quiet s \<longrightarrow> quiet s') \<and> woken s s' \<and> commit_frame s s' \<and>
    rank (rc_lastCommittedOpTime s) \<le> rank (rc_lastCommittedOpTime s') \<and>
    (rc_lastCommittedOpTime s' \<noteq> rc_lastCommittedOpTime s \<longrightarrow> rc_memberState s = RS_PRIMARY \<and> \<not> rc_stepDownPending s \<and>
       majority_reached s (rc_lastCommittedOpTime s') \<and>
       rank (rc_firstOpTimeOfMyTerm s) \<le> rank (rc_lastCommittedOpTime s')) \<and>
    (rc_memberState s = RS_PRIMARY \<and> \<not> rc_stepDownPending s \<longrightarrow>
       (\<forall>t. proper v1 t \<and> majority_reached s t \<and> rank (rc_firstOpTimeOfMyTerm s) \<le> rank t \<longrightarrow> rank t \<le> rank (rc_lastCommittedOpTime s')))"
proof (cases "rc_memberState s \<noteq> RS_PRIMARY \<or> rc_stepDownPending s")
  case True
  then show ?thesis using ok by (auto simp: updateLastCommittedOpTime_def)
next
  case False
  note d = progress_okD [OF ok]
  have self: "rc_selfIndex s \<noteq> -1" using d(5) False by simp
  let ?xs = "map (progress (journals s)) (filter (is_voter s) (rc_slaveInfo s))"
  let ?n = "c_writeMajority (rc_rsConfig s)"
  note v = voting_optimes [OF d(1) self] voters_exist [OF d(1) self]
  have n: "0 < ?n" using d(1) self by (simp add: aligned_def pcfg_ok_def)
  have px: "\<forall>x\<in>set ?xs. proper v1 x" using d(2) by (auto intro: progress_proper)
  show ?thesis
  proof (cases "int (length ?xs) < ?n")
    case True
    then have r: "updateLastCommittedOpTime s = Some s" using False v by (simp add: updateLastCommittedOpTime_def)
    have "\<not> majority_reached s t" for t
    proof -
      have "count_if (\<lambda>si. is_voter s si \<and> ot_ge (progress (journals s) si) t) (rc_slaveInfo s) \<le> length ?xs"
        by (simp add: count_if_conj_le)
      then show ?thesis using True by (auto simp: majority_reached_def)
    qed
    then show ?thesis using r ok by auto
  next
    case len: False
    from committed_candidate [OF px n, of] len obtain c where c: "c \<in> set ?xs"
      "nth_opt (sortOpTimes ?xs) (int (length ?xs) - ?n) = Some c" "?n \<le> int (count_if (\<lambda>x. rank c \<le> x) (map rank ?xs))"
      "\<And>t. ?n \<le> int (count_if (\<lambda>x. t \<le> x) (map rank ?xs)) \<Longrightarrow> t \<le> rank c" by (metis not_le)
    have pc: "proper v1 c" using c(1) px by blast
    have "rc_memberState s = RS_ARBITER \<longrightarrow> None = Some s" using False by auto
    from advanceCommitPoint_ok [OF ok pc, of "\<lambda>_ _. None", OF this] obtain s' where
      s': "advanceCommitPoint_with (\<lambda>_ _. None) c s = Some s'" "progress_ok v1 s'" "quiet s \<longrightarrow> quiet s'" "woken s s'" "commit_frame s s'"
      "rc_lastCommittedOpTime s' = (if rank c \<le> rank (rc_lastCommittedOpTime s) \<or> rc_memberState s = RS_PRIMARY \<and> rank c < rank (rc_firstOpTimeOfMyTerm s)
         then rc_lastCommittedOpTime s else c)" by blast
    have u: "updateLastCommittedOpTime s = Some s'"
      using False v c(2) s'(1) n len by (simp add: updateLastCommittedOpTime_def)
    have m: "majority_reached s t \<longleftrightarrow> ?n \<le> int (count_if (\<lambda>x. rank t \<le> x) (map rank ?xs))" if "proper v1 t" for t
      by (simp add: majority_reached_def majority_count [OF d(2) that])
    have mc: "majority_reached s c" using m [OF pc] c(3) by blast
    have "rank t \<le> rank (rc_lastCommittedOpTime s')"
      if "proper v1 t" "majority_reached s t" "rank (rc_firstOpTimeOfMyTerm s) \<le> rank t" for t
      using m [OF that(1)] that(2,3) c(4) [of "rank t"] s'(6) by auto
    moreover have "rank (rc_lastCommittedOpTime s) \<le> rank (rc_lastCommittedOpTime s')"
      "rc_lastCommittedOpTime s' \<noteq> rc_lastCommittedOpTime s \<longrightarrow> majority_reached s (rc_lastCommittedOpTime s') \<and>
         rank (rc_firstOpTimeOfMyTerm s) \<le> rank (rc_lastCommittedOpTime s')"
      using s'(6) False mc by (auto split: if_splits)
    ultimately show ?thesis using u s'(2-5) False by (intro exI [of _ s']) simp
  qed
qed

end
