(* ===== verification/ReplWriteConcern.thy ===== *)
theory ReplWriteConcern
  imports ReplProgressInv
begin

text \<open>
  What a write concern means, and that \<open>_doneWaitingForReplication_inlock\<close> decides it. A write concern that
  is met stays met while progress grows.
\<close>

section \<open>The own entry\<close>

abbreviation myEntry :: "ReplCoord \<Rightarrow> SlaveInfo" where
  "myEntry s \<equiv> rc_slaveInfo s ! nat (myIndex s)"

lemma my_entry:
  assumes "progress_ok v1 s"
  shows "getMyIndexInSlaveInfo s = Some (myIndex s)" "nth_opt (rc_slaveInfo s) (myIndex s) = Some (myEntry s)"
    "proper v1 (si_lastAppliedOpTime (myEntry s))" "proper v1 (si_lastDurableOpTime (myEntry s))"
    "nat (myIndex s) < length (rc_slaveInfo s)"
  using my_index [OF progress_okD(1) [OF assms]] progress_okD(2) [OF assms] by (auto simp: slave_ok_def nat_less_iff)

section \<open>The loops\<close>

lemma numNodesLoop_iff: "numNodesLoop P n sis \<longleftrightarrow> sis \<noteq> [] \<and> n \<le> int (count_if P sis)"
proof (induction sis arbitrary: n)
  case (Cons si sis)
  show ?case unfolding numNodesLoop.simps Let_def Cons.IH by (cases sis) auto
qed simp

lemma updateWithTags_any: "fst (updateWithTags ts m) = anyTagSatisfies ts m"
  by (induction ts arbitrary: m) (auto split: prod.split bool.split)

lemma updateWithTags_append:
  "updateWithTags (ts @ us) m = (case updateWithTags ts m of (True, m') \<Rightarrow> (True, m') | (False, m') \<Rightarrow> updateWithTags us m')"
  by (induction ts arbitrary: m) (auto split: prod.split bool.split)

text \<open>The tags of the members that have reached the optime.\<close>

definition tags_of :: "ReplSetConfig \<Rightarrow> SlaveInfo \<Rightarrow> ReplSetTag list" where
  "tags_of c si = (case findMemberByID c (si_memberId si) of Some m \<Rightarrow> mc_tags m | None \<Rightarrow> [])"

lemma taggedNodesLoop_any:
  assumes "\<forall>si\<in>set sis. findMemberByID c (si_memberId si) \<noteq> None"
  shows "taggedNodesLoop c P m sis = Some (anyTagSatisfies (concat (map (tags_of c) (filter P sis))) m)"
  using assms
proof (induction sis arbitrary: m)
  case (Cons si sis)
  show ?case
  proof (cases "P si")
    case True
    obtain mc where mc: "findMemberByID c (si_memberId si) = Some mc" using Cons.prems by auto
    have IH: "taggedNodesLoop c P m' sis = Some (fst (updateWithTags (concat (map (tags_of c) (filter P sis))) m'))" for m'
      using Cons by (simp add: updateWithTags_any)
    show ?thesis using True mc IH unfolding updateWithTags_any [symmetric]
      by (simp add: tags_of_def updateWithTags_append split: prod.split bool.split)
  qed (use Cons in simp)
qed simp

section \<open>The meaning of a write concern\<close>

definition reachedBy :: "bool \<Rightarrow> OpTime \<Rightarrow> ReplCoord \<Rightarrow> SlaveInfo list" where
  "reachedBy durable x s = filter (\<lambda>si. ot_ge (progress durable si) x) (rc_slaveInfo s)"

text \<open>
  A number of members counts this node, which must be one of them. A mode counts, for every tag
  key it names, the different values among the members. A majority is also in the committed snapshot, where the storage engine
  has snapshots.
\<close>

definition modeMet :: "TagPattern \<Rightarrow> ReplSetTag list \<Rightarrow> bool" where
  "modeMet p ts \<longleftrightarrow> ts \<noteq> [] \<and> (\<forall>(k, n)\<in>set p. n \<le> int (card (values_of k ts)))"

definition writeConcernMet :: "OpTime \<Rightarrow> SnapshotName \<Rightarrow> WriteConcernOptions \<Rightarrow> ReplCoord \<Rightarrow> bool" where
  "writeConcernMet x minSnapshot wc s \<longleftrightarrow>
     (let d = (wc_syncMode wc = SyncJournal); ok = reachedBy d x s in
      if wMode wc = [] then ot_ge (progress d (myEntry s)) x \<and> wNumNodes wc \<le> int (length ok)
      else (wMode wc = kMajority \<and> rc_snapshotsEnabled s \<longrightarrow> haveSnapshot x minSnapshot s) \<and>
           (case findCustomWriteMode (rc_rsConfig s) (if wMode wc = kMajority then kMajorityWriteConcernModeName else wMode wc) of
              Inl _ \<Rightarrow> True
            | Inr p \<Rightarrow> modeMet p (concat (map (tags_of (rc_rsConfig s)) ok))))"

lemma mode_pattern:
  assumes "aligned s" "rc_selfIndex s \<noteq> -1" "findCustomWriteMode (rc_rsConfig s) m = Inr p"
  shows "distinct (map fst p)"
  using assms map_of_SomeD [of "c_customWriteConcernModes (rc_rsConfig s)" m p]
  by (auto simp: aligned_def pcfg_ok_def findCustomWriteMode_def split: option.splits)

lemma haveTagged_iff:
  assumes "aligned s" "rc_selfIndex s \<noteq> -1" "distinct (map fst p)"
  shows "haveTaggedNodesReachedOpTime x p d s = Some (modeMet p (concat (map (tags_of (rc_rsConfig s)) (reachedBy d x s))))"
  using taggedNodesLoop_any [of "rc_slaveInfo s" "rc_rsConfig s"] member_of_slave [OF assms(1,2)]
  by (fastforce simp: haveTaggedNodesReachedOpTime_def anyTagSatisfies_iff [OF assms(3)] modeMet_def reachedBy_def)

lemma ot_less_not_ge:
  assumes "proper v1 x" "proper v1 y"
  shows "ot_less x y \<longleftrightarrow> \<not> ot_ge x y"
  using assms by (auto simp: ot_ranks [of v1])

lemma haveNumNodes_iff:
  assumes "progress_ok v1 s" "proper v1 x"
  shows "haveNumNodesReachedOpTime x n d s = Some (ot_ge (progress d (myEntry s)) x \<and> n \<le> int (length (reachedBy d x s)))"
proof -
  have "proper v1 (progress d (myEntry s))" using my_entry [OF assms(1)] by (simp add: progress_def)
  moreover have "rc_slaveInfo s \<noteq> []" using my_entry(5) [OF assms(1)] by auto
  ultimately show ?thesis
    using my_optimes(1) [OF progress_okD(1) [OF assms(1)]] ot_less_not_ge assms(2)
    by (simp add: haveNumNodesReachedOpTime_def numNodesLoop_iff count_if_def reachedBy_def)
qed

lemma doneWaiting_iff:
  assumes ok: "progress_ok v1 s" and self: "rc_selfIndex s \<noteq> -1" and x: "proper v1 x" and wc: "wc_syncMode wc \<noteq> SyncUnset"
  shows "doneWaitingForReplication x m wc s =
    Some (rc_checkIfWriteConcernCanBeSatisfied wc s \<noteq> StatusOK \<or> writeConcernMet x m wc s)"
proof (cases "rc_checkIfWriteConcernCanBeSatisfied wc s = StatusOK")
  case True
  let ?mode = "if wMode wc = kMajority then kMajorityWriteConcernModeName else wMode wc"
  have t: "haveTaggedNodesReachedOpTime x p d s = Some (modeMet p (concat (map (tags_of (rc_rsConfig s)) (reachedBy d x s))))"
    if "findCustomWriteMode (rc_rsConfig s) ?mode = Inr p" for p d
    by (rule haveTagged_iff [OF progress_okD(1) [OF ok] self mode_pattern [OF progress_okD(1) [OF ok] self that]])
  show ?thesis
    using True wc haveNumNodes_iff [OF ok x] t
    by (cases "findCustomWriteMode (rc_rsConfig s) ?mode")
      (auto simp: doneWaitingForReplication_def writeConcernMet_def Let_def)
qed (use wc in \<open>simp add: doneWaitingForReplication_def\<close>)

section \<open>Growing progress\<close>

definition entry_grows :: "SlaveInfo \<Rightarrow> SlaveInfo \<Rightarrow> bool" where
  "entry_grows a b \<longleftrightarrow>
     si_memberId b = si_memberId a \<and> rank (si_lastDurableOpTime a) \<le> rank (si_lastDurableOpTime b) \<and>
     rank (si_lastAppliedOpTime a) \<le> rank (si_lastAppliedOpTime b)"

definition grows :: "ReplCoord \<Rightarrow> ReplCoord \<Rightarrow> bool" where
  "grows s s' \<longleftrightarrow> list_all2 entry_grows (rc_slaveInfo s) (rc_slaveInfo s')"

lemma entry_grows_refl [simp]: "entry_grows a a"
  by (simp add: entry_grows_def)

lemma entry_grows_progress: "entry_grows a b \<Longrightarrow> rank (progress d a) \<le> rank (progress d b)"
  by (simp add: entry_grows_def progress_def)

lemma grows_same: "rc_slaveInfo s' = rc_slaveInfo s \<Longrightarrow> grows s s'"
  by (simp add: grows_def list_all2_same)

lemma grows_trans: "grows s s1 \<Longrightarrow> grows s1 s2 \<Longrightarrow> grows s s2"
  unfolding grows_def by (rule list_all2_trans [of entry_grows entry_grows entry_grows]) (auto simp: entry_grows_def)

lemma grows_update:
  assumes "nth_opt (rc_slaveInfo s) i = Some si" "entry_grows si si'" "rc_slaveInfo s' = (rc_slaveInfo s)[nat i := si']"
  shows "grows s s'"
  using assms by (auto simp: grows_def nth_opt_Some list_all2_conv_all_nth nth_list_update)

lemma count_if_list_all2:
  "list_all2 R xs ys \<Longrightarrow> (\<And>x y. x \<in> set xs \<Longrightarrow> y \<in> set ys \<Longrightarrow> R x y \<Longrightarrow> P x \<Longrightarrow> Q y) \<Longrightarrow> count_if P xs \<le> count_if Q ys"
proof (induction xs ys rule: list_all2_induct)
  case (Cons x xs y ys)
  have "count_if P xs \<le> count_if Q ys" by (rule Cons.IH) (meson Cons.prems list.set_intros(2))
  moreover have "P x \<Longrightarrow> Q y" using Cons.prems [of x y] Cons.hyps(1) by simp
  ultimately show ?case by auto
qed simp

lemma reached_grows:
  assumes g: "grows s s'" and ok: "progress_ok v1 s" "progress_ok v1 s'" and x: "proper v1 x"
  shows "length (reachedBy d x s) \<le> length (reachedBy d x s')"
    "si_memberId ` set (reachedBy d x s) \<subseteq> si_memberId ` set (reachedBy d x s')"
proof -
  have p: "proper v1 (progress d si)" if "si \<in> set (rc_slaveInfo s) \<union> set (rc_slaveInfo s')" for si
    using that progress_okD(2) ok progress_proper by blast
  have ge: "ot_ge (progress d b) x" if "a \<in> set (rc_slaveInfo s)" "b \<in> set (rc_slaveInfo s')" "entry_grows a b" "ot_ge (progress d a) x" for a b
    using that(4) entry_grows_progress [OF that(3), of d] ot_ranks(5) [OF p x] that(1,2) by fastforce
  show "length (reachedBy d x s) \<le> length (reachedBy d x s')"
    using count_if_list_all2 [OF g [unfolded grows_def] ge] by (simp add: count_if_def reachedBy_def)
  show "si_memberId ` set (reachedBy d x s) \<subseteq> si_memberId ` set (reachedBy d x s')"
  proof clarify
    fix a assume a: "a \<in> set (reachedBy d x s)"
    then obtain i where i: "i < length (rc_slaveInfo s)" "a = rc_slaveInfo s ! i" by (auto simp: reachedBy_def in_set_conv_nth)
    let ?b = "rc_slaveInfo s' ! i"
    have b: "entry_grows a ?b" "i < length (rc_slaveInfo s')" using g i by (auto simp: grows_def list_all2_conv_all_nth)
    then have "?b \<in> set (reachedBy d x s')" using ge [of a ?b] a i by (simp add: reachedBy_def)
    moreover have "si_memberId a = si_memberId ?b" using b(1) by (simp add: entry_grows_def)
    ultimately show "si_memberId a \<in> si_memberId ` set (reachedBy d x s')" by blast
  qed
qed

lemma tags_of_reached:
  assumes "si_memberId ` set as \<subseteq> si_memberId ` set bs"
  shows "set (concat (map (tags_of c) as)) \<subseteq> set (concat (map (tags_of c) bs))"
proof
  fix t assume "t \<in> set (concat (map (tags_of c) as))"
  then obtain a where a: "a \<in> set as" "t \<in> set (tags_of c a)" by auto
  obtain b where b: "b \<in> set bs" "si_memberId b = si_memberId a" using assms a(1) by (metis image_iff subsetD)
  then have "t \<in> set (tags_of c b)" using a(2) by (simp add: tags_of_def)
  then show "t \<in> set (concat (map (tags_of c) bs))" using b(1) by auto
qed

lemma modeMet_mono:
  assumes "modeMet p ts" "set ts \<subseteq> set us"
  shows "modeMet p us"
proof -
  have "n \<le> int (card (values_of k us))" if "(k, n) \<in> set p" for k n
    using assms that values_of_mono [OF assms(2), of k] by (fastforce simp: modeMet_def)
  then show ?thesis using assms by (auto simp: modeMet_def)
qed

lemma haveSnapshot_grows:
  assumes "haveSnapshot x 0 s" "woken s s'" "progress_ok v1 s" "progress_ok v1 s'" "proper v1 x"
  shows "haveSnapshot x 0 s'"
proof -
  from assms(1) obtain a where a: "rc_currentCommittedSnapshot s = Some a" "ot_ge (sn_opTime a) x"
    by (auto simp: haveSnapshot_def split: option.splits)
  then obtain b where b: "rc_currentCommittedSnapshot s' = Some b" "rank (sn_opTime a) \<le> rank (sn_opTime b)"
    using assms(2) by (auto simp: woken_def)
  have "proper v1 (sn_opTime a)" "proper v1 (sn_opTime b)"
    using progress_okD(3) [OF assms(3)] progress_okD(3) [OF assms(4)] a(1) b(1) by (auto simp: snaps_ok_def)
  then show ?thesis using a(2) b assms(5) by (simp add: haveSnapshot_def ot_ranks [of v1])
qed

lemma writeConcernMet_grows:
  assumes ok: "progress_ok v1 s" "progress_ok v1 s'" and g: "grows s s'" and w: "woken s s'"
    and f: "rc_rsConfig s' = rc_rsConfig s" "rc_selfIndex s' = rc_selfIndex s" "rc_snapshotsEnabled s' = rc_snapshotsEnabled s"
    and x: "proper v1 x" and m: "writeConcernMet x 0 wc s"
  shows "writeConcernMet x 0 wc s'"
proof -
  let ?d = "wc_syncMode wc = SyncJournal"
  note r = reached_grows [OF g ok x, of ?d]
  have "myIndex s' = myIndex s" using f(2) by (simp add: myIndex_def)
  then have "entry_grows (myEntry s) (myEntry s')"
    using g my_entry(5) [OF ok(1)] by (simp add: grows_def list_all2_conv_all_nth)
  then have mine: "ot_ge (progress ?d (myEntry s)) x \<longrightarrow> ot_ge (progress ?d (myEntry s')) x"
    using entry_grows_progress [of "myEntry s" "myEntry s'" ?d] my_entry(3,4) [OF ok(1)] my_entry(3,4) [OF ok(2)] x
    by (auto simp: ot_ranks [of v1] progress_def)
  show ?thesis
  proof (cases "wMode wc = []")
    case True
    then show ?thesis using m mine r(1) by (auto simp: writeConcernMet_def Let_def)
  next
    case False
    have "modeMet p (concat (map (tags_of (rc_rsConfig s)) (reachedBy ?d x s)))
      \<longrightarrow> modeMet p (concat (map (tags_of (rc_rsConfig s)) (reachedBy ?d x s')))" for p
      using modeMet_mono [OF _ tags_of_reached [OF r(2)]] by blast
    moreover have "haveSnapshot x 0 s \<longrightarrow> haveSnapshot x 0 s'" using haveSnapshot_grows [OF _ w ok x] by blast
    ultimately show ?thesis using False m f(1,3)
      by (auto simp: writeConcernMet_def Let_def split: sum.splits)
  qed
qed

lemma doneWaiting_grows:
  assumes ok: "progress_ok v1 s" "progress_ok v1 s'" and g: "grows s s'"
    and f: "rc_rsConfig s' = rc_rsConfig s \<and> rc_selfIndex s' = rc_selfIndex s \<and> rc_snapshotsEnabled s' = rc_snapshotsEnabled s"
    and self: "rc_selfIndex s \<noteq> -1" and w: "woken s s'" and x: "wc_syncMode wc \<noteq> SyncUnset" "proper v1 x"
    and d: "doneWaitingForReplication x 0 wc s = Some True"
  shows "doneWaitingForReplication x 0 wc s' = Some True"
proof -
  have self': "rc_selfIndex s' \<noteq> -1" using self f by simp
  have c: "rc_checkIfWriteConcernCanBeSatisfied wc s' = rc_checkIfWriteConcernCanBeSatisfied wc s"
    using replset_mode [OF progress_okD(1) [OF ok(1)]] replset_mode [OF progress_okD(1) [OF ok(2)]] f
    by (simp add: rc_checkIfWriteConcernCanBeSatisfied_def)
  show ?thesis using d f writeConcernMet_grows [OF ok g w _ _ _ x(2)]
    by (auto simp: doneWaiting_iff [OF ok(1) self x(2,1)] doneWaiting_iff [OF ok(2) self' x(2,1)] c)
qed

lemma waiter_done_grows:
  assumes "progress_ok v1 s" "progress_ok v1 s'" "grows s s'"
    "rc_rsConfig s' = rc_rsConfig s \<and> rc_selfIndex s' = rc_selfIndex s \<and> rc_snapshotsEnabled s' = rc_snapshotsEnabled s"
    "rc_selfIndex s \<noteq> -1" "woken s s'" "write_waiter w" "proper v1 (w_opTime w)" "waiter_done s w = Some True"
  shows "waiter_done s' w = Some True"
  using assms(7-9) doneWaiting_grows [OF assms(1-6)] by (auto simp: write_waiter_def waiter_done_def)

end
