(* ===== verification/ReplProgressOps.thy ===== *)
theory ReplProgressOps
  imports ReplWriteConcern
begin

text \<open>
  The operations on replication progress, one lemma each: they return, keep the invariant, notify
  every waiter they take out of the list, and leave no waiter whose write concern is met.
\<close>

section \<open>Frames\<close>

definition role_frame :: "ReplCoord \<Rightarrow> ReplCoord \<Rightarrow> bool" where
  "role_frame s s' \<longleftrightarrow>
     rc_settings s' = rc_settings s \<and> rc_topCoord s' = rc_topCoord s \<and> rc_rsConfigState s' = rc_rsConfigState s \<and>
     rc_rsConfig s' = rc_rsConfig s \<and> rc_selfIndex s' = rc_selfIndex s \<and> rc_memberState s' = rc_memberState s \<and>
     rc_canAcceptNonLocalWrites s' = rc_canAcceptNonLocalWrites s \<and> rc_stepDownPending s' = rc_stepDownPending s \<and>
     rc_cachedTerm s' = rc_cachedTerm s \<and> rc_firstOpTimeOfMyTerm s' = rc_firstOpTimeOfMyTerm s \<and>
     rc_nextWaiter s' = rc_nextWaiter s \<and> rc_snapshotsEnabled s' = rc_snapshotsEnabled s \<and>
     map si_self (rc_slaveInfo s') = map si_self (rc_slaveInfo s) \<and>
     map si_hostAndPort (rc_slaveInfo s') = map si_hostAndPort (rc_slaveInfo s)"

text \<open>The applier state changes only where a catch-up ends.\<close>

definition progress_frame :: "ReplCoord \<Rightarrow> ReplCoord \<Rightarrow> bool" where
  "progress_frame s s' \<longleftrightarrow>
     role_frame s s' \<and>
     (rc_applierState s' = rc_applierState s \<and> rc_catchupState s' = rc_catchupState s \<or>
      rc_catchupState s \<noteq> None \<and> rc_catchupState s' = None \<and> rc_applierState s' = ApplierDraining)"

lemma progress_frame_refl [simp]: "progress_frame s s"
  by (simp add: progress_frame_def role_frame_def)

lemma progress_frame_trans: "progress_frame s s1 \<Longrightarrow> progress_frame s1 s2 \<Longrightarrow> progress_frame s s2"
  by (auto simp: progress_frame_def role_frame_def)

lemma commit_progress_frame: "commit_frame s s' \<Longrightarrow> progress_frame s s'"
  by (simp add: progress_frame_def role_frame_def commit_frame_fields)

definition progresses :: "bool \<Rightarrow> ReplCoord \<Rightarrow> ReplCoord \<Rightarrow> bool" where
  "progresses v1 s s' \<longleftrightarrow>
     progress_ok v1 s' \<and> (quiet s \<longrightarrow> quiet s') \<and> woken s s' \<and> progress_frame s s' \<and>
     rank (rc_lastCommittedOpTime s) \<le> rank (rc_lastCommittedOpTime s')"

lemma progresses_refl [simp]: "progresses v1 s s \<longleftrightarrow> progress_ok v1 s"
  by (auto simp: progresses_def)

lemma progresses_grows:
  assumes p: "progress_ok v1 s" "progresses v1 s s'" and g: "grows s s'" and r: "rc_memberState s = RS_PRIMARY"
    and w: "write_waiter w" "proper v1 (w_opTime w)" "waiter_done s w = Some True"
  shows "waiter_done s' w = Some True"
proof -
  have f: "progress_ok v1 s'" "woken s s'" "role_frame s s'" using p(2) by (simp_all add: progresses_def progress_frame_def)
  show ?thesis using f(3) by (intro waiter_done_grows [OF p(1) f(1) g _ _ f(2) w]) (auto simp: role_frame_def r progress_okD(5) [OF p(1)])
qed

lemma progresses_trans:
  assumes p: "progress_ok v1 s" "progresses v1 s s1" "progresses v1 s1 s2" and g: "rc_memberState s = RS_PRIMARY \<Longrightarrow> grows s1 s2"
  shows "progresses v1 s s2"
proof -
  have ok1: "progress_ok v1 s1" and st: "rc_memberState s1 = rc_memberState s" using p(2) by (simp_all add: progresses_def progress_frame_def role_frame_def)
  have "woken s s2"
  proof (rule woken_trans)
    fix w assume w: "w \<in> set (rc_replicationWaiterList s)" "waiter_done s1 w = Some True"
    have i: "rc_memberState s = RS_PRIMARY" "write_waiter w" "proper v1 (w_opTime w)"
      using progress_okD(4,6) [OF p(1)] w(1) by (auto simp: waiters_ok_def)
    show "waiter_done s2 w = Some True" using st i by (intro progresses_grows [OF ok1 p(3) g _ i(2,3) w(2)]) simp_all
  qed (use p in \<open>simp_all add: progresses_def\<close>)
  then show ?thesis using p(2,3) by (auto simp: progresses_def intro: progress_frame_trans)
qed

lemma progressesD: "progresses v1 s s' \<Longrightarrow> progress_ok v1 s'"
  by (simp add: progresses_def)

text \<open>A change outside the view of the waiters.\<close>

lemma view_progresses:
  assumes "progress_ok v1 s" "progress_ok v1 s'" "same_view s s'" "progress_frame s s'"
    "rc_currentCommittedSnapshot s' = rc_currentCommittedSnapshot s" "rc_lastCommittedOpTime s' = rc_lastCommittedOpTime s"
    "rc_replicationWaiterList s' = rc_replicationWaiterList s" "\<exists>cs. rc_calls s' = rc_calls s @ cs"
  shows "progresses v1 s s'"
  using assms waiter_done_view [OF assms(3) progress_okD(1) [OF assms(1)] progress_okD(1) [OF assms(2)] assms(5)]
  by (auto simp: progresses_def quiet_def woken_def)

lemma call_progresses: "progress_ok v1 s \<Longrightarrow> progresses v1 s (call c s)"
  by (rule view_progresses) (simp_all add: call_def same_view_def progress_view_def progress_frame_def role_frame_def)

section \<open>One member\<close>

text \<open>The end of both updates of a member's progress.\<close>

definition noteProgress :: "int \<Rightarrow> SlaveInfo \<Rightarrow> ReplCoord \<Rightarrow> ReplCoord option" where
  "noteProgress i si s = do { s1 \<leftarrow> updateLastCommittedOpTime (setSlaveInfo i si s); wakeReadyWaiters s1 }"

lemma map_update_same: "f x = f (xs ! i) \<Longrightarrow> map f (xs[i := x]) = map f xs"
  by (cases "i < length xs") (simp_all add: map_update list_update_same_conv list_update_beyond)

lemma setSlaveInfo_fields:
  assumes "nth_opt (rc_slaveInfo s) i = Some si" "si_memberId si' = si_memberId si"
  shows "map si_memberId (rc_slaveInfo (setSlaveInfo i si' s)) = map si_memberId (rc_slaveInfo s)"
    "length (rc_slaveInfo (setSlaveInfo i si' s)) = length (rc_slaveInfo s)"
    "set (rc_slaveInfo (setSlaveInfo i si' s)) \<subseteq> insert si' (set (rc_slaveInfo s))"
  using assms by (auto simp: setSlaveInfo_def map_update nth_opt_Some list_update_same_conv dest: set_update_subset_insert [THEN subsetD])

lemma setSlaveInfo_ok:
  assumes "progress_ok v1 s" "nth_opt (rc_slaveInfo s) i = Some si" "si_memberId si' = si_memberId si" "slave_ok v1 si'"
  shows "progress_ok v1 (setSlaveInfo i si' s)"
proof -
  note f = setSlaveInfo_fields [OF assms(2,3)]
  have a: "aligned (setSlaveInfo i si' s)"
    using progress_okD(1) [OF assms(1)] f(1,2) unfolding aligned_def by (simp add: setSlaveInfo_def)
  have "\<forall>x\<in>set (rc_slaveInfo (setSlaveInfo i si' s)). slave_ok v1 x"
    using f(3) assms(4) progress_okD(2) [OF assms(1)] by blast
  then show ?thesis using assms(1) a by (simp add: progress_ok_def setSlaveInfo_def)
qed

lemma noteProgress_ok:
  assumes ok: "progress_ok v1 s" and i: "nth_opt (rc_slaveInfo s) i = Some si"
    and si': "si_memberId si' = si_memberId si" "si_self si' = si_self si" "si_hostAndPort si' = si_hostAndPort si" "slave_ok v1 si'"
  shows "\<exists>s'. noteProgress i si' s = Some s' \<and> progresses v1 s s' \<and> quiet s' \<and> commit_frame (setSlaveInfo i si' s) s' \<and>
    (rc_lastCommittedOpTime s' \<noteq> rc_lastCommittedOpTime s \<longrightarrow> rc_memberState s = RS_PRIMARY \<and> \<not> rc_stepDownPending s \<and>
       majority_reached s' (rc_lastCommittedOpTime s') \<and> rank (rc_firstOpTimeOfMyTerm s) \<le> rank (rc_lastCommittedOpTime s')) \<and>
    (rc_memberState s = RS_PRIMARY \<and> \<not> rc_stepDownPending s \<longrightarrow>
       (\<forall>t. proper v1 t \<and> majority_reached s' t \<and> rank (rc_firstOpTimeOfMyTerm s) \<le> rank t \<longrightarrow> rank t \<le> rank (rc_lastCommittedOpTime s')))"
proof -
  let ?s0 = "setSlaveInfo i si' s"
  have ok0: "progress_ok v1 ?s0" by (rule setSlaveInfo_ok [OF ok i si'(1,4)])
  have e: "rc_lastCommittedOpTime ?s0 = rc_lastCommittedOpTime s" "rc_memberState ?s0 = rc_memberState s"
    "rc_stepDownPending ?s0 = rc_stepDownPending s" "rc_firstOpTimeOfMyTerm ?s0 = rc_firstOpTimeOfMyTerm s"
    by (simp_all add: setSlaveInfo_def)
  have f0: "progress_frame s ?s0"
    using i si'(2,3) by (simp_all add: progress_frame_def role_frame_def setSlaveInfo_def map_update_same nth_opt_Some)
  from updateLastCommittedOpTime_ok [OF ok0] obtain s1 where s1: "updateLastCommittedOpTime ?s0 = Some s1" "progress_ok v1 s1"
    "woken ?s0 s1" "commit_frame ?s0 s1" "rank (rc_lastCommittedOpTime s) \<le> rank (rc_lastCommittedOpTime s1)"
    "rc_lastCommittedOpTime s1 \<noteq> rc_lastCommittedOpTime s \<longrightarrow> rc_memberState s = RS_PRIMARY \<and> \<not> rc_stepDownPending s \<and>
       majority_reached ?s0 (rc_lastCommittedOpTime s1) \<and> rank (rc_firstOpTimeOfMyTerm s) \<le> rank (rc_lastCommittedOpTime s1)"
    "rc_memberState s = RS_PRIMARY \<and> \<not> rc_stepDownPending s \<longrightarrow>
       (\<forall>t. proper v1 t \<and> majority_reached ?s0 t \<and> rank (rc_firstOpTimeOfMyTerm s) \<le> rank t \<longrightarrow> rank t \<le> rank (rc_lastCommittedOpTime s1))"
    unfolding e by blast
  from wakeReadyWaiters_ok [OF s1(2)] obtain s' where s': "wakeReadyWaiters s1 = Some s'" "progress_ok v1 s'" "quiet s'" "woken s1 s'"
    "s' = s1\<lparr>rc_replicationWaiterList := rc_replicationWaiterList s', rc_calls := rc_calls s'\<rparr>" by blast
  have f1: "commit_frame s1 s'"
    by (rule commit_frameI [where a = "rc_lastCommittedOpTime s1" and b = "rc_uncommittedSnapshots s1" and c = "rc_currentCommittedSnapshot s1"],
        rule trans [OF s'(5)]) simp
  have l: "rc_lastCommittedOpTime s' = rc_lastCommittedOpTime s1" by (subst s'(5)) simp
  note f = commit_frame_trans [OF s1(4) f1]
  have m: "majority_reached s' t = majority_reached ?s0 t" for t
    using commit_frame_fields [OF f] by (simp add: majority_reached_def is_voter_def [abs_def] journals_def)
  have v: "same_view s1 s'" "rc_currentCommittedSnapshot s' = rc_currentCommittedSnapshot s1"
    by (subst s'(5), simp add: same_view_def progress_view_def)+
  have "waiter_done s' w = waiter_done s1 w" for w
    by (rule waiter_done_view [OF v(1) progress_okD(1) [OF s1(2)] progress_okD(1) [OF s'(2)] v(2)])
  then have "woken ?s0 s'" by (intro woken_trans [OF s1(3) s'(4)]) simp
  then have "woken s s'" by (rule woken_from) (simp_all add: setSlaveInfo_def)
  then have "progresses v1 s s'"
    unfolding progresses_def l
    by (intro conjI impI s'(2,3) s1(5) progress_frame_trans [OF f0 commit_progress_frame [OF f]])
  moreover have "noteProgress i si' s = Some s'" using s1(1) s'(1) by (simp add: noteProgress_def)
  moreover note s'(3) f s1(6,7) [folded m l]
  ultimately show ?thesis by blast
qed

lemma updateSlaveInfoApplied_note:
  "updateSlaveInfoAppliedOpTime now i x s =
     do { si \<leftarrow> nth_opt (rc_slaveInfo s) i; noteProgress i (si\<lparr>si_lastAppliedOpTime := x, si_lastUpdate := now, si_down := False\<rparr>) s }"
  by (simp add: updateSlaveInfoAppliedOpTime_def noteProgress_def)

lemma updateSlaveInfoDurable_note:
  "updateSlaveInfoDurableOpTime now i x s =
     do { si \<leftarrow> nth_opt (rc_slaveInfo s) i;
          if ot_less (si_lastAppliedOpTime si) x then Some s
          else noteProgress i (si\<lparr>si_lastDurableOpTime := x, si_lastUpdate := now, si_down := False\<rparr>) s }"
  by (simp add: updateSlaveInfoDurableOpTime_def noteProgress_def cong: if_cong)


text \<open>The result of an operation that reports progress, for the entry of the member and for the commit point.\<close>

definition commits :: "bool \<Rightarrow> ReplCoord \<Rightarrow> ReplCoord \<Rightarrow> bool" where
  "commits v1 s s' \<longleftrightarrow>
     (rc_lastCommittedOpTime s' \<noteq> rc_lastCommittedOpTime s \<longrightarrow> rc_memberState s = RS_PRIMARY \<and> \<not> rc_stepDownPending s \<and>
        majority_reached s' (rc_lastCommittedOpTime s') \<and> rank (rc_firstOpTimeOfMyTerm s) \<le> rank (rc_lastCommittedOpTime s'))"

definition commit_maximal :: "bool \<Rightarrow> ReplCoord \<Rightarrow> bool" where
  "commit_maximal v1 s \<longleftrightarrow>
     (rc_memberState s = RS_PRIMARY \<and> \<not> rc_stepDownPending s \<longrightarrow>
       (\<forall>t. proper v1 t \<and> majority_reached s t \<and> rank (rc_firstOpTimeOfMyTerm s) \<le> rank t \<longrightarrow> rank t \<le> rank (rc_lastCommittedOpTime s)))"

lemma noteProgress_result:
  assumes ok: "progress_ok v1 s" and i: "nth_opt (rc_slaveInfo s) i = Some si"
    and si': "si_memberId si' = si_memberId si" "si_self si' = si_self si" "si_hostAndPort si' = si_hostAndPort si" "slave_ok v1 si'"
  obtains s' where "noteProgress i si' s = Some s'" "progresses v1 s s'" "quiet s'"
    "rc_slaveInfo s' = (rc_slaveInfo s)[nat i := si']" "commits v1 s s'" "commit_maximal v1 s'"
    "rc_catchupState s' = rc_catchupState s" "rc_opTimeWaiterList s' = rc_opTimeWaiterList s"
proof -
  from noteProgress_ok [OF assms] obtain s' where s': "noteProgress i si' s = Some s'" "progresses v1 s s'" "quiet s'"
    "commit_frame (setSlaveInfo i si' s) s'" "commits v1 s s'"
    "rc_memberState s = RS_PRIMARY \<and> \<not> rc_stepDownPending s \<longrightarrow>
       (\<forall>t. proper v1 t \<and> majority_reached s' t \<and> rank (rc_firstOpTimeOfMyTerm s) \<le> rank t \<longrightarrow> rank t \<le> rank (rc_lastCommittedOpTime s'))"
    unfolding commits_def by blast
  note f = commit_frame_fields [OF s'(4)]
  have "commit_maximal v1 s'" using s'(6) f unfolding commit_maximal_def by (simp add: setSlaveInfo_def)
  then show thesis using that s'(1-3,5) f by (simp add: setSlaveInfo_def)
qed

section \<open>Progress that only grows\<close>

lemma majority_grows:
  assumes "grows s s'" "progress_ok v1 s" "progress_ok v1 s'" "rc_rsConfig s' = rc_rsConfig s" "proper v1 t" "majority_reached s t"
  shows "majority_reached s' t"
proof -
  have "count_if (\<lambda>si. is_voter s si \<and> ot_ge (progress (journals s) si) t) (rc_slaveInfo s)
    \<le> count_if (\<lambda>si. is_voter s' si \<and> ot_ge (progress (journals s') si) t) (rc_slaveInfo s')"
  proof (rule count_if_list_all2 [OF assms(1) [unfolded grows_def]])
    fix a b assume ab: "a \<in> set (rc_slaveInfo s)" "b \<in> set (rc_slaveInfo s')" "entry_grows a b"
      "is_voter s a \<and> ot_ge (progress (journals s) a) t"
    have p: "proper v1 (progress (journals s) a)" "proper v1 (progress (journals s) b)"
      using ab(1,2) progress_okD(2) assms(2,3) progress_proper by blast+
    have "ot_ge (progress (journals s) b) t"
      using ab(4) entry_grows_progress [OF ab(3), of "journals s"] by (simp add: ot_ranks(5) [OF p(1) assms(5)] ot_ranks(5) [OF p(2) assms(5)])
    moreover have "is_voter s' b" using ab(3,4) assms(4) by (simp add: is_voter_def entry_grows_def)
    ultimately show "is_voter s' b \<and> ot_ge (progress (journals s') b) t" using assms(4) by (simp add: journals_def)
  qed
  then show ?thesis using assms(4,6) by (simp add: majority_reached_def)
qed

text \<open>No member is known to have written durably what it is not known to have applied.\<close>

definition durable_ok :: "ReplCoord \<Rightarrow> bool" where
  "durable_ok s \<longleftrightarrow> (\<forall>si\<in>set (rc_slaveInfo s). rank (si_lastDurableOpTime si) \<le> rank (si_lastAppliedOpTime si))"

definition advances :: "bool \<Rightarrow> ReplCoord \<Rightarrow> ReplCoord \<Rightarrow> bool" where
  "advances v1 s s' \<longleftrightarrow>
     progress_ok v1 s \<and> progresses v1 s s' \<and> grows s s' \<and> commits v1 s s' \<and>
     (commit_maximal v1 s \<longrightarrow> commit_maximal v1 s') \<and> (durable_ok s \<longrightarrow> durable_ok s')"

lemma frame_fields:
  assumes "progresses v1 s s'"
  shows "rc_settings s' = rc_settings s" "rc_topCoord s' = rc_topCoord s" "rc_rsConfigState s' = rc_rsConfigState s"
    "rc_rsConfig s' = rc_rsConfig s" "rc_selfIndex s' = rc_selfIndex s" "rc_memberState s' = rc_memberState s"
    "rc_canAcceptNonLocalWrites s' = rc_canAcceptNonLocalWrites s" "rc_stepDownPending s' = rc_stepDownPending s"
    "rc_cachedTerm s' = rc_cachedTerm s" "rc_firstOpTimeOfMyTerm s' = rc_firstOpTimeOfMyTerm s" "rc_nextWaiter s' = rc_nextWaiter s"
    "rc_snapshotsEnabled s' = rc_snapshotsEnabled s" "map si_self (rc_slaveInfo s') = map si_self (rc_slaveInfo s)"
    "length (rc_slaveInfo s') = length (rc_slaveInfo s)"
  using assms by (auto simp: progresses_def progress_frame_def role_frame_def dest: map_eq_imp_length_eq)

lemma commit_proper: "progress_ok v1 s \<Longrightarrow> proper v1 (rc_lastCommittedOpTime s)"
  by (simp add: progress_ok_def snaps_ok_def)

lemma advances_refl: "progress_ok v1 s \<Longrightarrow> advances v1 s s"
  by (simp add: advances_def commits_def grows_same)

lemma advances_trans:
  assumes "advances v1 s s1" "advances v1 s1 s2"
  shows "advances v1 s s2"
proof -
  note a = assms [unfolded advances_def]
  have p: "progresses v1 s s1" "progresses v1 s1 s2" "grows s1 s2" "progress_ok v1 s1" "progress_ok v1 s2"
    using a by (auto dest: progressesD)
  note f = frame_fields [OF p(1)] frame_fields [OF p(2)]
  have "commits v1 s s2"
  proof (cases "rc_lastCommittedOpTime s2 = rc_lastCommittedOpTime s1")
    case True
    have "majority_reached s2 (rc_lastCommittedOpTime s1)" if "majority_reached s1 (rc_lastCommittedOpTime s1)"
      by (rule majority_grows [OF p(3,4,5) f(18) commit_proper [OF p(4)] that])
    then show ?thesis using a True unfolding commits_def by simp
  next
    case False
    then show ?thesis using a f unfolding commits_def by simp
  qed
  moreover have "progresses v1 s s2" using a by (intro progresses_trans [OF _ p(1,2,3)]) simp
  ultimately show ?thesis using a grows_trans unfolding advances_def by blast
qed

text \<open>A change outside the view keeps the commit point and its maximality.\<close>

lemma maximal_view:
  assumes "rc_slaveInfo s' = rc_slaveInfo s" "rc_rsConfig s' = rc_rsConfig s" "rc_memberState s' = rc_memberState s"
    "rc_stepDownPending s' = rc_stepDownPending s" "rc_firstOpTimeOfMyTerm s' = rc_firstOpTimeOfMyTerm s"
    "rank (rc_lastCommittedOpTime s) \<le> rank (rc_lastCommittedOpTime s')" "commit_maximal v1 s"
  shows "commit_maximal v1 s'"
proof -
  have "majority_reached s' t = majority_reached s t" for t
    using assms(1,2) by (simp add: majority_reached_def is_voter_def [abs_def] journals_def)
  then show ?thesis using assms(3-7) unfolding commit_maximal_def by fastforce
qed

lemma advances_still:
  assumes "progress_ok v1 s" "progresses v1 s s'" "rc_slaveInfo s' = rc_slaveInfo s" "rc_lastCommittedOpTime s' = rc_lastCommittedOpTime s"
  shows "advances v1 s s'"
  using assms frame_fields [OF assms(2)] maximal_view [where s = s and s' = s' and ?v1.0 = v1]
  unfolding advances_def commits_def durable_ok_def by (simp add: grows_same)

lemma call_advances: "progress_ok v1 s \<Longrightarrow> advances v1 s (call c s)"
  by (rule advances_still) (simp_all add: call_progresses, simp_all add: call_def)

section \<open>The updates of one entry\<close>

lemma durable_ok_update:
  assumes "rc_slaveInfo s' = (rc_slaveInfo s)[nat i := si']" "rank (si_lastDurableOpTime si') \<le> rank (si_lastAppliedOpTime si')" "durable_ok s"
  shows "durable_ok s'"
  using assms unfolding durable_ok_def by (auto dest: set_update_subset_insert [THEN subsetD])

lemma note_advances:
  assumes ok: "progress_ok v1 s" and i: "nth_opt (rc_slaveInfo s) i = Some si"
    and si': "entry_grows si si'" "si_self si' = si_self si" "si_hostAndPort si' = si_hostAndPort si" "slave_ok v1 si'"
    "durable_ok s \<longrightarrow> rank (si_lastDurableOpTime si') \<le> rank (si_lastAppliedOpTime si')"
  obtains s' where "noteProgress i si' s = Some s'" "advances v1 s s'" "quiet s'" "rc_slaveInfo s' = (rc_slaveInfo s)[nat i := si']"
    "commit_maximal v1 s'" "rc_catchupState s' = rc_catchupState s" "rc_opTimeWaiterList s' = rc_opTimeWaiterList s"
proof -
  have m: "si_memberId si' = si_memberId si" using si'(1) by (simp add: entry_grows_def)
  from noteProgress_result [OF ok i m si'(2-4)] obtain s' where s': "noteProgress i si' s = Some s'" "progresses v1 s s'" "quiet s'"
    "rc_slaveInfo s' = (rc_slaveInfo s)[nat i := si']" "commits v1 s s'" "commit_maximal v1 s'"
    "rc_catchupState s' = rc_catchupState s" "rc_opTimeWaiterList s' = rc_opTimeWaiterList s" .
  have "durable_ok s \<longrightarrow> durable_ok s'" using durable_ok_update [OF s'(4)] si'(5) by blast
  then have "advances v1 s s'" using ok s'(2,5,6) grows_update [OF i si'(1) s'(4)] by (simp add: advances_def)
  then show thesis using that s' by blast
qed

lemma slave_at: "progress_ok v1 s \<Longrightarrow> nth_opt (rc_slaveInfo s) i = Some si \<Longrightarrow> slave_ok v1 si \<and> si \<in> set (rc_slaveInfo s)"
  using progress_okD(2) by (fastforce simp: nth_opt_Some)

lemma applied_advances:
  assumes ok: "progress_ok v1 s" and i: "nth_opt (rc_slaveInfo s) i = Some si"
    and x: "proper v1 x" "rank (si_lastAppliedOpTime si) \<le> rank x"
  obtains s' where "updateSlaveInfoAppliedOpTime now i x s = Some s'" "advances v1 s s'" "quiet s'" "commit_maximal v1 s'"
    "rc_slaveInfo s' = (rc_slaveInfo s)[nat i := si\<lparr>si_lastAppliedOpTime := x, si_lastUpdate := now, si_down := False\<rparr>]"
    "rc_catchupState s' = rc_catchupState s" "rc_opTimeWaiterList s' = rc_opTimeWaiterList s"
proof -
  let ?si = "si\<lparr>si_lastAppliedOpTime := x, si_lastUpdate := now, si_down := False\<rparr>"
  note at = slave_at [OF ok i]
  have e: "entry_grows si ?si" "slave_ok v1 ?si" "durable_ok s \<longrightarrow> rank (si_lastDurableOpTime ?si) \<le> rank (si_lastAppliedOpTime ?si)"
    using at x by (auto simp: entry_grows_def slave_ok_def durable_ok_def intro: order_trans)
  have u: "updateSlaveInfoAppliedOpTime now i x s = noteProgress i ?si s" using i by (simp add: updateSlaveInfoApplied_note)
  obtain s' where "noteProgress i ?si s = Some s'" "advances v1 s s'" "quiet s'" "rc_slaveInfo s' = (rc_slaveInfo s)[nat i := ?si]"
    "commit_maximal v1 s'" "rc_catchupState s' = rc_catchupState s" "rc_opTimeWaiterList s' = rc_opTimeWaiterList s"
    by (rule note_advances [OF ok i e(1) _ _ e(2,3)]) simp_all
  then show thesis by (intro that [of s', unfolded u])
qed

lemma durable_advances:
  assumes ok: "progress_ok v1 s" and i: "nth_opt (rc_slaveInfo s) i = Some si"
    and x: "proper v1 x" "rank (si_lastDurableOpTime si) \<le> rank x"
  obtains s' where "updateSlaveInfoDurableOpTime now i x s = Some s'" "advances v1 s s'"
    "rank (si_lastAppliedOpTime si) < rank x \<and> s' = s \<or>
     rank x \<le> rank (si_lastAppliedOpTime si) \<and> quiet s' \<and> commit_maximal v1 s' \<and>
     rc_slaveInfo s' = (rc_slaveInfo s)[nat i := si\<lparr>si_lastDurableOpTime := x, si_lastUpdate := now, si_down := False\<rparr>]"
proof -
  let ?si = "si\<lparr>si_lastDurableOpTime := x, si_lastUpdate := now, si_down := False\<rparr>"
  note at = slave_at [OF ok i]
  have less: "ot_less (si_lastAppliedOpTime si) x \<longleftrightarrow> rank (si_lastAppliedOpTime si) < rank x"
    using at x(1) by (simp add: slave_ok_def ot_ranks [of v1])
  show thesis
  proof (cases "rank (si_lastAppliedOpTime si) < rank x")
    case True
    then show thesis using that [of s] i less advances_refl [OF ok] by (simp add: updateSlaveInfoDurable_note)
  next
    case False
    have e: "entry_grows si ?si" "slave_ok v1 ?si" "durable_ok s \<longrightarrow> rank (si_lastDurableOpTime ?si) \<le> rank (si_lastAppliedOpTime ?si)"
      using at x False by (auto simp: entry_grows_def slave_ok_def)
    have u: "updateSlaveInfoDurableOpTime now i x s = noteProgress i ?si s" using i less False by (simp add: updateSlaveInfoDurable_note)
    obtain s' where "noteProgress i ?si s = Some s'" "advances v1 s s'" "quiet s'" "rc_slaveInfo s' = (rc_slaveInfo s)[nat i := ?si]"
      "commit_maximal v1 s'" by (rule note_advances [OF ok i e(1) _ _ e(2,3)]) simp_all
    then show thesis using False by (intro that [of s', unfolded u]) simp_all
  qed
qed

section \<open>Threads and the catch-up waiting for an optime\<close>

text \<open>\<open>still v1 s s'\<close>: nothing a write concern could wait for has changed.\<close>

definition still :: "bool \<Rightarrow> ReplCoord \<Rightarrow> ReplCoord \<Rightarrow> bool" where
  "still v1 s s' \<longleftrightarrow>
     progresses v1 s s' \<and> rc_slaveInfo s' = rc_slaveInfo s \<and> rc_lastCommittedOpTime s' = rc_lastCommittedOpTime s \<and>
     rc_uncommittedSnapshots s' = rc_uncommittedSnapshots s \<and> rc_currentCommittedSnapshot s' = rc_currentCommittedSnapshot s"

lemma still_refl: "progress_ok v1 s \<Longrightarrow> still v1 s s"
  by (simp add: still_def)

lemma still_trans: "progress_ok v1 s \<Longrightarrow> still v1 s s1 \<Longrightarrow> still v1 s1 s2 \<Longrightarrow> still v1 s s2"
  unfolding still_def using progresses_trans [of v1 s s1 s2] by (simp add: grows_same)

lemma still_advances: "progress_ok v1 s \<Longrightarrow> still v1 s s' \<Longrightarrow> advances v1 s s'"
  unfolding still_def by (blast intro: advances_still)

lemma call_still: "progress_ok v1 s \<Longrightarrow> still v1 s (call c s)"
  using call_progresses by (simp add: still_def) (simp add: call_def)

lemma abort_still:
  assumes ok: "progress_ok v1 s" and cu: "rc_catchupState s = Some cu" "cu_waiter cu = Some w \<or> cu_waiter cu = None"
    and no: "\<forall>w'\<in>set (rc_opTimeWaiterList s). w_callback w' \<longrightarrow> cu_waiter cu = Some w'"
  obtains s' where "CatchupState_abort s = Some s'" "still v1 s s'" "rc_catchupState s' = None"
    "set (rc_opTimeWaiterList s') \<subseteq> set (rc_opTimeWaiterList s)" "distinct (map w_id (rc_opTimeWaiterList s'))"
proof -
  let ?l = "case cu_waiter cu of Some w \<Rightarrow> removeWaiter w (rc_opTimeWaiterList s) | None \<Rightarrow> rc_opTimeWaiterList s"
  let ?s = "s\<lparr>rc_opTimeWaiterList := ?l, rc_applierState := ApplierDraining, rc_calls := rc_calls s @ [StopProducer], rc_catchupState := None\<rparr>"
  note w = progress_okD(4) [OF ok, unfolded waiters_ok_def]
  have d: "distinct (map w_id (rc_opTimeWaiterList s))" "rc_memberState s = RS_PRIMARY" using w cu(1) by auto
  have l: "set ?l \<subseteq> set (rc_opTimeWaiterList s)" "distinct (map w_id ?l)"
    using removeWaiter_id [OF d(1)] d(1) by (auto split: option.split)
  have nc: "\<forall>w'\<in>set ?l. \<not> w_callback w'"
    using no removeWaiter_id(1) [OF d(1)] by (auto split: option.split)
  have s': "CatchupState_abort s = Some ?s"
    using cu(1) d(2) by (simp add: CatchupState_abort_def enterDrainMode_def call_def split: option.split)
  have "waiters_ok ?s" using w l nc unfolding waiters_ok_def by (simp add: subset_iff)
  then have ok': "progress_ok v1 ?s" using ok by (simp add: progress_ok_def)
  have "progresses v1 s ?s"
    by (rule view_progresses [OF ok ok']) (simp_all add: same_view_def progress_view_def progress_frame_def role_frame_def cu(1))
  then show thesis using that [of ?s] s' l by (simp add: still_def)
qed

lemma notify_optime_ok:
  assumes "progress_ok v1 s" "distinct (map w_id (ws @ rc_opTimeWaiterList s))"
    "\<forall>w\<in>set ws. w_callback w \<longrightarrow> (\<exists>cu. rc_catchupState s = Some cu \<and> cu_waiter cu = Some w)"
  shows "\<exists>s'. foldM notifyWaiter ws s = Some s' \<and> still v1 s s'"
  using assms
proof (induction ws arbitrary: s)
  case Nil
  then show ?case by (simp add: still_refl)
next
  case (Cons w ws)
  note ok = Cons.prems(1)
  have step: ?case if n: "notifyWaiter w s = Some s1" "still v1 s s1" "distinct (map w_id (ws @ rc_opTimeWaiterList s1))"
    "\<forall>w'\<in>set ws. w_callback w' \<longrightarrow> (\<exists>cu. rc_catchupState s1 = Some cu \<and> cu_waiter cu = Some w')" for s1
  proof -
    have "progress_ok v1 s1" using n(2) by (auto simp: still_def dest: progressesD)
    from Cons.IH [OF this n(3,4)] obtain s2 where "foldM notifyWaiter ws s1 = Some s2" "still v1 s1 s2" by blast
    then show ?thesis using n(1) still_trans [OF ok n(2)] by auto
  qed
  show ?case
  proof (cases "w_callback w")
    case False
    then show ?thesis using Cons.prems step [of "call (NotifyWaiter (w_id w)) s"] call_still [OF ok]
      by (simp add: notifyWaiter_def) (simp add: call_def)
  next
    case True
    then obtain cu where cu: "rc_catchupState s = Some cu" "cu_waiter cu = Some w" using Cons.prems(3) by auto
    show ?thesis
    proof (cases "ot_le (w_opTime w) (si_lastAppliedOpTime (rc_slaveInfo s ! nat (myIndex s)))")
      case False
      then have "notifyWaiter w s = Some s" using True my_optimes(2) [OF progress_okD(1) [OF ok]] by (simp add: notifyWaiter_def catchupCallback_def)
      then show ?thesis using step [of s] still_refl [OF ok] Cons.prems by simp
    next
      case le: True
      then have n: "notifyWaiter w s = CatchupState_abort s"
        using True my_optimes(2) [OF progress_okD(1) [OF ok]] by (simp add: notifyWaiter_def catchupCallback_def)
      have "\<forall>w'\<in>set (rc_opTimeWaiterList s). w_callback w' \<longrightarrow> cu_waiter cu = Some w'"
        using progress_okD(4) [OF ok] cu by (auto simp: waiters_ok_def)
      from abort_still [OF ok cu(1) _ this] cu(2) obtain s1 where s1: "CatchupState_abort s = Some s1" "still v1 s s1" "rc_catchupState s1 = None"
        "set (rc_opTimeWaiterList s1) \<subseteq> set (rc_opTimeWaiterList s)" "distinct (map w_id (rc_opTimeWaiterList s1))" by blast
      have "\<forall>w'\<in>set ws. \<not> w_callback w'" using Cons.prems(2,3) cu by force
      moreover have "distinct (map w_id (ws @ rc_opTimeWaiterList s1))" using Cons.prems(2) s1(4,5) by fastforce
      ultimately show ?thesis using step [of s1] s1(1,2) n by simp
    qed
  qed
qed

lemma signalOpTimeWaiters_ok:
  assumes ok: "progress_ok v1 s"
  shows "\<exists>s'. signalOpTimeWaiters x s = Some s' \<and> still v1 s s'"
proof -
  let ?f = "\<lambda>w. Some (ot_le (w_opTime w) x)"
  from signalLoop_total [of "rc_opTimeWaiterList s" ?f 0] obtain sig rest where
    l: "signalLoop ?f 0 (rc_opTimeWaiterList s) = Some (sig, rest)" by auto
  note p = signalLoop_set [OF l]
  note w = progress_okD(4) [OF ok, unfolded waiters_ok_def]
  have m: "mset (map w_id (rc_opTimeWaiterList s)) = mset (map w_id (sig @ rest))" using p(3) by simp
  have u: "set (rc_opTimeWaiterList s) = set sig \<union> set rest" using p(3) by (metis set_mset_mset set_mset_union)
  have d: "distinct (map w_id (sig @ rest))" using mset_eq_imp_distinct_iff [OF m] w by blast
  let ?s = "s\<lparr>rc_opTimeWaiterList := rest\<rparr>"
  have "waiters_ok ?s" using w d u unfolding waiters_ok_def by simp blast
  then have ok': "progress_ok v1 ?s" using ok by (simp add: progress_ok_def)
  have "progresses v1 s ?s"
    by (rule view_progresses [OF ok ok']) (simp_all add: same_view_def progress_view_def progress_frame_def role_frame_def)
  then have st: "still v1 s ?s" by (simp add: still_def)
  have "\<forall>w\<in>set sig. w_callback w \<longrightarrow> (\<exists>cu. rc_catchupState ?s = Some cu \<and> cu_waiter cu = Some w)" using w u by simp
  from notify_optime_ok [OF ok' _ this] d obtain s' where "foldM notifyWaiter sig ?s = Some s'" "still v1 ?s s'" by auto
  then show ?thesis using l still_trans [OF ok st] by (simp add: signalOpTimeWaiters_def)
qed

section \<open>The own entry\<close>

text \<open>What the caller of \<open>_setMyLastAppliedOpTime_inlock\<close> guarantees: an optime that does not go back.\<close>

definition opTime_follows :: "OpTime \<Rightarrow> OpTime \<Rightarrow> bool" where
  "opTime_follows mine x \<longleftrightarrow>
     ot_eq x mine \<or> ot_gt x mine \<and>
       (ot_term x = kUninitializedTerm \<or> ot_term mine = kUninitializedTerm \<or> ts_less (ot_timestamp mine) (ot_timestamp x))"

lemma frame_myIndex: "progresses v1 s s' \<Longrightarrow> myIndex s' = myIndex s"
  using frame_fields(5) by (simp add: myIndex_def)

lemma setMyLastApplied_advances:
  assumes ok: "progress_ok v1 s" and x: "proper v1 x" "opTime_follows (si_lastAppliedOpTime (myEntry s)) x"
  obtains s' where "rc_setMyLastAppliedOpTime now x rb s = Some s'" "advances v1 s s'" "quiet s'" "commit_maximal v1 s'"
    "si_lastAppliedOpTime (myEntry s') = x"
proof -
  note m = my_entry [OF ok]
  have "rank (si_lastAppliedOpTime (myEntry s)) \<le> rank x" using x ot_ranks [OF x(1) m(3)] by (auto simp: opTime_follows_def)
  from applied_advances [OF ok m(2) x(1) this] obtain s1 where s1: "updateSlaveInfoAppliedOpTime now (myIndex s) x s = Some s1"
    "advances v1 s s1" "quiet s1" "commit_maximal v1 s1"
    "rc_slaveInfo s1 = (rc_slaveInfo s)[nat (myIndex s) := (myEntry s)\<lparr>si_lastAppliedOpTime := x, si_lastUpdate := now, si_down := False\<rparr>]" .
  have ok1: "progress_ok v1 s1" using s1(2) by (auto simp: advances_def dest: progressesD)
  from signalOpTimeWaiters_ok [OF ok1] obtain s2 where s2: "signalOpTimeWaiters x s1 = Some s2" "still v1 s1 s2" by blast
  have a: "advances v1 s1 s2" by (rule still_advances [OF ok1 s2(2)])
  have q: "quiet s2" "commit_maximal v1 s2" using a s1(3,4) by (auto simp: advances_def progresses_def)
  have p: "progresses v1 s s1" "progresses v1 s1 s2" using s1(2) a by (auto simp: advances_def)
  have v: "si_lastAppliedOpTime (myEntry s2) = x"
    using s2(2) s1(5) m(5) by (simp add: still_def frame_myIndex [OF p(1)] frame_myIndex [OF p(2)])
  have "rc_setMyLastAppliedOpTime now x rb s = Some s2"
    using x(2) m s1(1) s2(1) by (simp add: rc_setMyLastAppliedOpTime_def opTime_follows_def)
  then show thesis by (rule that [OF _ advances_trans [OF s1(2) a] q v])
qed

lemma setMyLastDurable_advances:
  assumes ok: "progress_ok v1 s" and x: "proper v1 x" "ot_le (si_lastDurableOpTime (myEntry s)) x"
  obtains s' where "rc_setMyLastDurableOpTime now x rb s = Some s'" "advances v1 s s'"
proof -
  note m = my_entry [OF ok]
  have r: "rank (si_lastDurableOpTime (myEntry s)) \<le> rank x" using x ot_ranks [OF m(4) x(1)] by simp
  show thesis
  proof (cases "ot_less (si_lastAppliedOpTime (myEntry s)) x")
    case True
    then show thesis using that [of s] m x(2) advances_refl [OF ok] by (simp add: rc_setMyLastDurableOpTime_def)
  next
    case False
    from durable_advances [OF ok m(2) x(1) r] obtain s' where "updateSlaveInfoDurableOpTime now (myIndex s) x s = Some s'" "advances v1 s s'" .
    then show thesis using that False m x(2) by (simp add: rc_setMyLastDurableOpTime_def)
  qed
qed

lemma reportUpstream_advances: "progress_ok v1 s \<Longrightarrow> advances v1 s (reportUpstream s)"
  by (simp add: reportUpstream_def call_advances advances_refl)

lemma advances_ok: "advances v1 s s' \<Longrightarrow> progress_ok v1 s'"
  by (auto simp: advances_def dest: progressesD)

text \<open>A node that is not primary may go back, to the optime of its oplog.\<close>

lemma reset_ok:
  assumes ok: "progress_ok v1 s" and x: "proper v1 x" and np: "rc_memberState s \<noteq> RS_PRIMARY"
  obtains s1 s2 where "rc_setMyLastAppliedOpTime now x True s = Some s1" "rc_setMyLastDurableOpTime now x True s1 = Some s2"
    "progresses v1 s s2" "durable_ok s \<longrightarrow> durable_ok s2" "rc_lastCommittedOpTime s2 = rc_lastCommittedOpTime s"
proof -
  note m = my_entry [OF ok]
  let ?e = "(myEntry s)\<lparr>si_lastAppliedOpTime := x, si_lastUpdate := now, si_down := False\<rparr>"
  have e: "slave_ok v1 ?e" using m x by (simp add: slave_ok_def)
  obtain s0 where s0: "noteProgress (myIndex s) ?e s = Some s0" "progresses v1 s s0"
    "rc_slaveInfo s0 = (rc_slaveInfo s)[nat (myIndex s) := ?e]" "commits v1 s s0"
    by (rule noteProgress_result [OF ok m(2) _ _ _ e]) simp_all
  from signalOpTimeWaiters_ok [OF progressesD [OF s0(2)]] obtain s1 where s1: "signalOpTimeWaiters x s0 = Some s1" "still v1 s0 s1" by blast
  have a: "rc_setMyLastAppliedOpTime now x True s = Some s1"
    using m s0(1) s1(1) by (simp add: rc_setMyLastAppliedOpTime_def updateSlaveInfoApplied_note)
  have p1: "progresses v1 s s1" using progresses_trans [OF ok s0(2)] s1(2) by (simp add: still_def grows_same)
  note ok1 = progressesD [OF p1]
  note m1 = my_entry [OF ok1]
  have i: "myIndex s1 = myIndex s" by (rule frame_myIndex [OF p1])
  have sl: "rc_slaveInfo s1 = (rc_slaveInfo s)[nat (myIndex s) := ?e]" using s0(3) s1(2) by (simp add: still_def)
  then have e1: "myEntry s1 = ?e" using i m(5) by simp
  let ?d = "?e\<lparr>si_lastDurableOpTime := x, si_lastUpdate := now, si_down := False\<rparr>"
  have d: "slave_ok v1 ?d" "\<not> ot_less x x" using x ot_ranks(1) [OF x x] by (simp_all add: slave_ok_def)
  obtain s2 where s2: "noteProgress (myIndex s1) ?d s1 = Some s2" "progresses v1 s1 s2"
    "rc_slaveInfo s2 = (rc_slaveInfo s1)[nat (myIndex s1) := ?d]" "commits v1 s1 s2"
    by (rule noteProgress_result [OF ok1 m1(2) _ _ _ d(1)]) (simp_all add: e1)
  have b: "rc_setMyLastDurableOpTime now x True s1 = Some s2"
    using m1 e1 d(2) s2(1) by (simp add: rc_setMyLastDurableOpTime_def updateSlaveInfoDurable_note)
  have c: "rc_lastCommittedOpTime s2 = rc_lastCommittedOpTime s"
    using s0(4) s2(4) s1(2) np frame_fields(6) [OF p1] by (simp add: commits_def still_def)
  have sl2: "rc_slaveInfo s2 = (rc_slaveInfo s)[nat (myIndex s) := ?d]" using s2(3) sl i by simp
  have d2: "durable_ok s \<longrightarrow> durable_ok s2" using durable_ok_update [OF sl2] by simp
  show thesis by (rule that [OF a b progresses_trans [OF ok p1 s2(2)] d2 c]) (use np in simp)
qed

end
