(* ===== verification/ReplReports.thy ===== *)
theory ReplReports
  imports ReplProgressOps
begin

text \<open>
  The commands and messages that report progress: positions of other members, heartbeats, the commit
  point that is learned from another member, and snapshots.
\<close>

section \<open>Positions of other members\<close>

lemma maximal_shrinks:
  assumes "grows s' s" "progress_ok v1 s" "progress_ok v1 s'" "rc_rsConfig s = rc_rsConfig s'" "rc_memberState s' = rc_memberState s"
    "rc_stepDownPending s' = rc_stepDownPending s" "rc_firstOpTimeOfMyTerm s' = rc_firstOpTimeOfMyTerm s"
    "rc_lastCommittedOpTime s' = rc_lastCommittedOpTime s" "commit_maximal v1 s"
  shows "commit_maximal v1 s'"
  using assms(5-9) majority_grows [OF assms(1,3,2,4)] unfolding commit_maximal_def by auto

text \<open>Time stamps of the last contact.\<close>

lemma touch_advances:
  assumes ok: "progress_ok v1 s" and i: "nth_opt (rc_slaveInfo s) i = Some si"
  shows "advances v1 s (setSlaveInfo i (si\<lparr>si_lastUpdate := d, si_down := b\<rparr>) s)"
proof -
  let ?si = "si\<lparr>si_lastUpdate := d, si_down := b\<rparr>"
  let ?s = "setSlaveInfo i ?si s"
  have ok': "progress_ok v1 ?s" by (rule setSlaveInfo_ok [OF ok i]) (use slave_at [OF ok i] in \<open>simp_all add: slave_ok_def\<close>)
  have sl: "rc_slaveInfo ?s = (rc_slaveInfo s)[nat i := ?si]" by (simp add: setSlaveInfo_def)
  have e: "si = rc_slaveInfo s ! nat i" "nat i < length (rc_slaveInfo s)" using i by (auto simp: nth_opt_Some)
  have p: "progresses v1 s ?s"
    by (rule view_progresses [OF ok ok'])
      (simp_all add: same_view_def progress_view_def progress_frame_def role_frame_def setSlaveInfo_def map_update_same e(1))
  have g: "grows s ?s" by (rule grows_update [OF i _ sl]) (simp add: entry_grows_def)
  have g': "grows ?s s"
    using e by (auto simp: grows_def setSlaveInfo_def list_all2_conv_all_nth nth_list_update entry_grows_def)
  have m: "commit_maximal v1 s \<longrightarrow> commit_maximal v1 ?s"
    using maximal_shrinks [OF g' ok ok'] by (simp add: setSlaveInfo_def)
  have "durable_ok s \<longrightarrow> durable_ok ?s"
    using durable_ok_update [OF sl] slave_at [OF ok i] by (auto simp: durable_ok_def)
  then show ?thesis using ok p g m by (simp add: advances_def commits_def setSlaveInfo_def)
qed

lemma timer_advances:
  assumes "progress_ok v1 s"
  shows "advances v1 s (s\<lparr>rc_livenessTimer := a, rc_earliestMemberId := b\<rparr>)" "advances v1 s (s\<lparr>rc_livenessTimer := a\<rparr>)"
  using assms by (auto intro!: advances_still view_progresses simp: same_view_def progress_view_def progress_frame_def role_frame_def)

lemma liveness_advances: "progress_ok v1 s \<Longrightarrow> advances v1 s (cancelAndRescheduleLivenessUpdate n s)"
  by (simp add: cancelAndRescheduleLivenessUpdate_def scheduleNextLivenessUpdate_def timer_advances advances_refl split: prod.split)

lemma nth_same_length: "nth_opt xs i = Some x \<Longrightarrow> length ys = length xs \<Longrightarrow> nth_opt ys i = Some (ys ! nat i)"
  by (auto simp: nth_opt_def split: if_splits)

lemma advances_length: "advances v1 s s' \<Longrightarrow> length (rc_slaveInfo s') = length (rc_slaveInfo s)"
  by (auto simp: advances_def dest: frame_fields(14))

text \<open>The two updates of an entry, as reports and heartbeats do them.\<close>

lemma two_updates_advances:
  assumes ok: "progress_ok v1 s" and i: "nth_opt (rc_slaveInfo s) i = Some si" and p: "proper v1 a" "proper v1 d"
    and lt: "\<And>x y. proper v1 x \<Longrightarrow> proper v1 y \<Longrightarrow> lt x y \<longleftrightarrow> rank x < rank y"
  obtains s1 si1 s' where "(if lt (si_lastAppliedOpTime si) a then updateSlaveInfoAppliedOpTime now i a s else Some s) = Some s1"
    "nth_opt (rc_slaveInfo s1) i = Some si1"
    "(if lt (si_lastDurableOpTime si1) d then updateSlaveInfoDurableOpTime now i d s1 else Some s1) = Some s'" "advances v1 s s'"
proof -
  have sp: "proper v1 (si_lastAppliedOpTime si)" using slave_at [OF ok i] by (simp add: slave_ok_def)
  obtain s1 where s1: "(if lt (si_lastAppliedOpTime si) a then updateSlaveInfoAppliedOpTime now i a s else Some s) = Some s1"
    "advances v1 s s1"
  proof (cases "lt (si_lastAppliedOpTime si) a")
    case True
    then have "rank (si_lastAppliedOpTime si) \<le> rank a" using lt [OF sp p(1)] by simp
    from applied_advances [OF ok i p(1) this, of now thesis] that True show thesis by auto
  qed (use that advances_refl [OF ok] in simp)
  note ok1 = advances_ok [OF s1(2)]
  define si1 where "si1 = rc_slaveInfo s1 ! nat i"
  have i1: "nth_opt (rc_slaveInfo s1) i = Some si1"
    unfolding si1_def by (rule nth_same_length [OF i advances_length [OF s1(2)]])
  have dp: "proper v1 (si_lastDurableOpTime si1)" using slave_at [OF ok1 i1] by (simp add: slave_ok_def)
  obtain s2 where s2: "(if lt (si_lastDurableOpTime si1) d then updateSlaveInfoDurableOpTime now i d s1 else Some s1) = Some s2"
    "advances v1 s1 s2"
  proof (cases "lt (si_lastDurableOpTime si1) d")
    case True
    then have "rank (si_lastDurableOpTime si1) \<le> rank d" using lt [OF dp p(2)] by simp
    from durable_advances [OF ok1 i1 p(2) this, of now thesis] that True show thesis by auto
  qed (use that advances_refl [OF ok1] in simp)
  show thesis by (rule that [OF s1(1) i1 s2(1) advances_trans [OF s1(2) s2(2)]])
qed

lemma updateOpTimes_advances:
  assumes ok: "progress_ok v1 s" and i: "nth_opt (rc_slaveInfo s) i = Some si" and p: "proper v1 a" "proper v1 d"
  obtains s' where "updateOpTimes now i a d s = Some s'" "advances v1 s s'"
  by (rule two_updates_advances [where lt = ot_less and now = now, OF ok i p]) (auto simp: ot_ranks updateOpTimes_def i intro: that)

lemma heartbeatOpTimes_advances:
  assumes ok: "progress_ok v1 s" and i: "nth_opt (rc_slaveInfo s) i = Some si" "rc_selfIndex s \<noteq> -1" and p: "proper v1 a" "proper v1 d"
  obtains s' where "updateOpTimesFromHeartbeat now i d a s = Some s'" "advances v1 s s'"
proof -
  have n: "0 \<le> rc_selfIndex s" "0 \<le> i" using progress_okD(1) [OF ok] i by (auto simp: aligned_def nth_opt_Some)
  show thesis
    by (rule two_updates_advances [where lt = "\<lambda>x y. ot_gt y x" and now = now, OF ok i(1) p])
      (auto simp: ot_ranks updateOpTimesFromHeartbeat_def i n intro: that)
qed

definition report_ok :: "bool \<Rightarrow> UpdateInfo \<Rightarrow> bool" where
  "report_ok v1 u \<longleftrightarrow> proper v1 (ui_appliedOpTime u) \<and> proper v1 (ui_durableOpTime u)"

lemma setLastOptime_advances:
  assumes ok: "progress_ok v1 s" and u: "report_ok v1 u"
  shows "\<exists>st v s'. setLastOptime now u s = Some (st, v, s') \<and> advances v1 s s'"
proof (cases "rc_selfIndex s = -1")
  case True
  then show ?thesis using advances_refl [OF ok] by (simp add: setLastOptime_def)
next
  case False
  note al = progress_okD(1) [OF ok]
  have mem: "map si_memberId (rc_slaveInfo s) = map mc_id (c_members (rc_rsConfig s))" "0 \<le> rc_selfIndex s"
    "rc_selfIndex s < int (length (rc_slaveInfo s))"
    using al False by (simp_all add: aligned_def)
  have "length (c_members (rc_rsConfig s)) = length (rc_slaveInfo s)" using mem(1) by (metis length_map)
  then have me: "getMemberAt (rc_rsConfig s) (rc_selfIndex s) = Some (c_members (rc_rsConfig s) ! nat (rc_selfIndex s))"
    using mem by (simp add: getMemberAt_def nth_opt_def)
  show ?thesis
  proof (cases "ui_memberId u < 0 \<or> ui_memberId u = mc_id (c_members (rc_rsConfig s) ! nat (rc_selfIndex s)) \<or> ui_cfgver u \<noteq> c_version (rc_rsConfig s)")
    case True
    then show ?thesis using False me replset_mode [OF al] advances_refl [OF ok] by (auto simp: setLastOptime_def)
  next
    case c: False
    show ?thesis
    proof (cases "findSlaveInfoByMemberID (ui_memberId u) s")
      case None
      then have "\<not> (\<exists>si\<in>set (rc_slaveInfo s). si_memberId si = ui_memberId u)"
        by (simp add: findSlaveInfoByMemberID_def findIndex_less Let_def split: if_splits)
      then have "ui_memberId u \<notin> set (map mc_id (c_members (rc_rsConfig s)))" using mem(1) by (metis (mono_tags) imageE list.set_map)
      then have "findMemberByID (rc_rsConfig s) (ui_memberId u) = None" by (force simp: findMemberByID_def find_None_iff)
      then show ?thesis using c False me replset_mode [OF al] advances_refl [OF ok] None by (simp add: setLastOptime_def)
    next
      case (Some i)
      then have i: "nth_opt (rc_slaveInfo s) i = Some (rc_slaveInfo s ! nat i)"
        by (auto simp: findSlaveInfoByMemberID_def Let_def nth_opt_def split: if_splits)
      have p: "proper v1 (ui_appliedOpTime u)" "proper v1 (ui_durableOpTime u)" using u by (simp_all add: report_ok_def)
      obtain s1 where s1: "updateOpTimes now i (ui_appliedOpTime u) (ui_durableOpTime u) s = Some s1" "advances v1 s s1"
        by (rule updateOpTimes_advances [OF ok i p])
      note ok1 = advances_ok [OF s1(2)]
      define si where "si = rc_slaveInfo s1 ! nat i"
      have i1: "nth_opt (rc_slaveInfo s1) i = Some si"
        unfolding si_def by (rule nth_same_length [OF i advances_length [OF s1(2)]])
      let ?s2 = "setSlaveInfo i (si\<lparr>si_lastUpdate := now, si_down := False\<rparr>) s1"
      have t: "advances v1 s1 ?s2" by (rule touch_advances [OF ok1 i1])
      note a = advances_trans [OF s1(2) advances_trans [OF t liveness_advances [OF advances_ok [OF t], of "ui_memberId u"]]]
      show ?thesis using a c False me replset_mode [OF al] Some s1(1) i1 by (simp add: setLastOptime_def)
    qed
  qed
qed

lemma updatePosition_advances:
  assumes upd: "\<And>u s. u \<in> set us \<Longrightarrow> progress_ok v1 s \<Longrightarrow> \<exists>st v s'. upd u s = Some (st, v, s') \<and> advances v1 s s'"
    and ok: "progress_ok v1 s"
  shows "\<exists>st v ch s'. updatePositionLoop upd us changed s = Some (st, v, ch, s') \<and> advances v1 s s'"
  using assms
proof (induction us arbitrary: changed s)
  case Nil
  then show ?case by (simp add: advances_refl)
next
  case (Cons u us)
  from Cons.prems(1) [of u s] Cons.prems(2) obtain st v s1 where s1: "upd u s = Some (st, v, s1)" "advances v1 s s1" by auto
  from Cons.IH [OF Cons.prems(1) advances_ok [OF s1(2)], of True] obtain st' v' ch' s2 where
    s2: "updatePositionLoop upd us True s1 = Some (st', v', ch', s2)" "advances v1 s1 s2" by auto
  show ?case using s1 s2 advances_trans [OF s1(2) s2(2)] by (cases "st = StatusOK") auto
qed

lemma forward_advances: "progress_ok v1 s \<Longrightarrow> advances v1 s (snd (snd (forwardIfChanged (st, v, ch, s))))"
  by (simp add: forwardIfChanged_def call_advances advances_refl)

lemma processUpdatePosition_advances:
  assumes "progress_ok v1 s" "\<forall>u\<in>set us. report_ok v1 u"
  shows "\<exists>st v s'. processReplSetUpdatePosition now us s = Some (st, v, s') \<and> advances v1 s s'"
proof -
  have "\<exists>st v ch s'. updatePositionLoop (setLastOptime now) us False s = Some (st, v, ch, s') \<and> advances v1 s s'"
    by (rule updatePosition_advances [OF _ assms(1)]) (use assms(2) setLastOptime_advances in blast)
  then obtain st v ch s1 where s1: "updatePositionLoop (setLastOptime now) us False s = Some (st, v, ch, s1)" "advances v1 s s1" by blast
  then show ?thesis using advances_trans [OF s1(2) forward_advances [OF advances_ok [OF s1(2)], of st v ch]]
    by (cases "forwardIfChanged (st, v, ch, s1)") (simp add: processReplSetUpdatePosition_def)
qed

lemma processUpdatePosition_old_advances:
  assumes "progress_ok v1 s" "\<forall>u\<in>set us. proper v1 (oui_ts u)"
  shows "\<exists>st v s'. processReplSetUpdatePosition_old now us s = Some (st, v, s') \<and> advances v1 s s'"
proof -
  have "\<exists>st v ch s'. updatePositionLoop (setLastOptime_old now) us False s = Some (st, v, ch, s') \<and> advances v1 s s'"
    by (rule updatePosition_advances [OF _ assms(1)])
      (use assms(2) setLastOptime_advances in \<open>simp add: setLastOptime_old_def report_ok_def\<close>)
  then obtain st v ch s1 where s1: "updatePositionLoop (setLastOptime_old now) us False s = Some (st, v, ch, s1)" "advances v1 s s1" by blast
  then show ?thesis using advances_trans [OF s1(2) forward_advances [OF advances_ok [OF s1(2)], of st v ch]]
    by (cases "forwardIfChanged (st, v, ch, s1)") (simp add: processReplSetUpdatePosition_old_def)
qed

section \<open>Learning the commit point\<close>

text \<open>An arbiter applies what it learns.\<close>

lemma advanceCommitPoint_learns:
  assumes ok: "progress_ok v1 s" and c: "proper v1 c"
    and arb: "rc_memberState s = RS_ARBITER \<Longrightarrow> rank (rc_lastCommittedOpTime s) < rank c \<Longrightarrow>
      opTime_follows (si_lastAppliedOpTime (myEntry s)) c"
  obtains s' where "advanceCommitPoint now c s = Some s'" "progresses v1 s s'" "durable_ok s \<longrightarrow> durable_ok s'"
    "commit_maximal v1 s \<longrightarrow> commit_maximal v1 s'" "grows s s'"
    "rc_lastCommittedOpTime s' = (if rank c \<le> rank (rc_lastCommittedOpTime s) \<or> rc_memberState s = RS_PRIMARY \<and> rank c < rank (rc_firstOpTimeOfMyTerm s)
       then rc_lastCommittedOpTime s else c)"
proof -
  note conclude = that
  let ?f = "\<lambda>committed. rc_setMyLastAppliedOpTime now committed False"
  let ?lc = "\<lambda>s. if rank c \<le> rank (rc_lastCommittedOpTime s) \<or> rc_memberState s = RS_PRIMARY \<and> rank c < rank (rc_firstOpTimeOfMyTerm s)
       then rc_lastCommittedOpTime s else c"
  have result: thesis if t: "progress_ok v1 t" "rc_memberState t = RS_ARBITER \<longrightarrow> f c t = Some t" "progresses v1 s t" "durable_ok s \<longrightarrow> durable_ok t"
    "commit_maximal v1 s \<longrightarrow> commit_maximal v1 t" "rc_lastCommittedOpTime t = rc_lastCommittedOpTime s"
    "advanceCommitPoint now c s = advanceCommitPoint_with f c t" "grows s t" for t f
  proof -
    from advanceCommitPoint_ok [where f = f, OF t(1) c t(2)] obtain s' where s': "advanceCommitPoint_with f c t = Some s'" "progress_ok v1 s'"
      "quiet t \<longrightarrow> quiet s'" "woken t s'" "commit_frame t s'" "rc_lastCommittedOpTime s' = ?lc t" by blast
    note fr = commit_frame_fields [OF s'(5)]
    have le: "rank (rc_lastCommittedOpTime t) \<le> rank (rc_lastCommittedOpTime s')" using s'(6) by auto
    have p: "progresses v1 t s'" using s'(2-4) le commit_progress_frame [OF s'(5)] by (simp add: progresses_def)
    have l: "rc_lastCommittedOpTime s' = ?lc s" using s'(6) t(6) frame_fields(6,10) [OF t(3)] by simp
    have d: "durable_ok s \<longrightarrow> durable_ok s'" using t(4) fr(14) by (simp add: durable_ok_def)
    have m: "commit_maximal v1 s \<longrightarrow> commit_maximal v1 s'" using t(5) maximal_view [OF fr(14,4,6,10,15) le] by blast
    show thesis by (rule conclude [OF _ progresses_trans [OF ok t(3) p] d m grows_trans [OF t(8) grows_same [OF fr(14)]] l])
      (simp_all add: t(7) s'(1) grows_same fr(14))
  qed
  have cp: "proper v1 (rc_lastCommittedOpTime s)" by (rule commit_proper [OF ok])
  show thesis
  proof (cases "rc_memberState s = RS_ARBITER \<and> rank (rc_lastCommittedOpTime s) < rank c")
    case False
    then have "rc_memberState s \<noteq> RS_ARBITER \<or> ot_less c (rc_lastCommittedOpTime s) \<or> ot_eq c (rc_lastCommittedOpTime s)"
      using ot_ranks [OF c cp] by auto
    then have "advanceCommitPoint now c s = advanceCommitPoint_with (\<lambda>_ s. Some s) c s"
      by (auto simp: advanceCommitPoint_def advanceCommitPoint_with_def)
    then show thesis by (intro result [of s "\<lambda>_ s. Some s"]) (simp_all add: ok grows_same)
  next
    case True
    from setMyLastApplied_advances [OF ok c, of now False] arb True obtain t where
      t: "?f c s = Some t" "advances v1 s t" by auto
    have p: "progresses v1 s t" "commits v1 s t" using t(2) by (simp_all add: advances_def)
    have l: "rc_lastCommittedOpTime t = rc_lastCommittedOpTime s" using p(2) True by (auto simp: commits_def)
    have "\<not> ot_less c (rc_lastCommittedOpTime s)" "\<not> ot_eq c (rc_lastCommittedOpTime s)" using True ot_ranks [OF c cp] by auto
    then have "advanceCommitPoint now c s = advanceCommitPoint_with (\<lambda>_ s. Some s) c t"
      using True t(1) l frame_fields(6) [OF p(1)] by (simp add: advanceCommitPoint_def advanceCommitPoint_with_def)
    then show thesis using t(2) advances_ok [OF t(2)] l by (intro result [of t "\<lambda>_ s. Some s"]) (simp_all add: advances_def progressesD)
  qed
qed

text \<open>The call from \<open>_updateLastCommittedOpTime_inlock\<close> is the same function.\<close>

lemma updateLastCommittedOpTime_unfold:
  "updateLastCommittedOpTime s =
     (if rc_memberState s \<noteq> RS_PRIMARY \<or> rc_stepDownPending s then Some s
      else do {
        xs \<leftarrow> votingNodesOpTimes s;
        ensure (xs \<noteq> []);
        let majority = c_writeMajority (rc_rsConfig s);
        if majority < 0 \<or> int (length xs) < majority then Some s
        else do { committed \<leftarrow> nth_opt (sortOpTimes xs) (int (length xs) - majority);
                  advanceCommitPoint now committed s } })"
proof -
  have "advanceCommitPoint now c s = advanceCommitPoint_with (\<lambda>_ _. None) c s" if "rc_memberState s = RS_PRIMARY" for c
    using that by (simp add: advanceCommitPoint_def advanceCommitPoint_with_def)
  then show ?thesis by (simp add: updateLastCommittedOpTime_def cong: if_cong)
qed

section \<open>Snapshots\<close>

definition snapshot_allowed :: "bool \<Rightarrow> OpTime \<Rightarrow> SnapshotName \<Rightarrow> ReplCoord \<Rightarrow> bool" where
  "snapshot_allowed v1 x n s \<longleftrightarrow>
     proper v1 x \<and> \<not> ot_isNull x \<and>
     (\<forall>u\<in>set (rc_uncommittedSnapshots s). rank (sn_opTime u) \<le> rank x \<and> sn_name u < n) \<and>
     (case rc_currentCommittedSnapshot s of None \<Rightarrow> True | Some cur \<Rightarrow> rank (sn_opTime cur) \<le> rank x \<and> sn_name cur < n)"

lemma createSnapshot_ok:
  assumes ok: "progress_ok v1 s" and a: "snapshot_allowed v1 x n s"
  obtains s' where "createSnapshot x n s = Some s'" "advances v1 s s'" "rc_lastCommittedOpTime s' = rc_lastCommittedOpTime s"
proof -
  note sn = progress_okD(3) [OF ok, unfolded snaps_ok_def]
  have x: "proper v1 x" "\<not> ot_isNull x" using a by (auto simp: snapshot_allowed_def)
  let ?s1 = "call (CreateSnapshot n) s"
  let ?i = "\<lparr>sn_opTime = x, sn_name = n\<rparr>"
  have c: "advances v1 s ?s1" by (rule call_advances [OF ok])
  note ok1 = advances_ok [OF c]
  have f: "rc_lastCommittedOpTime ?s1 = rc_lastCommittedOpTime s" "rc_uncommittedSnapshots ?s1 = rc_uncommittedSnapshots s"
    "rc_currentCommittedSnapshot ?s1 = rc_currentCommittedSnapshot s" by (simp_all add: call_def)
  have le: "ot_le x (rc_lastCommittedOpTime s) \<longleftrightarrow> rank x \<le> rank (rc_lastCommittedOpTime s)"
    using ot_ranks(3) [OF x(1) commit_proper [OF ok]] .
  show thesis
  proof (cases "rank x \<le> rank (rc_lastCommittedOpTime s)")
    case True
    have none: "rc_uncommittedSnapshots s = []"
    proof (rule ccontr)
      assume "rc_uncommittedSnapshots s \<noteq> []"
      then obtain u where "u \<in> set (rc_uncommittedSnapshots s)" by (meson last_in_set)
      then show False using sn a True by (force simp: snapshot_allowed_def)
    qed
    have "\<exists>s'. updateCommittedSnapshot ?i ?s1 = Some s' \<and> progress_ok v1 s' \<and> quiet s' \<and> woken ?s1 s' \<and> commit_frame ?s1 s' \<and>
      rc_lastCommittedOpTime s' = rc_lastCommittedOpTime ?s1 \<and> rc_currentCommittedSnapshot s' = Some ?i"
      by (rule updateCommittedSnapshot_ok [OF ok1]) (use a True none f in \<open>auto simp: snapshot_allowed_def split: option.splits\<close>)
    then obtain s' where s': "updateCommittedSnapshot ?i ?s1 = Some s'" "progress_ok v1 s'" "quiet s'" "woken ?s1 s'" "commit_frame ?s1 s'"
      "rc_lastCommittedOpTime s' = rc_lastCommittedOpTime s" unfolding f by blast
    have "progresses v1 ?s1 s'" using s'(2-4,6) f(1) commit_progress_frame [OF s'(5)] by (simp add: progresses_def)
    then have "advances v1 ?s1 s'" by (rule advances_still [OF ok1]) (simp_all add: s'(6) f(1) commit_frame_fields(14) [OF s'(5)])
    then show thesis using that advances_trans [OF c] s'(1,6) True le none f by (simp add: createSnapshot_def)
  next
    case False
    let ?s2 = "?s1\<lparr>rc_uncommittedSnapshots := rc_uncommittedSnapshots s @ [?i]\<rparr>"
    have "snaps_ok v1 ?s2" using sn a False f unfolding snaps_ok_def snapshot_allowed_def
      by (auto simp: sorted_wrt_append snap_follows_def call_def split: option.splits)
    then have ok2: "progress_ok v1 ?s2" using ok1 by (simp add: progress_ok_def)
    have "progresses v1 ?s1 ?s2"
      by (rule view_progresses [OF ok1 ok2]) (simp_all add: same_view_def progress_view_def progress_frame_def role_frame_def)
    then have "advances v1 ?s1 ?s2" by (rule advances_still [OF ok1]) simp_all
    moreover have "snap_less (last (rc_uncommittedSnapshots s)) ?i \<and> sn_name (last (rc_uncommittedSnapshots s)) < n"
      if "rc_uncommittedSnapshots s \<noteq> []"
      using last_in_set [OF that] a sn ot_ranks(1) [OF x(1), of "sn_opTime (last (rc_uncommittedSnapshots s))"]
      by (auto simp: snapshot_allowed_def snap_less_def)
    ultimately show thesis using that [of ?s2] advances_trans [OF c] False le f by (simp add: createSnapshot_def)
  qed
qed

end
