(* ===== verification/ReplProgressMachine.thy ===== *)
theory ReplProgressMachine
  imports ReplReports
begin

text \<open>
  Sequences of operations on replication progress, with the threads that wait for a write concern. The
  member state does not change in them; what a step down does to the waiting threads is in \<open>ReplState\<close>.
\<close>

section \<open>Machines whose operations always return\<close>

fun all_allowed :: "('op \<Rightarrow> 's \<Rightarrow> bool) \<Rightarrow> ('op \<Rightarrow> 's \<Rightarrow> 's option) \<Rightarrow> 'op list \<Rightarrow> 's \<Rightarrow> bool" where
  "all_allowed ok run [] s = True"
| "all_allowed ok run (x # xs) s = (ok x s \<and> (case run x s of None \<Rightarrow> True | Some s' \<Rightarrow> all_allowed ok run xs s'))"

locale total_machine =
  fixes ok :: "'op \<Rightarrow> 's \<Rightarrow> bool" and run :: "'op \<Rightarrow> 's \<Rightarrow> 's option" and inv :: "'s \<Rightarrow> bool" and rel :: "'s \<Rightarrow> 's \<Rightarrow> bool"
  assumes run_returns: "inv s \<Longrightarrow> ok x s \<Longrightarrow> returns (run x s) (\<lambda>s'. inv s' \<and> rel s s')"
    and rel_refl: "rel s s"
    and rel_trans: "rel s s1 \<Longrightarrow> rel s1 s2 \<Longrightarrow> rel s s2"
begin

lemma runs_return:
  assumes "inv s" "all_allowed ok run xs s"
  shows "returns (foldM run xs s) (\<lambda>s'. inv s' \<and> rel s s')"
  using assms
proof (induction xs arbitrary: s)
  case (Cons x xs)
  from run_returns [OF Cons.prems(1), of x] Cons.prems(2) obtain s1 where s1: "run x s = Some s1" "inv s1" "rel s s1"
    by (auto simp: returns_def)
  from Cons.IH [OF s1(2)] Cons.prems(2) s1(1) obtain s2 where "foldM run xs s1 = Some s2" "inv s2" "rel s1 s2"
    by (auto simp: returns_def)
  then show ?case using s1 rel_trans by (auto simp: returns_def)
qed (simp add: rel_refl)

end

section \<open>Operations\<close>

datatype ProgressOp =
    SetMyLastApplied Date OpTime
  | SetMyLastDurable Date OpTime
  | SetMyLastAppliedForward Date OpTime
  | SetMyLastDurableForward Date OpTime
  | ResetMyLastOpTimes Date
  | ResetLastOpTimesFromOplog Date "OpTime StatusWith"
  | UpdatePosition Date "UpdateInfo list"
  | UpdatePositionOld Date "OldUpdateInfo list"
  | HeartbeatOpTimes Date int OpTime OpTime
  | LearnCommitPoint Date OpTime
  | TakeSnapshot OpTime SnapshotName
  | DropSnapshots
  | AwaitReplication bool Status OpTime WriteConcernOptions
  | ResumeAwait WaitOutcome nat
  | WaitForRead bool bool OpTime
  | ResumeRead Status "nat option" bool OpTime

type_synonym Threads = "nat \<rightharpoonup> AwaitArgs"

definition awaitArgs :: "OpTime \<Rightarrow> WriteConcernOptions \<Rightarrow> ReplCoord \<Rightarrow> AwaitArgs" where
  "awaitArgs x wc s = \<lparr>aw_opTime = x, aw_minSnapshot = 0, aw_writeConcern = populateUnsetWriteConcernOptionsSyncMode wc s\<rparr>"

definition afterAwait :: "(nat \<Rightarrow> Threads) \<Rightarrow> Threads \<Rightarrow> AwaitResult \<times> ReplCoord \<Rightarrow> ReplCoord \<times> Threads" where
  "afterAwait waiting gone r = (case r of (AwaitDone st, s) \<Rightarrow> (s, gone) | (AwaitWaiting n, s) \<Rightarrow> (s, waiting n))"

fun progress_run :: "ProgressOp \<Rightarrow> ReplCoord \<times> Threads \<Rightarrow> (ReplCoord \<times> Threads) option" where
  "progress_run (SetMyLastApplied now x) (s, T) = map_option (\<lambda>s'. (s', T)) (setMyLastAppliedOpTime now x s)"
| "progress_run (SetMyLastDurable now x) (s, T) = map_option (\<lambda>s'. (s', T)) (setMyLastDurableOpTime now x s)"
| "progress_run (SetMyLastAppliedForward now x) (s, T) = map_option (\<lambda>s'. (s', T)) (setMyLastAppliedOpTimeForward now x s)"
| "progress_run (SetMyLastDurableForward now x) (s, T) = map_option (\<lambda>s'. (s', T)) (setMyLastDurableOpTimeForward now x s)"
| "progress_run (ResetMyLastOpTimes now) (s, T) = map_option (\<lambda>s'. (s', T)) (resetMyLastOpTimes now s)"
| "progress_run (ResetLastOpTimesFromOplog now x) (s, T) = map_option (\<lambda>s'. (s', T)) (resetLastOpTimesFromOplog now x s)"
| "progress_run (UpdatePosition now us) (s, T) = map_option (\<lambda>(st, v, s'). (s', T)) (processReplSetUpdatePosition now us s)"
| "progress_run (UpdatePositionOld now us) (s, T) = map_option (\<lambda>(st, v, s'). (s', T)) (processReplSetUpdatePosition_old now us s)"
| "progress_run (HeartbeatOpTimes now i d a) (s, T) = map_option (\<lambda>s'. (s', T)) (updateOpTimesFromHeartbeat now i d a s)"
| "progress_run (LearnCommitPoint now c) (s, T) = map_option (\<lambda>s'. (s', T)) (advanceCommitPoint now c s)"
| "progress_run (TakeSnapshot x n) (s, T) = map_option (\<lambda>s'. (s', T)) (createSnapshot x n s)"
| "progress_run DropSnapshots (s, T) = Some (dropAllSnapshots s, T)"
| "progress_run (AwaitReplication isLocked interrupt x wc) (s, T) =
     map_option (afterAwait (\<lambda>n. T(n \<mapsto> awaitArgs x wc s)) T) (awaitReplication isLocked interrupt x wc s)"
| "progress_run (ResumeAwait outcome n) (s, T) =
     (case T n of None \<Rightarrow> Some (s, T)
      | Some a \<Rightarrow> map_option (afterAwait (\<lambda>_. T) (T(n := None))) (awaitReplication_resume outcome n a s))"
| "progress_run (WaitForRead isLocked maj x) (s, T) = map_option (\<lambda>(r, s'). (s', T)) (waitUntilOpTimeForRead isLocked maj x s)"
| "progress_run (ResumeRead st w maj x) (s, T) = map_option (\<lambda>(r, s'). (s', T)) (waitUntilOpTimeForRead_resume st w maj x s)"

text \<open>The waiter of a thread.\<close>

definition enlisted :: "ReplCoord \<Rightarrow> nat \<Rightarrow> AwaitArgs \<Rightarrow> bool" where
  "enlisted s n a \<longleftrightarrow>
     \<lparr>w_id = n, w_opTime = aw_opTime a, w_writeConcern = Some (aw_writeConcern a), w_callback = False\<rparr> \<in> set (rc_replicationWaiterList s)"

text \<open>
  What the callers of the operations guarantee. Optimes that are set do not go back, except where a
  node that is not primary resets them to its oplog; snapshots are taken in order. Dropping the snapshots while a thread that has been
  woken has not yet run is left out: the thread would find its write concern unmet and wait outside the list.
\<close>

fun progress_allowed :: "bool \<Rightarrow> ProgressOp \<Rightarrow> ReplCoord \<times> Threads \<Rightarrow> bool" where
  "progress_allowed v1 (SetMyLastApplied now x) (s, T) \<longleftrightarrow> proper v1 x \<and> opTime_follows (si_lastAppliedOpTime (myEntry s)) x"
| "progress_allowed v1 (SetMyLastDurable now x) (s, T) \<longleftrightarrow> proper v1 x \<and> ot_le (si_lastDurableOpTime (myEntry s)) x"
| "progress_allowed v1 (SetMyLastAppliedForward now x) (s, T) \<longleftrightarrow>
     proper v1 x \<and> (opTime_follows (si_lastAppliedOpTime (myEntry s)) x \<or> opTime_follows x (si_lastAppliedOpTime (myEntry s)))"
| "progress_allowed v1 (SetMyLastDurableForward now x) (s, T) \<longleftrightarrow> proper v1 x"
| "progress_allowed v1 (ResetMyLastOpTimes now) (s, T) \<longleftrightarrow> rc_memberState s \<noteq> RS_PRIMARY"
| "progress_allowed v1 (ResetLastOpTimesFromOplog now x) (s, T) \<longleftrightarrow>
     rc_memberState s \<noteq> RS_PRIMARY \<and> (case x of Inr y \<Rightarrow> proper v1 y | Inl _ \<Rightarrow> True)"
| "progress_allowed v1 (UpdatePosition now us) (s, T) \<longleftrightarrow> list_all (report_ok v1) us"
| "progress_allowed v1 (UpdatePositionOld now us) (s, T) \<longleftrightarrow> list_all (\<lambda>u. proper v1 (oui_ts u)) us"
| "progress_allowed v1 (HeartbeatOpTimes now i d a) (s, T) \<longleftrightarrow>
     rc_selfIndex s \<noteq> -1 \<and> 0 \<le> i \<and> i < int (length (rc_slaveInfo s)) \<and> proper v1 d \<and> proper v1 a"
| "progress_allowed v1 (LearnCommitPoint now c) (s, T) \<longleftrightarrow>
     proper v1 c \<and> (rc_memberState s = RS_ARBITER \<and> rank (rc_lastCommittedOpTime s) < rank c \<longrightarrow>
       opTime_follows (si_lastAppliedOpTime (myEntry s)) c)"
| "progress_allowed v1 (TakeSnapshot x n) (s, T) \<longleftrightarrow> snapshot_allowed v1 x n s"
| "progress_allowed v1 DropSnapshots (s, T) \<longleftrightarrow>
     list_all (\<lambda>n. case T n of None \<Rightarrow> True | Some a \<Rightarrow> enlisted s n a) [0..<rc_nextWaiter s]"
| "progress_allowed v1 (AwaitReplication isLocked interrupt x wc) (s, T) \<longleftrightarrow> proper v1 x"
| "progress_allowed v1 (ResumeAwait outcome n) (s, T) \<longleftrightarrow> True"
| "progress_allowed v1 (WaitForRead isLocked maj x) (s, T) \<longleftrightarrow> True"
| "progress_allowed v1 (ResumeRead st w maj x) (s, T) \<longleftrightarrow>
     list_all (\<lambda>u. w = Some (w_id u) \<longrightarrow> \<not> w_callback u) (rc_opTimeWaiterList s)"

section \<open>The invariant with the threads\<close>

definition concern_done :: "ReplCoord \<Rightarrow> AwaitArgs \<Rightarrow> bool option" where
  "concern_done s a = doneWaitingForReplication (aw_opTime a) (aw_minSnapshot a) (aw_writeConcern a) s"

text \<open>A waiting thread is in the list, or it has been notified and will find its write concern met.\<close>

definition thread_ok :: "bool \<Rightarrow> ReplCoord \<Rightarrow> nat \<Rightarrow> AwaitArgs \<Rightarrow> bool" where
  "thread_ok v1 s n a \<longleftrightarrow>
     aw_minSnapshot a = 0 \<and> wc_syncMode (aw_writeConcern a) \<noteq> SyncUnset \<and> proper v1 (aw_opTime a) \<and> n < rc_nextWaiter s \<and>
     (enlisted s n a \<or> NotifyWaiter n \<in> set (rc_calls s) \<and> concern_done s a = Some True)"

definition progress_inv :: "bool \<Rightarrow> ReplCoord \<times> Threads \<Rightarrow> bool" where
  "progress_inv v1 = (\<lambda>(s, T).
     progress_ok v1 s \<and> quiet s \<and> durable_ok s \<and> commit_maximal v1 s \<and>
     (\<forall>n a. T n = Some a \<longrightarrow> thread_ok v1 s n a) \<and> (rc_memberState s \<noteq> RS_PRIMARY \<longrightarrow> T = Map.empty))"

text \<open>What the operations that do not wait do.\<close>

definition moves :: "bool \<Rightarrow> ReplCoord \<Rightarrow> ReplCoord \<Rightarrow> bool" where
  "moves v1 s s' \<longleftrightarrow>
     progresses v1 s s' \<and> (rc_memberState s = RS_PRIMARY \<longrightarrow> grows s s') \<and>
     (durable_ok s \<longrightarrow> durable_ok s') \<and> (commit_maximal v1 s \<longrightarrow> commit_maximal v1 s')"

lemma advances_moves: "advances v1 s s' \<Longrightarrow> moves v1 s s'"
  by (simp add: advances_def moves_def)

lemma enlisted_waiter:
  assumes "enlisted s n a" "aw_minSnapshot a = 0" "wc_syncMode (aw_writeConcern a) \<noteq> SyncUnset"
  obtains w where "w \<in> set (rc_replicationWaiterList s)" "w_id w = n" "write_waiter w" "w_opTime w = aw_opTime a"
    "\<And>s. waiter_done s w = concern_done s a"
    "w = \<lparr>w_id = n, w_opTime = aw_opTime a, w_writeConcern = Some (aw_writeConcern a), w_callback = False\<rparr>"
  using assms by (intro that [of "\<lparr>w_id = n, w_opTime = aw_opTime a, w_writeConcern = Some (aw_writeConcern a), w_callback = False\<rparr>"])
    (simp_all add: enlisted_def waiter_done_def concern_done_def write_waiter_def)

lemma thread_moves:
  assumes ok: "progress_ok v1 s" and m: "moves v1 s s'" and r: "rc_memberState s = RS_PRIMARY" and t: "thread_ok v1 s n a"
  shows "thread_ok v1 s' n a"
proof -
  have p: "progresses v1 s s'" and g: "grows s s'" and wk: "woken s s'" using m r by (auto simp: moves_def progresses_def)
  note f = frame_fields [OF p]
  have b: "aw_minSnapshot a = 0" "wc_syncMode (aw_writeConcern a) \<noteq> SyncUnset" "proper v1 (aw_opTime a)" "n < rc_nextWaiter s'"
    using t f by (auto simp: thread_ok_def)
  have "enlisted s' n a \<or> NotifyWaiter n \<in> set (rc_calls s') \<and> concern_done s' a = Some True"
  proof (cases "enlisted s n a")
    case True
    from enlisted_waiter [OF this b(1,2)] obtain w where w: "w \<in> set (rc_replicationWaiterList s)" "w_id w = n"
      "\<And>s. waiter_done s w = concern_done s a"
      "w = \<lparr>w_id = n, w_opTime = aw_opTime a, w_writeConcern = Some (aw_writeConcern a), w_callback = False\<rparr>" by metis
    have "w \<in> set (rc_replicationWaiterList s') \<or> NotifyWaiter n \<in> set (rc_calls s') \<and> waiter_done s' w = Some True"
      using wk w(1,2) unfolding woken_def by blast
    then show ?thesis unfolding w(3) using w(4) by (auto simp: enlisted_def)
  next
    case False
    then have d: "NotifyWaiter n \<in> set (rc_calls s)" "concern_done s a = Some True" using t by (auto simp: thread_ok_def)
    have "concern_done s' a = Some True"
      using d(2) b(1) unfolding concern_done_def
      by (simp, intro doneWaiting_grows [OF ok progressesD [OF p] g _ progress_okD(5) [OF ok r] wk b(2,3)]) (simp_all add: f)
    moreover have "NotifyWaiter n \<in> set (rc_calls s')" using wk d(1) by (auto simp: woken_def)
    ultimately show ?thesis by blast
  qed
  then show ?thesis using b by (simp add: thread_ok_def)
qed

lemma inv_moves:
  assumes "progress_inv v1 (s, T)" "moves v1 s s'"
  shows "progress_inv v1 (s', T)"
proof -
  have i: "progress_ok v1 s" "quiet s" "durable_ok s" "commit_maximal v1 s" "\<forall>n a. T n = Some a \<longrightarrow> thread_ok v1 s n a"
    "rc_memberState s \<noteq> RS_PRIMARY \<longrightarrow> T = Map.empty" using assms(1) by (auto simp: progress_inv_def)
  have p: "progresses v1 s s'" using assms(2) by (simp add: moves_def)
  have "thread_ok v1 s' n a" if "T n = Some a" for n a
    using thread_moves [OF i(1) assms(2)] i(5,6) that by fastforce
  then show ?thesis using i assms(2) p frame_fields(6) [OF p] by (auto simp: progress_inv_def moves_def progresses_def)
qed

section \<open>Waiting\<close>

text \<open>Steps that change the lists of waiters only.\<close>

definition lists_frame :: "ReplCoord \<Rightarrow> ReplCoord \<Rightarrow> bool" where
  "lists_frame s s' \<longleftrightarrow>
     s' = s\<lparr>rc_replicationWaiterList := rc_replicationWaiterList s', rc_opTimeWaiterList := rc_opTimeWaiterList s', rc_nextWaiter := rc_nextWaiter s'\<rparr>"

lemma lists_frameI:
  "s' = s\<lparr>rc_replicationWaiterList := a, rc_opTimeWaiterList := b, rc_nextWaiter := c\<rparr> \<Longrightarrow> lists_frame s s'"
  by (simp add: lists_frame_def)

lemma lists_frame_fields:
  assumes "lists_frame s s'"
  shows "rc_slaveInfo s' = rc_slaveInfo s" "rc_rsConfig s' = rc_rsConfig s" "rc_memberState s' = rc_memberState s"
    "rc_stepDownPending s' = rc_stepDownPending s" "rc_firstOpTimeOfMyTerm s' = rc_firstOpTimeOfMyTerm s"
    "rc_lastCommittedOpTime s' = rc_lastCommittedOpTime s" "rc_currentCommittedSnapshot s' = rc_currentCommittedSnapshot s"
    "rc_calls s' = rc_calls s" "rc_settings s' = rc_settings s" "rc_selfIndex s' = rc_selfIndex s"
    "rc_snapshotsEnabled s' = rc_snapshotsEnabled s"
  by (subst assms [unfolded lists_frame_def], simp)+

lemma lists_done:
  assumes "lists_frame s s'" "progress_ok v1 s" "progress_ok v1 s'"
  shows "waiter_done s' w = waiter_done s w" "concern_done s' a = concern_done s a"
proof -
  note f = lists_frame_fields [OF assms(1)]
  have v: "same_view s s'" by (simp add: same_view_def progress_view_def f)
  note al = progress_okD(1) [OF assms(2)] progress_okD(1) [OF assms(3)]
  show "waiter_done s' w = waiter_done s w" by (rule waiter_done_view [OF v al f(7)])
  show "concern_done s' a = concern_done s a" unfolding concern_done_def by (rule doneWaiting_view [OF v al f(7)])
qed

lemma inv_lists:
  assumes i: "progress_inv v1 (s, T)" and f: "lists_frame s s'" and ok: "progress_ok v1 s'" and n: "rc_nextWaiter s \<le> rc_nextWaiter s'"
    and old: "\<And>m a. T' m = Some a \<Longrightarrow> T m = Some a \<and> (enlisted s m a \<longrightarrow> enlisted s' m a) \<or> thread_ok v1 s' m a"
    and new: "\<And>w. w \<in> set (rc_replicationWaiterList s') \<Longrightarrow> w \<in> set (rc_replicationWaiterList s) \<or> waiter_done s' w = Some False"
    and p: "T' \<noteq> Map.empty \<Longrightarrow> rc_memberState s \<noteq> RS_PRIMARY \<Longrightarrow> False"
  shows "progress_inv v1 (s', T')"
proof -
  have i': "progress_ok v1 s" "quiet s" "durable_ok s" "commit_maximal v1 s" "\<forall>n a. T n = Some a \<longrightarrow> thread_ok v1 s n a"
    using i by (auto simp: progress_inv_def)
  note ff = lists_frame_fields [OF f]
  note d = lists_done [OF f i'(1) ok]
  have "thread_ok v1 s' m a" if t: "T' m = Some a" for m a
    using old [OF t] i'(5) n unfolding thread_ok_def d(2) ff(8) by fastforce
  moreover have "quiet s'" using i'(2) new d(1) by (auto simp: quiet_def)
  moreover have "commit_maximal v1 s'" using maximal_view [OF ff(1-5) _ i'(4)] ff(6) by simp
  moreover have "durable_ok s'" using i'(3) ff(1) by (simp add: durable_ok_def)
  ultimately show ?thesis using ok p ff(3) by (auto simp: progress_inv_def)
qed

lemma progress_ok_next: "progress_ok v1 s \<Longrightarrow> rc_nextWaiter s \<le> n \<Longrightarrow> progress_ok v1 (s\<lparr>rc_nextWaiter := n\<rparr>)"
  unfolding progress_ok_def by (auto simp: aligned_def snaps_ok_def waiters_ok_def intro: less_le_trans)

lemma removeWaiter_last:
  assumes "\<forall>w'\<in>set ws. w_id w' < w_id w" "w_id u = w_id w"
  shows "removeWaiter u (ws @ [w]) = ws"
proof -
  have "\<not> (\<exists>w'\<in>set ws. w_id w' = w_id u)" using assms by auto
  then have "findIndex (\<lambda>w'. w_id w' = w_id u) (ws @ [w]) = length ws"
    using findIndex_less [of "\<lambda>w'. w_id w' = w_id u" ws] findIndex_le [of "\<lambda>w'. w_id w' = w_id u" ws] assms(2)
    by (simp add: findIndex_append)
  then show ?thesis by (simp add: removeWaiter_def)
qed

lemma await_steps:
  assumes inv: "progress_inv v1 (s, T)" and x: "proper v1 x"
  shows "\<exists>r s'. awaitReplication l i x wc s = Some (r, s') \<and> lists_frame s s' \<and>
    progress_inv v1 (afterAwait (\<lambda>n. T(n \<mapsto> awaitArgs x wc s)) T (r, s'))"
proof -
  define a where "a = awaitArgs x wc s"
  let ?wc = "aw_writeConcern a"
  have ok: "progress_ok v1 s" using inv by (simp add: progress_inv_def)
  note al = progress_okD(1) [OF ok]
  have a: "aw_opTime a = x" "aw_minSnapshot a = 0" "wc_syncMode ?wc \<noteq> SyncUnset"
    by (simp_all add: a_def awaitArgs_def populateUnsetWriteConcernOptionsSyncMode_def)
  have eq: "awaitReplication l i x wc s = awaitReplication_inlock l i a s" by (simp add: awaitReplication_def a_def awaitArgs_def)
  have refl: "lists_frame s s" by (simp add: lists_frame_def)
  show ?thesis
  proof (cases "\<exists>st. awaitReplication_inlock l i a s = Some (AwaitDone st, s)")
    case True
    then show ?thesis using inv refl by (auto simp: eq afterAwait_def)
  next
    case False
    let ?n = "rc_nextWaiter s"
    let ?w = "\<lparr>w_id = ?n, w_opTime = x, w_writeConcern = Some ?wc, w_callback = False\<rparr>"
    let ?s1 = "s\<lparr>rc_nextWaiter := Suc ?n, rc_replicationWaiterList := rc_replicationWaiterList s @ [?w]\<rparr>"
    have r: "rc_memberState s = RS_PRIMARY" "awaitReplication_inlock l i a s = awaitLoop ?n a ?s1"
      using False my_optimes(2) [OF al] a replset_mode [OF al]
      by (auto simp: awaitReplication_inlock_def checkForStepDown_def split: if_splits)
    note wo = progress_okD(4) [OF ok, unfolded waiters_ok_def]
    have ids: "\<forall>w'\<in>set (rc_replicationWaiterList s). w_id w' < w_id ?w" using wo by simp
    have "waiters_ok ?s1" using wo a(3) r(1) unfolding waiters_ok_def
      by (auto simp: write_waiter_def less_Suc_eq)
    then have ok1: "progress_ok v1 ?s1"
      using ok x progress_okD(6) [OF ok] unfolding progress_ok_def by (simp add: aligned_def snaps_ok_def)
    have f1: "lists_frame s ?s1" by (simp add: lists_frame_def)
    have self: "rc_selfIndex ?s1 \<noteq> -1" using progress_okD(5) [OF ok r(1)] by simp
    from doneWaiting_total [OF progress_okD(1) [OF ok1] self a(3), of x 0] obtain b where
      b: "doneWaitingForReplication x 0 ?wc ?s1 = Some b" by blast
    show ?thesis
    proof (cases "b \<or> rc_inShutdown s")
      case True
      let ?s2 = "s\<lparr>rc_nextWaiter := Suc ?n\<rparr>"
      have lv: "leaveWaiterList ?n st ?s1 = (AwaitDone st, ?s2)" for st
        using removeWaiter_last [OF ids] by (simp add: leaveWaiterList_def)
      then have "\<exists>st. awaitLoop ?n a ?s1 = Some (AwaitDone st, ?s2)"
        using True b a by (auto simp: awaitLoop_def)
      moreover have f2: "lists_frame s ?s2" by (simp add: lists_frame_def)
      moreover have "progress_inv v1 (?s2, T)"
        by (rule inv_lists [OF inv f2 progress_ok_next [OF ok]]) (use inv in \<open>auto simp: enlisted_def progress_inv_def\<close>)
      ultimately show ?thesis using r(2) by (auto simp: eq afterAwait_def)
    next
      case nb: False
      have l: "awaitLoop ?n a ?s1 = Some (AwaitWaiting ?n, ?s1)" using nb b a by (simp add: awaitLoop_def)
      have e: "enlisted ?s1 ?n a" using a(1) by (simp add: enlisted_def)
      have "progress_inv v1 (?s1, T(?n \<mapsto> a))"
      proof (rule inv_lists [OF inv f1 ok1])
        fix m c assume "(T(?n \<mapsto> a)) m = Some c"
        then show "T m = Some c \<and> (enlisted s m c \<longrightarrow> enlisted ?s1 m c) \<or> thread_ok v1 ?s1 m c"
          using e a x by (auto simp: enlisted_def thread_ok_def split: if_splits)
      next
        fix w assume "w \<in> set (rc_replicationWaiterList ?s1)"
        then show "w \<in> set (rc_replicationWaiterList s) \<or> waiter_done ?s1 w = Some False"
          using b nb by (auto simp: waiter_done_def)
      qed (simp_all add: r(1))
      then show ?thesis using r(2) l f1 by (auto simp: eq afterAwait_def a_def)
    qed
  qed
qed

lemma leave_steps:
  assumes inv: "progress_inv v1 (s, T)"
  obtains s' where "leaveWaiterList n st s = (AwaitDone st, s')" "lists_frame s s'" "progress_inv v1 (s', T(n := None))"
proof -
  let ?u = "\<lparr>w_id = n, w_opTime = OpTime_default, w_writeConcern = None, w_callback = False\<rparr>"
  let ?s = "s\<lparr>rc_replicationWaiterList := removeWaiter ?u (rc_replicationWaiterList s)\<rparr>"
  have ok: "progress_ok v1 s" using inv by (simp add: progress_inv_def)
  have "distinct (map w_id (rc_replicationWaiterList s))" using progress_okD(4) [OF ok] by (simp add: waiters_ok_def)
  note rm = removeWaiter_id [OF this, of ?u]
  have ok': "progress_ok v1 ?s"
    using progress_ok_list [OF ok, of "removeWaiter ?u (rc_replicationWaiterList s)" "rc_calls s"] rm removeWaiter_set by simp
  have f: "lists_frame s ?s" by (simp add: lists_frame_def)
  have "progress_inv v1 (?s, T(n := None))"
    by (rule inv_lists [OF inv f ok']) (use inv rm in \<open>auto simp: enlisted_def progress_inv_def split: if_splits\<close>)
  then show thesis using that [of ?s] f by (simp add: leaveWaiterList_def)
qed

lemma resume_steps:
  assumes inv: "progress_inv v1 (s, T)" and t: "T n = Some a"
  shows "\<exists>r s'. awaitReplication_resume o1 n a s = Some (r, s') \<and> lists_frame s s' \<and>
    progress_inv v1 (afterAwait (\<lambda>_. T) (T(n := None)) (r, s')) \<and>
    (o1 = WaitNotified \<and> concern_done s a = Some True \<longrightarrow> (\<exists>st. r = AwaitDone st))"
proof -
  have leave: "\<exists>r s'. Some (leaveWaiterList n st s) = Some (r, s') \<and> lists_frame s s' \<and>
      progress_inv v1 (afterAwait (\<lambda>_. T) (T(n := None)) (r, s')) \<and> (\<exists>st. r = AwaitDone st)" for st
    by (rule leave_steps [OF inv, of n st]) (simp add: afterAwait_def)
  have th: "thread_ok v1 s n a" "quiet s" using inv t by (auto simp: progress_inv_def)
  then have sh: "aw_minSnapshot a = 0" "wc_syncMode (aw_writeConcern a) \<noteq> SyncUnset" by (auto simp: thread_ok_def)
  show ?thesis
  proof (cases "o1 = WaitNotified \<and> checkForStepDown (aw_opTime a) s = StatusOK")
    case False
    then have "\<exists>st. awaitReplication_resume o1 n a s = Some (leaveWaiterList n st s)"
      by (cases o1) (auto simp: awaitReplication_resume_def)
    then show ?thesis using leave by metis
  next
    case True
    then have r: "awaitReplication_resume o1 n a s = awaitLoop n a s" by (simp add: awaitReplication_resume_def)
    show ?thesis
    proof (cases "concern_done s a = Some True \<or> rc_inShutdown s \<and> concern_done s a = Some False")
      case True
      then have "\<exists>st. awaitLoop n a s = Some (leaveWaiterList n st s)" by (auto simp: awaitLoop_def concern_done_def)
      then show ?thesis using leave r by metis
    next
      case nd: False
      then have "enlisted s n a" using th(1) by (auto simp: thread_ok_def)
      from enlisted_waiter [OF this sh] obtain w where "w \<in> set (rc_replicationWaiterList s)" "\<And>s. waiter_done s w = concern_done s a" by metis
      then have d: "concern_done s a = Some False" using th(2) unfolding quiet_def by metis
      then have "awaitLoop n a s = Some (AwaitWaiting n, s)" using nd by (auto simp: awaitLoop_def concern_done_def)
      then show ?thesis using r d inv by (simp add: afterAwait_def lists_frame_def)
    qed
  qed
qed

section \<open>Reads\<close>

lemma read_total: "progress_ok v1 s \<Longrightarrow> \<exists>c. currentReadOpTime maj s = Some c"
  using my_optimes(2) [OF progress_okD(1)] by (auto simp: currentReadOpTime_def)

lemma inv_reads:
  assumes inv: "progress_inv v1 (s, T)" and f: "s' = s\<lparr>rc_opTimeWaiterList := ws, rc_nextWaiter := n\<rparr>" and n: "rc_nextWaiter s \<le> n"
    and ws: "distinct (map w_id ws)"
      "\<And>w. w \<in> set ws \<Longrightarrow> w \<in> set (rc_opTimeWaiterList s) \<or> w_id w < n \<and> \<not> w_callback w"
  shows "progress_inv v1 (s', T) \<and> lists_frame s s'"
proof -
  have ok: "progress_ok v1 s" using inv by (simp add: progress_inv_def)
  have "waiters_ok s'" using progress_okD(4) [OF ok] n ws unfolding f waiters_ok_def
    by (fastforce intro: less_le_trans)
  then have ok': "progress_ok v1 s'" using ok unfolding f progress_ok_def by (simp add: aligned_def snaps_ok_def)
  have lf: "lists_frame s s'" unfolding f by (simp add: lists_frame_def)
  have "progress_inv v1 (s', T)"
    by (rule inv_lists [OF inv lf ok']) (use inv n in \<open>auto simp: f enlisted_def progress_inv_def\<close>)
  then show ?thesis using lf by blast
qed

lemma readWait_steps:
  assumes inv: "progress_inv v1 (s, T)"
  shows "\<exists>r s'. readWaitLoop maj x s = Some (r, s') \<and> progress_inv v1 (s', T) \<and> lists_frame s s'"
proof -
  have ok: "progress_ok v1 s" using inv by (simp add: progress_inv_def)
  from read_total [OF ok] obtain c where c: "currentReadOpTime maj s = Some c" by blast
  note w = progress_okD(4) [OF ok, unfolded waiters_ok_def]
  let ?n = "rc_nextWaiter s"
  let ?w = "\<lparr>w_id = ?n, w_opTime = x, w_writeConcern = None, w_callback = False\<rparr>"
  let ?s = "s\<lparr>rc_nextWaiter := Suc ?n, rc_opTimeWaiterList := rc_opTimeWaiterList s @ [?w]\<rparr>"
  have "progress_inv v1 (?s, T) \<and> lists_frame s ?s"
    by (rule inv_reads [OF inv, where n = "Suc ?n" and ws = "rc_opTimeWaiterList s @ [?w]"]) (use w in auto)
  moreover have "lists_frame s s" by (simp add: lists_frame_def)
  ultimately show ?thesis using c inv by (auto simp: readWaitLoop_def)
qed

lemma waitForRead_steps:
  assumes inv: "progress_inv v1 (s, T)"
  shows "\<exists>r s'. waitUntilOpTimeForRead l maj x s = Some (r, s') \<and> progress_inv v1 (s', T) \<and> lists_frame s s'"
  using readWait_steps [OF inv, of maj x] inv unfolding waitUntilOpTimeForRead_def by (auto simp: lists_frame_def)

lemma lists_frame_trans:
  assumes "lists_frame s s1" "lists_frame s1 s2"
  shows "lists_frame s s2"
  unfolding lists_frame_def by (subst assms(2) [unfolded lists_frame_def], subst assms(1) [unfolded lists_frame_def]) simp

lemma resumeRead_steps:
  assumes inv: "progress_inv v1 (s, T)" and w: "list_all (\<lambda>u. w = Some (w_id u) \<longrightarrow> \<not> w_callback u) (rc_opTimeWaiterList s)"
  shows "\<exists>r s'. waitUntilOpTimeForRead_resume st w maj x s = Some (r, s') \<and> progress_inv v1 (s', T) \<and> lists_frame s s'"
proof -
  have ok: "progress_ok v1 s" using inv by (simp add: progress_inv_def)
  have d: "distinct (map w_id (rc_opTimeWaiterList s))" using progress_okD(4) [OF ok] by (simp add: waiters_ok_def)
  define s1 where "s1 = (case w of
                  Some n \<Rightarrow> s\<lparr>rc_opTimeWaiterList := removeWaiter
                    \<lparr>w_id = n, w_opTime = x, w_writeConcern = None, w_callback = False\<rparr> (rc_opTimeWaiterList s)\<rparr>
                | None \<Rightarrow> s)"
  have s1: "progress_inv v1 (s1, T) \<and> lists_frame s s1"
  proof (cases w)
    case None
    then show ?thesis using inv by (simp add: s1_def lists_frame_def)
  next
    case (Some n)
    let ?u = "\<lparr>w_id = n, w_opTime = x, w_writeConcern = None, w_callback = False\<rparr>"
    show ?thesis
      by (rule inv_reads [OF inv, where n = "rc_nextWaiter s" and ws = "removeWaiter ?u (rc_opTimeWaiterList s)"])
        (use Some removeWaiter_id [OF d, of ?u] in \<open>auto simp: s1_def\<close>)
  qed
  from readWait_steps [of v1 s1 T maj x] s1 obtain r s' where "readWaitLoop maj x s1 = Some (r, s')" "progress_inv v1 (s', T)" "lists_frame s1 s'"
    by blast
  then show ?thesis using s1 lists_frame_trans [of s s1 s'] unfolding waitUntilOpTimeForRead_resume_def s1_def [symmetric] by auto
qed

section \<open>Dropping the snapshots\<close>

lemma drop_steps:
  assumes inv: "progress_inv v1 (s, T)" and t: "\<forall>n a. T n = Some a \<longrightarrow> enlisted s n a"
  shows "progress_inv v1 (dropAllSnapshots s, T)"
proof -
  let ?s = "dropAllSnapshots s"
  have i: "progress_ok v1 s" "quiet s" "durable_ok s" "commit_maximal v1 s" "\<forall>n a. T n = Some a \<longrightarrow> thread_ok v1 s n a"
    using inv by (auto simp: progress_inv_def)
  have f: "rc_slaveInfo ?s = rc_slaveInfo s" "rc_rsConfig ?s = rc_rsConfig s" "rc_memberState ?s = rc_memberState s"
    "rc_stepDownPending ?s = rc_stepDownPending s" "rc_firstOpTimeOfMyTerm ?s = rc_firstOpTimeOfMyTerm s"
    "rc_lastCommittedOpTime ?s = rc_lastCommittedOpTime s" "rc_replicationWaiterList ?s = rc_replicationWaiterList s"
    "rc_selfIndex ?s = rc_selfIndex s" "rc_settings ?s = rc_settings s" "rc_nextWaiter ?s = rc_nextWaiter s"
    "rc_snapshotsEnabled ?s = rc_snapshotsEnabled s"
    by (simp_all add: dropAllSnapshots_def call_def)
  have "snaps_ok v1 ?s" using progress_okD(3) [OF i(1)] by (simp add: snaps_ok_def dropAllSnapshots_def call_def)
  then have ok: "progress_ok v1 ?s" using i(1) unfolding progress_ok_def f by (simp add: dropAllSnapshots_def call_def)
  have "waiter_done ?s w = Some False" if w: "w \<in> set (rc_replicationWaiterList s)" for w
  proof -
    obtain wc where wc: "w_writeConcern w = Some wc" "wc_syncMode wc \<noteq> SyncUnset" and p: "rc_memberState s = RS_PRIMARY"
      using progress_okD(4) [OF i(1)] w by (auto simp: waiters_ok_def write_waiter_def)
    have self: "rc_selfIndex s \<noteq> -1" "rc_selfIndex ?s \<noteq> -1" using progress_okD(5) [OF i(1) p] f(8) by simp_all
    have x: "proper v1 (w_opTime w)" using progress_okD(6) [OF i(1)] w by blast
    have c: "rc_checkIfWriteConcernCanBeSatisfied wc ?s = rc_checkIfWriteConcernCanBeSatisfied wc s"
      using replset_mode [OF progress_okD(1) [OF i(1)]] replset_mode [OF progress_okD(1) [OF ok]]
      by (simp add: rc_checkIfWriteConcernCanBeSatisfied_def f)
    have "writeConcernMet (w_opTime w) 0 wc ?s \<Longrightarrow> writeConcernMet (w_opTime w) 0 wc s"
      by (auto simp: writeConcernMet_def reachedBy_def myIndex_def f haveSnapshot_def dropAllSnapshots_def call_def split: sum.splits if_splits)
    moreover have "waiter_done s w = Some False" using i(2) w by (simp add: quiet_def)
    ultimately show ?thesis
      by (simp add: waiter_done_def wc doneWaiting_iff [OF i(1) self(1) x wc(2)] doneWaiting_iff [OF ok self(2) x wc(2)] c) blast
  qed
  then have "quiet ?s" by (simp add: quiet_def f)
  moreover have "thread_ok v1 ?s n a" if "T n = Some a" for n a
    using that i(5) t by (auto simp: thread_ok_def enlisted_def f)
  moreover have "commit_maximal v1 ?s" using maximal_view [OF f(1-5) _ i(4)] f(6) by simp
  ultimately show ?thesis using ok i(3) inv f(1,3) by (simp add: progress_inv_def durable_ok_def)
qed

section \<open>Every operation\<close>

fun learns :: "ProgressOp \<Rightarrow> bool" where
  "learns (LearnCommitPoint now c) = True"
| "learns _ = False"

text \<open>What a step keeps, and how the commit point may change in it.\<close>

definition progress_rel :: "ReplCoord \<times> Threads \<Rightarrow> ReplCoord \<times> Threads \<Rightarrow> bool" where
  "progress_rel = (\<lambda>(s, T) (s', T').
     rank (rc_lastCommittedOpTime s) \<le> rank (rc_lastCommittedOpTime s') \<and> rc_memberState s' = rc_memberState s \<and>
     rc_rsConfig s' = rc_rsConfig s \<and> rc_selfIndex s' = rc_selfIndex s \<and> rc_stepDownPending s' = rc_stepDownPending s \<and>
     rc_firstOpTimeOfMyTerm s' = rc_firstOpTimeOfMyTerm s)"

definition step_result :: "bool \<Rightarrow> ProgressOp \<Rightarrow> ReplCoord \<times> Threads \<Rightarrow> ReplCoord \<times> Threads \<Rightarrow> bool" where
  "step_result v1 x = (\<lambda>(s, T) (s', T').
     progress_inv v1 (s', T') \<and> progress_rel (s, T) (s', T') \<and> (learns x \<or> commits v1 s s') \<and>
     (rc_memberState s = RS_PRIMARY \<longrightarrow> grows s s'))"

lemma moves_result:
  assumes "progress_inv v1 (s, T)" "moves v1 s s'" "learns x \<or> commits v1 s s'"
  shows "step_result v1 x (s, T) (s', T)"
proof -
  have p: "progresses v1 s s'" using assms(2) by (simp add: moves_def)
  show ?thesis using inv_moves [OF assms(1,2)] assms(2,3) frame_fields [OF p] p
    by (simp add: step_result_def progress_rel_def progresses_def moves_def)
qed

lemma advances_result:
  "progress_inv v1 (s, T) \<Longrightarrow> advances v1 s s' \<Longrightarrow> step_result v1 x (s, T) (s', T)"
  by (rule moves_result [OF _ advances_moves]) (simp_all add: advances_def)

lemma lists_result:
  "progress_inv v1 (s', T') \<Longrightarrow> lists_frame s s' \<Longrightarrow> step_result v1 x (s, T) (s', T')"
  using lists_frame_fields [of s s'] by (simp add: step_result_def progress_rel_def commits_def grows_same)

lemma after_result:
  "progress_inv v1 (afterAwait f g (r, s')) \<Longrightarrow> lists_frame s s' \<Longrightarrow> step_result v1 x (s, T) (afterAwait f g (r, s'))"
  by (cases r) (simp_all add: afterAwait_def lists_result)

lemma follows_gt:
  assumes "proper v1 x" "proper v1 m"
  shows "opTime_follows m x \<Longrightarrow> rank m \<le> rank x"
  using ot_ranks [OF assms] by (auto simp: opTime_follows_def)

lemma own_steps:
  assumes inv: "progress_inv v1 (s, T)"
  shows "progress_allowed v1 (SetMyLastApplied now x) (s, T) \<Longrightarrow> \<exists>s'. setMyLastAppliedOpTime now x s = Some s' \<and> advances v1 s s'"
    "progress_allowed v1 (SetMyLastDurable now x) (s, T) \<Longrightarrow> \<exists>s'. setMyLastDurableOpTime now x s = Some s' \<and> advances v1 s s'"
proof -
  have ok: "progress_ok v1 s" using inv by (simp add: progress_inv_def)
  assume "progress_allowed v1 (SetMyLastApplied now x) (s, T)"
  then have x: "proper v1 x" "opTime_follows (si_lastAppliedOpTime (myEntry s)) x" by auto
  obtain s1 where s1: "rc_setMyLastAppliedOpTime now x False s = Some s1" "advances v1 s s1"
    by (rule setMyLastApplied_advances [OF ok x])
  then show "\<exists>s'. setMyLastAppliedOpTime now x s = Some s' \<and> advances v1 s s'"
    using advances_trans [OF s1(2) reportUpstream_advances [OF advances_ok [OF s1(2)]]] by (simp add: setMyLastAppliedOpTime_def)
next
  have ok: "progress_ok v1 s" using inv by (simp add: progress_inv_def)
  assume "progress_allowed v1 (SetMyLastDurable now x) (s, T)"
  then have x: "proper v1 x" "ot_le (si_lastDurableOpTime (myEntry s)) x" by auto
  obtain s1 where s1: "rc_setMyLastDurableOpTime now x False s = Some s1" "advances v1 s s1"
    by (rule setMyLastDurable_advances [OF ok x])
  then show "\<exists>s'. setMyLastDurableOpTime now x s = Some s' \<and> advances v1 s s'"
    using advances_trans [OF s1(2) reportUpstream_advances [OF advances_ok [OF s1(2)]]] by (simp add: setMyLastDurableOpTime_def)
qed

lemma forward_steps:
  assumes inv: "progress_inv v1 (s, T)"
  shows "progress_allowed v1 (SetMyLastAppliedForward now x) (s, T) \<Longrightarrow> \<exists>s'. setMyLastAppliedOpTimeForward now x s = Some s' \<and> advances v1 s s'"
    "progress_allowed v1 (SetMyLastDurableForward now x) (s, T) \<Longrightarrow> \<exists>s'. setMyLastDurableOpTimeForward now x s = Some s' \<and> advances v1 s s'"
proof -
  have ok: "progress_ok v1 s" using inv by (simp add: progress_inv_def)
  note m = my_entry [OF ok]
  note o = my_optimes [OF progress_okD(1) [OF ok]]
  let ?m = "si_lastAppliedOpTime (myEntry s)"
  assume "progress_allowed v1 (SetMyLastAppliedForward now x) (s, T)"
  then have x: "proper v1 x" "opTime_follows ?m x \<or> opTime_follows x ?m" by auto
  show "\<exists>s'. setMyLastAppliedOpTimeForward now x s = Some s' \<and> advances v1 s s'"
  proof (cases "ot_gt x ?m")
    case True
    then have "rank ?m < rank x" using ot_ranks(4) [OF x(1) m(3)] by simp
    then have "opTime_follows ?m x" using x(2) follows_gt [OF m(3) x(1)] by force
    then show ?thesis using own_steps(1) [OF inv, of now x] x(1) True o by (simp add: setMyLastAppliedOpTimeForward_def)
  next
    case False
    then have "rank x \<le> rank ?m" using ot_ranks(4) [OF x(1) m(3)] by simp
    then have "ot_eq x ?m \<or> ot_term x = kUninitializedTerm \<or> ot_term ?m = kUninitializedTerm \<or> ts_less (ot_timestamp x) (ot_timestamp ?m)"
      using x(2) ot_ranks [OF x(1) m(3)] ot_ranks [OF m(3) x(1)] by (auto simp: opTime_follows_def)
    then show ?thesis using False o advances_refl [OF ok] by (simp add: setMyLastAppliedOpTimeForward_def)
  qed
next
  have ok: "progress_ok v1 s" using inv by (simp add: progress_inv_def)
  note m = my_entry [OF ok]
  note o = my_optimes [OF progress_okD(1) [OF ok]]
  assume "progress_allowed v1 (SetMyLastDurableForward now x) (s, T)"
  then have x: "proper v1 x" by simp
  show "\<exists>s'. setMyLastDurableOpTimeForward now x s = Some s' \<and> advances v1 s s'"
  proof (cases "ot_gt x (si_lastDurableOpTime (myEntry s))")
    case True
    then have "ot_le (si_lastDurableOpTime (myEntry s)) x" using ot_ranks(4) [OF x m(4)] ot_ranks(3) [OF m(4) x] by simp
    then show ?thesis using own_steps(2) [OF inv, of now x] x True o by (simp add: setMyLastDurableOpTimeForward_def)
  qed (use o advances_refl [OF ok] in \<open>simp add: setMyLastDurableOpTimeForward_def\<close>)
qed

lemma reset_steps:
  assumes inv: "progress_inv v1 (s, T)" and np: "rc_memberState s \<noteq> RS_PRIMARY" and x: "proper v1 x"
  obtains s1 s2 where "rc_setMyLastAppliedOpTime now x True s = Some s1" "rc_setMyLastDurableOpTime now x True s1 = Some s2"
    "step_result v1 y (s, T) (reportUpstream s2, T)"
proof -
  have ok: "progress_ok v1 s" "durable_ok s" using inv by (auto simp: progress_inv_def)
  obtain s1 s2 where r: "rc_setMyLastAppliedOpTime now x True s = Some s1" "rc_setMyLastDurableOpTime now x True s1 = Some s2"
    "progresses v1 s s2" "durable_ok s \<longrightarrow> durable_ok s2" "rc_lastCommittedOpTime s2 = rc_lastCommittedOpTime s"
    by (rule reset_ok [OF ok(1) x np])
  note f = frame_fields [OF r(3)]
  have "moves v1 s s2" using r np f(6) by (simp add: moves_def commit_maximal_def)
  then have s2: "step_result v1 y (s, T) (s2, T)" using r(5) by (intro moves_result [OF inv]) (simp_all add: commits_def)
  then have i2: "progress_inv v1 (s2, T)" by (simp add: step_result_def)
  have a: "advances v1 s2 (reportUpstream s2)" by (rule reportUpstream_advances [OF progressesD [OF r(3)]])
  have "rc_lastCommittedOpTime (reportUpstream s2) = rc_lastCommittedOpTime s2" by (simp add: reportUpstream_def call_def)
  then have "step_result v1 y (s, T) (reportUpstream s2, T)"
    using s2 advances_result [OF i2 a, of y] np by (auto simp: step_result_def progress_rel_def commits_def r(5))
  then show thesis using that r(1,2) by blast
qed

lemma result_call: "progress_inv v1 (s, T) \<Longrightarrow> step_result v1 y (s, T) (s', T) \<Longrightarrow> step_result v1 y (s, T) (call c s', T)"
  using advances_result [where s = s' and s' = "call c s'" and T = T and ?v1.0 = v1 and x = y] call_advances [of v1 s' c]
  by (auto simp: step_result_def progress_rel_def commits_def progress_inv_def call_def grows_def majority_reached_def is_voter_def [abs_def] journals_def)

lemma progress_run_result:
  assumes inv: "progress_inv v1 (s, T)" and a: "progress_allowed v1 x (s, T)"
  shows "returns (progress_run x (s, T)) (step_result v1 x (s, T))"
proof -
  have ok: "progress_ok v1 s" using inv by (simp add: progress_inv_def)
  note adv = advances_result [OF inv]
  show ?thesis
  proof (cases x)
    case (SetMyLastApplied now y)
    then show ?thesis using own_steps(1) [OF inv a [unfolded SetMyLastApplied]] adv by (auto simp: returns_def)
  next
    case (SetMyLastDurable now y)
    then show ?thesis using own_steps(2) [OF inv a [unfolded SetMyLastDurable]] adv by (auto simp: returns_def)
  next
    case (SetMyLastAppliedForward now y)
    then show ?thesis using forward_steps(1) [OF inv a [unfolded SetMyLastAppliedForward]] adv by (auto simp: returns_def)
  next
    case (SetMyLastDurableForward now y)
    then show ?thesis using forward_steps(2) [OF inv a [unfolded SetMyLastDurableForward]] adv by (auto simp: returns_def)
  next
    case (ResetMyLastOpTimes now)
    then have np: "rc_memberState s \<noteq> RS_PRIMARY" using a by simp
    obtain s1 s2 where "rc_setMyLastAppliedOpTime now OpTime_default True s = Some s1" "rc_setMyLastDurableOpTime now OpTime_default True s1 = Some s2"
      "step_result v1 x (s, T) (reportUpstream s2, T)" by (rule reset_steps [OF inv np proper_default])
    then show ?thesis using ResetMyLastOpTimes by (simp add: resetMyLastOpTimes_def returns_def)
  next
    case (ResetLastOpTimesFromOplog now y)
    define o1 where "o1 = (case y of Inr o1 \<Rightarrow> o1 | Inl _ \<Rightarrow> OpTime_default)"
    have np: "rc_memberState s \<noteq> RS_PRIMARY" "proper v1 o1" using a ResetLastOpTimesFromOplog by (auto simp: o1_def split: sum.splits)
    obtain s1 s2 where "rc_setMyLastAppliedOpTime now o1 True s = Some s1" "rc_setMyLastDurableOpTime now o1 True s1 = Some s2"
      "step_result v1 x (s, T) (reportUpstream s2, T)" by (rule reset_steps [OF inv np])
    then show ?thesis using ResetLastOpTimesFromOplog result_call [OF inv]
      by (simp add: resetLastOpTimesFromOplog_def o1_def [symmetric] returns_def)
  next
    case (UpdatePosition now us)
    then show ?thesis using processUpdatePosition_advances [OF ok, of us now] a adv by (auto simp: returns_def list_all_iff)
  next
    case (UpdatePositionOld now us)
    then show ?thesis using processUpdatePosition_old_advances [OF ok, of us now] a adv by (auto simp: returns_def list_all_iff)
  next
    case (HeartbeatOpTimes now i d y)
    then have i: "nth_opt (rc_slaveInfo s) i = Some (rc_slaveInfo s ! nat i)" "rc_selfIndex s \<noteq> -1" "proper v1 y" "proper v1 d"
      using a by (auto simp: nth_opt_def)
    obtain s' where "updateOpTimesFromHeartbeat now i d y s = Some s'" "advances v1 s s'" by (rule heartbeatOpTimes_advances [OF ok i])
    then show ?thesis using HeartbeatOpTimes adv by (simp add: returns_def)
  next
    case (LearnCommitPoint now c)
    then have c: "proper v1 c" "rc_memberState s = RS_ARBITER \<Longrightarrow> rank (rc_lastCommittedOpTime s) < rank c \<Longrightarrow>
      opTime_follows (si_lastAppliedOpTime (myEntry s)) c" using a by auto
    obtain s' where "advanceCommitPoint now c s = Some s'" "progresses v1 s s'" "durable_ok s \<longrightarrow> durable_ok s'"
      "commit_maximal v1 s \<longrightarrow> commit_maximal v1 s'" "grows s s'" by (rule advanceCommitPoint_learns [OF ok c])
    then show ?thesis using moves_result [OF inv, of s' x] LearnCommitPoint by (simp add: returns_def moves_def)
  next
    case (TakeSnapshot y n)
    obtain s' where "createSnapshot y n s = Some s'" "advances v1 s s'"
      by (rule createSnapshot_ok [OF ok]) (use a TakeSnapshot in auto)
    then show ?thesis using TakeSnapshot adv by (simp add: returns_def)
  next
    case DropSnapshots
    have "enlisted s n t" if t: "T n = Some t" for n t
    proof -
      have "thread_ok v1 s n t" using inv t by (simp add: progress_inv_def)
      then have "n < rc_nextWaiter s" by (simp add: thread_ok_def)
      then show ?thesis using a DropSnapshots t by (force simp: list_all_iff)
    qed
    then show ?thesis using drop_steps [OF inv] DropSnapshots
      by (simp add: step_result_def progress_rel_def commits_def) (simp add: dropAllSnapshots_def call_def grows_same)
  next
    case (AwaitReplication l i y wc)
    then have "proper v1 y" using a by simp
    from await_steps [OF inv this, of l i wc] obtain r s' where "awaitReplication l i y wc s = Some (r, s')" "lists_frame s s'"
      "progress_inv v1 (afterAwait (\<lambda>n. T(n \<mapsto> awaitArgs y wc s)) T (r, s'))" by blast
    then show ?thesis using AwaitReplication after_result by (simp add: returns_def)
  next
    case (ResumeAwait o1 n)
    show ?thesis
    proof (cases "T n")
      case None
      then show ?thesis using ResumeAwait inv lists_result [OF inv, of s x T] by (simp add: lists_frame_def)
    next
      case (Some t)
      from resume_steps [OF inv Some, of o1] obtain r s' where "awaitReplication_resume o1 n t s = Some (r, s')" "lists_frame s s'"
        "progress_inv v1 (afterAwait (\<lambda>_. T) (T(n := None)) (r, s'))" by blast
      then show ?thesis using ResumeAwait Some after_result by (simp add: returns_def)
    qed
  next
    case (WaitForRead l m y)
    then show ?thesis using waitForRead_steps [OF inv, of l m y] lists_result by (auto simp: returns_def)
  next
    case (ResumeRead st w m y)
    then show ?thesis using resumeRead_steps [OF inv, of w st m y] a lists_result by (auto simp: returns_def)
  qed
qed

interpretation progress_machine: total_machine "progress_allowed v1" progress_run "progress_inv v1" progress_rel
proof
  fix s :: "ReplCoord \<times> Threads" and x assume "progress_inv v1 s" "progress_allowed v1 x s"
  then show "returns (progress_run x s) (\<lambda>s'. progress_inv v1 s' \<and> progress_rel s s')"
    using progress_run_result [of v1 "fst s" "snd s" x] by (auto simp: returns_def step_result_def split: prod.splits)
qed (auto simp: progress_rel_def)

end
