(* ===== verification/ReplProgressProps.thy ===== *)
theory ReplProgressProps
  imports ReplProgressMachine
begin

text \<open>
  Replication progress as a whole: the commit point refines an abstract machine of acknowledged and committed
  optimes, no waiting thread misses its wake-up, and the one case in which it does.
\<close>

section \<open>The abstract commit point\<close>

record CommitSpec =
  cs_acked :: "int list"
  cs_committed :: int

text \<open>
  The specification: voting members acknowledge more and more, and the primary commits what at least \<open>n\<close> of them
  have acknowledged, from the first optime \<open>first\<close> of its term on.
\<close>

inductive commit_spec :: "int \<Rightarrow> int \<Rightarrow> CommitSpec \<Rightarrow> CommitSpec \<Rightarrow> bool" for n first where
  acknowledge: "list_all2 (\<le>) (cs_acked a) bs \<Longrightarrow> commit_spec n first a (a\<lparr>cs_acked := bs\<rparr>)"
| commit: "cs_committed a \<le> c \<Longrightarrow> first \<le> c \<Longrightarrow> n \<le> int (count_if (\<lambda>x. c \<le> x) (cs_acked a)) \<Longrightarrow>
    commit_spec n first a (a\<lparr>cs_committed := c\<rparr>)"

inductive_cases commit_specE: "commit_spec n first a b"

definition committed_acked :: "int \<Rightarrow> int \<Rightarrow> CommitSpec \<Rightarrow> bool" where
  "committed_acked n c0 a \<longleftrightarrow>
     c0 \<le> cs_committed a \<and> (cs_committed a = c0 \<or> n \<le> int (count_if (\<lambda>x. cs_committed a \<le> x) (cs_acked a)))"

text \<open>What has been committed stays acknowledged by a majority.\<close>

interpretation commit_machine: step_invariant "\<lambda>a. cs_committed a = c0" "commit_spec n first" "committed_acked n c0"
proof
  fix a b assume i: "committed_acked n c0 a" and s: "commit_spec n first a b"
  from s show "committed_acked n c0 b"
  proof (cases rule: commit_spec.cases)
    case (acknowledge bs)
    have "count_if (\<lambda>x. cs_committed a \<le> x) (cs_acked a) \<le> count_if (\<lambda>x. cs_committed a \<le> x) bs"
      by (rule count_if_list_all2 [OF acknowledge(2)]) simp
    then show ?thesis using i acknowledge(1) by (auto simp: committed_acked_def)
  qed (use i in \<open>auto simp: committed_acked_def\<close>)
qed (simp add: committed_acked_def)

section \<open>The coordinator as an implementation of it\<close>

definition commit_abs :: "ReplCoord \<Rightarrow> CommitSpec" where
  "commit_abs s = \<lparr>cs_acked = map (\<lambda>si. rank (progress (journals s) si)) (filter (is_voter s) (rc_slaveInfo s)),
                   cs_committed = rank (rc_lastCommittedOpTime s)\<rparr>"

lemma majority_abs:
  assumes "progress_ok v1 s" "proper v1 c"
  shows "majority_reached s c \<longleftrightarrow> c_writeMajority (rc_rsConfig s) \<le> int (count_if (\<lambda>x. rank c \<le> x) (cs_acked (commit_abs s)))"
  using majority_count [OF progress_okD(2) [OF assms(1)] assms(2)] by (simp add: majority_reached_def commit_abs_def comp_def)

lemma acked_grows:
  assumes "list_all2 entry_grows xs ys" "rc_rsConfig s' = rc_rsConfig s"
  shows "list_all2 (\<le>) (map (\<lambda>si. rank (progress (journals s) si)) (filter (is_voter s) xs))
    (map (\<lambda>si. rank (progress (journals s') si)) (filter (is_voter s') ys))"
  using assms(1)
proof (induction rule: list_all2_induct)
  case (Cons a xs b ys)
  have "is_voter s' b = is_voter s a" "journals s' = journals s"
    using Cons.hyps(1) assms(2) by (simp_all add: is_voter_def journals_def entry_grows_def)
  then show ?case using Cons entry_grows_progress [OF Cons.hyps(1), of "journals s"] by simp
qed simp

lemma step_refines:
  assumes inv: "progress_inv v1 (s, T)" and r: "step_result v1 x (s, T) (s', T')" and l: "\<not> learns x"
    and p: "rc_memberState s = RS_PRIMARY"
  shows "(commit_spec (c_writeMajority (rc_rsConfig s)) (rank (rc_firstOpTimeOfMyTerm s)))\<^sup>*\<^sup>* (commit_abs s) (commit_abs s')"
proof -
  let ?R = "commit_spec (c_writeMajority (rc_rsConfig s)) (rank (rc_firstOpTimeOfMyTerm s))"
  have f: "rc_rsConfig s' = rc_rsConfig s" "grows s s'" "commits v1 s s'" "progress_ok v1 s'"
    "rank (rc_lastCommittedOpTime s) \<le> rank (rc_lastCommittedOpTime s')"
    using r l p by (auto simp: step_result_def progress_rel_def progress_inv_def)
  let ?a = "(commit_abs s)\<lparr>cs_acked := cs_acked (commit_abs s')\<rparr>"
  have ack: "?R (commit_abs s) ?a"
    using acked_grows [OF f(2) [unfolded grows_def] f(1)] by (intro acknowledge) (simp add: commit_abs_def)
  have eq: "commit_abs s' = ?a\<lparr>cs_committed := rank (rc_lastCommittedOpTime s')\<rparr>" by (simp add: commit_abs_def)
  show ?thesis
  proof (cases "rc_lastCommittedOpTime s' = rc_lastCommittedOpTime s")
    case True
    then show ?thesis using ack eq by (simp add: commit_abs_def)
  next
    case False
    then have c: "majority_reached s' (rc_lastCommittedOpTime s')" "rank (rc_firstOpTimeOfMyTerm s) \<le> rank (rc_lastCommittedOpTime s')"
      using f(3) by (auto simp: commits_def)
    have "?R ?a (?a\<lparr>cs_committed := rank (rc_lastCommittedOpTime s')\<rparr>)"
      using c f(1,5) by (intro commit) (simp_all add: majority_abs [OF f(4) commit_proper [OF f(4)]], simp_all add: commit_abs_def)
    then have "?R ?a (commit_abs s')" by (simp only: eq [symmetric])
    then show ?thesis using ack by (meson converse_rtranclp_into_rtranclp r_into_rtranclp)
  qed
qed

section \<open>An example\<close>

definition demo_tagged :: "int \<Rightarrow> MemberConfig" where
  "demo_tagged i = (demo_member i (27017 + i))\<lparr>mc_tags := [\<lparr>tag_keyIndex = 0, tag_valueIndex = i\<rparr>]\<rparr>"

definition demo_tagged_config :: ReplSetConfig where
  "demo_tagged_config = demo_config\<lparr>c_members := [demo_tagged 0, demo_tagged 1, demo_tagged 2],
     c_customWriteConcernModes := [(kMajorityWriteConcernModeName, [(0, 2)])]\<rparr>"

definition demo_slave :: "int \<Rightarrow> SlaveInfo" where
  "demo_slave i = SlaveInfo_default\<lparr>si_memberId := i, si_self := (i = 0)\<rparr>"

text \<open>A primary that has just drained, before the first operation of its term.\<close>

definition demo_primary :: ReplCoord where
  "demo_primary =
     \<lparr>rc_settings = \<lparr>rs_usingReplSets = True, rs_master = False, rs_slave = False, rs_majorityReadConcern = True\<rparr>,
      rc_topCoord = TopologyCoordinator_new demo_options, rc_rsConfigState = kConfigSteady, rc_rsConfig = demo_tagged_config,
      rc_selfIndex = 0, rc_memberState = RS_PRIMARY, rc_applierState = ApplierStopped, rc_canAcceptNonLocalWrites = True,
      rc_canServeNonLocalReads = True, rc_stepDownPending = False, rc_cachedTerm = 1, rc_electionId = 0, rc_catchupState = None,
      rc_slaveInfo = [demo_slave 0, demo_slave 1, demo_slave 2], rc_lastCommittedOpTime = OpTime_default,
      rc_firstOpTimeOfMyTerm = OpTime_default, rc_uncommittedSnapshots = [], rc_currentCommittedSnapshot = None,
      rc_snapshotNameGenerator = 0, rc_replicationWaiterList = [], rc_opTimeWaiterList = [], rc_nextWaiter = 0,
      rc_snapshotsEnabled = True, rc_isDurableStorageEngine = True, rc_executorRunning = True, rc_inShutdown = False,
      rc_livenessTimer = None, rc_earliestMemberId = -1, rc_electionTimer = None, rc_priorityTakeover = None, rc_seedList = [],
      rc_calls = []\<rparr>"

lemma demo_majority: "majority_reached demo_primary t \<Longrightarrow> proper True t \<Longrightarrow> rank t \<le> rank OpTime_default"
proof (rule ccontr)
  assume a: "majority_reached demo_primary t" "proper True t" "\<not> rank t \<le> rank OpTime_default"
  then have "\<not> ot_ge OpTime_default t" using ot_ranks(5) [of True OpTime_default t] by simp
  moreover have "rc_slaveInfo demo_primary = [demo_slave 0, demo_slave 1, demo_slave 2]" "c_writeMajority (rc_rsConfig demo_primary) = 2"
    by (simp_all add: demo_primary_def demo_tagged_config_def demo_config_def)
  moreover have "progress d (demo_slave i) = OpTime_default" for d i by (simp add: progress_def demo_slave_def SlaveInfo_default_def)
  ultimately show False using a(1) by (simp add: majority_reached_def)
qed

lemma demo_primary_ok: "progress_inv True (demo_primary, Map.empty)"
proof -
  have "aligned demo_primary" unfolding aligned_def pcfg_ok_def by code_simp
  moreover have "list_all (slave_ok True) (rc_slaveInfo demo_primary)"
    by (simp add: demo_primary_def demo_slave_def SlaveInfo_default_def slave_ok_def)
  moreover have "snaps_ok True demo_primary" "waiters_ok demo_primary" by (simp_all add: snaps_ok_def waiters_ok_def demo_primary_def)
  ultimately have "progress_ok True demo_primary" by (simp add: progress_ok_def list_all_iff) (simp add: demo_primary_def)
  moreover have "commit_maximal True demo_primary"
    using demo_majority by (auto simp: commit_maximal_def) (simp_all add: demo_primary_def)
  ultimately show ?thesis
    by (simp add: progress_inv_def) (simp add: demo_primary_def quiet_def durable_ok_def demo_slave_def SlaveInfo_default_def)
qed

definition demo_op :: "32 word \<Rightarrow> OpTime" where
  "demo_op n = \<lparr>ot_timestamp = \<lparr>ts_secs = n, ts_inc = 0\<rparr>, ot_term = 1\<rparr>"

definition demo_wc :: WriteConcernOptions where
  "demo_wc = \<lparr>wMode = [], wNumNodes = 2, wc_syncMode = SyncNone, wc_wTimeout = 0, wc_wDeadline = 0\<rparr>"

definition demo_report :: "int \<Rightarrow> 32 word \<Rightarrow> UpdateInfo" where
  "demo_report i n = \<lparr>ui_appliedOpTime = demo_op n, ui_durableOpTime = demo_op n, ui_cfgver = c_version demo_tagged_config, ui_memberId = i\<rparr>"

text \<open>A write, a thread that waits for two members, and the report of the second.\<close>

definition demo_progress :: "ProgressOp list" where
  "demo_progress = [SetMyLastApplied 100 (demo_op 5), SetMyLastDurable 101 (demo_op 5), AwaitReplication False StatusOK (demo_op 5) demo_wc,
     UpdatePosition 102 [demo_report 1 5]]"

lemma demo_op_proper: "n \<noteq> 0 \<Longrightarrow> proper True (demo_op n)"
  by (simp add: proper_def demo_op_def ot_isNull_def ts_isNull_def Timestamp_null_def)

definition demo_args :: AwaitArgs where
  "demo_args = \<lparr>aw_opTime = demo_op 5, aw_minSnapshot = 0, aw_writeConcern = demo_wc\<rparr>"

lemma foldM_append: "foldM f (xs @ ys) s = foldM f xs s \<bind> foldM f ys"
  by (induction xs arbitrary: s) (simp_all split: bind_split)

lemma demo_commit_points:
  "map_option (\<lambda>(s, T). rc_lastCommittedOpTime s) (foldM progress_run demo_progress (demo_primary, Map.empty)) = Some (demo_op 5)"
  "map_option (\<lambda>(s, T). rc_lastCommittedOpTime s) (foldM progress_run (butlast demo_progress) (demo_primary, Map.empty)) = Some OpTime_default"
  by code_simp+

lemma demo_thread:
  "map_option (\<lambda>(s, T). T 0) (foldM progress_run demo_progress (demo_primary, Map.empty)) = Some (Some demo_args)"
  "map_option (\<lambda>(s, T). concern_done s demo_args) (foldM progress_run demo_progress (demo_primary, Map.empty)) = Some (Some True)"
  by code_simp+

lemma demo_before_allowed: "all_allowed (progress_allowed True) progress_run (butlast demo_progress) (demo_primary, Map.empty)"
  by code_simp

lemma demo_progress_allowed: "all_allowed (progress_allowed True) progress_run demo_progress (demo_primary, Map.empty)"
  by code_simp

section \<open>Theorems\<close>

text \<open>
  C4: the commit point refines its specification. On a primary, every sequence of operations that does not
  learn a commit point from elsewhere is, for what the voting members have acknowledged and what is committed, a
  sequence of steps of the specification: acknowledgements only grow, and an optime is committed only if it is
  not older than the primary's term and a write majority of the voters has acknowledged it.
\<close>

theorem commit_point_refines:
  assumes "progress_inv v1 (s, T)" "all_allowed (progress_allowed v1) progress_run xs (s, T)"
    "list_all (\<lambda>x. \<not> learns x) xs" "rc_memberState s = RS_PRIMARY"
  shows "\<exists>s' T'. foldM progress_run xs (s, T) = Some (s', T') \<and>
    (commit_spec (c_writeMajority (rc_rsConfig s)) (rank (rc_firstOpTimeOfMyTerm s)))\<^sup>*\<^sup>* (commit_abs s) (commit_abs s')"
  using assms
proof (induction xs arbitrary: s T)
  case (Cons x xs)
  from progress_run_result [OF Cons.prems(1), of x] Cons.prems(2) obtain s1 T1 where
    s1: "progress_run x (s, T) = Some (s1, T1)" "step_result v1 x (s, T) (s1, T1)" by (auto simp: returns_def)
  have i: "progress_inv v1 (s1, T1)" "rc_memberState s1 = RS_PRIMARY" "rc_rsConfig s1 = rc_rsConfig s"
    "rc_firstOpTimeOfMyTerm s1 = rc_firstOpTimeOfMyTerm s"
    using s1(2) Cons.prems(4) by (auto simp: step_result_def progress_rel_def)
  from Cons.IH [OF i(1) _ _ i(2)] Cons.prems(2,3) s1(1) obtain s' T' where "foldM progress_run xs (s1, T1) = Some (s', T')"
    "(commit_spec (c_writeMajority (rc_rsConfig s)) (rank (rc_firstOpTimeOfMyTerm s)))\<^sup>*\<^sup>* (commit_abs s1) (commit_abs s')"
    unfolding i(3,4) by auto
  moreover have "(commit_spec (c_writeMajority (rc_rsConfig s)) (rank (rc_firstOpTimeOfMyTerm s)))\<^sup>*\<^sup>* (commit_abs s) (commit_abs s1)"
    using Cons.prems(3,4) by (intro step_refines [OF Cons.prems(1) s1(2)]) simp_all
  ultimately show ?case using s1(1) rtranclp_trans [of _ "commit_abs s" "commit_abs s1" "commit_abs s'"] by auto
qed auto

theorem commit_point_refines_witness:
  "\<exists>s' T'. foldM progress_run demo_progress (demo_primary, Map.empty) = Some (s', T') \<and>
    (commit_spec (c_writeMajority (rc_rsConfig demo_primary)) (rank (rc_firstOpTimeOfMyTerm demo_primary)))\<^sup>*\<^sup>*
      (commit_abs demo_primary) (commit_abs s')"
  by (rule commit_point_refines [OF demo_primary_ok demo_progress_allowed]) (simp_all add: demo_progress_def demo_primary_def)

text \<open>
  C7: the operations on replication progress never abort. Every sequence of them that the callers may
  issue returns, keeps the invariant and moves the commit point only forward.
\<close>

theorem progress_never_aborts:
  assumes "progress_inv v1 (s, T)" "all_allowed (progress_allowed v1) progress_run xs (s, T)"
  shows "\<exists>s' T'. foldM progress_run xs (s, T) = Some (s', T') \<and> progress_inv v1 (s', T') \<and>
    rank (rc_lastCommittedOpTime s) \<le> rank (rc_lastCommittedOpTime s')"
  using progress_machine.runs_return [OF assms] by (auto simp: returns_def progress_rel_def)

theorem progress_never_aborts_witness:
  "\<exists>s' T'. foldM progress_run demo_progress (demo_primary, Map.empty) = Some (s', T') \<and> progress_inv True (s', T') \<and>
    rank (rc_lastCommittedOpTime demo_primary) \<le> rank (rc_lastCommittedOpTime s')"
  by (rule progress_never_aborts [OF demo_primary_ok demo_progress_allowed])

text \<open>
  C9: the commit point of a primary. After an operation other than learning it, the commit point has changed only on a
  primary that is not about to step down, to an optime of its own term that a write majority of the voters
  has reached; and it is then the newest such optime.
\<close>

theorem commit_point_newest_majority:
  assumes "progress_inv v1 (s, T)" "progress_allowed v1 x (s, T)" "\<not> learns x" "progress_run x (s, T) = Some (s', T')"
  shows "(rc_lastCommittedOpTime s' \<noteq> rc_lastCommittedOpTime s \<longrightarrow> rc_memberState s = RS_PRIMARY \<and> \<not> rc_stepDownPending s \<and>
      majority_reached s' (rc_lastCommittedOpTime s') \<and> rank (rc_firstOpTimeOfMyTerm s) \<le> rank (rc_lastCommittedOpTime s')) \<and>
    (rc_memberState s = RS_PRIMARY \<and> \<not> rc_stepDownPending s \<longrightarrow>
      (\<forall>t. proper v1 t \<and> majority_reached s' t \<and> rank (rc_firstOpTimeOfMyTerm s) \<le> rank t \<longrightarrow> rank t \<le> rank (rc_lastCommittedOpTime s')))"
  using progress_run_result [OF assms(1,2)] assms(3,4)
  by (simp add: step_result_def progress_rel_def progress_inv_def commits_def commit_maximal_def)

theorem commit_point_newest_majority_witness:
  "\<exists>s T s' T'. foldM progress_run (butlast demo_progress) (demo_primary, Map.empty) = Some (s, T) \<and>
     progress_run (last demo_progress) (s, T) = Some (s', T') \<and>
     rc_lastCommittedOpTime s' = demo_op 5 \<and> majority_reached s' (demo_op 5)"
proof -
  obtain s T where r: "foldM progress_run (butlast demo_progress) (demo_primary, Map.empty) = Some (s, T)" "progress_inv True (s, T)"
    using progress_machine.runs_return [OF demo_primary_ok demo_before_allowed] by (auto simp: returns_def)
  have a: "progress_allowed True (last demo_progress) (s, T)" "\<not> learns (last demo_progress)"
    by (simp_all add: demo_progress_def demo_report_def report_ok_def demo_op_proper)
  obtain s' T' where s': "progress_run (last demo_progress) (s, T) = Some (s', T')"
    using progress_run_result [OF r(2) a(1)] by (auto simp: returns_def)
  have "foldM progress_run (butlast demo_progress @ [last demo_progress]) (demo_primary, Map.empty) = Some (s', T')"
    unfolding foldM_append r(1) by (simp add: s')
  moreover have "butlast demo_progress @ [last demo_progress] = demo_progress" by (simp add: demo_progress_def)
  ultimately have "rc_lastCommittedOpTime s = OpTime_default" "rc_lastCommittedOpTime s' = demo_op 5"
    using demo_commit_points r(1) by simp_all
  moreover have "demo_op 5 \<noteq> OpTime_default" by (simp add: demo_op_def OpTime_default_def kUninitializedTerm_def)
  ultimately show ?thesis
    using commit_point_newest_majority [OF r(2) a s'] r(1) s' by (intro exI [of _ s] exI [of _ T] exI [of _ s'] exI [of _ T']) simp
qed

text \<open>
  C5: no wake-up is lost. After every allowed sequence of operations, a thread of \<open>awaitReplication\<close> that has not returned either is still in the
  list of waiters, and its write concern is not met; or its write concern is met (or can no longer be met), it has been taken from the list and
  notified, and when it runs it returns. So nobody is woken too early, to wait again outside the list, and nobody whose
  write concern is met is left in it. Allowed sequences do not drop the snapshots between the notification of a
  thread and its run, and threads that wait for a snapshot as well are the subject of the last property.
\<close>

theorem no_lost_wakeup:
  assumes "progress_inv v1 (s, T)" "all_allowed (progress_allowed v1) progress_run xs (s, T)"
  shows "\<exists>s' T'. foldM progress_run xs (s, T) = Some (s', T') \<and>
    (\<forall>n a. T' n = Some a \<longrightarrow>
       (if concern_done s' a = Some True
        then \<not> enlisted s' n a \<and> NotifyWaiter n \<in> set (rc_calls s') \<and>
             (\<exists>st s''. awaitReplication_resume WaitNotified n a s' = Some (AwaitDone st, s''))
        else enlisted s' n a \<and> concern_done s' a = Some False))"
proof -
  from progress_machine.runs_return [OF assms] obtain s' T' where r: "foldM progress_run xs (s, T) = Some (s', T')"
    "progress_inv v1 (s', T')" by (auto simp: returns_def)
  have "if concern_done s' a = Some True
        then \<not> enlisted s' n a \<and> NotifyWaiter n \<in> set (rc_calls s') \<and>
             (\<exists>st s''. awaitReplication_resume WaitNotified n a s' = Some (AwaitDone st, s''))
        else enlisted s' n a \<and> concern_done s' a = Some False"
    if t: "T' n = Some a" for n a
  proof -
    have th: "thread_ok v1 s' n a" "quiet s'" using r(2) t by (auto simp: progress_inv_def)
    have "concern_done s' a = Some False" if "enlisted s' n a"
    proof -
      have "aw_minSnapshot a = 0" "wc_syncMode (aw_writeConcern a) \<noteq> SyncUnset" using th(1) by (simp_all add: thread_ok_def)
      from enlisted_waiter [OF that this] obtain w where "w \<in> set (rc_replicationWaiterList s')" "\<And>s. waiter_done s w = concern_done s a" by metis
      then show ?thesis using th(2) unfolding quiet_def by metis
    qed
    then show ?thesis using th(1) resume_steps [OF r(2) t, of WaitNotified] by (auto simp: thread_ok_def)
  qed
  then show ?thesis using r(1) by blast
qed

text \<open>The thread waits in the list until the second member reports, and is notified by that report.\<close>

lemma demo_thread_before:
  "map_option (\<lambda>(s, T). T 0) (foldM progress_run (butlast demo_progress) (demo_primary, Map.empty)) = Some (Some demo_args)"
  "map_option (\<lambda>(s, T). concern_done s demo_args) (foldM progress_run (butlast demo_progress) (demo_primary, Map.empty)) = Some (Some False)"
  by code_simp+

theorem no_lost_wakeup_witness:
  "(\<exists>s' T'. foldM progress_run (butlast demo_progress) (demo_primary, Map.empty) = Some (s', T') \<and> enlisted s' 0 demo_args) \<and>
   (\<exists>s' T' st s''. foldM progress_run demo_progress (demo_primary, Map.empty) = Some (s', T') \<and> \<not> enlisted s' 0 demo_args \<and>
      NotifyWaiter 0 \<in> set (rc_calls s') \<and> awaitReplication_resume WaitNotified 0 demo_args s' = Some (AwaitDone st, s''))"
proof -
  obtain s1 T1 where 1: "foldM progress_run (butlast demo_progress) (demo_primary, Map.empty) = Some (s1, T1)" "T1 0 = Some demo_args"
    "concern_done s1 demo_args = Some False" using demo_thread_before by auto
  obtain s2 T2 where 2: "foldM progress_run demo_progress (demo_primary, Map.empty) = Some (s2, T2)" "T2 0 = Some demo_args"
    "concern_done s2 demo_args = Some True" using demo_thread by auto
  have "enlisted s1 0 demo_args"
  proof -
    from no_lost_wakeup [OF demo_primary_ok demo_before_allowed] 1(1) have "\<forall>n a. T1 n = Some a \<longrightarrow> concern_done s1 a \<noteq> Some True \<longrightarrow> enlisted s1 n a"
      by (elim exE conjE) (simp split: if_split_asm)
    then show ?thesis using 1(2,3) by simp
  qed
  moreover have "\<not> enlisted s2 0 demo_args \<and> NotifyWaiter 0 \<in> set (rc_calls s2) \<and>
      (\<exists>st s''. awaitReplication_resume WaitNotified 0 demo_args s2 = Some (AwaitDone st, s''))"
  proof -
    from no_lost_wakeup [OF demo_primary_ok demo_progress_allowed] 2(1) have "\<forall>n a. T2 n = Some a \<longrightarrow> concern_done s2 a = Some True \<longrightarrow>
        \<not> enlisted s2 n a \<and> NotifyWaiter n \<in> set (rc_calls s2) \<and>
        (\<exists>st s''. awaitReplication_resume WaitNotified n a s2 = Some (AwaitDone st, s''))"
      by (elim exE conjE) simp
    then show ?thesis using 2(2,3) by blast
  qed
  ultimately show ?thesis using 1(1) 2(1) by blast
qed

text \<open>
  C24: replication progress is well formed after every allowed sequence of operations. The entries follow the members of the
  configuration, no member is recorded as having journalled what it has not applied, the committed snapshot is not
  newer than the commit point, which is older than every uncommitted snapshot, and the snapshots are in the
  order of their optimes and of their names.
\<close>

theorem progress_well_formed:
  assumes "progress_inv v1 (s, T)" "all_allowed (progress_allowed v1) progress_run xs (s, T)" "rc_selfIndex s \<noteq> -1"
  shows "\<exists>s' T'. foldM progress_run xs (s, T) = Some (s', T') \<and>
    map si_memberId (rc_slaveInfo s') = map mc_id (c_members (rc_rsConfig s)) \<and>
    list_all (\<lambda>si. rank (si_lastDurableOpTime si) \<le> rank (si_lastAppliedOpTime si)) (rc_slaveInfo s') \<and>
    list_all (\<lambda>u. rank (rc_lastCommittedOpTime s') < rank (sn_opTime u)) (rc_uncommittedSnapshots s') \<and>
    sorted_wrt (\<lambda>a b. rank (sn_opTime a) \<le> rank (sn_opTime b) \<and> sn_name a < sn_name b)
      ((case rc_currentCommittedSnapshot s' of None \<Rightarrow> [] | Some c \<Rightarrow> [c]) @ rc_uncommittedSnapshots s') \<and>
    (\<forall>c. rc_currentCommittedSnapshot s' = Some c \<longrightarrow> rank (sn_opTime c) \<le> rank (rc_lastCommittedOpTime s'))"
proof -
  from progress_machine.runs_return [OF assms(1,2)] obtain s' T' where r: "foldM progress_run xs (s, T) = Some (s', T')"
    "progress_inv v1 (s', T')" "rc_rsConfig s' = rc_rsConfig s" "rc_selfIndex s' = rc_selfIndex s"
    by (auto simp: returns_def progress_rel_def)
  have ok: "progress_ok v1 s'" "durable_ok s'" using r(2) by (auto simp: progress_inv_def)
  note sn = progress_okD(3) [OF ok(1), unfolded snaps_ok_def]
  have "map si_memberId (rc_slaveInfo s') = map mc_id (c_members (rc_rsConfig s))"
    using progress_okD(1) [OF ok(1)] assms(3) r(3,4) by (simp add: aligned_def)
  moreover have "sorted_wrt snap_follows ((case rc_currentCommittedSnapshot s' of None \<Rightarrow> [] | Some c \<Rightarrow> [c]) @ rc_uncommittedSnapshots s')"
    using sn by (fastforce simp: snap_follows_def split: option.split)
  ultimately show ?thesis using r(1) ok(2) sn unfolding snap_follows_def [abs_def]
    by (auto simp: list_all_iff durable_ok_def)
qed

theorem progress_well_formed_witness:
  "\<exists>s' T'. foldM progress_run demo_progress (demo_primary, Map.empty) = Some (s', T') \<and>
    map si_memberId (rc_slaveInfo s') = map mc_id (c_members (rc_rsConfig demo_primary)) \<and>
    list_all (\<lambda>si. rank (si_lastDurableOpTime si) \<le> rank (si_lastAppliedOpTime si)) (rc_slaveInfo s')"
  using progress_well_formed [OF demo_primary_ok demo_progress_allowed] by (force simp: demo_primary_def)

text \<open>
  C8: the decision on a write concern. For a write concern that the configuration can satisfy, \<open>_doneWaitingForReplication\<close> answers
  yes exactly if its meaning holds: for a number, this node and at least that many members in all have reached the
  optime; for a mode, the members that have reached it carry, for every tag key of the mode, enough different values, and for the
  majority mode the committed snapshot covers the optime too.
\<close>

theorem write_concern_decided:
  assumes "progress_ok v1 s" "rc_selfIndex s \<noteq> -1" "proper v1 x" "wc_syncMode wc \<noteq> SyncUnset"
    "rc_checkIfWriteConcernCanBeSatisfied wc s = StatusOK"
  shows "doneWaitingForReplication x m wc s = Some (writeConcernMet x m wc s)"
  using doneWaiting_iff [OF assms(1-4)] assms(5) by simp

theorem write_concern_decided_witness:
  "doneWaitingForReplication OpTime_default 0 demo_wc demo_primary = Some (writeConcernMet OpTime_default 0 demo_wc demo_primary)"
proof (rule write_concern_decided)
  show "progress_ok True demo_primary" using demo_primary_ok by (simp add: progress_inv_def)
  show "rc_checkIfWriteConcernCanBeSatisfied demo_wc demo_primary = StatusOK" by code_simp
qed (simp_all add: demo_wc_def, simp add: demo_primary_def)

text \<open>
  C36: a thread that waits for a snapshot can miss its wake-up. \<open>_wakeReadyWaiters\<close> asks whether a write concern is met for the smallest
  snapshot name, not for the name the thread waits for. If it is met for the one and not for the other, the
  waiter leaves the list, and the thread, which finds its condition unmet, goes on waiting with no entry in it.
\<close>

theorem snapshot_waiter_leaves_list:
  assumes "progress_ok v1 s" "enlisted s n a" "wc_syncMode (aw_writeConcern a) \<noteq> SyncUnset"
    "doneWaitingForReplication (aw_opTime a) 0 (aw_writeConcern a) s = Some True"
    "doneWaitingForReplication (aw_opTime a) (aw_minSnapshot a) (aw_writeConcern a) s = Some False"
    "checkForStepDown (aw_opTime a) s = StatusOK" "\<not> rc_inShutdown s"
  shows "\<exists>s'. wakeReadyWaiters s = Some s' \<and> awaitReplication_resume WaitNotified n a s' = Some (AwaitWaiting n, s') \<and>
    n \<notin> w_id ` set (rc_replicationWaiterList s')"
proof -
  from wakeReadyWaiters_ok [OF assms(1)] obtain s' where s': "wakeReadyWaiters s = Some s'" "progress_ok v1 s'" "quiet s'" "woken s s'"
    "s' = s\<lparr>rc_replicationWaiterList := rc_replicationWaiterList s', rc_calls := rc_calls s'\<rparr>" by blast
  have f: "rc_memberState s' = rc_memberState s" "rc_cachedTerm s' = rc_cachedTerm s" "rc_stepDownPending s' = rc_stepDownPending s"
    "rc_settings s' = rc_settings s" "rc_inShutdown s' = rc_inShutdown s" "rc_currentCommittedSnapshot s' = rc_currentCommittedSnapshot s"
    "same_view s s'"
    by (subst s'(5), simp add: same_view_def progress_view_def)+
  have v: "doneWaitingForReplication y k wc s' = doneWaitingForReplication y k wc s" for y k wc
    by (rule doneWaiting_view [OF f(7) progress_okD(1) [OF assms(1)] progress_okD(1) [OF s'(2)] f(6)])
  have r: "awaitReplication_resume WaitNotified n a s' = Some (AwaitWaiting n, s')"
    using assms(5,6,7) by (simp add: awaitReplication_resume_def awaitLoop_def v checkForStepDown_def getReplicationMode_def f)
  have "n \<notin> w_id ` set (rc_replicationWaiterList s')"
  proof
    let ?w = "\<lparr>w_id = n, w_opTime = aw_opTime a, w_writeConcern = Some (aw_writeConcern a), w_callback = False\<rparr>"
    assume "n \<in> w_id ` set (rc_replicationWaiterList s')"
    then obtain w where w: "w \<in> set (rc_replicationWaiterList s')" "w_id w = n" by auto
    have "w \<in> set (rc_replicationWaiterList s)" "?w \<in> set (rc_replicationWaiterList s)"
      using w(1) s'(4) assms(2) by (auto simp: woken_def enlisted_def)
    moreover have "distinct (map w_id (rc_replicationWaiterList s))" using progress_okD(4) [OF assms(1)] by (simp add: waiters_ok_def)
    ultimately have "w = ?w" using w(2) by (metis (mono_tags, lifting) Waiter.select_convs(1) distinct_map inj_onD)
    then show False using bspec [OF s'(3) [unfolded quiet_def] w(1)] assms(4) by (simp add: waiter_done_def v)
  qed
  then show ?thesis using s'(1) r by blast
qed

text \<open>All members have the operation, and a snapshot of it is committed, but the thread waits for a later snapshot.\<close>

definition demo_snapshot_args :: AwaitArgs where
  "demo_snapshot_args = \<lparr>aw_opTime = demo_op 5, aw_minSnapshot = 7, aw_writeConcern = demo_wc\<lparr>wMode := kMajority\<rparr>\<rparr>"

definition demo_snapshot_wait :: ReplCoord where
  "demo_snapshot_wait = demo_primary\<lparr>
     rc_slaveInfo := map (\<lambda>si. si\<lparr>si_lastAppliedOpTime := demo_op 5, si_lastDurableOpTime := demo_op 5\<rparr>) (rc_slaveInfo demo_primary),
     rc_lastCommittedOpTime := demo_op 5, rc_currentCommittedSnapshot := Some \<lparr>sn_opTime = demo_op 5, sn_name = 3\<rparr>,
     rc_replicationWaiterList := [\<lparr>w_id = 0, w_opTime = demo_op 5, w_writeConcern = Some (demo_wc\<lparr>wMode := kMajority\<rparr>), w_callback = False\<rparr>],
     rc_nextWaiter := 1\<rparr>"

lemma demo_snapshot_wait_ok: "progress_ok True demo_snapshot_wait"
proof -
  have "aligned demo_snapshot_wait" unfolding aligned_def pcfg_ok_def by code_simp
  then show ?thesis by (simp add: progress_ok_def)
    (simp add: demo_snapshot_wait_def demo_primary_def demo_op_proper slave_ok_def snaps_ok_def waiters_ok_def write_waiter_def demo_wc_def)
qed

theorem snapshot_waiter_leaves_list_witness:
  "\<exists>s'. wakeReadyWaiters demo_snapshot_wait = Some s' \<and>
    awaitReplication_resume WaitNotified 0 demo_snapshot_args s' = Some (AwaitWaiting 0, s') \<and>
    0 \<notin> w_id ` set (rc_replicationWaiterList s')"
proof (rule snapshot_waiter_leaves_list [OF demo_snapshot_wait_ok])
  show "enlisted demo_snapshot_wait 0 demo_snapshot_args" by (simp add: enlisted_def demo_snapshot_wait_def demo_snapshot_args_def)
  show "doneWaitingForReplication (aw_opTime demo_snapshot_args) 0 (aw_writeConcern demo_snapshot_args) demo_snapshot_wait = Some True"
    by code_simp
  show "doneWaitingForReplication (aw_opTime demo_snapshot_args) (aw_minSnapshot demo_snapshot_args) (aw_writeConcern demo_snapshot_args)
    demo_snapshot_wait = Some False" by code_simp
  show "checkForStepDown (aw_opTime demo_snapshot_args) demo_snapshot_wait = StatusOK" by code_simp
qed (simp_all add: demo_snapshot_args_def demo_wc_def demo_snapshot_wait_def demo_primary_def)

end
