(* ===== verification/ReplState.thy ===== *)
theory ReplState
  imports ReplProgress ReplElectV0
begin

text \<open>
  Member state, drain mode, catch-up, stepping down and configurations in the replication coordinator
  (\<open>replication_coordinator_impl.cpp\<close>, \<open>replication_coordinator_impl_heartbeat.cpp\<close>): the operations
  that read the topology coordinator and bring the state of the replication coordinator in line with
  it. They hold \<open>_topoMutex\<close> and \<open>_mutex\<close>. The elections that run in the background, and the objects
  that stand for them (\<open>_voteRequester\<close>, \<open>_freshnessChecker\<close>), are those of the theories on
  elections; here they start and end.
\<close>

text \<open>What an operation gets from outside: the clock, random numbers, generated ids and timestamps.\<close>

record Env =
  e_now :: Date
  e_randomOffset :: Millis
  e_oid :: OID
  e_timestamp :: Timestamp

datatype PostMemberStateUpdateAction =
    kActionNone | kActionCloseAllConnections | kActionFollowerModeStateChange | kActionWinElection
  | kActionStartSingleNodeElection

definition rc_isV1ElectionProtocol :: "ReplCoord \<Rightarrow> bool" where
  "rc_isV1ElectionProtocol s \<longleftrightarrow> c_protocolVersion (rc_rsConfig s) = 1"

text \<open>
  \<open>OID::fromTerm\<close>: the largest timestamp, then the term in eight bytes, most significant byte first. An
  object id is compared byte by byte, so it is a number of 96 bits.
\<close>

definition OID_fromTerm :: "Term \<Rightarrow> OID" where
  "OID_fromTerm t = or (push_bit 64 (2 ^ 31 - 1)) (ucast (word_of_int t :: 64 word))"

section \<open>Timers and heartbeats\<close>

definition cancelPriorityTakeover :: "ReplCoord \<Rightarrow> ReplCoord" where
  "cancelPriorityTakeover s = s\<lparr>rc_priorityTakeover := None\<rparr>"

text \<open>\<open>e_randomOffset\<close> is the result of \<open>_getRandomizedElectionOffset\<close>.\<close>

definition cancelAndRescheduleElectionTimeout :: "Env \<Rightarrow> ReplCoord \<Rightarrow> ReplCoord option" where
  "cancelAndRescheduleElectionTimeout env s0 =
     (let s = s0\<lparr>rc_electionTimer := None\<rparr> in
      if rc_inShutdown s \<or> \<not> rc_isV1ElectionProtocol s \<or> rc_memberState s \<noteq> RS_SECONDARY \<or> rc_selfIndex s < 0 then Some s
      else do {
        me \<leftarrow> getMemberAt (rc_rsConfig s) (rc_selfIndex s);
        if \<not> isElectable me then Some s
        else do {
          let when = e_now env + c_electionTimeoutPeriod (rc_rsConfig s) + e_randomOffset env;
          ensure (when > e_now env);
          Some (s\<lparr>rc_electionTimer := (if rc_executorRunning s then Some when else None)\<rparr>) } })"

definition cancelHeartbeats :: "ReplCoord \<Rightarrow> ReplCoord" where
  "cancelHeartbeats s = call CancelHeartbeats (s\<lparr>rc_livenessTimer := None\<rparr>)"

definition startHeartbeats :: "Env \<Rightarrow> ReplCoord \<Rightarrow> ReplCoord" where
  "startHeartbeats env s =
     (let s1 = s\<lparr>rc_calls := rc_calls s @ [SendHeartbeat (mc_host m) i (e_now env). (i, m) \<leftarrow> indexed (c_members (rc_rsConfig s)), i \<noteq> rc_selfIndex s],
                 rc_topCoord := restartHeartbeats (rc_topCoord s), rc_seedList := []\<rparr> in
      if rc_isV1ElectionProtocol s1
      then scheduleNextLivenessUpdate
             (s1\<lparr>rc_slaveInfo := map (\<lambda>si. si\<lparr>si_lastUpdate := e_now env, si_down := False\<rparr>) (rc_slaveInfo s1)\<rparr>)
      else s1)"

definition rc_restartHeartbeats :: "Env \<Rightarrow> ReplCoord \<Rightarrow> ReplCoord" where
  "rc_restartHeartbeats env s = startHeartbeats env (cancelHeartbeats s)"

section \<open>Member state\<close>

definition signalAllReplicationWaiters :: "ReplCoord \<Rightarrow> ReplCoord option" where
  "signalAllReplicationWaiters s = foldM notifyWaiter (rc_replicationWaiterList s) (s\<lparr>rc_replicationWaiterList := []\<rparr>)"

definition signalAllOpTimeWaiters :: "ReplCoord \<Rightarrow> ReplCoord option" where
  "signalAllOpTimeWaiters s = foldM notifyWaiter (rc_opTimeWaiterList s) (s\<lparr>rc_opTimeWaiterList := []\<rparr>)"

text \<open>A candidate that is not in an election is the only member of its set.\<close>

definition electSingleNode :: "ReplCoord \<Rightarrow> PostMemberStateUpdateAction option" where
  "electSingleNode s =
     do { ensure (getNumMembers (rc_rsConfig s) = 1 \<and> rc_selfIndex s = 0);
          me \<leftarrow> getMemberAt (rc_rsConfig s) 0;
          ensure (isElectable me);
          Some (if rc_isV1ElectionProtocol s then kActionStartSingleNodeElection else kActionWinElection) }"

text \<open>Leaving PRIMARY, or entering REMOVED or ROLLBACK: nobody waits any longer and no write is accepted.\<close>

definition leavePrimary :: "ReplCoord \<Rightarrow> ReplCoord option" where
  "leavePrimary s =
     do { s1 \<leftarrow> signalAllReplicationWaiters s;
          s2 \<leftarrow> signalAllOpTimeWaiters s1;
          Some (s2\<lparr>rc_canAcceptNonLocalWrites := False, rc_stepDownPending := False\<rparr>) }"

text \<open>Leaving PRIMARY: catch-up ends, the applier and the producer run again.\<close>

definition resumeReplication :: "ReplCoord \<Rightarrow> ReplCoord option" where
  "resumeReplication s =
     do { s1 \<leftarrow> (if rc_catchupState s \<noteq> None then CatchupState_abort s else Some s);
          Some (call StartProducerIfStopped (s1\<lparr>rc_applierState := ApplierRunning\<rparr>)) }"

definition closesConnections :: "MemberState \<Rightarrow> MemberState \<Rightarrow> bool" where
  "closesConnections oldState newState \<longleftrightarrow> oldState = RS_PRIMARY \<or> newState = RS_REMOVED \<or> newState = RS_ROLLBACK"

definition leaveState :: "MemberState \<Rightarrow> ReplCoord \<Rightarrow> ReplCoord option" where
  "leaveState newState s =
     do { s1 \<leftarrow> (if closesConnections (rc_memberState s) newState then leavePrimary s else Some s);
          if rc_memberState s = RS_PRIMARY then resumeReplication s1 else Some s1 }"

text \<open>Reads of a secondary: switched off and on with the state, but not on the way to or from PRIMARY.\<close>

definition admitReads :: "MemberState \<Rightarrow> MemberState \<Rightarrow> ReplCoord \<Rightarrow> ReplCoord" where
  "admitReads oldState newState s =
     (if oldState = RS_SECONDARY \<and> newState \<noteq> RS_PRIMARY then s\<lparr>rc_canServeNonLocalReads := False\<rparr>
      else if oldState \<noteq> RS_PRIMARY \<and> newState = RS_SECONDARY then s\<lparr>rc_canServeNonLocalReads := True\<rparr>
      else s)"

definition snapshotsOnTransition :: "MemberState \<Rightarrow> MemberState \<Rightarrow> ReplCoord \<Rightarrow> ReplCoord" where
  "snapshotsOnTransition oldState newState s =
     (let s1 = (if readable newState \<and> \<not> readable oldState then call ForceSnapshotCreation s else s) in
      if newState = RS_ROLLBACK then dropAllSnapshots s1 else s1)"

definition updateMemberStateFromTopologyCoordinator ::
  "Env \<Rightarrow> ReplCoord \<Rightarrow> (PostMemberStateUpdateAction \<times> ReplCoord) option" where
  "updateMemberStateFromTopologyCoordinator env s =
     do {
       newState \<leftarrow> getMemberState (rc_topCoord s);
       let oldState = rc_memberState s;
       let candidate = (t_role (rc_topCoord s) = RoleCandidate);
       if newState = oldState
       then (if candidate then do { a \<leftarrow> electSingleNode s; Some (a, s) } else Some (kActionNone, s))
       else do {
         s2 \<leftarrow> leaveState newState s;
         let s3 = admitReads oldState newState s2;
         result \<leftarrow> (if newState = RS_SECONDARY \<and> candidate then electSingleNode s3
                    else Some (if closesConnections oldState newState then kActionCloseAllConnections else kActionFollowerModeStateChange));
         let s4 = snapshotsOnTransition oldState newState s3;
         ensure (oldState = RS_ROLLBACK \<longrightarrow> rc_currentCommittedSnapshot s4 = None \<and> rc_uncommittedSnapshots s4 = []);
         s5 \<leftarrow> cancelAndRescheduleElectionTimeout env (s4\<lparr>rc_memberState := newState\<rparr>);
         Some (result, s5) } }"

section \<open>Primary catch-up and drain mode\<close>

definition kInfiniteCatchUpTimeout :: Millis where "kInfiniteCatchUpTimeout = -1"

definition CatchupState_start :: "Env \<Rightarrow> ReplCoord \<Rightarrow> ReplCoord option" where
  "CatchupState_start env s =
     (let catchupTimeout = c_catchUpTimeoutPeriod (rc_rsConfig s) in
      if getNumMembers (rc_rsConfig s) = 1 then CatchupState_abort s
      else if catchupTimeout = 0 then CatchupState_abort s
      else if catchupTimeout = kInfiniteCatchUpTimeout \<or> Date_max - e_now env \<le> catchupTimeout then Some s
      else if \<not> rc_executorRunning s then CatchupState_abort s
      else do { cu \<leftarrow> rc_catchupState s;
                Some (s\<lparr>rc_catchupState := Some (cu\<lparr>cu_timeout := Some (e_now env + catchupTimeout)\<rparr>)\<rparr>) })"

text \<open>The callback of the timeout, when it has not been cancelled.\<close>

definition catchupTimedOut :: "ReplCoord \<Rightarrow> ReplCoord option" where
  "catchupTimedOut s = CatchupState_abort s"

definition CatchupState_signalHeartbeatUpdate :: "ReplCoord \<Rightarrow> ReplCoord option" where
  "CatchupState_signalHeartbeatUpdate s =
     (case latestKnownOpTimeSinceHeartbeatRestart (rc_topCoord s) of
        None \<Rightarrow> Some s
      | Some target \<Rightarrow> do {
          mine \<leftarrow> getMyLastAppliedOpTime s;
          cu \<leftarrow> rc_catchupState s;
          if ot_le target mine then CatchupState_abort s
          else if (case cu_waiter cu of Some w \<Rightarrow> ot_eq (w_opTime w) target | None \<Rightarrow> False) then Some s
          else (let ws = (case cu_waiter cu of Some w \<Rightarrow> removeWaiter w (rc_opTimeWaiterList s) | None \<Rightarrow> rc_opTimeWaiterList s);
                    w = \<lparr>w_id = rc_nextWaiter s, w_opTime = target, w_writeConcern = None, w_callback = True\<rparr> in
                Some (s\<lparr>rc_nextWaiter := Suc (rc_nextWaiter s), rc_opTimeWaiterList := ws @ [w],
                        rc_catchupState := Some (cu\<lparr>cu_waiter := Some w\<rparr>)\<rparr>)) })"

definition abortCatchupIfNeeded :: "ReplCoord \<Rightarrow> (Status \<times> ReplCoord) option" where
  "abortCatchupIfNeeded s =
     (if \<not> rc_isV1ElectionProtocol s then Some (Some CommandNotSupported, s)
      else if rc_catchupState s \<noteq> None then do { s1 \<leftarrow> CatchupState_abort s; Some (StatusOK, s1) }
      else Some (Some IllegalOperation, s))"

text \<open>
  \<open>signalDrainComplete\<close> releases the mutex twice: before it takes the global lock, and
  while the transition to primary is written to the oplog. The three functions are the parts between;
  \<open>firstOpTime\<close> is the optime of that entry.
\<close>

definition signalDrainComplete_begin :: "ReplCoord \<Rightarrow> bool \<times> ReplCoord" where
  "signalDrainComplete_begin s =
     (if rc_applierState s \<noteq> ApplierDraining then (False, s) else (True, call OnDrainComplete s))"

definition signalDrainComplete_exit :: "Term \<Rightarrow> ReplCoord \<Rightarrow> (bool \<times> ReplCoord) option" where
  "signalDrainComplete_exit termWhenBufferIsEmpty s =
     (if rc_applierState s \<noteq> ApplierDraining \<or> termWhenBufferIsEmpty \<noteq> rc_cachedTerm s then Some (False, s)
      else do {
        let s1 = call NotifyDrainFinished (s\<lparr>rc_applierState := ApplierStopped\<rparr>);
        ensure (rc_memberState s1 = RS_PRIMARY);
        ensure (\<not> rc_canAcceptNonLocalWrites s1);
        Some (True, s1\<lparr>rc_canAcceptNonLocalWrites := True\<rparr>) })"

definition signalDrainComplete_finish :: "OpTime \<Rightarrow> ReplCoord \<Rightarrow> ReplCoord option" where
  "signalDrainComplete_finish firstOpTime s =
     do { s1 \<leftarrow> updateLastCommittedOpTime (s\<lparr>rc_firstOpTimeOfMyTerm := firstOpTime\<rparr>);
          mine \<leftarrow> getMyLastAppliedOpTime s1;
          Some (call (StartNoopWriter mine) s1) }"

section \<open>Actions after a change of state\<close>

text \<open>The optime an election starts from: the durable one if the storage engine is durable.\<close>

definition electionLastOpTime :: "ReplCoord \<Rightarrow> OpTime option" where
  "electionLastOpTime s = (if rc_isDurableStorageEngine s then getMyLastDurableOpTime s else getMyLastAppliedOpTime s)"

text \<open>
  The configuration must be in use; otherwise the candidacy ends at once. With the executor gone the
  node stays a candidate.
\<close>

definition rc_startElectSelfV1 :: "ReplCoord \<Rightarrow> (VoteRequest option \<times> ReplCoord) option" where
  "rc_startElectSelfV1 s =
     do { ensure (rc_rsConfigState s \<in> {kConfigSteady, kConfigInitiating, kConfigReconfiguring, kConfigHBReconfiguring});
          if rc_rsConfigState s \<noteq> kConfigSteady
          then do { t \<leftarrow> processLoseElection (rc_topCoord s); Some (None, s\<lparr>rc_topCoord := t\<rparr>) }
          else if \<not> rc_executorRunning s then Some (None, s)
          else do { lastOpTime \<leftarrow> electionLastOpTime s;
                    (rq, t) \<leftarrow> startElectSelfV1 True lastOpTime (rc_topCoord s);
                    Some (rq, s\<lparr>rc_topCoord := t\<rparr>) } }"

text \<open>All actions but \<open>kActionWinElection\<close>.\<close>

definition performSimpleAction :: "PostMemberStateUpdateAction \<Rightarrow> ReplCoord \<Rightarrow> ReplCoord option" where
  "performSimpleAction action s =
     (case action of
        kActionFollowerModeStateChange \<Rightarrow> Some (call SignalApplierToChooseNewSyncSource s)
      | kActionCloseAllConnections \<Rightarrow> Some (call StopNoopWriter (call ShardingOnStepDownHook (call CloseConnections s)))
      | kActionStartSingleNodeElection \<Rightarrow> map_option snd (rc_startElectSelfV1 s)
      | _ \<Rightarrow> Some s)"

definition winElection :: "Env \<Rightarrow> ReplCoord \<Rightarrow> ReplCoord option" where
  "winElection env s =
     do { ensure (rc_isV1ElectionProtocol s \<longrightarrow> t_term (rc_topCoord s) \<noteq> kUninitializedTerm);
          let eid = (if rc_isV1ElectionProtocol s then OID_fromTerm (t_term (rc_topCoord s)) else e_oid env);
          t1 \<leftarrow> processWinElection eid (e_timestamp env) (rc_topCoord s);
          (nextAction, s1) \<leftarrow> updateMemberStateFromTopologyCoordinator env (s\<lparr>rc_electionId := eid, rc_topCoord := t1\<rparr>);
          ensure (nextAction \<noteq> kActionWinElection);
          s2 \<leftarrow> performSimpleAction nextAction s1;
          if rc_memberState s2 \<noteq> RS_PRIMARY then Some s2
          else do {
            let s3 = rc_restartHeartbeats env s2;
            if rc_isV1ElectionProtocol s3
            then do { ensure (rc_catchupState s3 = None);
                      CatchupState_start env (s3\<lparr>rc_catchupState := Some \<lparr>cu_timeout = None, cu_waiter = None\<rparr>\<rparr>) }
            else Some (enterDrainMode s3) } }"

definition performPostMemberStateUpdateAction :: "Env \<Rightarrow> PostMemberStateUpdateAction \<Rightarrow> ReplCoord \<Rightarrow> ReplCoord option" where
  "performPostMemberStateUpdateAction env action s =
     (if action = kActionWinElection then winElection env s else performSimpleAction action s)"

text \<open>The pattern of most operations: update the member state, then act.\<close>

definition updateAndAct :: "Env \<Rightarrow> ReplCoord \<Rightarrow> ReplCoord option" where
  "updateAndAct env s =
     do { (action, s1) \<leftarrow> updateMemberStateFromTopologyCoordinator env s; performPostMemberStateUpdateAction env action s1 }"

end
