(* ===== verification/ReplHandlers.thy ===== *)
theory ReplHandlers
  imports ReplState
begin

text \<open>
  The commands and callbacks of the replication coordinator that change the state of a node:
  configurations, stepping down, follower and maintenance mode, terms, elections won, heartbeat
  responses, liveness, shutdown; and the checks before a read or a write.
\<close>

section \<open>Configurations\<close>

definition setConfigState :: "ConfigState \<Rightarrow> ReplCoord \<Rightarrow> ReplCoord" where
  "setConfigState newState s = s\<lparr>rc_rsConfigState := newState\<rparr>"

text \<open>
  The progress of a member is kept if its id and host are; the progress of this node follows it to
  its new place. The last entry that fits counts.
\<close>

definition carriedSlaveInfo :: "SlaveInfo list \<Rightarrow> int \<Rightarrow> int \<Rightarrow> MemberConfig \<Rightarrow> SlaveInfo" where
  "carriedSlaveInfo old self i m =
     (let fits = filter (\<lambda>si. si_memberId si = mc_id m \<and> hp_eq (si_hostAndPort si) (mc_host m) \<or> i = self \<and> si_self si) old;
          si = (if fits = [] then SlaveInfo_default else last fits) in
      si\<lparr>si_memberId := mc_id m, si_hostAndPort := mc_host m\<rparr>)"

definition updateSlaveInfoFromConfig :: "ReplCoord \<Rightarrow> ReplCoord option" where
  "updateSlaveInfoFromConfig s =
     do { ensure (rs_usingReplSets (rc_settings s));
          let old = rc_slaveInfo s;
          if rc_selfIndex s = -1
          then (case filter si_self old of
                  [] \<Rightarrow> None
                | si # _ \<Rightarrow> Some (s\<lparr>rc_slaveInfo := [si\<lparr>si_memberId := -1\<rparr>]\<rparr>))
          else Some (s\<lparr>rc_slaveInfo := map (\<lambda>(i, m). carriedSlaveInfo old (rc_selfIndex s) i m) (indexed (c_members (rc_rsConfig s)))\<rparr>) }"

text \<open>On a primary a change of the protocol version brings a new election id.\<close>

definition newElectionId :: "Env \<Rightarrow> ReplSetConfig \<Rightarrow> ReplSetConfig \<Rightarrow> ReplCoord \<Rightarrow> ReplCoord option" where
  "newElectionId env oldConfig newConfig s =
     (if c_isInitialized oldConfig \<and> rc_memberState s = RS_PRIMARY \<and> c_protocolVersion oldConfig \<noteq> c_protocolVersion newConfig
      then do {
        let upgrade = (c_protocolVersion oldConfig < c_protocolVersion newConfig);
        ensure (c_protocolVersion newConfig = (if upgrade then 1 else 0));
        ensure (upgrade \<longrightarrow> t_term (rc_topCoord s) \<noteq> kUninitializedTerm);
        let eid = (if upgrade then OID_fromTerm (t_term (rc_topCoord s)) else e_oid env);
        t1 \<leftarrow> setElectionInfo eid (e_timestamp env) (rc_topCoord s);
        Some (s\<lparr>rc_electionId := eid, rc_topCoord := t1\<rparr>) }
      else Some s)"

definition setCurrentRSConfig :: "Env \<Rightarrow> ReplSetConfig \<Rightarrow> int \<Rightarrow> ReplCoord \<Rightarrow> (PostMemberStateUpdateAction \<times> ReplCoord) option" where
  "setCurrentRSConfig env newConfig myIndex s =
     do { ensure (rs_usingReplSets (rc_settings s));
          let s1 = setConfigState kConfigSteady (cancelHeartbeats s);
          myOptime \<leftarrow> getMyLastAppliedOpTime s1;
          t1 \<leftarrow> updateConfig newConfig myIndex (e_now env) (rc_topCoord s1);
          let s2 = s1\<lparr>rc_topCoord := t1, rc_cachedTerm := t_term t1, rc_rsConfig := newConfig, rc_selfIndex := myIndex\<rparr>;
          s3 \<leftarrow> cancelAndRescheduleElectionTimeout env (cancelPriorityTakeover s2);
          (action, s4) \<leftarrow> updateMemberStateFromTopologyCoordinator env s3;
          s5 \<leftarrow> updateSlaveInfoFromConfig s4;
          let s6 = (if rc_selfIndex s5 \<ge> 0 then startHeartbeats env s5 else s5);
          s7 \<leftarrow> updateLastCommittedOpTime s6;
          s8 \<leftarrow> newElectionId env (rc_rsConfig s) newConfig s7;
          s9 \<leftarrow> wakeReadyWaiters s8;
          Some (action, s9) }"

text \<open>
  On an upgrade of the protocol the last vote is reset as if term 0 had just begun: the document is
  written in the background, and the action waits for it. The result says whether it has to wait, which it does
  unless the executor is gone.
\<close>

definition resetElectionInfoOnProtocolVersionUpgrade :: "ReplSetConfig \<Rightarrow> ReplSetConfig \<Rightarrow> ReplCoord \<Rightarrow> bool option" where
  "resetElectionInfoOnProtocolVersionUpgrade oldConfig newConfig s =
     (if \<not> c_isInitialized oldConfig \<or> c_protocolVersion oldConfig \<ge> c_protocolVersion newConfig then Some False
      else do { ensure (c_protocolVersion newConfig = 1); Some (rc_executorRunning s) })"

text \<open>
  The end of \<open>replSetReconfig\<close> and \<open>replSetInitiate\<close>, and of a configuration that came with a heartbeat.
  The first part of the result is the action that is left for later, where the last vote has to be written
  first; \<open>performPostMemberStateUpdateAction\<close> takes it then. With a candidate the whole waits until its election is over.
\<close>

definition actOrWait ::
  "Env \<Rightarrow> ReplSetConfig \<Rightarrow> ReplSetConfig \<Rightarrow> PostMemberStateUpdateAction \<Rightarrow> ReplCoord \<Rightarrow>
   (PostMemberStateUpdateAction option \<times> ReplCoord) option" where
  "actOrWait env oldConfig newConfig action s =
     do { waits \<leftarrow> resetElectionInfoOnProtocolVersionUpgrade oldConfig newConfig s;
          if waits then Some (Some action, call ScheduleResetLastVote s)
          else do { s1 \<leftarrow> performPostMemberStateUpdateAction env action s; Some (None, s1) } }"

definition finishReplSetReconfig ::
  "Env \<Rightarrow> ReplSetConfig \<Rightarrow> int \<Rightarrow> ReplCoord \<Rightarrow> (PostMemberStateUpdateAction option \<times> ReplCoord) option" where
  "finishReplSetReconfig env newConfig myIndex s =
     do { ensure (rc_rsConfigState s = kConfigReconfiguring);
          ensure (c_isInitialized (rc_rsConfig s));
          if t_role (rc_topCoord s) = RoleCandidate then Some (None, s)
          else do { (action, s1) \<leftarrow> setCurrentRSConfig env newConfig myIndex s;
                    actOrWait env (rc_rsConfig s) newConfig action (dropAllSnapshots s1) } }"

definition finishReplSetInitiate :: "Env \<Rightarrow> ReplSetConfig \<Rightarrow> int \<Rightarrow> ReplCoord \<Rightarrow> ReplCoord option" where
  "finishReplSetInitiate env newConfig myIndex s =
     do { ensure (rc_rsConfigState s = kConfigInitiating);
          ensure (\<not> c_isInitialized (rc_rsConfig s));
          (action, s1) \<leftarrow> setCurrentRSConfig env newConfig myIndex s;
          performPostMemberStateUpdateAction env action s1 }"

text \<open>A primary finishes a heartbeat reconfiguration under the global lock; \<open>locked\<close> says it has it.\<close>

definition heartbeatReconfigFinish ::
  "Env \<Rightarrow> bool \<Rightarrow> ReplSetConfig \<Rightarrow> int StatusWith \<Rightarrow> ReplCoord \<Rightarrow> (PostMemberStateUpdateAction option \<times> ReplCoord) option" where
  "heartbeatReconfigFinish env locked newConfig myIndex s =
     do { ensure (rc_rsConfigState s = kConfigHBReconfiguring);
          ensure (\<not> c_isInitialized (rc_rsConfig s) \<or> c_version (rc_rsConfig s) < c_version newConfig);
          if rc_memberState s = RS_PRIMARY \<and> \<not> locked then Some (None, s)
          else if t_role (rc_topCoord s) = RoleCandidate then Some (None, s)
          else do { (action, s1) \<leftarrow> setCurrentRSConfig env newConfig (case myIndex of Inr i \<Rightarrow> i | Inl _ \<Rightarrow> -1) s;
                    actOrWait env (rc_rsConfig s) newConfig action s1 } }"

definition scheduleHeartbeatReconfig :: "ReplSetConfig \<Rightarrow> ReplCoord \<Rightarrow> ReplCoord option" where
  "scheduleHeartbeatReconfig newConfig s =
     (if rc_inShutdown s then Some s
      else if rc_rsConfigState s \<in> {kConfigInitiating, kConfigReconfiguring, kConfigHBReconfiguring} then Some s
      else do { ensure (rc_rsConfigState s \<in> {kConfigUninitialized, kConfigSteady});
                ensure (\<not> c_isInitialized (rc_rsConfig s) \<or> c_version (rc_rsConfig s) < c_version newConfig);
                Some (setConfigState kConfigHBReconfiguring s) })"

section \<open>Stepping down\<close>

text \<open>The exceptions of \<open>_tryToStepDown\<close> are on the left.\<close>

definition tryToStepDown :: "Date \<Rightarrow> Date \<Rightarrow> Date \<Rightarrow> bool \<Rightarrow> ReplCoord \<Rightarrow> (bool StatusWith \<times> ReplCoord) option" where
  "tryToStepDown now waitUntil stepDownUntil force s =
     (if t_role (rc_topCoord s) \<noteq> RoleLeader then Some (Inl NotMaster, s)
      else if now \<ge> stepDownUntil then Some (Inl ExceededTimeLimit, s)
      else do {
        lastApplied \<leftarrow> getMyLastAppliedOpTime s;
        if force \<and> now \<ge> waitUntil
        then do { (ok, t) \<leftarrow> stepDown stepDownUntil True lastApplied (rc_topCoord s); Some (Inr ok, s\<lparr>rc_topCoord := t\<rparr>) }
        else do {
          confirmed \<leftarrow> isOpTimeMajorityConfirmed lastApplied s;
          (ok, t) \<leftarrow> (if confirmed then stepDown stepDownUntil False lastApplied (rc_topCoord s) else Some (False, rc_topCoord s));
          Some (if ok then Inr True else if now \<ge> waitUntil then Inl ExceededTimeLimit else Inr False, s\<lparr>rc_topCoord := t\<rparr>) } })"

datatype StepDownResult = StepDownDone Status | StepDownWaiting

text \<open>
  One attempt, with the global lock held in shared mode. The first one that fails sends heartbeats and waits
  for them; a later one is woken by a heartbeat response or by the time.
\<close>

definition stepDown_attempt ::
  "Env \<Rightarrow> bool \<Rightarrow> Date \<Rightarrow> Date \<Rightarrow> bool \<Rightarrow> ReplCoord \<Rightarrow> (StepDownResult \<times> ReplCoord) option" where
  "stepDown_attempt env first waitUntil stepDownUntil force s =
     do { (r, s1) \<leftarrow> tryToStepDown (e_now env) waitUntil stepDownUntil force s;
          case r of
            Inl e \<Rightarrow> Some (StepDownDone (Some e), s1)
          | Inr False \<Rightarrow> Some (StepDownWaiting, if first then rc_restartHeartbeats env s1 else s1)
          | Inr True \<Rightarrow> do { s2 \<leftarrow> updateAndAct env s1;
                             Some (StepDownDone StatusOK, if rc_executorRunning s2 then call (ScheduleTimePassing stepDownUntil) s2 else s2) } }"

definition rc_stepDown :: "Env \<Rightarrow> bool \<Rightarrow> bool \<Rightarrow> Millis \<Rightarrow> Millis \<Rightarrow> ReplCoord \<Rightarrow> (StepDownResult \<times> ReplCoord) option" where
  "rc_stepDown env gotLock force waitTime stepdownTime s =
     (if rc_memberState s \<noteq> RS_PRIMARY then Some (StepDownDone (Some NotMaster), s)
      else if \<not> gotLock then Some (StepDownDone (Some ExceededTimeLimit), s)
      else stepDown_attempt env True (e_now env + waitTime) (e_now env + stepdownTime) force s)"

definition handleTimePassing :: "Env \<Rightarrow> ReplCoord \<Rightarrow> ReplCoord option" where
  "handleTimePassing env s =
     do { (b, t) \<leftarrow> becomeCandidateIfStepdownPeriodOverAndSingleNodeSet (e_now env) (rc_topCoord s);
          let s1 = s\<lparr>rc_topCoord := t\<rparr>;
          if b then performPostMemberStateUpdateAction env kActionWinElection s1 else Some s1 }"

definition processReplSetFreeze :: "Env \<Rightarrow> int \<Rightarrow> ReplCoord \<Rightarrow> (Status \<times> ReplCoord) option" where
  "processReplSetFreeze env secs s =
     do { (r, t) \<leftarrow> prepareFreezeResponse (e_now env) secs (rc_topCoord s);
          let s1 = s\<lparr>rc_topCoord := t\<rparr>;
          case r of
            Inl e \<Rightarrow> Some (Some e, s1)
          | Inr kElectSelf \<Rightarrow> do { s2 \<leftarrow> performPostMemberStateUpdateAction env kActionWinElection s1; Some (StatusOK, s2) }
          | Inr kNoAction \<Rightarrow> Some (StatusOK, s1) }"

definition stepDownStart :: "ReplCoord \<Rightarrow> ReplCoord" where
  "stepDownStart s =
     (let s1 = s\<lparr>rc_stepDownPending := True\<rparr> in if rc_executorRunning s1 then call ScheduleStepDownFinish s1 else s1)"

definition stepDownFinish :: "Env \<Rightarrow> ReplCoord \<Rightarrow> ReplCoord option" where
  "stepDownFinish env s =
     do { (b, t) \<leftarrow> stepDownIfPending (rc_topCoord s);
          let s1 = s\<lparr>rc_topCoord := t\<rparr>;
          if b then updateAndAct env s1 else Some s1 }"

section \<open>Follower mode and maintenance mode\<close>

text \<open>The result is \<open>None\<close> if a running election has to end first.\<close>

definition setFollowerModeFinish :: "Env \<Rightarrow> MemberState \<Rightarrow> ReplCoord \<Rightarrow> (bool option \<times> ReplCoord) option" where
  "setFollowerModeFinish env newState s =
     do { cur \<leftarrow> getMemberState (rc_topCoord s);
          if newState = cur then Some (Some True, s)
          else if t_role (rc_topCoord s) = RoleLeader then Some (Some False, s)
          else if t_role (rc_topCoord s) = RoleCandidate then Some (None, s)
          else do { t \<leftarrow> setFollowerMode newState (rc_topCoord s);
                    s1 \<leftarrow> updateAndAct env (s\<lparr>rc_topCoord := t\<rparr>);
                    Some (Some True, s1) } }"

definition setMaintenanceMode :: "Env \<Rightarrow> bool \<Rightarrow> ReplCoord \<Rightarrow> (Status \<times> ReplCoord) option" where
  "setMaintenanceMode env activate s =
     (if getReplicationMode s \<noteq> modeReplSet then Some (Some NoReplicationEnabled, s)
      else if t_role (rc_topCoord s) = RoleCandidate then Some (Some NotSecondary, s)
      else if rc_memberState s = RS_PRIMARY then Some (Some NotSecondary, s)
      else if \<not> activate \<and> t_maintenanceModeCalls (rc_topCoord s) \<le> 0 then Some (Some OperationFailed, s)
      else do { ensure (activate \<or> t_role (rc_topCoord s) = RoleFollower);
                t \<leftarrow> adjustMaintenanceCountBy (if activate then 1 else -1) (rc_topCoord s);
                s1 \<leftarrow> updateAndAct env (s\<lparr>rc_topCoord := t\<rparr>);
                Some (StatusOK, s1) })"

section \<open>Terms and elections\<close>

definition rc_updateTerm_incallback :: "Env \<Rightarrow> Term \<Rightarrow> ReplCoord \<Rightarrow> (UpdateTermResult option \<times> ReplCoord) option" where
  "rc_updateTerm_incallback env newTerm s =
     (if \<not> rc_isV1ElectionProtocol s then Some (None, s)
      else do {
        (r, t) \<leftarrow> updateTerm newTerm (e_now env) (rc_topCoord s);
        let s1 = s\<lparr>rc_topCoord := t, rc_cachedTerm := t_term t\<rparr>;
        s2 \<leftarrow> (if r = kUpdatedTerm then cancelAndRescheduleElectionTimeout env (cancelPriorityTakeover s1) else Some s1);
        Some (Some r, if r = kTriggerStepDown then stepDownStart (s2\<lparr>rc_topCoord := prepareForStepDown (rc_topCoord s2)\<rparr>) else s2) })"

definition processReplSetMetadata :: "Env \<Rightarrow> ReplSetMetadata \<Rightarrow> ReplCoord \<Rightarrow> ReplCoord option" where
  "processReplSetMetadata env md s =
     (if rm_configVersion md \<noteq> c_version (rc_rsConfig s) then Some s
      else map_option snd (rc_updateTerm_incallback env (rm_currentTerm md) s))"

text \<open>
  The end of a round of votes that was won: the voters are alive, no commit point is set until the drain is
  over, and the node becomes primary.
\<close>

definition rc_onVoteRequestComplete :: "Env \<Rightarrow> Term \<Rightarrow> VoteResult \<Rightarrow> HostAndPort list \<Rightarrow> ReplCoord \<Rightarrow> ReplCoord option" where
  "rc_onVoteRequestComplete env newTerm endResult responders s =
     (if t_term (rc_topCoord s) \<noteq> newTerm \<or> endResult \<noteq> kSuccessfullyElected
      then do { t \<leftarrow> processLoseElection (rc_topCoord s); Some (s\<lparr>rc_topCoord := t\<rparr>) }
      else performPostMemberStateUpdateAction env kActionWinElection
             (s\<lparr>rc_slaveInfo := map (\<lambda>si. if list_ex (hp_eq (si_hostAndPort si)) responders
                                         then si\<lparr>si_down := False, si_lastUpdate := e_now env\<rparr> else si) (rc_slaveInfo s),
                rc_firstOpTimeOfMyTerm := \<lparr>ot_timestamp = \<lparr>ts_secs = 2 ^ 31 - 1, ts_inc = 0\<rparr>, ot_term = 2 ^ 31 - 1\<rparr>\<rparr>))"

section \<open>Heartbeats\<close>

text \<open>
  The configuration of a response, where it has one, is given apart: its conversion from BSON is not
  modelled. In protocol version 0 \<open>_startElectSelf\<close> begins an election.
\<close>

definition handleHeartbeatResponseAction ::
  "Env \<Rightarrow> HeartbeatResponseAction \<Rightarrow> ReplSetConfig option \<Rightarrow> bool \<Rightarrow> ReplCoord \<Rightarrow> ReplCoord option" where
  "handleHeartbeatResponseAction env action config hasMutex s =
     (case a_action action of
        NoAction \<Rightarrow> do {
          cur \<leftarrow> getMemberState (rc_topCoord s);
          if rc_memberState s \<noteq> cur then do { ensure (\<not> hasMutex); updateAndAct env s } else Some s }
      | Reconfig \<Rightarrow> do { c \<leftarrow> config; scheduleHeartbeatReconfig c s }
      | StartElection \<Rightarrow> do {
          ensure (rc_rsConfigState s \<in> {kConfigSteady, kConfigInitiating, kConfigReconfiguring, kConfigHBReconfiguring});
          lastApplied \<leftarrow> getMyLastAppliedOpTime s;
          (rq, t) \<leftarrow> startElectSelf (rc_rsConfigState s = kConfigSteady) lastApplied (rc_topCoord s);
          Some (s\<lparr>rc_topCoord := t\<rparr>) }
      | StepDownSelf \<Rightarrow> do {
          ensure (a_primaryIndex action = rc_selfIndex s);
          Some (stepDownStart (s\<lparr>rc_topCoord := prepareForStepDown (rc_topCoord s)\<rparr>)) }
      | StepDownRemotePrimary \<Rightarrow> do {
          ensure (a_primaryIndex action \<noteq> rc_selfIndex s);
          m \<leftarrow> getMemberAt (rc_rsConfig s) (a_primaryIndex action);
          Some (call (RemoteStepDown (mc_host m)) s) }
      | PriorityTakeover \<Rightarrow>
          if rc_priorityTakeover s \<noteq> None then Some s
          else do { delay \<leftarrow> getPriorityTakeoverDelay (rc_rsConfig s) (rc_selfIndex s);
                    Some (s\<lparr>rc_priorityTakeover := (if rc_executorRunning s
                             then Some (e_now env + delay + e_randomOffset env) else None)\<rparr>) })"

text \<open>
  The metadata of a response: only an arbiter takes the commit point from it. A response from another
  replica set is an error, and its metadata is not used.
\<close>

definition processResponseMetadata ::
  "Env \<Rightarrow> ReplSetMetadata option \<Rightarrow> ReplCoord \<Rightarrow> (Status \<times> ReplCoord) option" where
  "processResponseMetadata env metadata s =
     (case metadata of
        None \<Rightarrow> Some (StatusOK, s)
      | Some md \<Rightarrow>
          if c_isInitialized (rc_rsConfig s) \<and> c_replicaSetId (rc_rsConfig s) \<noteq> None \<and> rm_replicaSetId md \<noteq> None \<and>
             c_replicaSetId (rc_rsConfig s) \<noteq> rm_replicaSetId md
          then Some (Some InvalidReplicaSetConfig, s)
          else do { s1 \<leftarrow> (if rc_memberState s = RS_ARBITER then advanceCommitPoint (e_now env) (rm_lastOpCommitted md) s else Some s);
                    s2 \<leftarrow> processReplSetMetadata env md s1;
                    Some (StatusOK, s2) })"

definition progressFromResponse ::
  "Env \<Rightarrow> HeartbeatResponseAction \<Rightarrow> int \<Rightarrow> ReplSetHeartbeatResponse StatusWith \<Rightarrow> ReplCoord \<Rightarrow> ReplCoord option" where
  "progressFromResponse env action targetIndex resp s =
     (case resp of
        Inl _ \<Rightarrow> Some s
      | Inr r \<Rightarrow>
          if a_action action = NoAction \<and> targetIndex \<ge> 0 \<and> r_state r \<noteq> None \<and> r_state r \<noteq> Some RS_PRIMARY \<and>
             r_configVersion r = c_version (rc_rsConfig s)
          then (case r_appliedOpTime r of
                  None \<Rightarrow> Some s
                | Some applied \<Rightarrow> updateOpTimesFromHeartbeat (e_now env) targetIndex
                    (case r_durableOpTime r of Some d \<Rightarrow> d | None \<Rightarrow> OpTime_default) applied s)
          else Some s)"

definition handleHeartbeatResponse ::
  "Env \<Rightarrow> HostAndPort \<Rightarrow> int \<Rightarrow> Millis \<Rightarrow> string \<Rightarrow> ReplSetHeartbeatResponse StatusWith \<Rightarrow> ReplSetMetadata option \<Rightarrow>
   ReplSetConfig option \<Rightarrow> ReplCoord \<Rightarrow> ReplCoord option" where
  "handleHeartbeatResponse env target targetIndex rtt failure resp0 metadata config s =
     do {
       (mdStatus, s1) \<leftarrow> (case resp0 of Inl e \<Rightarrow> Some (Some e, s) | Inr _ \<Rightarrow> processResponseMetadata env metadata s);
       let resp = (case mdStatus of Some e \<Rightarrow> Inl e | None \<Rightarrow> resp0);
       lastApplied \<leftarrow> getMyLastAppliedOpTime s1;
       s2 \<leftarrow> (case resp of
                Inl _ \<Rightarrow> Some s1
              | Inr r \<Rightarrow> do { (u, s2) \<leftarrow> rc_updateTerm_incallback env (r_term r) s1;
                             if r_state r = Some RS_PRIMARY \<and> r_term r = t_term (rc_topCoord s2)
                             then cancelAndRescheduleElectionTimeout env s2 else Some s2 });
       (action, t) \<leftarrow> processHeartbeatResponse (e_now env) (if isl resp then 0 else rtt) target failure resp lastApplied (rc_topCoord s2);
       s3 \<leftarrow> progressFromResponse env action targetIndex resp (s2\<lparr>rc_topCoord := t\<rparr>);
       let s4 = call NotifyStepDownWaiters s3;
       s5 \<leftarrow> (if rc_catchupState s4 \<noteq> None then CatchupState_signalHeartbeatUpdate s4 else Some s4);
       let s6 = call (SendHeartbeat target targetIndex (max (e_now env) (a_nextHeartbeatStartDate action))) s5;
       handleHeartbeatResponseAction env action config False s6 }"

text \<open>The check of the members that have not been heard of for an election timeout.\<close>

definition livenessCheck :: "Env \<Rightarrow> int \<Rightarrow> ReplCoord \<Rightarrow> ReplCoord option" where
  "livenessCheck env i s =
     do { si \<leftarrow> nth_opt (rc_slaveInfo s) i;
          if si_self si \<or> si_down si then Some s
          else if e_now env - si_lastUpdate si \<ge> c_electionTimeoutPeriod (rc_rsConfig s)
          then (let memberIndex = findMemberIndexByConfigId (rc_rsConfig s) (si_memberId si) in
                if memberIndex = -1 then Some s
                else (let s1 = setSlaveInfo i (si\<lparr>si_down := True\<rparr>) s in
                      if rc_memberState s1 = RS_PRIMARY
                      then do { mine \<leftarrow> getMyLastDurableOpTime s1;
                                (action, t) \<leftarrow> setMemberAsDown (e_now env) memberIndex mine (rc_topCoord s1);
                                handleHeartbeatResponseAction env action None True (s1\<lparr>rc_topCoord := t\<rparr>) }
                      else Some s1))
          else Some s }"

definition handleLivenessTimeout :: "Env \<Rightarrow> ReplCoord \<Rightarrow> ReplCoord option" where
  "handleLivenessTimeout env s =
     (let s1 = s\<lparr>rc_livenessTimer := None\<rparr> in
      if \<not> rc_isV1ElectionProtocol s1 then Some s1
      else do { s2 \<leftarrow> foldM (livenessCheck env) (map int [0..<length (rc_slaveInfo s1)]) s1;
                Some (scheduleNextLivenessUpdate s2) })"

section \<open>Reads, writes, shutdown\<close>

definition kLocalDB :: string where "kLocalDB = ''local''"

definition canAcceptWritesForDatabase :: "bool \<Rightarrow> string \<Rightarrow> ReplCoord \<Rightarrow> bool" where
  "canAcceptWritesForDatabase replAllDead dbName s \<longleftrightarrow>
     rc_canAcceptNonLocalWrites s \<or> dbName = kLocalDB \<or> (\<not> replAllDead \<and> rs_master (rc_settings s))"

text \<open>A namespace is its database and whether it is an oplog.\<close>

definition canAcceptWritesFor :: "bool \<Rightarrow> string \<Rightarrow> bool \<Rightarrow> ReplCoord \<Rightarrow> bool" where
  "canAcceptWritesFor replAllDead dbName isOplog s \<longleftrightarrow>
     \<not> (rc_memberState s = RS_ROLLBACK \<and> isOplog) \<and> canAcceptWritesForDatabase replAllDead dbName s"

record ReadClient =
  cl_isFromUserConnection :: bool
  cl_isInDirectClient :: bool
  cl_slaveOk :: bool

definition checkCanServeReadsFor :: "bool \<Rightarrow> ReadClient \<Rightarrow> string \<Rightarrow> bool \<Rightarrow> ReplCoord \<Rightarrow> Status" where
  "checkCanServeReadsFor replAllDead client dbName isOplog s =
     (if ((rc_memberState s = RS_STARTUP \<and> cl_isFromUserConnection client \<and> getReplicationMode s = modeReplSet) \<or>
          rc_memberState s = RS_STARTUP2 \<or> rc_memberState s = RS_ROLLBACK) \<and> isOplog then Some NotMasterOrSecondary
      else if cl_isInDirectClient client then StatusOK
      else if canAcceptWritesFor replAllDead dbName isOplog s then StatusOK
      else if rs_slave (rc_settings s) \<or> rs_master (rc_settings s) then StatusOK
      else if cl_slaveOk client then failIf (\<not> rc_canServeNonLocalReads s) NotMasterOrSecondary
      else Some NotMasterNoSlaveOk)"

text \<open>
  \<open>shutdown\<close> waits without the mutex for a startup that is still going on; \<open>False\<close> says it does. What follows
  the wake-up of all waiters, the shutdown of the executor and the external state, is not modelled.
\<close>

definition shutdown_signal :: "ReplCoord \<Rightarrow> ReplCoord option" where
  "shutdown_signal s =
     do { ensure (rc_rsConfigState s \<noteq> kConfigStartingUp);
          s1 \<leftarrow> signalAllReplicationWaiters s;
          s2 \<leftarrow> signalAllOpTimeWaiters s1;
          Some (call NotifyStepDownWaiters (call NotifySnapshotWaiters s2)) }"

definition shutdown_begin :: "ReplCoord \<Rightarrow> (bool \<times> ReplCoord) option" where
  "shutdown_begin s =
     (if \<not> rs_usingReplSets (rc_settings s) then Some (True, s)
      else do { ensure (\<not> rc_inShutdown s);
                let s1 = s\<lparr>rc_inShutdown := True\<rparr>;
                if rc_rsConfigState s1 = kConfigPreStart then Some (True, s1)
                else if rc_rsConfigState s1 = kConfigStartingUp then Some (False, s1)
                else do { s2 \<leftarrow> shutdown_signal s1; Some (True, s2) } })"

end
