(* ===== verification/ReplCommands.thy ===== *)
theory ReplCommands
  imports ReplHandlers QuorumChecker
begin

text \<open>
  How the replication coordinator starts, the commands that configure a replica set, its answers to heartbeats, the
  start of an election, and what it reports: \<open>replSetReconfig\<close>, \<open>replSetInitiate\<close>, the configuration that
  comes with a heartbeat, \<open>isMaster\<close>, \<open>replSetUpdatePosition\<close>.
\<close>

section \<open>Starting up\<close>

definition ReplCoord_new :: "ReplSettings \<Rightarrow> TopologyCoordinator \<Rightarrow> bool \<Rightarrow> bool \<Rightarrow> ReplCoord" where
  "ReplCoord_new settings topCoord isDurableStorageEngine snapshotsEnabled =
     \<lparr>rc_settings = settings, rc_topCoord = topCoord, rc_rsConfigState = kConfigPreStart, rc_rsConfig = ReplSetConfig_default,
      rc_selfIndex = -1, rc_memberState = RS_STARTUP, rc_applierState = ApplierRunning,
      rc_canAcceptNonLocalWrites = (\<not> (rs_usingReplSets settings \<or> rs_slave settings)),
      rc_canServeNonLocalReads = False, rc_stepDownPending = False, rc_cachedTerm = kUninitializedTerm, rc_electionId = 0,
      rc_catchupState = None,
      rc_slaveInfo = (if getReplicationModeFromSettings settings = modeNone then [] else [SlaveInfo_default\<lparr>si_self := True\<rparr>]),
      rc_lastCommittedOpTime = OpTime_default, rc_firstOpTimeOfMyTerm = OpTime_default, rc_uncommittedSnapshots = [],
      rc_currentCommittedSnapshot = None, rc_snapshotNameGenerator = 0, rc_replicationWaiterList = [], rc_opTimeWaiterList = [],
      rc_nextWaiter = 0, rc_snapshotsEnabled = snapshotsEnabled, rc_isDurableStorageEngine = isDurableStorageEngine,
      rc_executorRunning = False, rc_inShutdown = False, rc_livenessTimer = None, rc_earliestMemberId = -1, rc_electionTimer = None,
      rc_priorityTakeover = None, rc_seedList = [], rc_calls = []\<rparr>"

text \<open>
  \<open>startup\<close>, up to the start of the executor, and the loading of the last vote and the configuration;
  without a stored configuration the node waits for \<open>replSetInitiate\<close> or a heartbeat.
\<close>

definition startup_begin :: "OID \<Rightarrow> ReplCoord \<Rightarrow> ReplCoord option" where
  "startup_begin rid s =
     (if getReplicationMode s = modeNone then Some (setConfigState kConfigReplicationDisabled s)
      else do {
        ensure (\<not> rc_inShutdown s);
        let s1 = setConfigState kConfigStartingUp s;
        i \<leftarrow> getMyIndexInSlaveInfo s1;
        si \<leftarrow> nth_opt (rc_slaveInfo s1) i;
        let s2 = setSlaveInfo i (si\<lparr>si_rid := rid\<rparr>) s1;
        if \<not> rs_usingReplSets (rc_settings s2)
        then do { ensure (rs_master (rc_settings s2) \<or> rs_slave (rc_settings s2)); Some (call StartMasterSlave s2) }
        else Some (s2\<lparr>rc_executorRunning := True\<rparr>) })"

definition startup_load :: "bool \<Rightarrow> LastVote option \<Rightarrow> ReplSetConfig option \<Rightarrow> ReplCoord \<Rightarrow> ReplCoord option" where
  "startup_load readCommitted lastVote localConfig s =
     (let s1 = s\<lparr>rc_topCoord := startLoadLocalConfig lastVote (setStorageEngineSupportsReadCommitted readCommitted (rc_topCoord s))\<rparr> in
      case localConfig of
        Some _ \<Rightarrow> Some s1
      | None \<Rightarrow> do { ensure (\<not> c_isInitialized (rc_rsConfig s1)); Some (setConfigState kConfigUninitialized s1) })"

text \<open>A stored configuration this node does not find itself in is used all the same, with this node outside of it.\<close>

definition startupIndex ::
  "ServerParams \<Rightarrow> (HostAndPort \<Rightarrow> bool) \<Rightarrow> string \<Rightarrow> ReplSetConfig \<Rightarrow> ReplSetConfig \<Rightarrow> int option" where
  "startupIndex sp isSelf ourSetName oldConfig localConfig =
     do { r \<leftarrow> validateConfigForStartUp sp isSelf oldConfig localConfig;
          i \<leftarrow> (case r of Inr i \<Rightarrow> Some i | Inl e \<Rightarrow> if e = NodeNotFound \<or> e = DuplicateKey then Some (-1) else None);
          Some (if c_replSetName localConfig \<noteq> ourSetName then -1 else i) }"

definition rc_finishLoadLocalConfig ::
  "Env \<Rightarrow> ServerParams \<Rightarrow> (HostAndPort \<Rightarrow> bool) \<Rightarrow> string \<Rightarrow> ReplSetConfig \<Rightarrow> OpTime StatusWith \<Rightarrow> LastVote option \<Rightarrow> ReplCoord \<Rightarrow> ReplCoord option" where
  "rc_finishLoadLocalConfig env sp isSelf ourSetName localConfig loaded lastVote s =
     do { i \<leftarrow> startupIndex sp isSelf ourSetName (rc_rsConfig s) localConfig;
          arbiter \<leftarrow> (if i = -1 then Some False else map_option isArbiter (getMemberAt localConfig i));
          let lastOpTime = (case loaded of Inr x \<Rightarrow> if arbiter then OpTime_default else x | Inl _ \<Rightarrow> OpTime_default);
          ensure (rc_rsConfigState s = kConfigStartingUp);
          (action, s1) \<leftarrow> setCurrentRSConfig env localConfig i s;
          s2 \<leftarrow> (if ot_isNull lastOpTime then Some s1
                 else do { a \<leftarrow> rc_setMyLastAppliedOpTime (e_now env) lastOpTime False s1;
                           b \<leftarrow> rc_setMyLastDurableOpTime (e_now env) lastOpTime False a;
                           Some (reportUpstream b) });
          let s3 = call (SetGlobalTimestamp (ot_timestamp lastOpTime)) s2;
          (r, s4) \<leftarrow> rc_updateTerm_incallback env (startupTerm localConfig lastOpTime lastVote) s3;
          s5 \<leftarrow> performPostMemberStateUpdateAction env action s4;
          Some (if arbiter then s5 else call StartDataReplication s5) }"

section \<open>Changing the configuration\<close>

text \<open>
  A command has three parts: it claims the state of the configuration, works without the mutex, and
  either gives the state back or lets the callback (theory ReplHandlers) install the configuration. The
  parsed configuration is an argument, as are the answers to the quorum check and the outcome of storing.
  While startup is going on a command waits (\<open>CommandWaits\<close>).
\<close>

datatype CommandStart = CommandWaits | CommandRefused ErrorCode | CommandClaimed

definition processReplSetReconfig_begin :: "bool \<Rightarrow> ReplCoord \<Rightarrow> (CommandStart \<times> ReplCoord) option" where
  "processReplSetReconfig_begin force s =
     (case rc_rsConfigState s of
        kConfigPreStart \<Rightarrow> Some (CommandWaits, s)
      | kConfigStartingUp \<Rightarrow> Some (CommandWaits, s)
      | kConfigSteady \<Rightarrow> do {
          ensure (c_isInitialized (rc_rsConfig s));
          if \<not> force \<and> rc_memberState s \<noteq> RS_PRIMARY then Some (CommandRefused NotMaster, s)
          else Some (CommandClaimed, setConfigState kConfigReconfiguring s) }
      | kConfigUninitialized \<Rightarrow> Some (CommandRefused NotYetInitialized, s)
      | kConfigReplicationDisabled \<Rightarrow> None
      | _ \<Rightarrow> Some (CommandRefused ConfigurationInProgress, s))"

definition checkQuorumForReconfig :: "(nat \<times> QuorumAnswer StatusWith) list \<Rightarrow> ReplSetConfig \<Rightarrow> int \<Rightarrow> Status option" where
  "checkQuorumForReconfig answers c i =
     do { ensure (c_version c > 1);
          ru \<leftarrow> checkQuorum (c, i) answers;
          Some (qc_finalStatus (ru_algorithm ru)) }"

definition checkQuorumForInitiate :: "(nat \<times> QuorumAnswer StatusWith) list \<Rightarrow> ReplSetConfig \<Rightarrow> int \<Rightarrow> Status option" where
  "checkQuorumForInitiate answers c i =
     do { ensure (c_version c = 1);
          ru \<leftarrow> checkQuorum (c, i) answers;
          Some (qc_finalStatus (ru_algorithm ru)) }"

text \<open>The work without the mutex: the index of this node in the new configuration, or the error.\<close>

definition reconfigCheck ::
  "ServerParams \<Rightarrow> (HostAndPort \<Rightarrow> bool) \<Rightarrow> bool \<Rightarrow> string \<Rightarrow> (nat \<times> QuorumAnswer StatusWith) list \<Rightarrow> Status \<Rightarrow>
   ReplSetConfig \<Rightarrow> ReplSetConfig StatusWith \<Rightarrow> (ReplSetConfig \<times> int) StatusWith option" where
  "reconfigCheck sp isSelf force ourSetName answers stored oldConfig parsed =
     (case parsed of
        Inl _ \<Rightarrow> Some (Inl InvalidReplicaSetConfig)
      | Inr newConfig \<Rightarrow>
          if c_replSetName newConfig \<noteq> ourSetName then Some (Inl InvalidReplicaSetConfig)
          else do {
            myIndex \<leftarrow> validateConfigForReconfig sp isSelf oldConfig newConfig force;
            case myIndex of
              Inl _ \<Rightarrow> Some (Inl NewReplicaSetConfigurationIncompatible)
            | Inr i \<Rightarrow> do {
                st \<leftarrow> (if force then Some StatusOK else checkQuorumForReconfig answers newConfig i);
                Some (case andThen st stored of Some e \<Rightarrow> Inl e | None \<Rightarrow> Inr (newConfig, i)) } })"

definition initiateCheck ::
  "ServerParams \<Rightarrow> (HostAndPort \<Rightarrow> bool) \<Rightarrow> string \<Rightarrow> (nat \<times> QuorumAnswer StatusWith) list \<Rightarrow> Status \<Rightarrow>
   ReplSetConfig StatusWith \<Rightarrow> (ReplSetConfig \<times> int) StatusWith option" where
  "initiateCheck sp isSelf ourSetName answers stored parsed =
     (case parsed of
        Inl _ \<Rightarrow> Some (Inl InvalidReplicaSetConfig)
      | Inr newConfig \<Rightarrow>
          if c_replSetName newConfig \<noteq> ourSetName then Some (Inl InvalidReplicaSetConfig)
          else do {
            myIndex \<leftarrow> validateConfigForInitiate sp isSelf newConfig;
            case myIndex of
              Inl _ \<Rightarrow> Some (Inl InvalidReplicaSetConfig)
            | Inr i \<Rightarrow> do {
                st \<leftarrow> checkQuorumForInitiate answers newConfig i;
                Some (case andThen st stored of Some e \<Rightarrow> Inl e | None \<Rightarrow> Inr (newConfig, i)) } })"

text \<open>
  The end of \<open>replSetReconfig\<close>: an error, and a callback that can not be scheduled any more, give the state
  back. Otherwise \<open>finishReplSetReconfig\<close> follows.
\<close>

definition processReplSetReconfig_end :: "(ReplSetConfig \<times> int) StatusWith \<Rightarrow> ReplCoord \<Rightarrow> Status \<times> ReplCoord" where
  "processReplSetReconfig_end checked s =
     (case checked of
        Inl e \<Rightarrow> (Some e, setConfigState kConfigSteady s)
      | Inr _ \<Rightarrow> if rc_executorRunning s then (StatusOK, s) else (Some ShutdownInProgress, setConfigState kConfigSteady s))"

definition processReplSetInitiate_begin :: "ReplCoord \<Rightarrow> (CommandStart \<times> ReplCoord) option" where
  "processReplSetInitiate_begin s =
     (if \<not> rs_usingReplSets (rc_settings s) then Some (CommandRefused NoReplicationEnabled, s)
      else if rc_rsConfigState s \<in> {kConfigPreStart, kConfigStartingUp} then Some (CommandWaits, s)
      else if rc_rsConfigState s \<noteq> kConfigUninitialized then Some (CommandRefused AlreadyInitialized, s)
      else do { ensure (\<not> c_isInitialized (rc_rsConfig s));
                Some (CommandClaimed, setConfigState kConfigInitiating s) })"

text \<open>The durable optime is set by hand, because the journal does not report it yet.\<close>

definition processReplSetInitiate_end ::
  "Env \<Rightarrow> (ReplSetConfig \<times> int) StatusWith \<Rightarrow> ReplCoord \<Rightarrow> (Status \<times> ReplCoord) option" where
  "processReplSetInitiate_end env checked s =
     (case checked of
        Inl e \<Rightarrow> Some (Some e, setConfigState kConfigUninitialized s)
      | Inr (newConfig, i) \<Rightarrow> do {
          applied \<leftarrow> getMyLastAppliedOpTime s;
          s1 \<leftarrow> setMyLastDurableOpTime (e_now env) applied s;
          s2 \<leftarrow> finishReplSetInitiate env newConfig i s1;
          me \<leftarrow> getMemberAt newConfig i;
          ensure (\<not> isArbiter me);
          Some (StatusOK, call StartDataReplication s2) })"

text \<open>
  A configuration from a heartbeat is checked and stored before it is used. \<open>None\<close> in the result says that
  it is dropped, otherwise \<open>heartbeatReconfigFinish\<close> follows with the index. An invalid configuration is used
  all the same, with this node removed.
\<close>

definition heartbeatReconfigStore ::
  "ServerParams \<Rightarrow> (HostAndPort \<Rightarrow> bool) \<Rightarrow> Status \<Rightarrow> ReplSetConfig \<Rightarrow> ReplCoord \<Rightarrow> (int StatusWith option \<times> ReplCoord) option" where
  "heartbeatReconfigStore sp isSelf stored newConfig s =
     (let myIndex = validateConfigForHeartbeatReconfig sp isSelf newConfig;
          first = (\<not> c_isInitialized (rc_rsConfig s)) in
      if myIndex = Inl NodeNotFound \<and> first
      then do { ensure (rc_rsConfigState s = kConfigHBReconfiguring); Some (None, setConfigState kConfigUninitialized s) }
      else if isl myIndex \<and> myIndex \<noteq> Inl NodeNotFound then Some (Some myIndex, s)
      else if stored \<noteq> StatusOK
      then do { ensure (rc_rsConfigState s = kConfigHBReconfiguring);
                Some (None, setConfigState (if first then kConfigUninitialized else kConfigSteady) s) }
      else do {
        arbiter \<leftarrow> (case myIndex of
                      Inr i \<Rightarrow> if i = -1 then Some False else map_option isArbiter (getMemberAt newConfig i)
                    | Inl _ \<Rightarrow> Some False);
        Some (Some myIndex, if \<not> arbiter \<and> first then call StartDataReplication s else s) })"

section \<open>Heartbeats and elections\<close>

text \<open>
  A node outside its configuration sends a heartbeat back to whoever asks, once; a node with an older
  configuration asks the sender for the new one.
\<close>

definition heartbeatToSender :: "Env \<Rightarrow> ReplSetHeartbeatArgs \<Rightarrow> ReplCoord \<Rightarrow> ReplCoord" where
  "heartbeatToSender env args s =
     (case ha_senderHost args of
        None \<Rightarrow> s
      | Some h \<Rightarrow> if hp_empty h \<or> list_ex (hp_eq h) (rc_seedList s) then s
                  else call (SendHeartbeat h (-1) (e_now env)) (s\<lparr>rc_seedList := h # rc_seedList s\<rparr>))"

definition fetchConfigFromSender :: "Env \<Rightarrow> ReplSetHeartbeatArgs \<Rightarrow> ReplCoord \<Rightarrow> ReplCoord" where
  "fetchConfigFromSender env args s =
     (case ha_senderHost args of
        None \<Rightarrow> s
      | Some h \<Rightarrow> call (SendHeartbeat h (findMemberIndexByHostAndPort (rc_rsConfig s) h) (e_now env)) s)"

definition rc_processHeartbeat ::
  "Env \<Rightarrow> string \<Rightarrow> ReplSetHeartbeatArgs \<Rightarrow> ReplCoord \<Rightarrow> (Status \<times> ReplSetHeartbeatResponse \<times> ReplCoord) option" where
  "rc_processHeartbeat env ourSetName args s =
     (if rc_rsConfigState s \<in> {kConfigPreStart, kConfigStartingUp}
      then Some (Some NotYetInitialized, ReplSetHeartbeatResponse_default, s)
      else do {
        applied \<leftarrow> getMyLastAppliedOpTime s;
        durable \<leftarrow> getMyLastDurableOpTime s;
        (result, r, t) \<leftarrow> prepareHeartbeatResponse (e_now env) args ourSetName applied durable (rc_topCoord s);
        let s1 = s\<lparr>rc_topCoord := t\<rparr>;
        Some (result, r,
          if result \<in> {StatusOK, Some InvalidReplicaSetConfig} \<and> rc_selfIndex s1 < 0 then heartbeatToSender env args s1
          else if result = StatusOK \<and> r_configVersion r < ha_configVersion args then fetchConfigFromSender env args s1
          else s1) })"

definition noteLiveness :: "Env \<Rightarrow> int \<Rightarrow> ReplCoord \<Rightarrow> ReplCoord option" where
  "noteLiveness env memberId s =
     (case findSlaveInfoByMemberID memberId s of
        None \<Rightarrow> Some s
      | Some i \<Rightarrow> do { si \<leftarrow> nth_opt (rc_slaveInfo s) i;
                      Some (setSlaveInfo i (si\<lparr>si_lastUpdate := e_now env, si_down := False\<rparr>) s) })"

definition rc_processHeartbeatV1 ::
  "Env \<Rightarrow> string \<Rightarrow> ReplSetHeartbeatArgs \<Rightarrow> ReplCoord \<Rightarrow> (Status \<times> ReplSetHeartbeatResponse \<times> ReplCoord) option" where
  "rc_processHeartbeatV1 env ourSetName args s =
     (if rc_rsConfigState s \<in> {kConfigPreStart, kConfigStartingUp}
      then Some (Some NotYetInitialized, ReplSetHeartbeatResponse_default, s)
      else do {
        applied \<leftarrow> getMyLastAppliedOpTime s;
        durable \<leftarrow> getMyLastDurableOpTime s;
        (result, r, t) \<leftarrow> prepareHeartbeatResponseV1 (e_now env) args ourSetName applied durable (rc_topCoord s);
        let s1 = s\<lparr>rc_topCoord := t\<rparr>;
        s2 \<leftarrow> (if result \<in> {StatusOK, Some InvalidReplicaSetConfig} \<and> rc_selfIndex s1 < 0 then Some (heartbeatToSender env args s1)
               else if result = StatusOK \<and> r_configVersion r < ha_configVersion args then Some (fetchConfigFromSender env args s1)
               else if result = StatusOK then noteLiveness env (ha_senderId args) s1
               else Some s1);
        Some (result, r, s2) })"

datatype StartElectionV1Reason = kElectionTimeout | kPriorityTakeover | kStepUpRequest

definition startElectSelfIfEligibleV1 ::
  "Env \<Rightarrow> StartElectionV1Reason \<Rightarrow> ReplCoord \<Rightarrow> (VoteRequest option \<times> ReplCoord) option" where
  "startElectSelfIfEligibleV1 env reason s =
     (if \<not> rc_isV1ElectionProtocol s then Some (None, s)
      else do {
        s1 \<leftarrow> cancelAndRescheduleElectionTimeout env (cancelPriorityTakeover s);
        if rc_inShutdown s1 then Some (None, s1)
        else do {
          applied \<leftarrow> getMyLastAppliedOpTime s1;
          (st, t) \<leftarrow> becomeCandidateIfElectable (e_now env) applied (reason = kPriorityTakeover) (rc_topCoord s1);
          let s2 = s1\<lparr>rc_topCoord := t\<rparr>;
          if st \<noteq> StatusOK then Some (None, s2) else rc_startElectSelfV1 s2 } })"

text \<open>\<open>replSetStepUp\<close> starts an election, and reports how it ended once it is over.\<close>

definition stepUpIfEligible_begin :: "Env \<Rightarrow> ReplCoord \<Rightarrow> (Status \<times> ReplCoord) option" where
  "stepUpIfEligible_begin env s =
     (if \<not> rc_isV1ElectionProtocol s then Some (Some CommandNotSupported, s)
      else do { (rq, s1) \<leftarrow> startElectSelfIfEligibleV1 env kStepUpRequest s; Some (StatusOK, s1) })"

definition stepUpIfEligible_end :: "ReplCoord \<Rightarrow> Status" where
  "stepUpIfEligible_end s = failIf (rc_memberState s \<noteq> RS_PRIMARY) CommandFailed"

section \<open>Reports\<close>

text \<open>A primary that is still draining reports itself as a secondary. The last writes come with the answer.\<close>

definition rc_fillIsMasterForReplSet :: "ReplCoord \<Rightarrow> (IsMasterResponse \<times> OpTime \<times> OpTime option) option" where
  "rc_fillIsMasterForReplSet s =
     do { ensure (rs_usingReplSets (rc_settings s));
          r \<leftarrow> fillIsMasterForReplSet (rc_topCoord s);
          lastOpTime \<leftarrow> getMyLastAppliedOpTime s;
          Some (if im_isMaster r \<and> \<not> rc_canAcceptNonLocalWrites s then r\<lparr>im_isMaster := False, im_isSecondary := True\<rparr> else r,
                lastOpTime, map_option sn_opTime (rc_currentCommittedSnapshot s)) }"

definition getCurrentCommittedSnapshotOpTime :: "ReplCoord \<Rightarrow> OpTime" where
  "getCurrentCommittedSnapshotOpTime s =
     (case rc_currentCommittedSnapshot s of Some sn \<Rightarrow> sn_opTime sn | None \<Rightarrow> OpTime_default)"

definition rc_prepareReplSetMetadata :: "OpTime \<Rightarrow> ReplCoord \<Rightarrow> ReplSetMetadata" where
  "rc_prepareReplSetMetadata lastOpTimeFromClient s =
     prepareReplSetMetadata (rc_topCoord s) (ot_max lastOpTimeFromClient (getCurrentCommittedSnapshotOpTime s))
       (rc_lastCommittedOpTime s)"

definition rc_prepareOplogQueryMetadata :: "int \<Rightarrow> ReplCoord \<Rightarrow> OplogQueryMetadata option" where
  "rc_prepareOplogQueryMetadata rbid s =
     do { lastApplied \<leftarrow> getMyLastAppliedOpTime s;
          Some (prepareOplogQueryMetadata (rc_topCoord s) (rc_lastCommittedOpTime s) lastApplied rbid) }"

text \<open>The new style of the command, which is sent to the sync source.\<close>

definition reportedSlaves :: "ReplCoord \<Rightarrow> SlaveInfo list" where
  "reportedSlaves s = filter (\<lambda>si. \<not> ot_isNull (si_lastAppliedOpTime si) \<and> (si_self si \<or> \<not> si_down si)) (rc_slaveInfo s)"

definition prepareReplSetUpdatePositionCommand :: "ReplCoord \<Rightarrow> (UpdateInfo list \<times> ReplSetMetadata) StatusWith option" where
  "prepareReplSetUpdatePositionCommand s =
     do { ensure (c_isInitialized (rc_rsConfig s));
          Some (if rc_selfIndex s = -1 then Inl NodeNotFound
                else Inr (map (\<lambda>si. \<lparr>ui_appliedOpTime = si_lastAppliedOpTime si, ui_durableOpTime = si_lastDurableOpTime si,
                                     ui_cfgver = c_version (rc_rsConfig s), ui_memberId = si_memberId si\<rparr>) (reportedSlaves s),
                          rc_prepareReplSetMetadata OpTime_default s)) }"

definition getOtherNodesInReplSet :: "ReplCoord \<Rightarrow> HostAndPort list option" where
  "getOtherNodesInReplSet s =
     do { ensure (rs_usingReplSets (rc_settings s));
          Some (if rc_selfIndex s = -1 then []
                else [mc_host m. (i, m) \<leftarrow> indexed (c_members (rc_rsConfig s)), i \<noteq> rc_selfIndex s]) }"

text \<open>Master and slave replication: a slave introduces itself. Nobody is woken.\<close>

definition processHandshake :: "OID \<Rightarrow> HostAndPort \<Rightarrow> ReplCoord \<Rightarrow> Status \<times> ReplCoord" where
  "processHandshake rid client s =
     (if getReplicationMode s \<noteq> modeMasterSlave then (Some IllegalOperation, s)
      else if findSlaveInfoByRID rid s \<noteq> None then (StatusOK, s)
      else (StatusOK, s\<lparr>rc_slaveInfo := rc_slaveInfo s @ [SlaveInfo_default\<lparr>si_rid := rid, si_memberId := -1,
                                                                            si_hostAndPort := client\<rparr>]\<rparr>))"

end
