(* ===== verification/ReplPhase.thy ===== *)
theory ReplPhase
  imports ReplCommands
begin

text \<open>
  When a node accepts writes: the member state, the applier, the catch-up and the flag for writes move
  together. The operations on progress leave them alone, except that a catch-up may end in them.
\<close>

section \<open>Phases\<close>

text \<open>
  A node that is not primary accepts no writes, applies and has no catch-up under way. In the strict form a primary accepts
  writes exactly if it has stopped applying, and still applies while it catches up.
\<close>

definition phase_ok :: "bool \<Rightarrow> ReplCoord \<Rightarrow> bool" where
  "phase_ok strict s \<longleftrightarrow>
     (rc_memberState s \<noteq> RS_PRIMARY \<longrightarrow>
        \<not> rc_canAcceptNonLocalWrites s \<and> rc_applierState s = ApplierRunning \<and> rc_catchupState s = None) \<and>
     (strict \<longrightarrow> (rc_canAcceptNonLocalWrites s \<longleftrightarrow> rc_applierState s = ApplierStopped) \<and>
       (rc_catchupState s \<noteq> None \<longrightarrow> rc_applierState s = ApplierRunning))"

text \<open>The member state follows the topology coordinator: a primary is its leader.\<close>

definition role_ok :: "bool \<Rightarrow> ReplCoord \<Rightarrow> bool" where
  "role_ok strict s \<longleftrightarrow>
     phase_ok strict s \<and> (rc_memberState s = RS_PRIMARY \<longrightarrow> t_role (rc_topCoord s) = RoleLeader) \<and>
     t_followerMode (rc_topCoord s) \<noteq> RS_PRIMARY"

section \<open>Operations that keep the phase\<close>

definition keeps_phase :: "ReplCoord \<Rightarrow> ReplCoord \<Rightarrow> bool" where
  "keeps_phase s s' \<longleftrightarrow>
     lead_kept (rc_topCoord s) (rc_topCoord s') \<and> rc_memberState s' = rc_memberState s \<and>
     rc_canAcceptNonLocalWrites s' = rc_canAcceptNonLocalWrites s \<and>
     (rc_applierState s' = rc_applierState s \<and> (rc_catchupState s' = None \<longleftrightarrow> rc_catchupState s = None) \<or>
      rc_memberState s = RS_PRIMARY \<and> rc_catchupState s \<noteq> None \<and> rc_catchupState s' = None \<and> rc_applierState s' = ApplierDraining)"

text \<open>
  Updates of other fields do not matter; for an operation, the rule goes from its result to the state before.
\<close>

named_theorems phase_intros

lemma keeps_phase_refl [simp]: "keeps_phase s s"
  by (simp add: keeps_phase_def lead_frame.keeps_refl)

lemma keeps_phase_trans: "keeps_phase s s1 \<Longrightarrow> keeps_phase s1 s2 \<Longrightarrow> keeps_phase s s2"
  by (auto simp: keeps_phase_def intro: lead_frame.keeps_trans)

lemma keeps_phase_role: "role_ok strict s \<Longrightarrow> keeps_phase s s' \<Longrightarrow> role_ok strict s'"
  by (auto simp: role_ok_def phase_ok_def keeps_phase_def lead_kept_def)

lemma phase_upd [simp]:
  "keeps_phase s (t\<lparr>rc_replicationWaiterList := f0\<rparr>) = keeps_phase s t" "keeps_phase s (t\<lparr>rc_opTimeWaiterList := f1\<rparr>) = keeps_phase s t"
  "keeps_phase s (t\<lparr>rc_slaveInfo := f2\<rparr>) = keeps_phase s t" "keeps_phase s (t\<lparr>rc_lastCommittedOpTime := f3\<rparr>) = keeps_phase s t"
  "keeps_phase s (t\<lparr>rc_uncommittedSnapshots := f4\<rparr>) = keeps_phase s t" "keeps_phase s (t\<lparr>rc_currentCommittedSnapshot := f5\<rparr>) = keeps_phase s t"
  "keeps_phase s (t\<lparr>rc_nextWaiter := f6\<rparr>) = keeps_phase s t" "keeps_phase s (t\<lparr>rc_livenessTimer := f7\<rparr>) = keeps_phase s t"
  "keeps_phase s (t\<lparr>rc_earliestMemberId := f8\<rparr>) = keeps_phase s t" "keeps_phase s (t\<lparr>rc_electionTimer := f9\<rparr>) = keeps_phase s t"
  "keeps_phase s (t\<lparr>rc_priorityTakeover := f10\<rparr>) = keeps_phase s t" "keeps_phase s (t\<lparr>rc_firstOpTimeOfMyTerm := f11\<rparr>) = keeps_phase s t"
  "keeps_phase s (t\<lparr>rc_canServeNonLocalReads := f12\<rparr>) = keeps_phase s t" "keeps_phase s (t\<lparr>rc_stepDownPending := f13\<rparr>) = keeps_phase s t"
  "keeps_phase s (t\<lparr>rc_rsConfigState := f14\<rparr>) = keeps_phase s t" "keeps_phase s (t\<lparr>rc_inShutdown := f15\<rparr>) = keeps_phase s t"
  "keeps_phase s (t\<lparr>rc_cachedTerm := f16\<rparr>) = keeps_phase s t" "keeps_phase s (t\<lparr>rc_electionId := f17\<rparr>) = keeps_phase s t"
  "keeps_phase s (t\<lparr>rc_rsConfig := f18\<rparr>) = keeps_phase s t" "keeps_phase s (t\<lparr>rc_selfIndex := f19\<rparr>) = keeps_phase s t"
  "keeps_phase s (t\<lparr>rc_seedList := f20\<rparr>) = keeps_phase s t" "keeps_phase s (t\<lparr>rc_snapshotNameGenerator := f21\<rparr>) = keeps_phase s t"
  "keeps_phase s (t\<lparr>rc_executorRunning := er\<rparr>) = keeps_phase s t" "keeps_phase s (call x t) = keeps_phase s t" "keeps_phase s (t\<lparr>rc_calls := cs\<rparr>) = keeps_phase s t"
  by (simp_all add: keeps_phase_def call_def)

lemma phase_topology [phase_intros]: "lead_kept (rc_topCoord t) t' \<Longrightarrow> keeps_phase s t \<Longrightarrow> keeps_phase s (t\<lparr>rc_topCoord := t'\<rparr>)"
  by (auto simp: keeps_phase_def intro: lead_frame.keeps_trans)

lemma phase_funs [simp]:
  "keeps_phase s (setSlaveInfo i si t) = keeps_phase s t"
  "keeps_phase s (scheduleNextLivenessUpdate t) = keeps_phase s t"
  "keeps_phase s (cancelAndRescheduleLivenessUpdate n t) = keeps_phase s t"
  "keeps_phase s (reportUpstream t) = keeps_phase s t"
  by (simp_all add: setSlaveInfo_def cancelAndRescheduleLivenessUpdate_def scheduleNextLivenessUpdate_def reportUpstream_def split: prod.split)

lemma abort_phase [phase_intros]:
  assumes "CatchupState_abort t = Some t'" "keeps_phase s t"
  shows "keeps_phase s t'"
proof -
  from assms(1) obtain cu where cu: "rc_catchupState t = Some cu" "rc_memberState t = RS_PRIMARY"
    "t' = (enterDrainMode (case cu_waiter cu of
       Some w \<Rightarrow> t\<lparr>rc_opTimeWaiterList := removeWaiter w (rc_opTimeWaiterList t)\<rparr> | None \<Rightarrow> t))\<lparr>rc_catchupState := None\<rparr>"
    unfolding CatchupState_abort_def by (auto simp: bind_eq_Some_conv split: if_splits)
  have "keeps_phase t t'" unfolding cu(3) keeps_phase_def enterDrainMode_def call_def
    using cu(1,2) by (simp add: lead_frame.keeps_refl split: option.split)
  then show ?thesis by (rule keeps_phase_trans [OF assms(2)])
qed

lemma notify_phase [phase_intros]: "notifyWaiter w t = Some t' \<Longrightarrow> keeps_phase s t \<Longrightarrow> keeps_phase s t'"
  by (auto simp: notifyWaiter_def catchupCallback_def bind_eq_Some_conv split: if_splits intro: phase_intros)

lemma foldM_phase:
  assumes "\<And>x t t'. f x t = Some t' \<Longrightarrow> keeps_phase s t \<Longrightarrow> keeps_phase s t'"
  shows "foldM f xs t = Some t' \<Longrightarrow> keeps_phase s t \<Longrightarrow> keeps_phase s t'"
  by (induction xs arbitrary: t) (auto simp: bind_eq_Some_conv intro: assms)

lemma notifyAll_phase: "foldM notifyWaiter ws t = Some t' \<Longrightarrow> keeps_phase s t \<Longrightarrow> keeps_phase s t'"
  by (rule foldM_phase [OF notify_phase])

lemma signal_phase [phase_intros]:
  "wakeReadyWaiters t = Some t' \<Longrightarrow> keeps_phase s t \<Longrightarrow> keeps_phase s t'"
  "signalOpTimeWaiters x t = Some t' \<Longrightarrow> keeps_phase s t \<Longrightarrow> keeps_phase s t'"
  "signalAllReplicationWaiters t = Some t' \<Longrightarrow> keeps_phase s t \<Longrightarrow> keeps_phase s t'"
  "signalAllOpTimeWaiters t = Some t' \<Longrightarrow> keeps_phase s t \<Longrightarrow> keeps_phase s t'"
  unfolding wakeReadyWaiters_def signalOpTimeWaiters_def signalAllReplicationWaiters_def signalAllOpTimeWaiters_def
  by (auto simp: bind_eq_Some_conv dest!: notifyAll_phase)

lemma snapshot_phase [phase_intros]: "updateCommittedSnapshot n t = Some t' \<Longrightarrow> keeps_phase s t \<Longrightarrow> keeps_phase s t'"
  by (auto simp: updateCommittedSnapshot_def split: if_splits dest!: signal_phase(1))

lemma advanceCommit_phase:
  assumes "\<And>c t t'. f c t = Some t' \<Longrightarrow> keeps_phase s t \<Longrightarrow> keeps_phase s t'"
  shows "advanceCommitPoint_with f c t = Some t' \<Longrightarrow> keeps_phase s t \<Longrightarrow> keeps_phase s t'"
  by (auto simp: advanceCommitPoint_with_def bind_eq_Some_conv split: if_splits dest!: snapshot_phase intro: assms)

lemma updateCommit_phase [phase_intros]: "updateLastCommittedOpTime t = Some t' \<Longrightarrow> keeps_phase s t \<Longrightarrow> keeps_phase s t'"
  by (auto simp: updateLastCommittedOpTime_def bind_eq_Some_conv split: if_splits elim!: advanceCommit_phase [rotated])

lemma progress_phase [phase_intros]:
  "updateSlaveInfoAppliedOpTime now i x t = Some t' \<Longrightarrow> keeps_phase s t \<Longrightarrow> keeps_phase s t'"
  "updateSlaveInfoDurableOpTime now i x t = Some t' \<Longrightarrow> keeps_phase s t \<Longrightarrow> keeps_phase s t'"
  by (auto simp: updateSlaveInfoAppliedOpTime_def updateSlaveInfoDurableOpTime_def bind_eq_Some_conv split: if_splits
      dest!: signal_phase(1) updateCommit_phase)

lemma own_phase [phase_intros]:
  "rc_setMyLastAppliedOpTime now x rb t = Some t' \<Longrightarrow> keeps_phase s t \<Longrightarrow> keeps_phase s t'"
  "rc_setMyLastDurableOpTime now x rb t = Some t' \<Longrightarrow> keeps_phase s t \<Longrightarrow> keeps_phase s t'"
  by (auto simp: rc_setMyLastAppliedOpTime_def rc_setMyLastDurableOpTime_def bind_eq_Some_conv split: if_splits
      dest!: signal_phase progress_phase)

lemma learn_phase [phase_intros]: "advanceCommitPoint now c t = Some t' \<Longrightarrow> keeps_phase s t \<Longrightarrow> keeps_phase s t'"
  unfolding advanceCommitPoint_def by (rule advanceCommit_phase [OF own_phase(1)])

lemma setMy_phase [phase_intros]:
  "setMyLastAppliedOpTime now x t = Some t' \<Longrightarrow> keeps_phase s t \<Longrightarrow> keeps_phase s t'"
  "setMyLastDurableOpTime now x t = Some t' \<Longrightarrow> keeps_phase s t \<Longrightarrow> keeps_phase s t'"
  "setMyLastAppliedOpTimeForward now x t = Some t' \<Longrightarrow> keeps_phase s t \<Longrightarrow> keeps_phase s t'"
  "setMyLastDurableOpTimeForward now x t = Some t' \<Longrightarrow> keeps_phase s t \<Longrightarrow> keeps_phase s t'"
  "resetMyLastOpTimes now t = Some t' \<Longrightarrow> keeps_phase s t \<Longrightarrow> keeps_phase s t'"
  "resetLastOpTimesFromOplog now r t = Some t' \<Longrightarrow> keeps_phase s t \<Longrightarrow> keeps_phase s t'"
  unfolding setMyLastAppliedOpTime_def setMyLastDurableOpTime_def setMyLastAppliedOpTimeForward_def setMyLastDurableOpTimeForward_def
    resetMyLastOpTimes_def resetLastOpTimesFromOplog_def
  by (auto simp: bind_eq_Some_conv split: if_splits option.splits sum.splits dest!: own_phase)

lemma heartbeatOpTimes_phase [phase_intros]:
  "updateOpTimesFromHeartbeat now i d a t = Some t' \<Longrightarrow> keeps_phase s t \<Longrightarrow> keeps_phase s t'"
  "updateOpTimes now i a d t = Some t' \<Longrightarrow> keeps_phase s t \<Longrightarrow> keeps_phase s t'"
  by (auto simp: updateOpTimesFromHeartbeat_def updateOpTimes_def bind_eq_Some_conv split: if_splits dest!: progress_phase)

lemma report_phase:
  "setLastOptime now u t = Some (st, v, t') \<Longrightarrow> keeps_phase s t \<Longrightarrow> keeps_phase s t'"
  "setLastOptime_old now u' t = Some (st, v, t') \<Longrightarrow> keeps_phase s t \<Longrightarrow> keeps_phase s t'"
  unfolding setLastOptime_old_def
  by (auto simp: setLastOptime_def bind_eq_Some_conv split: if_splits option.splits dest!: heartbeatOpTimes_phase(2))

lemma positionLoop_phase:
  assumes "\<And>u t st v t'. upd u t = Some (st, v, t') \<Longrightarrow> keeps_phase s t \<Longrightarrow> keeps_phase s t'"
  shows "updatePositionLoop upd us b t = Some (st, v, c, t') \<Longrightarrow> keeps_phase s t \<Longrightarrow> keeps_phase s t'"
  by (induction us arbitrary: b t) (auto simp: bind_eq_Some_conv split: if_splits dest: assms)

lemma positions_phase:
  "updatePositionLoop (setLastOptime now) us b t = Some (st, v, c, t') \<Longrightarrow> keeps_phase s t \<Longrightarrow> keeps_phase s t'"
  "updatePositionLoop (setLastOptime_old now) vs b t = Some (st, v, c, t') \<Longrightarrow> keeps_phase s t \<Longrightarrow> keeps_phase s t'"
  by (rule positionLoop_phase [of "setLastOptime now"], rule report_phase, assumption+)
    (rule positionLoop_phase [of "setLastOptime_old now"], rule report_phase, assumption+)

lemma updatePosition_phase [phase_intros]:
  "processReplSetUpdatePosition now us t = Some (st, v, t') \<Longrightarrow> keeps_phase s t \<Longrightarrow> keeps_phase s t'"
  "processReplSetUpdatePosition_old now vs t = Some (st, v, t') \<Longrightarrow> keeps_phase s t \<Longrightarrow> keeps_phase s t'"
  unfolding processReplSetUpdatePosition_def processReplSetUpdatePosition_old_def forwardIfChanged_def
  by (auto split: if_splits dest!: positions_phase)

lemma createSnapshot_phase [phase_intros]:
  "createSnapshot x n t = Some t' \<Longrightarrow> keeps_phase s t \<Longrightarrow> keeps_phase s t'"
  by (auto simp: createSnapshot_def bind_eq_Some_conv split: if_splits dest!: snapshot_phase)

lemma phase_more_funs [simp]:
  "keeps_phase s (dropAllSnapshots t) = keeps_phase s t" "keeps_phase s (snd (reserveSnapshotName t)) = keeps_phase s t"
  "keeps_phase s (cancelPriorityTakeover t) = keeps_phase s t" "keeps_phase s (setConfigState cs t) = keeps_phase s t"
  "keeps_phase s (cancelHeartbeats t) = keeps_phase s t" "keeps_phase s (stepDownStart t) = keeps_phase s t"
  "keeps_phase s (snd (processHandshake rid h t)) = keeps_phase s t" "keeps_phase s (heartbeatToSender env args t) = keeps_phase s t"
  "keeps_phase s (fetchConfigFromSender env args t) = keeps_phase s t"
  by (simp_all add: dropAllSnapshots_def reserveSnapshotName_def cancelPriorityTakeover_def setConfigState_def cancelHeartbeats_def
      stepDownStart_def processHandshake_def heartbeatToSender_def fetchConfigFromSender_def split: option.split)

lemma wait_phase [phase_intros]:
  "awaitReplication_inlock l st a t = Some (r, t') \<Longrightarrow> keeps_phase s t \<Longrightarrow> keeps_phase s t'"
  "awaitReplication_resume w n a t = Some (r, t') \<Longrightarrow> keeps_phase s t \<Longrightarrow> keeps_phase s t'"
  "waitUntilOpTimeForRead l m x t = Some (q, t') \<Longrightarrow> keeps_phase s t \<Longrightarrow> keeps_phase s t'"
  "waitUntilOpTimeForRead_resume ws wo m x t = Some (q, t') \<Longrightarrow> keeps_phase s t \<Longrightarrow> keeps_phase s t'"
  unfolding awaitReplication_inlock_def awaitReplication_resume_def awaitLoop_def leaveWaiterList_def waitUntilOpTimeForRead_def
    waitUntilOpTimeForRead_resume_def readWaitLoop_def
  by (auto simp: bind_eq_Some_conv split: if_splits option.splits WaitOutcome.splits)

lemma electionTimer_frame: "cancelAndRescheduleElectionTimeout env t = Some t' \<Longrightarrow> \<exists>x. t' = t\<lparr>rc_electionTimer := x\<rparr>"
  unfolding cancelAndRescheduleElectionTimeout_def Let_def
  by (simp add: bind_eq_Some_conv split: if_split_asm) blast+

lemma electionTimer_phase [phase_intros]:
  "cancelAndRescheduleElectionTimeout env t = Some t' \<Longrightarrow> keeps_phase s t \<Longrightarrow> keeps_phase s t'"
  by (auto dest!: electionTimer_frame)

lemma catchup_phase [phase_intros]:
  assumes "CatchupState_signalHeartbeatUpdate t = Some t'" "keeps_phase s t"
  shows "keeps_phase s t'"
proof -
  have "keeps_phase t (t\<lparr>rc_nextWaiter := n, rc_opTimeWaiterList := ws, rc_catchupState := Some cu\<rparr>)"
    if "rc_catchupState t \<noteq> None" for n ws cu
    unfolding keeps_phase_def using that by (simp add: lead_frame.keeps_refl)
  note new = this
  have "keeps_phase t t'"
  proof (cases "t' = t \<or> CatchupState_abort t = Some t'")
    case True
    then show ?thesis using abort_phase [OF _ keeps_phase_refl] by auto
  next
    case False
    then obtain n ws cu where "rc_catchupState t \<noteq> None" "t' = t\<lparr>rc_nextWaiter := n, rc_opTimeWaiterList := ws, rc_catchupState := Some cu\<rparr>"
      using assms(1) unfolding CatchupState_signalHeartbeatUpdate_def
      by (auto simp: bind_eq_Some_conv Let_def split: option.split_asm if_split_asm)
    then show ?thesis using new by simp
  qed
  then show ?thesis by (rule keeps_phase_trans [OF assms(2)])
qed

lemma heartbeats_phase [simp]:
  assumes "keeps_phase s t"
  shows "keeps_phase s (startHeartbeats env t)" "keeps_phase s (rc_restartHeartbeats env t)"
proof -
  have "lead_kept u (restartHeartbeats u)" for u by (simp add: lead_kept_def restartHeartbeats_def)
  then have "keeps_phase s (startHeartbeats env t1)" if "keeps_phase s t1" for t1
    using that by (auto simp: startHeartbeats_def Let_def intro: phase_topology)
  then show "keeps_phase s (startHeartbeats env t)" "keeps_phase s (rc_restartHeartbeats env t)"
    using assms by (simp_all add: rc_restartHeartbeats_def)
qed

lemma startElection_lead:
  "startElectSelfV1 c x t = Some (rq, t') \<Longrightarrow> lead_kept t t'" "startElectSelf c x t = Some (rq', t') \<Longrightarrow> lead_kept t t'"
  using lead_frame.endElection_keeps(2) [of t]
  by (auto simp: startElectSelfV1_def startElectSelf_def loseElection_def bind_eq_Some_conv ensures_def lead_frame.keeps_refl split: if_splits)

lemma startElectSelf_phase [phase_intros]:
  "rc_startElectSelfV1 t = Some (rq, t') \<Longrightarrow> keeps_phase s t \<Longrightarrow> keeps_phase s t'"
  using lead_frame.endElection_keeps(2) [of "rc_topCoord t"]
  by (auto simp: rc_startElectSelfV1_def bind_eq_Some_conv ensures_def split: if_splits intro: phase_topology startElection_lead)

lemma simpleAction_phase [phase_intros]: "performSimpleAction a t = Some t' \<Longrightarrow> keeps_phase s t \<Longrightarrow> keeps_phase s t'"
  by (cases a) (auto simp: performSimpleAction_def dest: startElectSelf_phase)

end
