(* ===== verification/ReplRole.thy ===== *)
theory ReplRole
  imports ReplPhase
begin

text \<open>
  Every handler of the replication coordinator keeps the member state, the applier, the catch-up and the flag for
  writes in step with the role in the topology coordinator.
\<close>

section \<open>Operations that move the member state\<close>

definition idle :: "ReplCoord \<Rightarrow> bool" where
  "idle s \<longleftrightarrow> \<not> rc_canAcceptNonLocalWrites s \<and> rc_applierState s = ApplierRunning \<and> rc_catchupState s = None"

lemma leavePrimary_idle:
  assumes "leavePrimary s = Some s1"
  obtains u where "keeps_phase s u" "s1 = u\<lparr>rc_canAcceptNonLocalWrites := False, rc_stepDownPending := False\<rparr>"
proof -
  from assms obtain a b where ab: "signalAllReplicationWaiters s = Some a" "signalAllOpTimeWaiters a = Some b"
    "s1 = b\<lparr>rc_canAcceptNonLocalWrites := False, rc_stepDownPending := False\<rparr>"
    unfolding leavePrimary_def by (auto simp: bind_eq_Some_conv)
  have "keeps_phase s b" using signal_phase(4) [OF ab(2)] signal_phase(3) [OF ab(1)] by simp
  then show thesis using that ab(3) by blast
qed

lemma resume_idle:
  assumes "resumeReplication s = Some s2" "\<not> rc_canAcceptNonLocalWrites s"
  shows "idle s2 \<and> lead_kept (rc_topCoord s) (rc_topCoord s2) \<and> rc_memberState s2 = rc_memberState s"
proof -
  from assms(1) obtain u where u: "if rc_catchupState s \<noteq> None then CatchupState_abort s = Some u else u = s"
    "s2 = call StartProducerIfStopped (u\<lparr>rc_applierState := ApplierRunning\<rparr>)"
    unfolding resumeReplication_def by (auto simp: bind_eq_Some_conv split: if_splits)
  have "keeps_phase s u" using u(1) abort_phase [OF _ keeps_phase_refl] by (auto split: if_splits)
  moreover have "rc_catchupState u = None"
    using u(1) by (auto simp: CatchupState_abort_def bind_eq_Some_conv split: if_splits)
  ultimately show ?thesis using assms(2) u(2) by (simp add: idle_def keeps_phase_def call_def)
qed

lemma getMemberState_primary: "getMemberState t = Some RS_PRIMARY \<Longrightarrow> t_followerMode t \<noteq> RS_PRIMARY \<Longrightarrow> t_role t = RoleLeader"
  by (auto simp: getMemberState_def roleState_def bind_eq_Some_conv Let_def split: if_splits)

text \<open>
  The update of the member state in three parts: leaving the old state, the flags and snapshots between, the
  new state with its timer.
\<close>

lemma updateMember_cases:
  assumes "updateMemberStateFromTopologyCoordinator env s = Some (a, s')"
  obtains (same) "getMemberState (rc_topCoord s) = Some (rc_memberState s)" "s' = s"
  | (moved) n s2 u x where "getMemberState (rc_topCoord s) = Some n" "n \<noteq> rc_memberState s"
      "leaveState n s = Some s2"
      "keeps_phase s2 u" "rc_topCoord u = rc_topCoord s2" "rc_catchupState u = rc_catchupState s2" "s' = u\<lparr>rc_memberState := n, rc_electionTimer := x\<rparr>"
proof -
  from assms obtain n where n: "getMemberState (rc_topCoord s) = Some n"
    by (auto simp: updateMemberStateFromTopologyCoordinator_def bind_eq_Some_conv)
  show thesis
  proof (cases "n = rc_memberState s")
    case True
    then show ?thesis using assms n same by (auto simp: updateMemberStateFromTopologyCoordinator_def bind_eq_Some_conv split: if_splits)
  next
    case False
    let ?u = "\<lambda>s2. snapshotsOnTransition (rc_memberState s) n (admitReads (rc_memberState s) n s2)"
    obtain s2 where st: "leaveState n s = Some s2" "cancelAndRescheduleElectionTimeout env ((?u s2)\<lparr>rc_memberState := n\<rparr>) = Some s'"
      using assms n False unfolding updateMemberStateFromTopologyCoordinator_def
      by (auto simp: bind_eq_Some_conv Let_def split: if_split_asm)
    obtain x where x: "s' = (?u s2)\<lparr>rc_memberState := n\<rparr>\<lparr>rc_electionTimer := x\<rparr>" using electionTimer_frame [OF st(2)] by blast
    have u: "keeps_phase s2 (?u s2)" "rc_topCoord (?u s2) = rc_topCoord s2" "rc_catchupState (?u s2) = rc_catchupState s2"
      by (simp_all add: snapshotsOnTransition_def admitReads_def dropAllSnapshots_def call_def)
    show ?thesis by (rule moved [OF n False st(1) u]) (simp add: x)
  qed
qed

lemma leaveState_idle:
  assumes "leaveState n s = Some s2" "phase_ok strict s"
  shows "idle s2 \<and> lead_kept (rc_topCoord s) (rc_topCoord s2)"
proof -
  from assms(1) obtain s1 where s1: "if closesConnections (rc_memberState s) n then leavePrimary s = Some s1 else s1 = s"
    "if rc_memberState s = RS_PRIMARY then resumeReplication s1 = Some s2 else s2 = s1"
    unfolding leaveState_def by (auto simp: bind_eq_Some_conv split: if_split_asm)
  have lead: "lead_kept (rc_topCoord s) (rc_topCoord s1)" and out: "rc_memberState s = RS_PRIMARY \<Longrightarrow> \<not> rc_canAcceptNonLocalWrites s1"
    and off: "rc_memberState s \<noteq> RS_PRIMARY \<Longrightarrow> idle s1"
    using s1(1) assms(2) by (auto simp: closesConnections_def idle_def phase_ok_def keeps_phase_def lead_frame.keeps_refl
        elim!: leavePrimary_idle split: if_split_asm)
  show ?thesis
  proof (cases "rc_memberState s = RS_PRIMARY")
    case True
    then show ?thesis using resume_idle [of s1 s2] s1(2) out lead lead_frame.keeps_trans by fastforce
  next
    case False
    then show ?thesis using s1(2) off lead by simp
  qed
qed

lemma updateMember_role:
  assumes "updateMemberStateFromTopologyCoordinator env s = Some (a, s')" "phase_ok strict s" "t_followerMode (rc_topCoord s) \<noteq> RS_PRIMARY"
  shows "role_ok strict s' \<and> (rc_memberState s \<noteq> RS_PRIMARY \<longrightarrow> idle s')"
  using assms(1)
proof (cases rule: updateMember_cases)
  case same
  then show ?thesis using assms(2,3) getMemberState_primary by (auto simp: role_ok_def phase_ok_def idle_def)
next
  case (moved n s2 u x)
  have "idle s'" "lead_kept (rc_topCoord s) (rc_topCoord s')" "rc_memberState s' = n"
    using leaveState_idle [OF moved(3) assms(2)] moved(4-7) by (auto simp: idle_def keeps_phase_def)
  moreover have "n = RS_PRIMARY \<Longrightarrow> t_role (rc_topCoord s) = RoleLeader" using getMemberState_primary assms(3) moved(1) by blast
  ultimately show ?thesis using assms(3) by (auto simp: role_ok_def phase_ok_def idle_def lead_kept_def)
qed

lemma catchupStart_phase: "CatchupState_start env t = Some t' \<Longrightarrow> keeps_phase t t'"
  unfolding CatchupState_start_def Let_def
  by (auto simp: bind_eq_Some_conv lead_frame.keeps_refl keeps_phase_def [of t "t\<lparr>rc_catchupState := x\<rparr>" for x]
      split: if_split_asm dest: abort_phase [OF _ keeps_phase_refl])

text \<open>A node may win although it is primary already; then it does not start from an idle phase.\<close>

lemma winElection_phase:
  assumes "winElection env s = Some s'" "phase_ok strict s" "t_followerMode (rc_topCoord s) \<noteq> RS_PRIMARY"
    and new: "strict \<Longrightarrow> rc_memberState s \<noteq> RS_PRIMARY"
  shows "role_ok strict s'"
proof -
  from assms(1) obtain eid t1 a s1 s2 where w:
    "processWinElection eid (e_timestamp env) (rc_topCoord s) = Some t1"
    "updateMemberStateFromTopologyCoordinator env (s\<lparr>rc_electionId := eid, rc_topCoord := t1\<rparr>) = Some (a, s1)"
    "performSimpleAction a s1 = Some s2"
    "if rc_memberState s2 \<noteq> RS_PRIMARY then s' = s2
     else if rc_isV1ElectionProtocol (rc_restartHeartbeats env s2)
     then CatchupState_start env ((rc_restartHeartbeats env s2)\<lparr>rc_catchupState := Some \<lparr>cu_timeout = None, cu_waiter = None\<rparr>\<rparr>) = Some s'
     else s' = enterDrainMode (rc_restartHeartbeats env s2)"
    unfolding winElection_def Let_def by (auto simp: bind_eq_Some_conv split: if_split_asm)
  have "t_followerMode t1 = t_followerMode (rc_topCoord s)"
    using w(1) by (auto simp: processWinElection_def setElectionInfo_def bind_eq_Some_conv split: if_split_asm)
  then have "phase_ok strict (s\<lparr>rc_electionId := eid, rc_topCoord := t1\<rparr>)" "t_followerMode t1 \<noteq> RS_PRIMARY"
    using assms(2,3) by (auto simp: phase_ok_def)
  then have s1: "role_ok strict s1" "strict \<longrightarrow> idle s1" using updateMember_role [OF w(2), of strict] new by auto
  have s2: "role_ok strict s2" "strict \<longrightarrow> idle s2"
    using s1 simpleAction_phase [OF w(3) keeps_phase_refl] keeps_phase_role by (auto simp: keeps_phase_def idle_def)
  define s3 where "s3 = rc_restartHeartbeats env s2"
  have "keeps_phase s2 s3" by (simp add: s3_def)
  then have s3: "role_ok strict s3" "strict \<longrightarrow> idle s3" "rc_memberState s3 = rc_memberState s2"
    using s2 keeps_phase_role by (auto simp: keeps_phase_def idle_def)
  consider "s' = s2" | "CatchupState_start env (s3\<lparr>rc_catchupState := Some \<lparr>cu_timeout = None, cu_waiter = None\<rparr>\<rparr>) = Some s'" "rc_memberState s2 = RS_PRIMARY"
    | "s' = enterDrainMode s3" "rc_memberState s2 = RS_PRIMARY"
    using w(4) by (auto simp: s3_def split: if_split_asm)
  then show ?thesis
  proof cases
    case 2
    have "role_ok strict (s3\<lparr>rc_catchupState := Some \<lparr>cu_timeout = None, cu_waiter = None\<rparr>\<rparr>)"
      using s3 2(2) by (auto simp: role_ok_def phase_ok_def idle_def)
    then show ?thesis by (rule keeps_phase_role) (rule catchupStart_phase [OF 2(1)])
  next
    case 3
    then show ?thesis using s3 by (auto simp: enterDrainMode_def call_def role_ok_def phase_ok_def idle_def)
  qed (use s2 in simp)
qed

lemma winElection_candidate: "winElection env s = Some s' \<Longrightarrow> t_role (rc_topCoord s) = RoleCandidate"
  unfolding winElection_def processWinElection_def by (simp add: bind_eq_Some_conv Let_def split: if_split_asm)

lemma winElection_role: "winElection env s = Some s' \<Longrightarrow> role_ok strict s \<Longrightarrow> role_ok strict s'"
  by (rule winElection_phase) (auto simp: role_ok_def dest: winElection_candidate)

lemma performPost_role: "performPostMemberStateUpdateAction env a s = Some s' \<Longrightarrow> role_ok strict s \<Longrightarrow> role_ok strict s'"
  unfolding performPostMemberStateUpdateAction_def
  by (auto split: if_split_asm intro: winElection_role keeps_phase_role [OF _ simpleAction_phase [OF _ keeps_phase_refl]])

lemma updateAndAct_role:
  "updateAndAct env s = Some s' \<Longrightarrow> phase_ok strict s \<Longrightarrow> t_followerMode (rc_topCoord s) \<noteq> RS_PRIMARY \<Longrightarrow> role_ok strict s'"
  unfolding updateAndAct_def by (auto simp: bind_eq_Some_conv intro: performPost_role dest: updateMember_role)

section \<open>Handlers that keep the phase\<close>

lemma prepareForStepDown_lead [simp]: "lead_kept t (prepareForStepDown u) = lead_kept t u"
  by (simp add: lead_kept_def prepareForStepDown_def)

lemma updateTerm_phase [phase_intros]:
  "rc_updateTerm_incallback env n t = Some (r, t') \<Longrightarrow> keeps_phase s t \<Longrightarrow> keeps_phase s t'"
proof -
  have "lead_kept u u'" if "updateTerm n now u = Some (q, u')" for now u q u'
    using vote_lead(2) [of n now u] that by (simp add: ensures_def)
  then show "rc_updateTerm_incallback env n t = Some (r, t') \<Longrightarrow> keeps_phase s t \<Longrightarrow> keeps_phase s t'"
    unfolding rc_updateTerm_incallback_def
    by (auto simp: bind_eq_Some_conv split: if_split_asm dest!: electionTimer_frame intro!: phase_topology)
qed

lemma metadata_phase [phase_intros]:
  "processReplSetMetadata env md t = Some t' \<Longrightarrow> keeps_phase s t \<Longrightarrow> keeps_phase s t'"
  "processResponseMetadata env mdo t = Some (st, t') \<Longrightarrow> keeps_phase s t \<Longrightarrow> keeps_phase s t'"
proof -
  show m: "processReplSetMetadata env md t = Some t' \<Longrightarrow> keeps_phase s t \<Longrightarrow> keeps_phase s t'" for md t t'
    unfolding processReplSetMetadata_def by (auto split: if_split_asm dest: updateTerm_phase)
  show "processResponseMetadata env mdo t = Some (st, t') \<Longrightarrow> keeps_phase s t \<Longrightarrow> keeps_phase s t'"
    unfolding processResponseMetadata_def
    by (auto simp: bind_eq_Some_conv split: if_split_asm option.split_asm dest!: m learn_phase)
qed

lemma responseProgress_phase [phase_intros]:
  "progressFromResponse env a i resp t = Some t' \<Longrightarrow> keeps_phase s t \<Longrightarrow> keeps_phase s t'"
  unfolding progressFromResponse_def
  by (auto split: if_split_asm option.split_asm sum.split_asm dest!: heartbeatOpTimes_phase(1))

lemma scheduleReconfig_phase [phase_intros]:
  "scheduleHeartbeatReconfig c t = Some t' \<Longrightarrow> keeps_phase s t \<Longrightarrow> keeps_phase s t'"
  unfolding scheduleHeartbeatReconfig_def by (auto simp: bind_eq_Some_conv split: if_split_asm)

lemma action_phase:
  assumes "handleHeartbeatResponseAction env a c m t = Some t'" "a_action a = NoAction \<Longrightarrow> m" "keeps_phase s t"
  shows "keeps_phase s t'"
proof (cases "a_action a")
  case Reconfig
  then show ?thesis using assms by (auto simp: handleHeartbeatResponseAction_def bind_eq_Some_conv dest: scheduleReconfig_phase)
next
  case StartElection
  then obtain x rq u where "startElectSelf (rc_rsConfigState t = kConfigSteady) x (rc_topCoord t) = Some (rq, u)" "t' = t\<lparr>rc_topCoord := u\<rparr>"
    using assms(1) by (auto simp: handleHeartbeatResponseAction_def bind_eq_Some_conv split: if_split_asm)
  then show ?thesis using assms(3) startElection_lead(2) phase_topology by blast
next
  case StepDownSelf
  then show ?thesis using assms(1,3)
    by (auto simp: handleHeartbeatResponseAction_def lead_frame.keeps_refl split: if_split_asm intro!: phase_topology)
next
  case PriorityTakeover
  then have "\<exists>x. t' = t \<or> t' = t\<lparr>rc_priorityTakeover := x\<rparr>" using assms(1)
    by (simp add: handleHeartbeatResponseAction_def bind_eq_Some_conv split: if_split_asm) metis+
  then show ?thesis using assms(3) by auto
next
  case NoAction
  then show ?thesis using assms by (simp add: handleHeartbeatResponseAction_def bind_eq_Some_conv split: if_split_asm)
next
  case StepDownRemotePrimary
  then show ?thesis using assms(1,3) by (auto simp: handleHeartbeatResponseAction_def bind_eq_Some_conv split: if_split_asm)
qed

lemma liveness_phase [phase_intros]: "handleLivenessTimeout env t = Some t' \<Longrightarrow> keeps_phase s t \<Longrightarrow> keeps_phase s t'"
proof -
  have "lead_kept u u'" if "setMemberAsDown now i x u = Some (a, u')" for now i x u a u'
    using lead_frame.memberDown_keeps [of now i x u] that by (simp add: ensures_def)
  then have "keeps_phase s t'" if "livenessCheck env i t = Some t'" "keeps_phase s t" for i t t'
    using that unfolding livenessCheck_def
    by (auto simp: bind_eq_Some_conv Let_def split: if_split_asm elim!: action_phase intro!: phase_topology)
  then show "handleLivenessTimeout env t = Some t' \<Longrightarrow> keeps_phase s t \<Longrightarrow> keeps_phase s t'"
    unfolding handleLivenessTimeout_def
    by (auto simp: bind_eq_Some_conv Let_def split: if_split_asm elim!: foldM_phase [rotated])
qed

lemma electSelf_phase [phase_intros]:
  assumes "startElectSelfIfEligibleV1 env reason t = Some (rq, t')" "keeps_phase s t"
  shows "keeps_phase s t'"
proof -
  have b: "lead_kept u u'" if "becomeCandidateIfElectable now x tk u = Some (st, u')" for now x tk u st u'
    using lead_frame.becomeCandidate_keeps [of now x tk u] that by (simp add: ensures_def)
  have k: "keeps_phase s s1" if "cancelAndRescheduleElectionTimeout env (cancelPriorityTakeover t) = Some s1" for s1
    using electionTimer_phase [OF that] assms(2) by simp
  have "(\<exists>s1. cancelAndRescheduleElectionTimeout env (cancelPriorityTakeover t) = Some s1 \<and> (t' = s1 \<or>
      (\<exists>x st u. becomeCandidateIfElectable (e_now env) x (reason = kPriorityTakeover) (rc_topCoord s1) = Some (st, u) \<and>
        (t' = s1\<lparr>rc_topCoord := u\<rparr> \<or> rc_startElectSelfV1 (s1\<lparr>rc_topCoord := u\<rparr>) = Some (rq, t'))))) \<or> t' = t"
    using assms(1) unfolding startElectSelfIfEligibleV1_def by (simp add: bind_eq_Some_conv split: if_split_asm) (auto split: if_split_asm)
  then show ?thesis using assms(2) k b startElectSelf_phase phase_topology by (elim disjE exE conjE) metis+
qed

lemma noteLiveness_phase [phase_intros]: "noteLiveness env n t = Some t' \<Longrightarrow> keeps_phase s t \<Longrightarrow> keeps_phase s t'"
  unfolding noteLiveness_def by (auto simp: bind_eq_Some_conv split: option.split_asm)

lemma answer_phase [phase_intros]:
  "rc_processHeartbeat env name args t = Some (st, r, t') \<Longrightarrow> keeps_phase s t \<Longrightarrow> keeps_phase s t'"
  "rc_processHeartbeatV1 env name args t = Some (st, r, t') \<Longrightarrow> keeps_phase s t \<Longrightarrow> keeps_phase s t'"
proof -
  have b: "lead_kept u u'" if "prepareHeartbeatResponse now args name a d u = Some (st, r, u') \<or>
      prepareHeartbeatResponseV1 now args name a d u = Some (st, r, u')" for now a d u st r u'
    using lead_frame.heartbeatAnswer_keeps [of now args name a d u] that by (auto simp: ensures_def)
  show "rc_processHeartbeat env name args t = Some (st, r, t') \<Longrightarrow> keeps_phase s t \<Longrightarrow> keeps_phase s t'"
    unfolding rc_processHeartbeat_def by (auto simp: bind_eq_Some_conv Let_def split: if_split_asm intro!: phase_topology b)
  show "rc_processHeartbeatV1 env name args t = Some (st, r, t') \<Longrightarrow> keeps_phase s t \<Longrightarrow> keeps_phase s t'"
    unfolding rc_processHeartbeatV1_def
    by (auto simp: bind_eq_Some_conv Let_def split: if_split_asm dest!: noteLiveness_phase intro!: phase_topology b)
qed

lemma slave_phase [phase_intros]:
  "setLastOptimeForSlave now rid ts t = Some (st, t') \<Longrightarrow> keeps_phase s t \<Longrightarrow> keeps_phase s t'"
  unfolding setLastOptimeForSlave_def addSlaveInfo_def
  by (auto simp: bind_eq_Some_conv split: if_split_asm option.split_asm dest!: progress_phase(1) updateCommit_phase signal_phase(1))

lemma command_phase [phase_intros]:
  "processReplSetReconfig_begin force t = Some (b, t') \<Longrightarrow> keeps_phase s t \<Longrightarrow> keeps_phase s t'"
  "processReplSetInitiate_begin t = Some (b, t') \<Longrightarrow> keeps_phase s t \<Longrightarrow> keeps_phase s t'"
  "heartbeatReconfigStore sp f stored c t = Some (q, t') \<Longrightarrow> keeps_phase s t \<Longrightarrow> keeps_phase s t'"
  "startup_begin rid t = Some t' \<Longrightarrow> keeps_phase s t \<Longrightarrow> keeps_phase s t'"
  "shutdown_signal t = Some t' \<Longrightarrow> keeps_phase s t \<Longrightarrow> keeps_phase s t'"
  unfolding processReplSetReconfig_begin_def processReplSetInitiate_begin_def heartbeatReconfigStore_def startup_begin_def shutdown_signal_def
  by (auto simp: bind_eq_Some_conv Let_def split: ConfigState.split_asm if_split_asm dest!: signal_phase)

lemma more_command_phase [phase_intros]:
  "keeps_phase s t \<Longrightarrow> keeps_phase s (snd (processReplSetReconfig_end checked t))"
  "startup_load b lv lc t = Some t' \<Longrightarrow> keeps_phase s t \<Longrightarrow> keeps_phase s t'"
  "shutdown_begin t = Some (c, t') \<Longrightarrow> keeps_phase s t \<Longrightarrow> keeps_phase s t'"
  "abortCatchupIfNeeded t = Some (st, t') \<Longrightarrow> keeps_phase s t \<Longrightarrow> keeps_phase s t'"
  "catchupTimedOut t = Some t' \<Longrightarrow> keeps_phase s t \<Longrightarrow> keeps_phase s t'"
proof -
  have "lead_kept u (startLoadLocalConfig lv (setStorageEngineSupportsReadCommitted b u))" for u
    by (simp add: lead_kept_def startLoadLocalConfig_def loadLastVote_def setStorageEngineSupportsReadCommitted_def split: option.split)
  then show "startup_load b lv lc t = Some t' \<Longrightarrow> keeps_phase s t \<Longrightarrow> keeps_phase s t'"
    unfolding startup_load_def Let_def by (auto split: option.split_asm if_split_asm intro!: phase_topology)
qed (auto simp: processReplSetReconfig_end_def shutdown_begin_def abortCatchupIfNeeded_def catchupTimedOut_def bind_eq_Some_conv
    split: sum.split if_split_asm intro: command_phase abort_phase)

lemma drain_phase [phase_intros]:
  "keeps_phase s t \<Longrightarrow> keeps_phase s (snd (signalDrainComplete_begin t))"
  "signalDrainComplete_finish x t = Some t' \<Longrightarrow> keeps_phase s t \<Longrightarrow> keeps_phase s t'"
  by (auto simp: signalDrainComplete_begin_def signalDrainComplete_finish_def bind_eq_Some_conv dest!: updateCommit_phase)

section \<open>Handlers that may change the role\<close>

lemma role_keeps: "keeps_phase s s' \<Longrightarrow> role_ok strict s \<Longrightarrow> role_ok strict s'"
  by (rule keeps_phase_role)

lemma role_okD: "role_ok strict s \<Longrightarrow> phase_ok strict s" "role_ok strict s \<Longrightarrow> t_followerMode (rc_topCoord s) \<noteq> RS_PRIMARY"
  by (simp_all add: role_ok_def)

lemma updateConfig_follower: "updateConfig c i now t = Some t' \<Longrightarrow> t_followerMode t' = t_followerMode t"
  by (auto simp: updateConfig_def updateHeartbeatDataForReconfig_def bind_eq_Some_conv Let_def split: if_split_asm)

lemma phase_ok_upd [simp]:
  "phase_ok strict (s\<lparr>rc_topCoord := t, rc_cachedTerm := n, rc_rsConfig := c, rc_selfIndex := i\<rparr>) = phase_ok strict s"
  "phase_ok strict (s\<lparr>rc_topCoord := t\<rparr>) = phase_ok strict s"
  by (simp_all add: phase_ok_def)

lemma keeps_phase_ok:
  "keeps_phase s s' \<Longrightarrow> phase_ok strict s \<Longrightarrow> phase_ok strict s'"
  "keeps_phase s s' \<Longrightarrow> t_followerMode (rc_topCoord s') = t_followerMode (rc_topCoord s)"
  by (auto simp: keeps_phase_def phase_ok_def lead_kept_def)

lemma slaveInfoFromConfig_phase [phase_intros]: "updateSlaveInfoFromConfig t = Some t' \<Longrightarrow> keeps_phase s t \<Longrightarrow> keeps_phase s t'"
  unfolding updateSlaveInfoFromConfig_def by (auto split: if_split_asm list.split_asm)

lemma newElectionId_phase [phase_intros]: "newElectionId env c d t = Some t' \<Longrightarrow> keeps_phase s t \<Longrightarrow> keeps_phase s t'"
  unfolding newElectionId_def
  by (auto simp: bind_eq_Some_conv setElectionInfo_def lead_kept_def Let_def split: if_split_asm intro!: phase_topology)

lemma setCurrentRSConfig_role:
  assumes "setCurrentRSConfig env c i s = Some (a, s')" "role_ok strict s"
  shows "role_ok strict s'"
proof -
  from assms(1) obtain x t1 s3 s4 s5 s7 s8 where st:
    "updateConfig c i (e_now env) (rc_topCoord (setConfigState kConfigSteady (cancelHeartbeats s))) = Some t1"
    "cancelAndRescheduleElectionTimeout env (cancelPriorityTakeover ((setConfigState kConfigSteady (cancelHeartbeats s))
       \<lparr>rc_topCoord := t1, rc_cachedTerm := t_term t1, rc_rsConfig := c, rc_selfIndex := i\<rparr>)) = Some s3"
    "updateMemberStateFromTopologyCoordinator env s3 = Some (a, s4)" "updateSlaveInfoFromConfig s4 = Some s5"
    "updateLastCommittedOpTime (if rc_selfIndex s5 \<ge> 0 then startHeartbeats env s5 else s5) = Some s7"
    "newElectionId env (rc_rsConfig s) c s7 = Some s8" "wakeReadyWaiters s8 = Some s'"
    unfolding setCurrentRSConfig_def
    by (cases "rs_usingReplSets (rc_settings s)") (clarsimp simp: bind_eq_Some_conv Let_def simp del: if_split, blast?)+
  let ?s1 = "setConfigState kConfigSteady (cancelHeartbeats s)"
  have s1: "phase_ok strict ?s1" "t_followerMode (rc_topCoord ?s1) \<noteq> RS_PRIMARY"
    using role_okD [OF assms(2)] keeps_phase_ok [of s ?s1] by simp_all
  let ?s2 = "?s1\<lparr>rc_topCoord := t1, rc_cachedTerm := t_term t1, rc_rsConfig := c, rc_selfIndex := i\<rparr>"
  have "keeps_phase ?s2 s3" by (rule electionTimer_phase [OF st(2)]) (simp only: phase_more_funs keeps_phase_refl)
  then have "phase_ok strict s3" "t_followerMode (rc_topCoord s3) \<noteq> RS_PRIMARY"
    using keeps_phase_ok [of ?s2 s3] s1 updateConfig_follower [OF st(1)] by simp_all
  then have "role_ok strict s4" using updateMember_role [OF st(3)] by simp
  moreover have "keeps_phase s4 s5" using slaveInfoFromConfig_phase [OF st(4)] by simp
  then have "keeps_phase s4 s7" using updateCommit_phase [OF st(5)] by simp
  then have "keeps_phase s4 s'" using newElectionId_phase [OF st(6)] signal_phase(1) [OF st(7)] by simp
  ultimately show ?thesis by (rule keeps_phase_role)
qed

lemma role_frame [simp]:
  "role_ok strict (dropAllSnapshots s) = role_ok strict s" "role_ok strict (call x s) = role_ok strict s" "role_ok strict (setConfigState cs s) = role_ok strict s"
  by (simp_all add: dropAllSnapshots_def call_def role_ok_def phase_ok_def setConfigState_def)

lemma actOrWait_role: "actOrWait env c d a s = Some (q, s') \<Longrightarrow> role_ok strict s \<Longrightarrow> role_ok strict s'"
  unfolding actOrWait_def by (auto simp: bind_eq_Some_conv split: if_split_asm dest: performPost_role)

lemma install_role:
  "finishReplSetReconfig env c i s = Some (q, s') \<Longrightarrow> role_ok strict s \<Longrightarrow> role_ok strict s'"
  "finishReplSetInitiate env c i s = Some s' \<Longrightarrow> role_ok strict s \<Longrightarrow> role_ok strict s'"
  "heartbeatReconfigFinish env l c r s = Some (q, s') \<Longrightarrow> role_ok strict s \<Longrightarrow> role_ok strict s'"
  unfolding finishReplSetReconfig_def finishReplSetInitiate_def heartbeatReconfigFinish_def
  by (auto simp: bind_eq_Some_conv split: if_split_asm dest!: setCurrentRSConfig_role actOrWait_role performPost_role)

lemma role_topology: "lead_kept (rc_topCoord s) t \<Longrightarrow> role_ok strict s \<Longrightarrow> role_ok strict (s\<lparr>rc_topCoord := t\<rparr>)"
  by (auto simp: role_ok_def phase_ok_def lead_kept_def)

lemma responseAction_role:
  assumes "handleHeartbeatResponseAction env a c m s = Some s'" "role_ok strict s"
  shows "role_ok strict s'"
proof (cases "a_action a = NoAction \<and> \<not> m")
  case True
  then show ?thesis using assms
    by (auto simp: handleHeartbeatResponseAction_def bind_eq_Some_conv split: if_split_asm
        intro: updateAndAct_role [OF _ role_okD])
next
  case False
  then show ?thesis using action_phase [OF assms(1) _ keeps_phase_refl] keeps_phase_role [OF assms(2)] by blast
qed

lemma heartbeatResponse_role:
  assumes "handleHeartbeatResponse env target i rtt failure resp0 md c s = Some s'" "role_ok strict s"
  shows "role_ok strict s'"
proof -
  from assms(1) obtain st s1 resp applied s2 a t s3 s5 where h:
    "(case resp0 of Inl e \<Rightarrow> Some (Some e, s) | Inr _ \<Rightarrow> processResponseMetadata env md s) = Some (st, s1)"
    "(case resp of Inl _ \<Rightarrow> Some s1
      | Inr r \<Rightarrow> do { (u, s2) \<leftarrow> rc_updateTerm_incallback env (r_term r) s1;
                     if r_state r = Some RS_PRIMARY \<and> r_term r = t_term (rc_topCoord s2)
                     then cancelAndRescheduleElectionTimeout env s2 else Some s2 }) = Some s2"
    "processHeartbeatResponse (e_now env) (if isl resp then 0 else rtt) target failure resp applied (rc_topCoord s2) = Some (a, t)"
    "progressFromResponse env a i resp (s2\<lparr>rc_topCoord := t\<rparr>) = Some s3"
    "(if rc_catchupState (call NotifyStepDownWaiters s3) \<noteq> None then CatchupState_signalHeartbeatUpdate (call NotifyStepDownWaiters s3)
      else Some (call NotifyStepDownWaiters s3)) = Some s5"
    "handleHeartbeatResponseAction env a c False (call (SendHeartbeat target i (max (e_now env) (a_nextHeartbeatStartDate a))) s5) = Some s'"
    unfolding handleHeartbeatResponse_def by (clarsimp simp: bind_eq_Some_conv Let_def simp del: if_split)
  have "keeps_phase s s1" using h(1) by (auto split: sum.split_asm intro: metadata_phase(2))
  then have "keeps_phase s s2" using h(2)
    by (auto simp: bind_eq_Some_conv split: sum.split_asm if_split_asm dest!: updateTerm_phase dest: electionTimer_phase)
  moreover have "lead_kept (rc_topCoord s2) t"
    using lead_frame.heartbeatResponse_keeps h(3) by (force simp: ensures_def)
  ultimately have "keeps_phase s (s2\<lparr>rc_topCoord := t\<rparr>)" by (blast intro: phase_topology)
  then have "keeps_phase s s3" by (rule responseProgress_phase [OF h(4)])
  then have "keeps_phase s s5" using h(5) by (auto split: if_split_asm dest!: catchup_phase)
  then have "role_ok strict s5" by (rule keeps_phase_role [OF assms(2)])
  then show ?thesis by (intro responseAction_role [OF h(6)]) simp
qed

lemma stepDown_follower:
  "stepDown u f x t = Some (ok, t') \<Longrightarrow> t_followerMode t' = t_followerMode t \<and> (\<not> ok \<longrightarrow> t' = t)"
  "stepDownIfPending t = Some (ok, t') \<Longrightarrow> t_followerMode t' = t_followerMode t \<and> (\<not> ok \<longrightarrow> t' = t)"
  by (auto simp: stepDown_def stepDownIfPending_def stepDownSelfAndReplaceWith_def bind_eq_Some_conv Let_def split: if_split_asm list.split_asm)

lemma tryToStepDown_phase:
  assumes "tryToStepDown now w u f s = Some (r, s')" "role_ok strict s"
  shows "phase_ok strict s' \<and> t_followerMode (rc_topCoord s') \<noteq> RS_PRIMARY \<and> (r \<noteq> Inr True \<longrightarrow> role_ok strict s')"
  using assms unfolding tryToStepDown_def
  by (auto simp: bind_eq_Some_conv split: if_split_asm dest!: stepDown_follower dest: role_okD)

lemma stepDown_role:
  "stepDown_attempt env b w u f s = Some (r, s') \<Longrightarrow> role_ok strict s \<Longrightarrow> role_ok strict s'"
  "rc_stepDown env g f wt st s = Some (r, s') \<Longrightarrow> role_ok strict s \<Longrightarrow> role_ok strict s'"
  "stepDownFinish env s = Some s' \<Longrightarrow> role_ok strict s \<Longrightarrow> role_ok strict s'"
proof -
  show a: "role_ok strict s'" if at: "stepDown_attempt env b w u f s = Some (r, s')" and ok: "role_ok strict s" for b w u
  proof -
    from at obtain r1 s1 where t: "tryToStepDown (e_now env) w u f s = Some (r1, s1)"
      by (auto simp: stepDown_attempt_def bind_eq_Some_conv)
    note s1 = tryToStepDown_phase [OF t ok]
    show ?thesis
    proof (cases "r1 = Inr True")
      case True
      then obtain s2 where "updateAndAct env s1 = Some s2" "s' = s2 \<or> s' = call (ScheduleTimePassing u) s2"
        using at t by (auto simp: stepDown_attempt_def bind_eq_Some_conv split: if_split_asm)
      then show ?thesis using updateAndAct_role s1 by auto
    next
      case False
      then have "keeps_phase s1 s'"
        using at t by (auto simp: stepDown_attempt_def split: sum.split_asm bool.split_asm if_split_asm)
      then show ?thesis using s1 False keeps_phase_role by blast
    qed
  qed
  show "rc_stepDown env g f wt st s = Some (r, s') \<Longrightarrow> role_ok strict s \<Longrightarrow> role_ok strict s'"
    unfolding rc_stepDown_def by (auto split: if_split_asm dest: a)
  show "stepDownFinish env s = Some s' \<Longrightarrow> role_ok strict s \<Longrightarrow> role_ok strict s'"
    unfolding stepDownFinish_def
    by (auto simp: bind_eq_Some_conv split: if_split_asm dest!: stepDown_follower(2) dest: role_okD elim!: updateAndAct_role)
qed

lemma mode_role:
  "setFollowerModeFinish env n s = Some (q, s') \<Longrightarrow> role_ok strict s \<Longrightarrow> role_ok strict s'"
  "setMaintenanceMode env b s = Some (st, s') \<Longrightarrow> role_ok strict s \<Longrightarrow> role_ok strict s'"
proof -
  have "t_followerMode t' \<noteq> RS_PRIMARY" if "setFollowerMode n t = Some t'" for t t'
    using that by (auto simp: setFollowerMode_def bind_eq_Some_conv Let_def split: if_split_asm)
  then show "setFollowerModeFinish env n s = Some (q, s') \<Longrightarrow> role_ok strict s \<Longrightarrow> role_ok strict s'"
    unfolding setFollowerModeFinish_def
    by (auto simp: bind_eq_Some_conv split: if_split_asm dest: role_okD elim!: updateAndAct_role)
  have "t_followerMode t' = t_followerMode t" if "adjustMaintenanceCountBy x t = Some t'" for x t t'
    using that by (auto simp: adjustMaintenanceCountBy_def Let_def split: if_split_asm)
  then show "setMaintenanceMode env b s = Some (st, s') \<Longrightarrow> role_ok strict s \<Longrightarrow> role_ok strict s'"
    unfolding setMaintenanceMode_def
    by (auto simp: bind_eq_Some_conv split: if_split_asm dest: role_okD elim!: updateAndAct_role)
qed

lemma freeze_role:
  assumes "processReplSetFreeze env n s = Some (st, s')" "role_ok strict s"
  shows "role_ok strict s'"
proof -
  from assms(1) obtain r t where t: "prepareFreezeResponse (e_now env) n (rc_topCoord s) = Some (r, t)"
    by (auto simp: processReplSetFreeze_def bind_eq_Some_conv)
  have "s' = s\<lparr>rc_topCoord := t\<rparr> \<or> performPostMemberStateUpdateAction env kActionWinElection (s\<lparr>rc_topCoord := t\<rparr>) = Some s'"
    using assms(1) t by (cases r) (auto simp: processReplSetFreeze_def bind_eq_Some_conv split: PrepareFreezeResponseResult.split_asm)
  moreover have "lead_kept (rc_topCoord s) t" using lead_frame.freeze_keeps [of "e_now env" n "rc_topCoord s"] t by (simp add: ensures_def)
  ultimately show ?thesis using role_topology [OF _ assms(2)] performPost_role by blast
qed

lemma voteComplete_role: "rc_onVoteRequestComplete env n e hs s = Some s' \<Longrightarrow> role_ok strict s \<Longrightarrow> role_ok strict s'"
proof -
  have "lead_kept t t'" if "processLoseElection t = Some t'" for t t'
    using lead_frame.endElection_keeps(2) [of t] that by (simp add: ensures_def)
  moreover have "role_ok strict (s\<lparr>rc_slaveInfo := x, rc_firstOpTimeOfMyTerm := y\<rparr>) = role_ok strict s" for x y by (simp add: role_ok_def phase_ok_def)
  ultimately show "rc_onVoteRequestComplete env n e hs s = Some s' \<Longrightarrow> role_ok strict s \<Longrightarrow> role_ok strict s'"
    unfolding rc_onVoteRequestComplete_def
    by (auto simp: bind_eq_Some_conv split: if_split_asm intro: role_topology dest!: performPost_role)
qed

lemma drainExit_role: "signalDrainComplete_exit n s = Some (b, s') \<Longrightarrow> role_ok strict s \<Longrightarrow> role_ok strict s'"
  unfolding signalDrainComplete_exit_def
  by (auto simp: bind_eq_Some_conv Let_def call_def role_ok_def phase_ok_def split: if_split_asm)

text \<open>The timer of a step down does not expect a node that is primary again and the only member of its set.\<close>

lemma timePassing_role:
  assumes "handleTimePassing env s = Some s'" "role_ok strict s"
    and new: "strict \<Longrightarrow> rc_memberState s = RS_PRIMARY \<Longrightarrow> t_stepDownUntil (rc_topCoord s) \<le> e_now env \<Longrightarrow>
      isElectableNodeInSingleNodeReplicaSet (rc_topCoord s) \<noteq> Some True"
  shows "role_ok strict s'"
proof -
  consider "s' = s" | "winElection env (s\<lparr>rc_topCoord := (rc_topCoord s)\<lparr>t_role := RoleCandidate\<rparr>\<rparr>) = Some s'"
      "t_stepDownUntil (rc_topCoord s) \<le> e_now env" "isElectableNodeInSingleNodeReplicaSet (rc_topCoord s) = Some True"
    using assms(1) by (auto simp: handleTimePassing_def becomeCandidateIfStepdownPeriodOverAndSingleNodeSet_def
        performPostMemberStateUpdateAction_def bind_eq_Some_conv split: if_split_asm)
  then show ?thesis
  proof cases
    case 2
    then show ?thesis using winElection_phase [OF 2(1), of strict] role_okD [OF assms(2)] new by auto
  qed (use assms(2) in simp)
qed

lemma initiateEnd_role:
  assumes "processReplSetInitiate_end env r s = Some (st, s')" "role_ok strict s"
  shows "role_ok strict s'"
proof (cases r)
  case (Inr p)
  then obtain x s1 s2 c i where "setMyLastDurableOpTime (e_now env) x s = Some s1" "finishReplSetInitiate env c i s1 = Some s2"
    "s' = call StartDataReplication s2"
    using assms(1) by (cases p) (auto simp: processReplSetInitiate_end_def bind_eq_Some_conv split: if_split_asm)
  then show ?thesis using install_role(2) keeps_phase_role [OF assms(2) setMy_phase(2) [OF _ keeps_phase_refl]] by simp
qed (use assms in \<open>auto simp: processReplSetInitiate_end_def\<close>)

lemma loadLocal_role:
  assumes "rc_finishLoadLocalConfig env sp f name c l lv s = Some s'" "role_ok strict s"
  shows "role_ok strict s'"
proof -
  from assms(1) obtain i a s1 o1 s2 r s4 s5 n q where h: "setCurrentRSConfig env c i s = Some (a, s1)"
    "(if ot_isNull o1 then Some s1
      else do { a \<leftarrow> rc_setMyLastAppliedOpTime (e_now env) o1 False s1;
                b \<leftarrow> rc_setMyLastDurableOpTime (e_now env) o1 False a;
                Some (reportUpstream b) }) = Some s2"
    "rc_updateTerm_incallback env n (call (SetGlobalTimestamp (ot_timestamp o1)) s2) = Some (r, s4)"
    "performPostMemberStateUpdateAction env a s4 = Some s5" "s' = (if q then s5 else call StartDataReplication s5)"
    unfolding rc_finishLoadLocalConfig_def
    by (cases "rc_rsConfigState s = kConfigStartingUp") (clarsimp simp: bind_eq_Some_conv Let_def simp del: if_split, blast?)+
  have "role_ok strict s1" by (rule setCurrentRSConfig_role [OF h(1) assms(2)])
  moreover have "keeps_phase s1 s2" using h(2) by (auto simp: bind_eq_Some_conv split: if_split_asm dest!: own_phase)
  then have "keeps_phase s1 s4" by (intro updateTerm_phase [OF h(3)]) simp
  ultimately have "role_ok strict s5" using keeps_phase_role performPost_role [OF h(4)] by blast
  then show ?thesis using h(5) by auto
qed

end
