(* ===== verification/ReplRoleProps.thy ===== *)
theory ReplRoleProps
  imports ReplRole ReplProgressMachine
begin

text \<open>
  The replication coordinator as one state machine: the handlers of a node, the operations on progress and the calls of the
  topology coordinator, in any order. A node accepts writes only as a primary. It has then drained, and the end of the
  drain finds the state it relies on, unless the timer of a step down has gone off on a node that is primary again.
\<close>

section \<open>Machines that keep an invariant\<close>

locale safe_machine =
  fixes ok :: "'op \<Rightarrow> 's \<Rightarrow> bool" and run :: "'op \<Rightarrow> 's \<Rightarrow> 's option" and inv :: "'s \<Rightarrow> bool"
  assumes run_keeps: "inv s \<Longrightarrow> ok x s \<Longrightarrow> run x s = Some s' \<Longrightarrow> inv s'"
begin

lemma runs_keep:
  assumes "inv s" "all_allowed ok run xs s" "foldM run xs s = Some s'"
  shows "inv s'"
  using assms by (induction xs arbitrary: s) (auto simp: bind_eq_Some_conv dest: run_keeps)

end

text \<open>A machine whose operations always return keeps its invariant all the more.\<close>

sublocale total_machine < safe_machine ok run inv
  by unfold_locales (auto simp: returns_def dest: run_returns)

section \<open>The operations of a node\<close>

text \<open>
  The constructors are named after the handlers. \<open>Topology\<close> stands for the calls of the topology coordinator outside
  the handlers below: votes, elections of protocol version 0, sync sources. \<open>Act\<close> is an action that had to wait.
\<close>

datatype CoordOp =
    Topology TopologyOp
  | StartupBegin OID
  | StartupLoad bool "LastVote option" "ReplSetConfig option"
  | FinishLoadLocalConfig Env ServerParams "HostAndPort \<Rightarrow> bool" string ReplSetConfig "OpTime StatusWith" "LastVote option"
  | ReconfigBegin bool
  | ReconfigEnd "(ReplSetConfig \<times> int) StatusWith"
  | ReconfigFinish Env ReplSetConfig int
  | InitiateBegin
  | InitiateEnd Env "(ReplSetConfig \<times> int) StatusWith"
  | HeartbeatReconfigStore ServerParams "HostAndPort \<Rightarrow> bool" Status ReplSetConfig
  | HeartbeatReconfigFinish Env bool ReplSetConfig "int StatusWith"
  | Act Env PostMemberStateUpdateAction
  | HeartbeatResponse Env HostAndPort int Millis string "ReplSetHeartbeatResponse StatusWith" "ReplSetMetadata option" "ReplSetConfig option"
  | LivenessTimeout Env
  | AnswerHeartbeat Env string ReplSetHeartbeatArgs
  | AnswerHeartbeatV1 Env string ReplSetHeartbeatArgs
  | StartElectionV1 Env StartElectionV1Reason
  | VoteRequestComplete Env Term VoteResult "HostAndPort list"
  | UpdateTerm Env Term
  | Metadata Env ReplSetMetadata
  | StepDown Env bool bool Millis Millis
  | StepDownAgain Env Date Date bool
  | StepDownFinish Env
  | TimePassing Env
  | Freeze Env int
  | SetFollowerMode Env MemberState
  | SetMaintenanceMode Env bool
  | AbortCatchup
  | CatchupTimeout
  | DrainBegin
  | DrainExit Term
  | DrainFinish OpTime
  | SlaveOptime Date OID Timestamp
  | Handshake OID HostAndPort
  | ReserveSnapshotName
  | ShutdownBegin
  | ShutdownSignal

primrec rc_run :: "CoordOp \<Rightarrow> ReplCoord \<Rightarrow> ReplCoord option" where
  "rc_run (Topology p) s = map_option (\<lambda>t. s\<lparr>rc_topCoord := t\<rparr>) (tc_run p (rc_topCoord s))"
| "rc_run (StartupBegin rid) s = startup_begin rid s"
| "rc_run (StartupLoad b lv c) s = startup_load b lv c s"
| "rc_run (FinishLoadLocalConfig env sp f name c l lv) s = rc_finishLoadLocalConfig env sp f name c l lv s"
| "rc_run (ReconfigBegin force) s = map_option snd (processReplSetReconfig_begin force s)"
| "rc_run (ReconfigEnd r) s = Some (snd (processReplSetReconfig_end r s))"
| "rc_run (ReconfigFinish env c i) s = map_option snd (finishReplSetReconfig env c i s)"
| "rc_run InitiateBegin s = map_option snd (processReplSetInitiate_begin s)"
| "rc_run (InitiateEnd env r) s = map_option snd (processReplSetInitiate_end env r s)"
| "rc_run (HeartbeatReconfigStore sp f st c) s = map_option snd (heartbeatReconfigStore sp f st c s)"
| "rc_run (HeartbeatReconfigFinish env l c r) s = map_option snd (heartbeatReconfigFinish env l c r s)"
| "rc_run (Act env a) s = performPostMemberStateUpdateAction env a s"
| "rc_run (HeartbeatResponse env h i rtt f r md c) s = handleHeartbeatResponse env h i rtt f r md c s"
| "rc_run (LivenessTimeout env) s = handleLivenessTimeout env s"
| "rc_run (AnswerHeartbeat env name args) s = map_option (snd \<circ> snd) (rc_processHeartbeat env name args s)"
| "rc_run (AnswerHeartbeatV1 env name args) s = map_option (snd \<circ> snd) (rc_processHeartbeatV1 env name args s)"
| "rc_run (StartElectionV1 env r) s = map_option snd (startElectSelfIfEligibleV1 env r s)"
| "rc_run (VoteRequestComplete env n r hs) s = rc_onVoteRequestComplete env n r hs s"
| "rc_run (UpdateTerm env n) s = map_option snd (rc_updateTerm_incallback env n s)"
| "rc_run (Metadata env md) s = processReplSetMetadata env md s"
| "rc_run (StepDown env g f w d) s = map_option snd (rc_stepDown env g f w d s)"
| "rc_run (StepDownAgain env w u f) s = map_option snd (stepDown_attempt env False w u f s)"
| "rc_run (StepDownFinish env) s = stepDownFinish env s"
| "rc_run (TimePassing env) s = handleTimePassing env s"
| "rc_run (Freeze env n) s = map_option snd (processReplSetFreeze env n s)"
| "rc_run (SetFollowerMode env n) s = map_option snd (setFollowerModeFinish env n s)"
| "rc_run (SetMaintenanceMode env b) s = map_option snd (setMaintenanceMode env b s)"
| "rc_run AbortCatchup s = map_option snd (abortCatchupIfNeeded s)"
| "rc_run CatchupTimeout s = catchupTimedOut s"
| "rc_run DrainBegin s = Some (snd (signalDrainComplete_begin s))"
| "rc_run (DrainExit n) s = map_option snd (signalDrainComplete_exit n s)"
| "rc_run (DrainFinish x) s = signalDrainComplete_finish x s"
| "rc_run (SlaveOptime now rid ts) s = map_option snd (setLastOptimeForSlave now rid ts s)"
| "rc_run (Handshake rid h) s = Some (snd (processHandshake rid h s))"
| "rc_run ReserveSnapshotName s = Some (snd (reserveSnapshotName s))"
| "rc_run ShutdownBegin s = map_option snd (shutdown_begin s)"
| "rc_run ShutdownSignal s = shutdown_signal s"

text \<open>The topology coordinator deposes a leader only within a handler.\<close>

definition rc_allowed :: "CoordOp \<Rightarrow> ReplCoord \<Rightarrow> bool" where
  "rc_allowed x s = (case x of Topology p \<Rightarrow> \<not> deposes p | _ \<Rightarrow> True)"

text \<open>
  The timer that ends a step down period goes off on a primary: the node is the only electable member of its set, became primary
  again before the timer ran out, and the period is over.
\<close>

definition rc_stale :: "CoordOp \<Rightarrow> ReplCoord \<Rightarrow> bool" where
  "rc_stale x s =
     (case x of
        TimePassing env \<Rightarrow>
          rc_memberState s = RS_PRIMARY \<and> t_stepDownUntil (rc_topCoord s) \<le> e_now env \<and>
          isElectableNodeInSingleNodeReplicaSet (rc_topCoord s) = Some True
      | _ \<Rightarrow> False)"

text \<open>A node with its waiting threads does both, handlers and operations on progress.\<close>

datatype NodeOp = Progress ProgressOp | Handler CoordOp

type_synonym Node = "ReplCoord \<times> Threads"

definition node_run :: "NodeOp \<Rightarrow> Node \<Rightarrow> Node option" where
  "node_run x n =
     (case x of Progress p \<Rightarrow> progress_run p n | Handler h \<Rightarrow> map_option (\<lambda>s'. (s', snd n)) (rc_run h (fst n)))"

definition node_allowed :: "NodeOp \<Rightarrow> Node \<Rightarrow> bool" where
  "node_allowed x n = (case x of Progress p \<Rightarrow> True | Handler h \<Rightarrow> rc_allowed h (fst n))"

definition stale_timer :: "NodeOp \<Rightarrow> Node \<Rightarrow> bool" where
  "stale_timer x n = (case x of Progress p \<Rightarrow> False | Handler h \<Rightarrow> rc_stale h (fst n))"

text \<open>A run in which no timer of a step down goes off on a node that is primary again.\<close>

definition no_stale_timer :: "NodeOp list \<Rightarrow> Node \<Rightarrow> bool" where
  "no_stale_timer = all_allowed (\<lambda>x n. \<not> stale_timer x n) node_run"

lemma all_allowed_conj:
  "all_allowed (\<lambda>x s. ok x s \<and> ok2 x s) run xs s \<longleftrightarrow> all_allowed ok run xs s \<and> all_allowed ok2 run xs s"
  by (induction xs arbitrary: s) (auto split: option.split)

section \<open>The invariant\<close>

lemma afterAwait_state: "afterAwait w g r = (s', T') \<Longrightarrow> snd r = s'"
  by (cases r) (auto simp: afterAwait_def split: AwaitResult.split_asm)

lemma progress_run_phase: "progress_run p (s, T) = Some (s', T') \<Longrightarrow> keeps_phase s s'"
  by (cases p) (auto simp: awaitReplication_def split: option.split_asm dest!: afterAwait_state
      dest: setMy_phase [OF _ keeps_phase_refl] updatePosition_phase [OF _ keeps_phase_refl] heartbeatOpTimes_phase(1) [OF _ keeps_phase_refl]
        learn_phase [OF _ keeps_phase_refl] createSnapshot_phase [OF _ keeps_phase_refl] wait_phase [OF _ keeps_phase_refl])

lemmas handler_role =
  loadLocal_role install_role initiateEnd_role performPost_role heartbeatResponse_role voteComplete_role stepDown_role freeze_role
  mode_role drainExit_role

lemmas handler_phase =
  command_phase [OF _ keeps_phase_refl] more_command_phase(2-5) [OF _ keeps_phase_refl] liveness_phase [OF _ keeps_phase_refl]
  answer_phase [OF _ keeps_phase_refl] electSelf_phase [OF _ keeps_phase_refl] updateTerm_phase [OF _ keeps_phase_refl]
  metadata_phase(1) [OF _ keeps_phase_refl] drain_phase(2) [OF _ keeps_phase_refl] slave_phase [OF _ keeps_phase_refl]

lemma rc_run_role:
  assumes "rc_run x s = Some s'" "rc_allowed x s" "role_ok strict s" "strict \<Longrightarrow> \<not> rc_stale x s"
  shows "role_ok strict s'"
proof (cases "(\<exists>p. x = Topology p) \<or> (\<exists>env. x = TimePassing env)")
  case True
  then show ?thesis using assms tc_run_lead_kept
    by (auto simp: rc_allowed_def rc_stale_def ensures_def intro!: role_topology elim!: timePassing_role)
next
  case False
  then have "keeps_phase s s' \<or> role_ok strict s'" using assms(1-3)
    by (cases x) (auto simp: rc_allowed_def more_command_phase(1) drain_phase(1) dest: handler_phase handler_role)
  then show ?thesis using keeps_phase_role [OF assms(3)] by blast
qed

lemma node_run_role:
  assumes "node_run x n = Some n'" "node_allowed x n" "role_ok strict (fst n)" "strict \<Longrightarrow> \<not> stale_timer x n"
  shows "role_ok strict (fst n')"
  using assms by (cases x; cases n; cases n')
    (auto simp: node_run_def node_allowed_def stale_timer_def intro: rc_run_role keeps_phase_role [OF _ progress_run_phase])

interpretation node: safe_machine node_allowed node_run "\<lambda>n. role_ok False (fst n)"
  by unfold_locales (rule node_run_role, auto)

interpretation timely: safe_machine "\<lambda>x n. node_allowed x n \<and> \<not> stale_timer x n" node_run "\<lambda>n. role_ok True (fst n)"
  by unfold_locales (rule node_run_role, auto)

lemma new_role_ok:
  "rs_usingReplSets settings \<Longrightarrow> role_ok strict (ReplCoord_new settings (TopologyCoordinator_new opts) durable snapshots)"
  by (simp add: role_ok_def phase_ok_def ReplCoord_new_def TopologyCoordinator_new_def)

lemma new_run_role:
  assumes "rs_usingReplSets settings"
    and "all_allowed node_allowed node_run xs (ReplCoord_new settings (TopologyCoordinator_new opts) durable snapshots, Map.empty)"
    and "foldM node_run xs (ReplCoord_new settings (TopologyCoordinator_new opts) durable snapshots, Map.empty) = Some (s, T)"
  shows "role_ok False s"
    and "no_stale_timer xs (ReplCoord_new settings (TopologyCoordinator_new opts) durable snapshots, Map.empty) \<Longrightarrow> role_ok True s"
  using node.runs_keep [OF _ assms(2,3)] timely.runs_keep [OF _ _ assms(3)] new_role_ok [OF assms(1)] assms(2)
  by (auto simp: no_stale_timer_def all_allowed_conj)

section \<open>A node on its own\<close>

text \<open>A set of one member, from the start of the process to the primary that accepts writes.\<close>

definition solo_config :: ReplSetConfig where
  "solo_config = demo_config\<lparr>c_members := [demo_member 0 27017], c_majorityVoteCount := 1, c_writeMajority := 1, c_totalVotingMembers := 1\<rparr>"

definition solo_env :: "Date \<Rightarrow> Env" where
  "solo_env now = \<lparr>e_now = now, e_randomOffset = 0, e_oid = 7, e_timestamp = \<lparr>ts_secs = 9, ts_inc = 0\<rparr>\<rparr>"

definition solo_settings :: ReplSettings where
  "solo_settings = \<lparr>rs_usingReplSets = True, rs_master = False, rs_slave = False, rs_majorityReadConcern = True\<rparr>"

definition solo_optime :: OpTime where
  "solo_optime = \<lparr>ot_timestamp = \<lparr>ts_secs = 9, ts_inc = 0\<rparr>, ot_term = -1\<rparr>"

definition solo_new :: ReplCoord where
  "solo_new = ReplCoord_new solo_settings (TopologyCoordinator_new demo_options) True True"

definition solo_run :: "NodeOp list" where
  "solo_run =
     [Handler (StartupBegin 5), Handler (StartupLoad True None None), Handler InitiateBegin, Progress (SetMyLastApplied 100 solo_optime),
      Handler (InitiateEnd (solo_env 110) (Inr (solo_config, 0))), Handler (SetFollowerMode (solo_env 120) RS_SECONDARY),
      Handler (UpdateTerm (solo_env 130) 1), Handler (Topology OpVoteForMyselfV1),
      Handler (VoteRequestComplete (solo_env 140) 1 kSuccessfullyElected []), Handler DrainBegin, Handler (DrainExit 1)]"

text \<open>It is told to step down for ten seconds, and then not to wait that long.\<close>

definition solo_again :: "NodeOp list" where
  "solo_again =
     [Handler (StepDown (solo_env 200) True True 0 10000), Handler (Freeze (solo_env 300) 0), Handler DrainBegin, Handler (DrainExit 1)]"

lemma solo_allowed: "all_allowed node_allowed node_run (solo_run @ solo_again) (solo_new, Map.empty)"
  by code_simp

lemma solo_run_allowed:
  "all_allowed node_allowed node_run solo_run (solo_new, Map.empty)" "no_stale_timer solo_run (solo_new, Map.empty)"
  by code_simp+

lemma solo_primary:
  "map_option (\<lambda>(s, T). (canAcceptWritesForDatabase False ''test'' s, rs_master (rc_settings s))) (foldM node_run solo_run (solo_new, Map.empty)) =
   Some (True, False)"
  by code_simp

lemma solo_draining:
  "map_option (\<lambda>(s, T). (rc_applierState s, rc_cachedTerm s)) (foldM node_run (butlast solo_run) (solo_new, Map.empty)) = Some (ApplierDraining, 1)"
  "all_allowed node_allowed node_run (butlast solo_run) (solo_new, Map.empty)" "no_stale_timer (butlast solo_run) (solo_new, Map.empty)"
  by code_simp+

lemma solo_new_settings: "rs_usingReplSets solo_settings"
  by (simp add: solo_settings_def)

section \<open>Properties\<close>

text \<open>
  C6: a member of a replica set accepts writes only as a primary, and one that has finished its drain. In every run of a
  node from its construction, in which the topology coordinator deposes a leader only through the handlers, a node that accepts a
  write outside the local database is in state PRIMARY and the leader in its topology coordinator. It has stopped applying
  and has no catch-up under way, unless in that run the timer of a step down went off while the node, the only member of
  its set, was primary again.
\<close>

theorem writes_only_when_drained:
  assumes "rs_usingReplSets settings"
    and "all_allowed node_allowed node_run xs (ReplCoord_new settings (TopologyCoordinator_new opts) durable snapshots, Map.empty)"
    and "foldM node_run xs (ReplCoord_new settings (TopologyCoordinator_new opts) durable snapshots, Map.empty) = Some (s, T)"
    and "canAcceptWritesForDatabase replAllDead db s" "db \<noteq> kLocalDB" "\<not> rs_master (rc_settings s)"
  shows "rc_memberState s = RS_PRIMARY \<and> t_role (rc_topCoord s) = RoleLeader \<and>
    (no_stale_timer xs (ReplCoord_new settings (TopologyCoordinator_new opts) durable snapshots, Map.empty) \<longrightarrow>
       rc_applierState s = ApplierStopped \<and> rc_catchupState s = None)"
  using new_run_role [OF assms(1-3)] assms(4-6) by (auto simp: role_ok_def phase_ok_def canAcceptWritesForDatabase_def)

theorem writes_only_when_drained_witness:
  "\<exists>s T. foldM node_run solo_run (solo_new, Map.empty) = Some (s, T) \<and> canAcceptWritesForDatabase False ''test'' s \<and>
     rc_memberState s = RS_PRIMARY \<and> t_role (rc_topCoord s) = RoleLeader \<and> rc_applierState s = ApplierStopped \<and> rc_catchupState s = None"
proof -
  obtain s T where s: "foldM node_run solo_run (solo_new, Map.empty) = Some (s, T)" "canAcceptWritesForDatabase False ''test'' s"
    "\<not> rs_master (rc_settings s)" using solo_primary by auto
  then show ?thesis
    using writes_only_when_drained [OF solo_new_settings solo_run_allowed(1) [unfolded solo_new_def] s(1) [unfolded solo_new_def] s(2) _ s(3)]
      solo_run_allowed(2) by (auto simp: kLocalDB_def solo_new_def)
qed

text \<open>
  C19: the end of the drain does not abort in a run without a stale timer. If no timer of a step down has gone off while the
  node, the only member of its set, was primary again, then the end of the drain takes effect exactly if the node still
  drains in the term the applier saw, and then the node is a primary that accepts writes; otherwise nothing changes. With such a
  timer it aborts, by the next property.
\<close>

theorem drain_never_aborts:
  assumes "rs_usingReplSets settings"
    and "all_allowed node_allowed node_run xs (ReplCoord_new settings (TopologyCoordinator_new opts) durable snapshots, Map.empty)"
    and "no_stale_timer xs (ReplCoord_new settings (TopologyCoordinator_new opts) durable snapshots, Map.empty)"
    and "foldM node_run xs (ReplCoord_new settings (TopologyCoordinator_new opts) durable snapshots, Map.empty) = Some (s, T)"
  shows "\<exists>b s'. signalDrainComplete_exit n s = Some (b, s') \<and> (b \<longleftrightarrow> rc_applierState s = ApplierDraining \<and> n = rc_cachedTerm s) \<and>
    (if b then rc_memberState s' = RS_PRIMARY \<and> rc_applierState s' = ApplierStopped \<and> rc_canAcceptNonLocalWrites s' else s' = s)"
  using new_run_role(2) [OF assms(1,2,4,3)]
  by (auto simp: role_ok_def phase_ok_def signalDrainComplete_exit_def call_def Let_def)

theorem drain_never_aborts_witness:
  "\<exists>s T s'. foldM node_run (butlast solo_run) (solo_new, Map.empty) = Some (s, T) \<and> \<not> rc_canAcceptNonLocalWrites s \<and>
     signalDrainComplete_exit 1 s = Some (True, s') \<and> rc_canAcceptNonLocalWrites s'"
proof -
  obtain s T where s: "foldM node_run (butlast solo_run) (solo_new, Map.empty) = Some (s, T)" "rc_applierState s = ApplierDraining" "rc_cachedTerm s = 1"
    using solo_draining(1) by auto
  obtain b s' where b: "signalDrainComplete_exit 1 s = Some (b, s')" "b" "rc_canAcceptNonLocalWrites s'"
    using drain_never_aborts [OF solo_new_settings solo_draining(2,3) [unfolded solo_new_def] s(1) [unfolded solo_new_def], of 1] s(2,3) by auto
  then have "\<not> rc_canAcceptNonLocalWrites s" using s(2,3) by (auto simp: signalDrainComplete_exit_def call_def Let_def split: if_split_asm)
  then show ?thesis using s(1) b by auto
qed

text \<open>What the second victory of a primary does.\<close>

lemma restartHeartbeats_frame:
  "rc_memberState (rc_restartHeartbeats env s) = rc_memberState s"
  "rc_canAcceptNonLocalWrites (rc_restartHeartbeats env s) = rc_canAcceptNonLocalWrites s"
  "rc_catchupState (rc_restartHeartbeats env s) = rc_catchupState s"
  "rc_cachedTerm (rc_restartHeartbeats env s) = rc_cachedTerm s"
  "rc_rsConfig (rc_restartHeartbeats env s) = rc_rsConfig s"
  by (simp_all add: rc_restartHeartbeats_def startHeartbeats_def cancelHeartbeats_def scheduleNextLivenessUpdate_def rc_isV1ElectionProtocol_def
      call_def Let_def split: prod.split)

lemma solo_drain:
  assumes "rc_memberState s = RS_PRIMARY" "rc_catchupState s = None" "getNumMembers (rc_rsConfig s) = 1"
  shows "\<exists>s'. CatchupState_start env (s\<lparr>rc_catchupState := Some \<lparr>cu_timeout = None, cu_waiter = None\<rparr>\<rparr>) = Some s' \<and>
    rc_applierState s' = ApplierDraining \<and> rc_memberState s' = RS_PRIMARY \<and> rc_canAcceptNonLocalWrites s' = rc_canAcceptNonLocalWrites s \<and>
    rc_cachedTerm s' = rc_cachedTerm s"
  using assms by (simp add: CatchupState_start_def CatchupState_abort_def enterDrainMode_def call_def)

lemma win_keeps_primary:
  assumes "getMemberState t = Some RS_PRIMARY" "t_followerMode t \<noteq> RS_PRIMARY"
  shows "\<exists>t1. processWinElection eid ts (t\<lparr>t_role := RoleCandidate\<rparr>) = Some t1 \<and> t_role t1 = RoleLeader \<and> getMemberState t1 = Some RS_PRIMARY"
  using assms by (auto simp: processWinElection_def setElectionInfo_def getMemberState_def roleState_def bind_eq_Some_conv Let_def split: if_split_asm)

text \<open>
  C38: the timer of a step down is not cancelled. Take any primary that is the only, electable member of its set and accepts
  writes, whose term is initialized under protocol version 1. If a timer of an earlier step down goes off on it after the
  end of that period, the node stands and wins once more and drains although it accepts writes, and the end of that drain aborts.
\<close>

theorem stale_timer_crash:
  assumes "isElectableNodeInSingleNodeReplicaSet (rc_topCoord s) = Some True" "t_stepDownUntil (rc_topCoord s) \<le> e_now env"
    and "rc_memberState s = RS_PRIMARY" "getMemberState (rc_topCoord s) = Some RS_PRIMARY"
    and "rc_rsConfig s = t_rsConfig (rc_topCoord s)" "c_protocolVersion (rc_rsConfig s) = 1 \<Longrightarrow> t_term (rc_topCoord s) \<noteq> kUninitializedTerm"
    and "rc_catchupState s = None" "rc_canAcceptNonLocalWrites s"
  shows "\<exists>s'. handleTimePassing env s = Some s' \<and> rc_canAcceptNonLocalWrites s' \<and> rc_applierState s' = ApplierDraining \<and>
    signalDrainComplete_exit (rc_cachedTerm s') s' = None"
proof -
  let ?t = "rc_topCoord s"
  let ?s = "s\<lparr>rc_topCoord := ?t\<lparr>t_role := RoleCandidate\<rparr>\<rparr>"
  have one: "getNumMembers (rc_rsConfig s) = 1" and fm: "t_followerMode ?t \<noteq> RS_PRIMARY"
    using assms(1,5) by (auto simp: isElectableNodeInSingleNodeReplicaSet_def split: if_split_asm)
  obtain eid t1 where t1: "eid = (if rc_isV1ElectionProtocol ?s then OID_fromTerm (t_term (rc_topCoord ?s)) else e_oid env)"
    "processWinElection eid (e_timestamp env) (rc_topCoord ?s) = Some t1"
    "t_role t1 = RoleLeader" "getMemberState t1 = Some RS_PRIMARY" using win_keeps_primary [OF assms(4) fm] by simp metis
  let ?s1 = "s\<lparr>rc_electionId := eid, rc_topCoord := t1\<rparr>"
  have u: "updateMemberStateFromTopologyCoordinator env ?s1 = Some (kActionNone, ?s1)"
    using t1(3,4) assms(3) by (simp add: updateMemberStateFromTopologyCoordinator_def)
  let ?s3 = "rc_restartHeartbeats env ?s1"
  have f: "rc_memberState ?s3 = RS_PRIMARY" "rc_catchupState ?s3 = None" "getNumMembers (rc_rsConfig ?s3) = 1" "rc_canAcceptNonLocalWrites ?s3"
    using assms(3,7,8) one by (simp_all add: restartHeartbeats_frame)
  obtain c where c: "CatchupState_start env (?s3\<lparr>rc_catchupState := Some \<lparr>cu_timeout = None, cu_waiter = None\<rparr>\<rparr>) = Some c"
    "rc_applierState c = ApplierDraining" "rc_memberState c = RS_PRIMARY" "rc_canAcceptNonLocalWrites c"
    using solo_drain [OF f(1-3), of env] f(4) by auto
  define s' where "s' = (if rc_isV1ElectionProtocol ?s3 then c else enterDrainMode ?s3)"
  have "winElection env ?s = Some s'"
    using assms(3,6) t1 u c(1) f(2) unfolding winElection_def s'_def
    by (cases "c_protocolVersion (rc_rsConfig s) = 1")
      (simp_all add: rc_isV1ElectionProtocol_def performSimpleAction_def restartHeartbeats_frame Let_def)
  then have "handleTimePassing env s = Some s'"
    using assms(1,2) by (simp add: handleTimePassing_def becomeCandidateIfStepdownPeriodOverAndSingleNodeSet_def
        performPostMemberStateUpdateAction_def Let_def)
  moreover have "rc_canAcceptNonLocalWrites s'" "rc_applierState s' = ApplierDraining"
    using c f(4) by (simp_all add: s'_def enterDrainMode_def call_def)
  moreover from this have "signalDrainComplete_exit (rc_cachedTerm s') s' = None"
    by (simp add: signalDrainComplete_exit_def call_def Let_def)
  ultimately show ?thesis by blast
qed

lemma solo_again_primary:
  "map_option (\<lambda>(s, T). isElectableNodeInSingleNodeReplicaSet (rc_topCoord s) = Some True \<and> t_stepDownUntil (rc_topCoord s) \<le> 10200 \<and>
      rc_memberState s = RS_PRIMARY \<and> getMemberState (rc_topCoord s) = Some RS_PRIMARY \<and> rc_rsConfig s = t_rsConfig (rc_topCoord s) \<and>
      t_term (rc_topCoord s) \<noteq> kUninitializedTerm \<and> rc_catchupState s = None \<and> rc_canAcceptNonLocalWrites s \<and>
      ScheduleTimePassing 10200 \<in> set (rc_calls s))
    (foldM node_run (solo_run @ solo_again) (solo_new, Map.empty)) = Some True"
  by code_simp

theorem stale_timer_crash_witness:
  "all_allowed node_allowed node_run (solo_run @ solo_again) (solo_new, Map.empty) \<and>
   (\<exists>s T s'. foldM node_run (solo_run @ solo_again) (solo_new, Map.empty) = Some (s, T) \<and> ScheduleTimePassing 10200 \<in> set (rc_calls s) \<and>
     rc_canAcceptNonLocalWrites s \<and> handleTimePassing (solo_env 10200) s = Some s' \<and> signalDrainComplete_exit (rc_cachedTerm s') s' = None)"
proof -
  obtain s T where s: "foldM node_run (solo_run @ solo_again) (solo_new, Map.empty) = Some (s, T)"
    "isElectableNodeInSingleNodeReplicaSet (rc_topCoord s) = Some True" "t_stepDownUntil (rc_topCoord s) \<le> 10200"
    "rc_memberState s = RS_PRIMARY" "getMemberState (rc_topCoord s) = Some RS_PRIMARY" "rc_rsConfig s = t_rsConfig (rc_topCoord s)"
    "t_term (rc_topCoord s) \<noteq> kUninitializedTerm" "rc_catchupState s = None" "rc_canAcceptNonLocalWrites s"
    "ScheduleTimePassing 10200 \<in> set (rc_calls s)"
    using solo_again_primary by auto
  have "t_stepDownUntil (rc_topCoord s) \<le> e_now (solo_env 10200)" using s(3) by (simp add: solo_env_def)
  from stale_timer_crash [OF s(2) this s(4-7) s(8,9)] show ?thesis using solo_allowed s(1,9,10) by blast
qed

end
