(* ===== verification/Spec2Isabelle.thy ===== *)
theory Spec2Isabelle
  imports DeadlockDetector HostAndPort ReplSetTag ConfigChecks TopologyProps ElectionSafety ElectionAlgorithms
    QuorumChecker ReplElectV0 ReplProgressProps ReplRoleProps
begin

text \<open>
  A model of parts of the MongoDB server, release 3.4.21 (\<^verbatim>\<open>src/mongodb-org-r3.4.21/src/mongo\<close>), and
  proofs of what makes them correct. Two subsystems are covered: the lock manager
  (\<^verbatim>\<open>db/concurrency\<close>), which every operation of the server goes through, and the coordination of
  replica sets (\<^verbatim>\<open>db/repl\<close>): their configuration, topology, elections, the progress of
  replication with the commit point, and the state of a member. Paths below are relative to that directory.

  \<^bold>\<open>Conventions.\<close> A C++ function that may run into \<open>invariant\<close>, \<open>fassert\<close> or an
  index out of range returns an \<open>option\<close>, where \<open>None\<close> is the abort of the process;
  \<open>ensure\<close> (Prelude) is the model of \<open>invariant\<close>. A \<open>Status\<close> is an \<open>ErrorCode option\<close>, with
  \<open>StatusOK\<close> for success, a \<open>StatusWith\<close> a sum with the error on the left; the texts of
  messages are left out unless another function reads them. A method that changes its object
  takes the record of its state last and returns the new one. Timestamps and bit masks are words of
  their width; C++ \<open>int\<close> and \<open>long long\<close> are \<open>int\<close>, with the wrap written out (\<open>int32\<close>) where a sum of
  foreign numbers may overflow. Doubles occur as priorities only and are compared, never added:
  \<open>Double\<close> is a rational number, an infinity or NaN. Dates are integers of milliseconds.

  \<^bold>\<open>Lock manager\<close> (\<^verbatim>\<open>db/concurrency/lock_manager.cpp\<close>, \<^verbatim>\<open>lock_manager_defs.h\<close>).
  \<^item> LockDefs: modes, the conflict table, resource ids, requests.
  \<^item> LockHead: one lock head with its granted list, conflict queue, counts and modes; granting and
    queueing. LockHeadInv: its invariant and that every operation keeps it.
  \<^item> LockManager: buckets, partitions, \<open>lock\<close>, \<open>convert\<close>, \<open>unlock\<close>, \<open>downgrade\<close>, the migration of
    partitioned lock heads, \<open>cleanupUnusedLocks\<close>.
  \<^item> LockManagerInv, LockManagerOps, LockManagerRelease: the invariant over all lock heads and
    partitions, and its preservation by each operation.
  \<^item> LockStateMachine: the step relation of the lock manager, reachability, and the properties:
    mutual exclusion of conflicting modes, no waiter without a holder, the outcome of every operation.
    A request is owned by one thread, so the requests of a step are those its locker may make.
  \<^item> DeadlockDetector: the search of the wait-for graph, which ends and finds exactly the cycles through
    the locker it starts from.

  \<^bold>\<open>Configuration of a replica set.\<close>
  \<^item> HostAndPort: addresses and the parsing of numbers (\<^verbatim>\<open>util/net/hostandport.cpp\<close>,
    \<^verbatim>\<open>base/parse_number.cpp\<close>); parse after print.
  \<^item> ReplTypes: optimes, terms, member states, error codes.
  \<^item> ReplSetTag: tags and tag patterns (\<^verbatim>\<open>repl_set_tag.cpp\<close>); the incremental matcher is equivalent
    to counting distinct values.
  \<^item> ReplSetConfig, ConfigChecks: members and configurations (\<^verbatim>\<open>member_config.cpp\<close>,
    \<^verbatim>\<open>repl_set_config.cpp\<close>, \<^verbatim>\<open>repl_set_config_checks.cpp\<close>); majorities, write concerns, what an accepted
    reconfiguration may change.

  \<^bold>\<open>Topology coordinator\<close> (\<^verbatim>\<open>topology_coordinator_impl.cpp\<close>): the state of a replica set as one
  node sees it, changed under one mutex.
  \<^item> HeartbeatData, TopologyState: the data kept per member and per node.
  \<^item> TopologyVotes: electability, vetoes, votes of both protocol versions, terms.
  \<^item> TopologySync: the choice of a sync source. TopologyRole: roles, candidacy, stepping down, member
    states, reconfiguration. TopologyHeartbeat: heartbeats, requests and responses, and the primary they
    determine.
  \<^item> TopologyInv, TopologySteps: the invariant \<open>tc_ok\<close> and one lemma per operation: it returns, and keeps
    the invariant. TopologyMachine: the operations as a state machine, with the obligations
    of its callers (\<open>tc_allowed\<close>). TopologyTerms: what the operations leave alone, as the locale
    \<open>topology_frame\<close> of relations between the states before and after, interpreted by the term with the last
    vote (\<open>term_frame\<close>) and by the leadership (\<open>lead_frame\<close>).
  \<^item> TopologyProps: the properties of reachable states.

  \<^bold>\<open>Elections.\<close>
  \<^item> ScatterGather: \<^verbatim>\<open>scatter_gather_runner.cpp\<close>, with the contract of its algorithms as the locale
    \<open>scatter_gather_algorithm\<close>: a run never aborts and ends at the latest when everybody has
    answered. VoteRequester (\<^verbatim>\<open>vote_requester.cpp\<close>), ElectionAlgorithms (\<^verbatim>\<open>freshness_checker.cpp\<close>,
    \<^verbatim>\<open>elect_cmd_runner.cpp\<close>) and QuorumChecker (\<^verbatim>\<open>check_quorum_for_config_change.cpp\<close>) interpret it.
  \<^item> ReplElectV1, ReplElectV0: the phases of an election in the replication coordinator
    (\<^verbatim>\<open>replication_coordinator_impl_elect_v1.cpp\<close>, \<^verbatim>\<open>replication_coordinator_impl_elect.cpp\<close>), the handling of
    vote requests, the durable last vote and its loading at startup.
  \<^item> ElectionSafety: a voter with its stored vote, as a state machine that may crash between any two
    steps; it casts one vote per term, and by the intersection of majorities a term has one
    primary. Its step for a vote request is the handler of every node but a leader (\<open>handler_steps\<close>): a request of a newer
    term comes after the update of the term. A leader answers it before it has stepped down and keeps its old term,
    and \<open>leader_votes_twice\<close> shows, for any leader, that it then grants two votes in one term.

  \<^bold>\<open>Replication coordinator\<close> (\<^verbatim>\<open>replication_coordinator_impl.cpp\<close>,
  \<^verbatim>\<open>replication_coordinator_impl_heartbeat.cpp\<close>): progress of the members, commit point, waiters, member
  state. The record \<open>ReplCoord\<close> holds the fields of the class with the topology coordinator in it; calls to the
  executor, to the storage interface and to waiting threads are recorded in order (\<open>ExternalCall\<close>), timers
  as the date and owner they are set to.
  \<^item> ReplProgress: \<open>SlaveInfo\<close>, own and remote optimes, the commit point, snapshots, the lists of waiters
    and waking them, write concerns, catch-up and drain of a new primary. ReplReports: what other members
    report (\<open>replSetUpdatePosition\<close>, old and new form, handshakes, heartbeats).
  \<^item> ReplOrder: the order of optimes. ReplProgressInv: the invariant of commit point, snapshots and waiters, and
    its preservation. ReplWriteConcern: \<open>doneWaitingForReplication\<close> against a specification that counts the
    members that have an optime. ReplProgressOps: the operations on progress, each keeping the invariant.
  \<^item> ReplProgressMachine: these operations as events of one machine (\<open>progress_run\<close>), with the obligations
    of their callers (\<open>progress_allowed\<close>), and the waiting threads. Dropping the snapshots, which a reconfiguration may do, is excluded
    between the notification of a thread and its run. ReplProgressProps: the properties.
  \<^item> ReplState: the step from the topology coordinator to the member state and the actions after
    it (\<open>updateMemberStateFromTopologyCoordinator\<close>, \<open>performPostMemberStateUpdateAction\<close>), reads and writes
    a member accepts. ReplHandlers: heartbeat responses, liveness, step down, maintenance mode, drain, freezing,
    reconfiguration, shutdown. ReplCommands: construction, startup, \<open>replSetInitiate\<close>, \<open>replSetReconfig\<close>,
    answers to heartbeats, \<open>isMaster\<close>, metadata. A function that gives up the mutex or waits is split there, one
    definition per part (\<open>_begin\<close>, \<open>_check\<close>, \<open>_end\<close>, \<open>_resume\<close>).
  \<^item> ReplPhase, ReplRole: the invariant \<open>role_ok\<close> of member state, applier, catch-up, the flag for writes and the role
    in the topology coordinator, and that every handler keeps it. ReplRoleProps: all handlers, the operations on
    progress and the calls of the topology coordinator as one machine (\<open>node_run\<close>) that starts with the constructor. The locale
    \<open>safe_machine\<close> carries the invariant along its runs; \<open>total_machine\<close>, whose operations always return, is a sublocale
    of it. The invariant has two forms. The weak one, that only a primary, which leads in its topology coordinator, accepts writes,
    drains or catches up, holds in all runs. The strict one, that a primary accepts writes exactly if it has drained, holds in runs in which the
    timer of a step down never goes off on a node that is primary again and the only electable member of its set (\<open>no_stale_timer\<close>); so do
    the properties on the end of the drain. \<open>stale_timer_crash\<close> shows for any such primary that the timer makes it drain while it accepts
    writes, and that the end of this drain aborts. The machine calls the operations of the topology coordinator that may depose a
    leader through the handlers only, as the code does.

  \<^bold>\<open>Parameters and bounds.\<close> The network check \<open>isSelf\<close>, the clock, random numbers and the outcome of
  storing a vote are arguments of the definitions. No definition uses fuel: the loops of the source run over the
  members, the lock queues or the characters of a string, and are structural recursions. The counts of a lock head
  (\<open>grantedCounts\<close>, \<open>conflictCounts\<close>) and of a request (\<open>recursiveCount\<close>) are natural numbers, so their wrap after \<open>2 ^ 32\<close> requests is
  outside the model. The phases of an election take the configuration state as the fact that it is steady, and the
  \<open>fassert\<close>s on states that are impossible there stand in their callers; that a helper object such as
  \<open>_freshnessChecker\<close> exists while its phase runs is the order of the phases.

  \<^bold>\<open>Not modelled.\<close> The conversion of configurations and messages from and to BSON, reports for people
  (\<open>prepareStatusResponse\<close>, the dump of the lock manager), the executor itself and the threads it runs (its timers
  are recorded dates, its callbacks are definitions), the fetching and applying of the oplog with initial sync,
  rollback and resync, lockers above the lock manager, and all other subsystems of the server: storage engines,
  queries, sharding, authorization, the wire protocol, the shell.
\<close>

end
